(* ===== verification/Prelude.thy ===== *)
theory Prelude
  imports Main "HOL-Library.Word" "HOL-Library.Sublist"
begin

text \<open>
  What every theory of the development shares: results with error values, the part of Rust's
  \<open>str\<close> and \<open>char\<close> library the sources call, decimal printing and parsing of integers, and the
  lemmas about them that the component proofs use.

  A Rust string is a HOL \<open>string\<close>. The character classes are those of ASCII, so the model is
  exact on text whose characters are below U+0080; the Unicode tables beyond that range are not
  modelled, and a character outside it is left alone by every case mapping and belongs to no class.
\<close>

named_theorems str_simps \<open>rewrite rules for the string library\<close>
named_theorems result_simps \<open>rewrite rules for results\<close>

section \<open>Results\<close>

text \<open>\<open>Result<T, E>\<close> is a sum with the error on the left; \<open>rbind\<close> is the \<open>?\<close> operator.\<close>

fun rbind :: "'e + 'a \<Rightarrow> ('a \<Rightarrow> 'e + 'b) \<Rightarrow> 'e + 'b" where
  "rbind (Inl e) f = Inl e"
| "rbind (Inr x) f = f x"

lemma rbind_Inr_iff [result_simps]: "rbind x f = Inr y \<longleftrightarrow> (\<exists>z. x = Inr z \<and> f z = Inr y)"
  by (cases x) auto

lemma rbind_Inl_iff [result_simps]:
  "rbind x f = Inl e \<longleftrightarrow> x = Inl e \<or> (\<exists>z. x = Inr z \<and> f z = Inl e)"
  by (cases x) auto

lemma rbind_assoc: "rbind (rbind x f) g = rbind x (\<lambda>y. rbind (f y) g)"
  by (cases x) auto

fun is_ok :: "'e + 'a \<Rightarrow> bool" where
  "is_ok (Inl _) = False"
| "is_ok (Inr _) = True"

lemma is_ok_iff: "is_ok r \<longleftrightarrow> (\<exists>x. r = Inr x)"
  by (cases r) auto

lemma not_is_ok_iff: "\<not> is_ok r \<longleftrightarrow> (\<exists>e. r = Inl e)"
  by (cases r) auto

fun map_err :: "('e \<Rightarrow> 'f) \<Rightarrow> 'e + 'a \<Rightarrow> 'f + 'a" where
  "map_err f (Inl e) = Inl (f e)"
| "map_err f (Inr x) = Inr x"

lemma map_err_Inr_iff [result_simps]: "map_err f r = Inr x \<longleftrightarrow> r = Inr x"
  by (cases r) auto

lemma map_err_Inl_iff [result_simps]: "map_err f r = Inl e \<longleftrightarrow> (\<exists>e'. r = Inl e' \<and> e = f e')"
  by (cases r) auto

text \<open>\<open>rows.into_iter().map(..).collect()\<close> of results: the first error, or all values.\<close>

fun collect_rows :: "('r \<Rightarrow> 'e + 'a) \<Rightarrow> 'r list \<Rightarrow> 'e + 'a list" where
  "collect_rows f [] = Inr []"
| "collect_rows f (r # rs) = rbind (f r) (\<lambda>x. rbind (collect_rows f rs) (\<lambda>xs. Inr (x # xs)))"

lemma collect_rows_ok:
  "\<forall>r \<in> set rs. \<exists>x. f r = Inr x \<and> P r x \<Longrightarrow> \<exists>xs. collect_rows f rs = Inr xs \<and> list_all2 P rs xs"
  by (induction rs) auto

lemma collect_rows_map:
  "collect_rows f rs = Inr xs \<Longrightarrow> (\<And>r x. f r = Inr x \<Longrightarrow> g x = h r) \<Longrightarrow> map g xs = map h rs"
  by (induction rs arbitrary: xs) (auto simp: result_simps)

section \<open>Characters\<close>

definition code :: "char \<Rightarrow> nat" where
  "code c = of_char c"

definition is_digit :: "char \<Rightarrow> bool" where
  "is_digit c \<longleftrightarrow> 48 \<le> code c \<and> code c \<le> 57"

definition is_upper :: "char \<Rightarrow> bool" where
  "is_upper c \<longleftrightarrow> 65 \<le> code c \<and> code c \<le> 90"

definition is_lower :: "char \<Rightarrow> bool" where
  "is_lower c \<longleftrightarrow> 97 \<le> code c \<and> code c \<le> 122"

definition is_alpha :: "char \<Rightarrow> bool" where
  "is_alpha c \<longleftrightarrow> is_upper c \<or> is_lower c"

definition is_alnum :: "char \<Rightarrow> bool" where
  "is_alnum c \<longleftrightarrow> is_alpha c \<or> is_digit c"

definition is_ws :: "char \<Rightarrow> bool" where
  "is_ws c \<longleftrightarrow> code c = 32 \<or> (9 \<le> code c \<and> code c \<le> 13)"

definition is_control :: "char \<Rightarrow> bool" where
  "is_control c \<longleftrightarrow> code c < 32 \<or> code c = 127"

definition to_lower :: "char \<Rightarrow> char" where
  "to_lower c = (if is_upper c then char_of (code c + 32) else c)"

definition to_upper :: "char \<Rightarrow> char" where
  "to_upper c = (if is_lower c then char_of (code c - 32) else c)"

lemmas char_class_defs =
  is_digit_def is_upper_def is_lower_def is_alpha_def is_alnum_def is_ws_def is_control_def

lemma code_less: "code c < 256"
  by (simp add: code_def)

lemma code_char_of [simp]: "n < 256 \<Longrightarrow> code (char_of n) = n"
  by (simp add: code_def)

lemma code_eq_iff: "code c = code d \<longleftrightarrow> c = d"
  by (simp add: code_def)

lemma code_to_lower: "code (to_lower c) = (if is_upper c then code c + 32 else code c)"
  by (auto simp: to_lower_def is_upper_def)

lemma code_to_upper: "code (to_upper c) = (if is_lower c then code c - 32 else code c)"
  by (auto simp: to_upper_def is_lower_def)

lemma upper_to_lower [simp, str_simps]: "\<not> is_upper (to_lower c)"
  using code_less [of c] by (auto simp: is_upper_def code_to_lower)

lemma alnum_to_lower [simp, str_simps]: "is_alnum (to_lower c) = is_alnum c"
  by (auto simp: char_class_defs code_to_lower)

lemma digit_to_lower [simp, str_simps]: "is_digit (to_lower c) = is_digit c"
  by (auto simp: char_class_defs code_to_lower)

lemma alnum_to_upper [simp, str_simps]: "is_alnum (to_upper c) = is_alnum c"
  by (auto simp: char_class_defs code_to_upper)

lemma to_lower_id [simp, str_simps]: "\<not> is_upper c \<Longrightarrow> to_lower c = c"
  by (simp add: to_lower_def)

lemma to_lower_idem [simp, str_simps]: "to_lower (to_lower c) = to_lower c"
  by simp

lemma to_lower_upper [simp, str_simps]: "to_lower (to_upper c) = to_lower c"
  by (simp add: code_eq_iff [symmetric] code_to_lower code_to_upper)
    (auto simp: char_class_defs code_to_upper)

lemma to_upper_lower [simp, str_simps]: "to_upper (to_lower c) = to_upper c"
  by (simp add: code_eq_iff [symmetric] code_to_lower code_to_upper)
    (auto simp: char_class_defs code_to_lower)

lemma to_upper_idem [simp, str_simps]: "to_upper (to_upper c) = to_upper c"
  by (simp add: code_eq_iff [symmetric] code_to_upper)
    (auto simp: char_class_defs code_to_upper)

lemma alnum_not_ws: "is_alnum c \<Longrightarrow> \<not> is_ws c"
  by (auto simp: char_class_defs)

section \<open>Strings\<close>

definition lowercase :: "string \<Rightarrow> string" where
  "lowercase s = map to_lower s"

definition uppercase :: "string \<Rightarrow> string" where
  "uppercase s = map to_upper s"

definition trim_end_by :: "(char \<Rightarrow> bool) \<Rightarrow> string \<Rightarrow> string" where
  "trim_end_by P s = rev (dropWhile P (rev s))"

definition trim_by :: "(char \<Rightarrow> bool) \<Rightarrow> string \<Rightarrow> string" where
  "trim_by P s = trim_end_by P (dropWhile P s)"

definition trim :: "string \<Rightarrow> string" where
  "trim s = trim_by is_ws s"

definition ends_with :: "string \<Rightarrow> char \<Rightarrow> bool" where
  "ends_with s c \<longleftrightarrow> s \<noteq> [] \<and> last s = c"

fun split_on :: "char \<Rightarrow> string \<Rightarrow> string list" where
  "split_on c [] = [[]]"
| "split_on c (x # xs) =
     (if x = c then [] # split_on c xs
      else (case split_on c xs of [] \<Rightarrow> [[x]] | w # ws \<Rightarrow> (x # w) # ws))"

fun join_with :: "string \<Rightarrow> string list \<Rightarrow> string" where
  "join_with sep [] = []"
| "join_with sep [w] = w"
| "join_with sep (w # ws) = w @ sep @ join_with sep ws"

definition replace_char :: "char \<Rightarrow> char \<Rightarrow> string \<Rightarrow> string" where
  "replace_char a b s = map (\<lambda>c. if c = a then b else c) s"

lemma trim_end_by_Nil [simp, str_simps]: "trim_end_by P [] = []"
  by (simp add: trim_end_by_def)

lemma trim_by_Nil [simp, str_simps]: "trim_by P [] = []"
  by (simp add: trim_by_def)

lemma trim_Nil [simp, str_simps]: "trim [] = []"
  by (simp add: trim_def)

lemma trim_end_by_eq_Nil: "trim_end_by P s = [] \<longleftrightarrow> (\<forall>c \<in> set s. P c)"
  by (auto simp: trim_end_by_def dropWhile_eq_Nil_conv)

lemma trim_end_by_prefix: "\<exists>t. s = trim_end_by P s @ t \<and> (\<forall>c \<in> set t. P c)"
proof -
  have "rev s = takeWhile P (rev s) @ dropWhile P (rev s)" by simp
  then have "s = rev (dropWhile P (rev s)) @ rev (takeWhile P (rev s))"
    by (metis rev_append rev_rev_ident)
  then show ?thesis
    by (metis trim_end_by_def set_rev set_takeWhileD)
qed

lemma set_trim_end_by: "set (trim_end_by P s) \<subseteq> set s"
  by (metis Un_upper1 set_append trim_end_by_prefix)

lemma set_dropWhile_sub: "set (dropWhile P s) \<subseteq> set s"
  using set_dropWhileD by fast

lemma set_trim_by: "set (trim_by P s) \<subseteq> set s"
  using set_trim_end_by set_dropWhile_sub by (fastforce simp: trim_by_def)

lemma trim_end_by_last: "trim_end_by P s \<noteq> [] \<Longrightarrow> \<not> P (last (trim_end_by P s))"
  using hd_dropWhile [of P "rev s"] by (simp add: trim_end_by_def last_rev)

lemma trim_end_by_id: "s = [] \<or> \<not> P (last s) \<Longrightarrow> trim_end_by P s = s"
  by (cases s rule: rev_cases) (auto simp: trim_end_by_def)

lemma trim_by_eq_Nil: "trim_by P s = [] \<longleftrightarrow> (\<forall>c \<in> set s. P c)"
  by (metis dropWhile_eq_Nil_conv hd_dropWhile hd_in_set trim_by_def trim_end_by_Nil
      trim_end_by_eq_Nil)

lemma trim_end_by_hd: "s \<noteq> [] \<Longrightarrow> trim_end_by P s \<noteq> [] \<Longrightarrow> hd (trim_end_by P s) = hd s"
  by (metis hd_append2 trim_end_by_prefix)

lemma trim_by_hd: "trim_by P s \<noteq> [] \<Longrightarrow> \<not> P (hd (trim_by P s))"
  by (metis hd_dropWhile trim_by_def trim_end_by_Nil trim_end_by_hd)

lemma trim_by_last: "trim_by P s \<noteq> [] \<Longrightarrow> \<not> P (last (trim_by P s))"
  by (simp add: trim_by_def trim_end_by_last)

lemma trim_by_id: "s = [] \<or> (\<not> P (hd s) \<and> \<not> P (last s)) \<Longrightarrow> trim_by P s = s"
  by (cases s) (auto simp: trim_by_def trim_end_by_id)

lemma trim_by_idem [simp, str_simps]: "trim_by P (trim_by P s) = trim_by P s"
  by (metis trim_by_hd trim_by_id trim_by_last)

lemma trim_idem [simp, str_simps]: "trim (trim s) = trim s"
  by (simp add: trim_def)

lemma set_trim: "set (trim s) \<subseteq> set s"
  by (simp add: trim_def set_trim_by)

lemma trim_id: "s = [] \<or> (\<not> is_ws (hd s) \<and> \<not> is_ws (last s)) \<Longrightarrow> trim s = s"
  by (simp add: trim_def trim_by_id)

lemma trim_eq_Nil: "trim s = [] \<longleftrightarrow> (\<forall>c \<in> set s. is_ws c)"
  by (simp add: trim_def trim_by_eq_Nil)

lemma split_on_not_Nil [simp, str_simps]: "split_on c s \<noteq> []"
  by (induction s) (auto split: list.splits)

lemma split_on_no_sep: "w \<in> set (split_on c s) \<Longrightarrow> c \<notin> set w"
  by (induction s arbitrary: w) (auto split: list.splits if_splits)

lemma split_on_chars: "w \<in> set (split_on c s) \<Longrightarrow> set w \<subseteq> set s"
  by (induction s arbitrary: w) (fastforce split: list.splits if_splits)+

lemma split_on_absent: "c \<notin> set s \<Longrightarrow> split_on c s = [s]"
  by (induction s) auto

lemma split_on_append: "c \<notin> set w \<Longrightarrow> split_on c (w @ c # s) = w # split_on c s"
  by (induction w) auto

lemma join_split_on: "join_with [c] (split_on c s) = s"
proof (induction s)
  case (Cons x xs)
  then show ?case
    by (cases "split_on c xs"; cases "tl (split_on c xs)") auto
qed simp

lemma split_on_join:
  "ws \<noteq> [] \<Longrightarrow> \<forall>w \<in> set ws. c \<notin> set w \<Longrightarrow> split_on c (join_with [c] ws) = ws"
proof (induction ws)
  case (Cons w ws)
  then show ?case by (cases ws) (auto simp: split_on_absent split_on_append)
qed simp

lemma takeWhile_up_to [simp, str_simps]: "c \<notin> set w \<Longrightarrow> takeWhile (\<lambda>x. x \<noteq> c) (w @ c # r) = w"
  by (induction w) auto

lemma hd_split_on: "hd (split_on c s) = takeWhile (\<lambda>x. x \<noteq> c) s"
  by (induction s) (auto split: list.splits)

section \<open>Decimal numbers\<close>

definition digit_char :: "nat \<Rightarrow> char" where
  "digit_char d = char_of (48 + d)"

fun show_nat :: "nat \<Rightarrow> string" where
  "show_nat n = (if n < 10 then [digit_char n] else show_nat (n div 10) @ [digit_char (n mod 10)])"

declare show_nat.simps [simp del]

definition read_digits :: "string \<Rightarrow> nat" where
  "read_digits s = foldl (\<lambda>n c. 10 * n + (code c - 48)) 0 s"

lemma code_digit_char [simp]: "d < 10 \<Longrightarrow> code (digit_char d) = 48 + d"
  by (simp add: digit_char_def)

lemma is_digit_digit_char [simp]: "d < 10 \<Longrightarrow> is_digit (digit_char d)"
  by (simp add: is_digit_def)

lemma show_nat_digits: "\<forall>c \<in> set (show_nat n). is_digit c"
  by (induction n rule: show_nat.induct) (subst show_nat.simps, auto)

lemma show_nat_not_Nil [simp]: "show_nat n \<noteq> []"
  by (subst show_nat.simps) simp

lemma read_show_nat [simp]: "read_digits (show_nat n) = n"
proof (induction n rule: show_nat.induct)
  case (1 n)
  then show ?case
    by (subst show_nat.simps) (auto simp: read_digits_def)
qed

lemma show_nat_inj [simp]: "show_nat m = show_nat n \<longleftrightarrow> m = n"
  by (metis read_show_nat)

end
