(* ===== verification/Tokenizer.thy ===== *)
theory Tokenizer
  imports Prelude
begin

text \<open>
  The template tokenizer, \<open>crates/autoflow-domain/src/tokenizer/mod.rs\<close>: pipelines of segments,
  the context tokens read, the transforms and the evaluator. Two things the code takes from
  elsewhere are parameters: the \<open>regex\<close> crate (the record \<open>regex_engine\<close>: \<open>replace_all\<close> and
  \<open>find\<close> of a pattern) and chrono's formatting of the context's clock (the field \<open>tc_now_format\<close>,
  the string \<open>now.format(p)\<close> gives for the pattern \<open>p\<close>).
\<close>

section \<open>Data\<close>

datatype template_segment =
    Literal string
  | Token string
  | Transform string
  | RegexPreset string

record template_pipeline =
  segments :: "template_segment list"

record token_context =
  tc_original :: string
  tc_stem :: string
  tc_ext :: string
  tc_parent :: string
  tc_grandparent :: string
  tc_now_format :: "string \<Rightarrow> string"
  tc_counter :: "64 word"
  tc_counter_formatted :: string
  tc_guid :: string
  tc_index :: "64 word"
  tc_variables :: "string \<rightharpoonup> string"

datatype token_error =
    UnknownToken string
  | UnknownTransform string
  | UnknownRegexPreset string
  | InvalidTransform string
  | RegexError string

record regex_engine =
  re_replace_all :: "string \<Rightarrow> string \<Rightarrow> string \<Rightarrow> string"
  re_find :: "string \<Rightarrow> string \<Rightarrow> string option"

abbreviation bslash :: char where
  "bslash \<equiv> CHR 0x5C"

section \<open>Identifiers\<close>

definition normalize_step :: "string \<times> bool \<Rightarrow> char \<Rightarrow> string \<times> bool" where
  "normalize_step st ch =
     (let out = fst st; previous_was_separator = snd st in
      if is_alnum ch then
        (let out' = (if is_upper ch \<and> \<not> previous_was_separator \<and> \<not> ends_with out (CHR ''_'')
                     then out @ ''_'' else out)
         in (out' @ [to_lower ch], False))
      else if ch = CHR ''_'' \<or> ch = CHR ''-'' \<or> is_ws ch then
        (if out \<noteq> [] \<and> \<not> ends_with out (CHR ''_'') then out @ ''_'' else out, True)
      else (out, previous_was_separator))"

definition normalize_identifier :: "string \<Rightarrow> string" where
  "normalize_identifier name =
     trim_by (\<lambda>c. c = CHR ''_'') (fst (foldl normalize_step ([], True) (trim name)))"

section \<open>Transform invocations\<close>

record transform_invocation =
  ti_raw :: string
  ti_name :: string
  ti_args :: "string list"

definition parse_invocation :: "string \<Rightarrow> token_error + transform_invocation" where
  "parse_invocation raw =
     (let trimmed = trim raw in
      if trimmed = [] then Inl (InvalidTransform ''empty transform'')
      else if CHR ''('' \<in> set trimmed then
        (if \<not> ends_with trimmed (CHR '')'') then Inl (InvalidTransform trimmed)
         else
           (let name = trim (takeWhile (\<lambda>c. c \<noteq> CHR ''('') trimmed);
                inner = butlast (tl (dropWhile (\<lambda>c. c \<noteq> CHR ''('') trimmed))
            in Inr \<lparr>ti_raw = trimmed, ti_name = normalize_identifier name,
                    ti_args = filter (\<lambda>a. a \<noteq> []) (map trim (split_on (CHR '','') inner))\<rparr>))
      else Inr \<lparr>ti_raw = trimmed, ti_name = normalize_identifier trimmed, ti_args = []\<rparr>)"

definition require_no_args :: "transform_invocation \<Rightarrow> token_error + unit" where
  "require_no_args ti =
     (if ti_args ti = [] then Inr ()
      else Inl (InvalidTransform (ti_raw ti @ '' does not accept arguments'')))"

datatype direction = Start | End

definition require_arg_range :: "transform_invocation \<Rightarrow> nat \<Rightarrow> nat \<Rightarrow> token_error + unit" where
  "require_arg_range ti lo hi =
     (let len = length (ti_args ti) in
      if len < lo \<or> len > hi
      then Inl (InvalidTransform (ti_raw ti @ '' expects '' @ show_nat lo @ '' argument(s)''))
      else Inr ())"

text \<open>\<open>str::parse::<usize>\<close> on a 64-bit target: an optional plus sign, at least one digit, no overflow.\<close>

definition parse_usize :: "string \<Rightarrow> nat option" where
  "parse_usize s =
     (let ds = (case s of c # cs \<Rightarrow> if c = CHR ''+'' then cs else s | [] \<Rightarrow> s) in
      if ds \<noteq> [] \<and> list_all is_digit ds \<and> read_digits ds < 2 ^ 64
      then Some (read_digits ds) else None)"

definition parse_usize_arg :: "transform_invocation \<Rightarrow> nat \<Rightarrow> token_error + nat" where
  "parse_usize_arg ti index =
     (if index < length (ti_args ti) then
        (case parse_usize (ti_args ti ! index) of
           Some n \<Rightarrow> Inr n
         | None \<Rightarrow> Inl (InvalidTransform (ti_raw ti)))
      else Inl (InvalidTransform (ti_raw ti)))"

definition parse_direction_arg :: "string option \<Rightarrow> token_error + direction" where
  "parse_direction_arg arg =
     (case arg of
        None \<Rightarrow> Inr Start
      | Some a \<Rightarrow>
          (let n = normalize_identifier a in
           if n \<in> {''start'', ''from_start'', ''left'', ''front'', ''begin'', ''beginning''}
           then Inr Start
           else if n \<in> {''end'', ''from_end'', ''right'', ''back'', ''last''} then Inr End
           else Inl (InvalidTransform (''unknown direction: '' @ a))))"

definition second_arg :: "transform_invocation \<Rightarrow> string option" where
  "second_arg ti = (case ti_args ti of _ # d # _ \<Rightarrow> Some d | _ \<Rightarrow> None)"

definition take_chars :: "string \<Rightarrow> transform_invocation \<Rightarrow> token_error + string" where
  "take_chars input ti =
     rbind (require_arg_range ti 1 2) (\<lambda>_.
     rbind (parse_usize_arg ti 0) (\<lambda>count.
     rbind (parse_direction_arg (second_arg ti)) (\<lambda>d.
       Inr (case d of
              Start \<Rightarrow> take count input
            | End \<Rightarrow> drop (length input - count) input))))"

definition skip_chars :: "string \<Rightarrow> transform_invocation \<Rightarrow> token_error + string" where
  "skip_chars input ti =
     rbind (require_arg_range ti 1 2) (\<lambda>_.
     rbind (parse_usize_arg ti 0) (\<lambda>count.
     rbind (parse_direction_arg (second_arg ti)) (\<lambda>d.
       Inr (case d of
              Start \<Rightarrow> drop count input
            | End \<Rightarrow> take (length input - count) input))))"

definition slice_chars :: "string \<Rightarrow> transform_invocation \<Rightarrow> token_error + string" where
  "slice_chars input ti =
     rbind (require_arg_range ti 2 2) (\<lambda>_.
     rbind (parse_usize_arg ti 0) (\<lambda>start.
     rbind (parse_usize_arg ti 1) (\<lambda>stop.
       Inr (if start \<ge> stop then [] else take (stop - start) (drop start input)))))"

section \<open>Case transforms\<close>

definition capitalized :: "string \<Rightarrow> string" where
  "capitalized input =
     (case lowercase input of [] \<Rightarrow> [] | first # chars \<Rightarrow> to_upper first # chars)"

fun title_from :: "bool \<Rightarrow> string \<Rightarrow> string" where
  "title_from next_is_word_start [] = []"
| "title_from next_is_word_start (ch # rest) =
     (if is_alnum ch then
        (if next_is_word_start then to_upper ch else ch) # title_from False rest
      else if ch = CHR 0x27 then ch # title_from next_is_word_start rest
      else ch # title_from True rest)"

definition title_case :: "string \<Rightarrow> string" where
  "title_case input = title_from True (lowercase input)"

text \<open>
  \<open>words_for_case\<close> walks the characters with the previous one at hand (\<open>chars.get(index - 1)\<close>)
  and the next one (\<open>chars.get(index + 1)\<close>, the head of what is left); \<open>current\<close> is the word being
  built and \<open>words\<close> the finished ones.
\<close>

definition starts_new_word :: "char option \<Rightarrow> char \<Rightarrow> string \<Rightarrow> string \<Rightarrow> bool" where
  "starts_new_word previous ch rest current \<longleftrightarrow>
     is_upper ch \<and> current \<noteq> [] \<and>
     ((case previous of Some p \<Rightarrow> is_lower p \<or> is_digit p | None \<Rightarrow> False) \<or>
      (case previous of Some p \<Rightarrow> is_upper p | None \<Rightarrow> False) \<and>
      (case rest of n # _ \<Rightarrow> is_lower n | [] \<Rightarrow> False))"

fun words_from :: "char option \<Rightarrow> string \<Rightarrow> string list \<Rightarrow> string \<Rightarrow> string list" where
  "words_from previous current words [] = (if current \<noteq> [] then words @ [current] else words)"
| "words_from previous current words (ch # rest) =
     (if is_alnum ch then
        (if starts_new_word previous ch rest current
         then words_from (Some ch) [to_lower ch] (words @ [current]) rest
         else words_from (Some ch) (current @ [to_lower ch]) words rest)
      else if current \<noteq> [] then words_from (Some ch) [] (words @ [current]) rest
      else words_from (Some ch) [] words rest)"

definition words_for_case :: "string \<Rightarrow> string list" where
  "words_for_case input = words_from None [] [] input"

definition to_snake :: "string \<Rightarrow> string" where
  "to_snake input = join_with ''_'' (words_for_case input)"

definition to_camel :: "string \<Rightarrow> string" where
  "to_camel input =
     (case words_for_case input of
        [] \<Rightarrow> []
      | first # rest \<Rightarrow> first @ concat (map capitalized rest))"

definition to_pascal :: "string \<Rightarrow> string" where
  "to_pascal input = concat (map capitalized (words_for_case input))"

definition to_kebab :: "string \<Rightarrow> string" where
  "to_kebab input = replace_char (CHR ''_'') (CHR ''-'') (to_snake input)"

section \<open>Symbols, spaces and file names\<close>

definition collapse_spaces :: "regex_engine \<Rightarrow> string \<Rightarrow> string" where
  "collapse_spaces re input = re_replace_all re (bslash # ''s+'') (trim input) '' ''"

definition collapse_underscores :: "regex_engine \<Rightarrow> string \<Rightarrow> string" where
  "collapse_underscores re input =
     re_replace_all re ''_+'' (trim_by (\<lambda>c. c = CHR ''_'') input) ''_''"

definition strip_symbols :: "string \<Rightarrow> string" where
  "strip_symbols input = filter (\<lambda>ch. is_alnum ch \<or> is_ws ch \<or> ch \<in> set ''._-'') input"

definition spaces_to_underscore :: "regex_engine \<Rightarrow> string \<Rightarrow> string" where
  "spaces_to_underscore re input =
     collapse_underscores re (replace_char (CHR '' '') (CHR ''_'') (collapse_spaces re input))"

definition windows_invalid :: "char list" where
  "windows_invalid = ''<>:'' @ [CHR 0x22] @ ''/'' @ [bslash] @ ''|?*''"

definition windows_reserved :: "string list" where
  "windows_reserved =
     [''CON'', ''PRN'', ''AUX'', ''NUL'', ''COM1'', ''COM2'', ''COM3'', ''COM4'', ''COM5'',
      ''COM6'', ''COM7'', ''COM8'', ''COM9'', ''LPT1'', ''LPT2'', ''LPT3'', ''LPT4'', ''LPT5'',
      ''LPT6'', ''LPT7'', ''LPT8'', ''LPT9'', ''CLOCK$'']"

definition name_stem :: "string \<Rightarrow> string" where
  "name_stem name = uppercase (trim (hd (split_on (CHR ''.'') name)))"

definition sanitize_windows_filename :: "string \<Rightarrow> string" where
  "sanitize_windows_filename input =
     (let mapped = map (\<lambda>c. if c \<in> set windows_invalid \<or> is_control c then CHR ''_'' else c) input;
          out = trim_end_by (\<lambda>c. c = CHR ''.'' \<or> c = CHR '' '') mapped
      in if out = [] then ''file''
         else if name_stem out \<in> set windows_reserved then CHR ''_'' # out
         else out)"

section \<open>Evaluation\<close>

definition resolve_token :: "string \<Rightarrow> token_context \<Rightarrow> token_error + string" where
  "resolve_token name ctx =
     (let lower = lowercase name in
      if lower = ''original'' then Inr (tc_original ctx)
      else if lower = ''stem'' then Inr (tc_stem ctx)
      else if lower = ''ext'' then Inr (tc_ext ctx)
      else if lower = ''parent'' then Inr (tc_parent ctx)
      else if lower = ''grandparent'' then Inr (tc_grandparent ctx)
      else if lower = ''date'' then Inr (tc_now_format ctx ''%Y-%m-%d'')
      else if lower = ''year'' then Inr (tc_now_format ctx ''%Y'')
      else if lower = ''month'' then Inr (tc_now_format ctx ''%m'')
      else if lower = ''day'' then Inr (tc_now_format ctx ''%d'')
      else if lower = ''hour'' then Inr (tc_now_format ctx ''%H'')
      else if lower = ''minute'' then Inr (tc_now_format ctx ''%M'')
      else if lower = ''second'' then Inr (tc_now_format ctx ''%S'')
      else if lower = ''counter'' then
        Inr (if tc_counter_formatted ctx \<noteq> [] then tc_counter_formatted ctx
             else show_nat (unat (tc_counter ctx)))
      else if lower = ''guid'' then Inr (tc_guid ctx)
      else if lower = ''index'' then Inr (show_nat (unat (tc_index ctx)))
      else
        (case tc_variables ctx lower of
           Some value \<Rightarrow> Inr value
         | None \<Rightarrow>
             (case tc_variables ctx name of
                Some value \<Rightarrow> Inr value
              | None \<Rightarrow> Inl (UnknownToken lower))))"

definition no_args ::
  "transform_invocation \<Rightarrow> (string \<Rightarrow> string) \<Rightarrow> string \<Rightarrow> token_error + string" where
  "no_args ti f input = rbind (require_no_args ti) (\<lambda>_. Inr (f input))"

definition apply_invocation ::
  "regex_engine \<Rightarrow> transform_invocation \<Rightarrow> string \<Rightarrow> token_error + string" where
  "apply_invocation re ti input =
     (let n = ti_name ti in
      if n = ''upper'' then no_args ti uppercase input
      else if n = ''lower'' then no_args ti lowercase input
      else if n = ''capitalized'' then no_args ti capitalized input
      else if n = ''title'' then no_args ti title_case input
      else if n = ''snake'' then no_args ti to_snake input
      else if n = ''camel'' then no_args ti to_camel input
      else if n = ''pascal'' then no_args ti to_pascal input
      else if n = ''kebab'' then no_args ti to_kebab input
      else if n = ''trim'' then no_args ti trim input
      else if n = ''collapse_spaces'' then no_args ti (collapse_spaces re) input
      else if n = ''strip_symbols'' then no_args ti strip_symbols input
      else if n = ''spaces_to_underscore'' then no_args ti (spaces_to_underscore re) input
      else if n = ''sanitize_windows_filename'' then no_args ti sanitize_windows_filename input
      else if n = ''take'' then take_chars input ti
      else if n = ''skip'' then skip_chars input ti
      else if n = ''slice'' then slice_chars input ti
      else Inl (UnknownTransform (ti_raw ti)))"

definition apply_transform :: "regex_engine \<Rightarrow> string \<Rightarrow> string \<Rightarrow> token_error + string" where
  "apply_transform re name input =
     rbind (parse_invocation name) (\<lambda>ti. apply_invocation re ti input)"

definition apply_regex_preset :: "regex_engine \<Rightarrow> string \<Rightarrow> string \<Rightarrow> token_error + string" where
  "apply_regex_preset re name input =
     (let n = normalize_identifier name; s = [bslash] in
      if n = ''remove_digits'' then Inr (re_replace_all re (s @ ''d+'') input [])
      else if n = ''strip_special'' then
        Inr (re_replace_all re (''[^'' @ s @ ''p{L}'' @ s @ ''p{N}._'' @ s @ ''- ]+'') input [])
      else if n = ''extract_date'' then
        Inr (case re_find re (s @ ''d{4}[-_.]'' @ s @ ''d{2}[-_.]'' @ s @ ''d{2}|'' @
                              s @ ''d{2}[-_.]'' @ s @ ''d{2}[-_.]'' @ s @ ''d{4}'') input of
               Some date \<Rightarrow> date | None \<Rightarrow> [])
      else if n = ''remove_parens'' then
        Inr (collapse_spaces re
          (re_replace_all re (s @ ''s*'' @ s @ ''([^)]*'' @ s @ '')'' @ s @ ''s*'') input '' ''))
      else if n = ''digits_only'' then Inr (re_replace_all re (s @ ''D+'') input [])
      else if n = ''letters_only'' then
        Inr (re_replace_all re (''[^'' @ s @ ''p{L}]+'') input [])
      else Inl (UnknownRegexPreset name))"

fun eval_segment ::
  "regex_engine \<Rightarrow> token_context \<Rightarrow> template_segment \<Rightarrow> string \<Rightarrow> token_error + string" where
  "eval_segment re ctx (Literal lit) value = Inr (value @ lit)"
| "eval_segment re ctx (Token name) value = rbind (resolve_token name ctx) (\<lambda>t. Inr (value @ t))"
| "eval_segment re ctx (Transform name) value = apply_transform re name value"
| "eval_segment re ctx (RegexPreset name) value = apply_regex_preset re name value"

fun evaluate_from ::
  "regex_engine \<Rightarrow> token_context \<Rightarrow> template_segment list \<Rightarrow> string \<Rightarrow> token_error + string" where
  "evaluate_from re ctx [] value = Inr value"
| "evaluate_from re ctx (seg # segs) value =
     rbind (eval_segment re ctx seg value) (evaluate_from re ctx segs)"

definition evaluate ::
  "regex_engine \<Rightarrow> template_pipeline \<Rightarrow> token_context \<Rightarrow> token_error + string" where
  "evaluate re pipeline ctx = evaluate_from re ctx (segments pipeline) []"

section \<open>Lemmas: identifiers\<close>

text \<open>
  The canonical form of an identifier: lower-case letters and digits in words separated by single
  underscores, with none at the ends.
\<close>

definition ident_body :: "string \<Rightarrow> bool" where
  "ident_body s \<longleftrightarrow>
     list_all (\<lambda>c. (is_alnum c \<and> \<not> is_upper c) \<or> c = CHR ''_'') s \<and>
     successively (\<lambda>x y. \<not> (x = CHR ''_'' \<and> y = CHR ''_'')) s \<and>
     (s \<noteq> [] \<longrightarrow> hd s \<noteq> CHR ''_'')"

definition canonical_ident :: "string \<Rightarrow> bool" where
  "canonical_ident s \<longleftrightarrow> ident_body s \<and> (s \<noteq> [] \<longrightarrow> last s \<noteq> CHR ''_'')"

lemma underscore_not_alnum [simp]: "\<not> is_alnum (CHR ''_'')"
  by (simp add: char_class_defs code_def)

lemma underscore_not_ws [simp]: "\<not> is_ws (CHR ''_'')"
  by (simp add: char_class_defs code_def)

lemma alnum_not_underscore: "is_alnum c \<Longrightarrow> c \<noteq> CHR ''_''"
  by auto

lemma to_lower_not_underscore: "is_alnum c \<Longrightarrow> to_lower c \<noteq> CHR ''_''"
  by (metis alnum_to_lower underscore_not_alnum)

lemma successively_snoc:
  "successively P (xs @ [c]) \<longleftrightarrow> successively P xs \<and> (xs \<noteq> [] \<longrightarrow> P (last xs) c)"
  by (cases "xs = []") (auto simp: successively_append_iff)

lemma ident_body_snoc:
  "ident_body (s @ [c]) \<longleftrightarrow>
     ident_body s \<and> ((is_alnum c \<and> \<not> is_upper c) \<or> c = CHR ''_'') \<and>
     (c = CHR ''_'' \<longrightarrow> s \<noteq> [] \<and> last s \<noteq> CHR ''_'')"
  by (cases "s = []") (auto simp: ident_body_def successively_snoc)

definition normalize_inv :: "string \<times> bool \<Rightarrow> bool" where
  "normalize_inv st \<longleftrightarrow> ident_body (fst st) \<and> (fst st = [] \<longrightarrow> snd st)"

lemma normalize_step_inv: "normalize_inv st \<Longrightarrow> normalize_inv (normalize_step st ch)"
  by (cases st)
    (auto simp: normalize_inv_def normalize_step_def Let_def ident_body_snoc ends_with_def
      to_lower_not_underscore)

lemma normalize_fold_inv: "normalize_inv st \<Longrightarrow> normalize_inv (foldl normalize_step st s)"
  by (induction s arbitrary: st) (auto simp: normalize_step_inv)

lemma ident_body_prefix: "ident_body (s @ t) \<Longrightarrow> ident_body s"
  by (cases "s = []") (auto simp: ident_body_def successively_append_iff)

lemma trim_underscore_body: "ident_body s \<Longrightarrow> trim_by (\<lambda>c. c = CHR ''_'') s = trim_end_by (\<lambda>c. c = CHR ''_'') s"
  by (cases s) (auto simp: trim_by_def ident_body_def)

lemma canonical_normalize: "canonical_ident (normalize_identifier s)"
proof -
  let ?out = "fst (foldl normalize_step ([], True) (trim s))"
  have b: "ident_body ?out"
    using normalize_fold_inv [of "([], True)" "trim s"]
    by (simp add: normalize_inv_def ident_body_def)
  then have "ident_body (trim_end_by (\<lambda>c. c = CHR ''_'') ?out)"
    using ident_body_prefix trim_end_by_prefix by metis
  with trim_end_by_last show ?thesis
    unfolding canonical_ident_def normalize_identifier_def trim_underscore_body [OF b]
    by (metis (mono_tags, lifting))
qed

lemma normalize_fold_id:
  "ident_body s \<Longrightarrow> foldl normalize_step ([], True) s = (s, s = [] \<or> last s = CHR ''_'')"
proof (induction s rule: rev_induct)
  case (snoc c s)
  then show ?case
    by (auto simp: ident_body_snoc normalize_step_def Let_def ends_with_def)
qed simp

lemma canonical_ident_ends:
  assumes "canonical_ident s" "s \<noteq> []"
  shows "is_alnum (hd s)" "is_alnum (last s)"
proof -
  from assms have "\<forall>c \<in> set s. is_alnum c \<or> c = CHR ''_''"
    by (auto simp: canonical_ident_def ident_body_def list_all_iff)
  with assms show "is_alnum (hd s)" "is_alnum (last s)"
    by (metis canonical_ident_def ident_body_def hd_in_set last_in_set)+
qed

lemma normalize_canonical_id: "canonical_ident s \<Longrightarrow> normalize_identifier s = s"
proof (cases "s = []")
  case False
  assume c: "canonical_ident s"
  have "trim s = s"
    using canonical_ident_ends [OF c False] by (simp add: trim_id alnum_not_ws)
  moreover have "trim_by (\<lambda>c. c = CHR ''_'') s = s"
    using c False by (intro trim_by_id) (auto simp: canonical_ident_def ident_body_def)
  ultimately show ?thesis
    using c by (simp add: normalize_identifier_def normalize_fold_id canonical_ident_def)
qed (simp add: normalize_identifier_def)

lemma normalize_idem: "normalize_identifier (normalize_identifier s) = normalize_identifier s"
  by (rule normalize_canonical_id [OF canonical_normalize])

section \<open>Lemmas: words\<close>

definition plain_word :: "string \<Rightarrow> bool" where
  "plain_word w \<longleftrightarrow> w \<noteq> [] \<and> list_all (\<lambda>c. is_alnum c \<and> \<not> is_upper c) w"

lemma words_from_acc: "words_from p cur ws s = ws @ words_from p cur [] s"
proof (induction s arbitrary: p cur ws)
  case (Cons c s)
  show ?case
    by (simp, metis (no_types) Cons.IH append.assoc)
qed simp

lemma words_from_plain:
  "list_all (\<lambda>c. is_alnum c \<and> \<not> is_upper c) cur \<Longrightarrow> list_all plain_word ws \<Longrightarrow>
   list_all plain_word (words_from p cur ws s)"
  by (induction s arbitrary: p cur ws) (auto simp: plain_word_def starts_new_word_def)

lemma words_for_case_plain: "list_all plain_word (words_for_case s)"
  by (simp add: words_for_case_def words_from_plain)

lemma words_from_word:
  "list_all (\<lambda>c. is_alnum c \<and> \<not> is_upper c) w \<Longrightarrow>
   \<exists>p'. words_from p cur ws (w @ rest) = words_from p' (cur @ w) ws rest"
proof (induction w arbitrary: p cur)
  case (Cons c w)
  then have "words_from p cur ws ((c # w) @ rest) = words_from (Some c) (cur @ [c]) ws (w @ rest)"
    by (simp add: starts_new_word_def)
  with Cons.IH [of "Some c" "cur @ [c]"] Cons.prems show ?case by simp
qed auto

lemma words_from_join:
  "\<not> is_alnum sep \<Longrightarrow> list_all plain_word ws \<Longrightarrow>
   words_from p [] acc (join_with [sep] ws) = acc @ ws"
proof (induction ws arbitrary: p acc)
  case (Cons w ws)
  from Cons.prems have w: "list_all (\<lambda>c. is_alnum c \<and> \<not> is_upper c) w" "w \<noteq> []"
    by (auto simp: plain_word_def)
  show ?case
  proof (cases ws)
    case Nil
    with words_from_word [OF w(1), of p "[]" acc "[]"] w(2) show ?thesis by auto
  next
    case (Cons v vs)
    obtain p' where "words_from p [] acc (w @ sep # join_with [sep] ws) =
        words_from p' w acc (sep # join_with [sep] ws)"
      using words_from_word [OF w(1), of p "[]" acc "sep # join_with [sep] ws"] by auto
    with Cons Cons.IH Cons.prems w(2) show ?thesis by simp
  qed
qed simp

lemma words_for_case_join:
  "\<not> is_alnum sep \<Longrightarrow> words_for_case (join_with [sep] (words_for_case s)) = words_for_case s"
  by (simp add: words_for_case_def words_from_join words_from_plain)

lemma replace_char_join:
  "list_all (\<lambda>w. a \<notin> set w) ws \<Longrightarrow> replace_char a b (join_with [a] ws) = join_with [b] ws"
proof (induction ws)
  case (Cons w ws)
  then show ?case
    by (cases ws) (auto simp: replace_char_def intro!: map_idI)
qed (simp add: replace_char_def)

lemma to_kebab_join: "to_kebab s = join_with ''-'' (words_for_case s)"
proof -
  have "list_all (\<lambda>w. CHR ''_'' \<notin> set w) (words_for_case s)"
    using words_for_case_plain [of s] underscore_not_alnum
    by (fastforce simp: list_all_iff plain_word_def)
  then show ?thesis by (simp add: to_kebab_def to_snake_def replace_char_join)
qed

lemma dash_not_alnum [simp]: "\<not> is_alnum (CHR ''-'')"
  by (simp add: char_class_defs code_def)

section \<open>Lemmas: evaluation\<close>

lemma evaluate_from_append:
  "evaluate_from re ctx (p @ q) v =
     rbind (evaluate_from re ctx p v) (evaluate_from re ctx q)"
proof (induction p arbitrary: v)
  case (Cons seg p)
  then have "evaluate_from re ctx (p @ q) =
      (\<lambda>w. rbind (evaluate_from re ctx p w) (evaluate_from re ctx q))"
    by (rule ext)
  then show ?case by (simp add: rbind_assoc)
qed simp

definition no_arg_transforms :: "string list" where
  "no_arg_transforms =
     [''upper'', ''lower'', ''capitalized'', ''title'', ''snake'', ''camel'', ''pascal'',
      ''kebab'', ''trim'', ''collapse_spaces'', ''strip_symbols'', ''spaces_to_underscore'',
      ''sanitize_windows_filename'']"

definition preset_names :: "string list" where
  "preset_names =
     [''remove_digits'', ''strip_special'', ''extract_date'', ''remove_parens'', ''digits_only'',
      ''letters_only'']"

text \<open>
  The static check of a segment: the error, if any, that its evaluation meets. It reads neither the
  text evaluated so far nor the regular expressions.
\<close>

definition invocation_check :: "transform_invocation \<Rightarrow> token_error + unit" where
  "invocation_check ti =
     (if ti_name ti \<in> set no_arg_transforms then require_no_args ti
      else if ti_name ti = ''take'' \<or> ti_name ti = ''skip'' then
        rbind (require_arg_range ti 1 2) (\<lambda>_.
        rbind (parse_usize_arg ti 0) (\<lambda>_.
        rbind (parse_direction_arg (second_arg ti)) (\<lambda>_. Inr ())))
      else if ti_name ti = ''slice'' then
        rbind (require_arg_range ti 2 2) (\<lambda>_.
        rbind (parse_usize_arg ti 0) (\<lambda>_.
        rbind (parse_usize_arg ti 1) (\<lambda>_. Inr ())))
      else Inl (UnknownTransform (ti_raw ti)))"

fun segment_check :: "token_context \<Rightarrow> template_segment \<Rightarrow> token_error + unit" where
  "segment_check ctx (Literal lit) = Inr ()"
| "segment_check ctx (Token name) = rbind (resolve_token name ctx) (\<lambda>_. Inr ())"
| "segment_check ctx (Transform name) = rbind (parse_invocation name) invocation_check"
| "segment_check ctx (RegexPreset name) =
     (if normalize_identifier name \<in> set preset_names then Inr ()
      else Inl (UnknownRegexPreset name))"

fun check_segments :: "token_context \<Rightarrow> template_segment list \<Rightarrow> token_error + unit" where
  "check_segments ctx [] = Inr ()"
| "check_segments ctx (seg # segs) = rbind (segment_check ctx seg) (\<lambda>_. check_segments ctx segs)"

lemma rbind_unit: "rbind x (\<lambda>_. Inr ()) = Inl e \<longleftrightarrow> x = Inl e"
  by (cases x) auto

lemma invocation_check_error:
  "apply_invocation re ti input = Inl e \<longleftrightarrow> invocation_check ti = Inl e"
  by (simp add: apply_invocation_def invocation_check_def no_arg_transforms_def no_args_def
      take_chars_def skip_chars_def slice_chars_def Let_def result_simps)

lemma segment_check_error: "eval_segment re ctx seg v = Inl e \<longleftrightarrow> segment_check ctx seg = Inl e"
  by (cases seg)
    (simp_all add: apply_transform_def apply_regex_preset_def preset_names_def Let_def
      result_simps invocation_check_error)

lemma evaluate_from_error:
  "evaluate_from re ctx segs v = Inl e \<longleftrightarrow> check_segments ctx segs = Inl e"
proof (induction segs arbitrary: v)
  case (Cons seg segs)
  show ?case
  proof (cases "eval_segment re ctx seg v")
    case (Inl e')
    then have "segment_check ctx seg = Inl e'" by (simp add: segment_check_error)
    with Inl show ?thesis by simp
  next
    case (Inr w)
    then have "segment_check ctx seg = Inr ()"
      by (metis old.unit.exhaust segment_check_error sum.exhaust sum.distinct(1))
    with Inr Cons.IH show ?thesis by simp
  qed
qed simp

section \<open>Lemmas: printed invocations\<close>

lemma parse_invocation_call:
  assumes "name \<noteq> []" "\<not> is_ws (hd name)" "\<not> is_ws (last name)" "CHR ''('' \<notin> set name"
  shows "parse_invocation (name @ ''('' @ inner @ '')'') =
    Inr \<lparr>ti_raw = name @ ''('' @ inner @ '')'', ti_name = normalize_identifier name,
      ti_args = filter (\<lambda>a. a \<noteq> []) (map trim (split_on (CHR '','') inner))\<rparr>"
proof -
  have "trim (name @ ''('' @ inner @ '')'') = name @ ''('' @ inner @ '')''"
    using assms(1,2) by (intro trim_id) (auto simp: is_ws_def code_def)
  moreover have "takeWhile (\<lambda>c. c \<noteq> CHR ''('') (name @ ''('' @ inner @ '')'') = name"
    using assms(4) by (subst takeWhile_append2) auto
  moreover have "dropWhile (\<lambda>c. c \<noteq> CHR ''('') (name @ ''('' @ inner @ '')'') = ''('' @ inner @ '')''"
    using assms(4) by (subst dropWhile_append2) auto
  moreover have "trim name = name"
    using assms(1-3) by (simp add: trim_id)
  ultimately show ?thesis
    by (simp add: parse_invocation_def ends_with_def butlast_append)
qed

lemma show_nat_ends: "is_digit (hd (show_nat n))" "is_digit (last (show_nat n))"
  using show_nat_digits by (meson hd_in_set last_in_set show_nat_not_Nil)+

lemma digit_not_ws: "is_digit c \<Longrightarrow> \<not> is_ws c"
  by (auto simp: is_digit_def is_ws_def)

lemma trim_show_nat [simp]: "trim (show_nat n) = show_nat n"
  by (simp add: trim_id digit_not_ws show_nat_ends)

lemma parse_usize_show [simp]: "n < 2 ^ 64 \<Longrightarrow> parse_usize (show_nat n) = Some n"
proof -
  assume n: "n < 2 ^ 64"
  have "hd (show_nat n) \<noteq> CHR ''+''"
    using show_nat_ends(1) [of n] by (auto simp: is_digit_def code_def)
  then have "(case show_nat n of c # cs \<Rightarrow> if c = CHR ''+'' then cs else show_nat n
      | [] \<Rightarrow> show_nat n) = show_nat n"
    by (cases "show_nat n") auto
  with n show ?thesis
    using show_nat_digits [of n] by (simp add: parse_usize_def list_all_iff)
qed

lemma comma_not_in_show_nat [simp]: "CHR '','' \<notin> set (show_nat n)"
  using show_nat_digits [of n] by (auto simp: is_digit_def code_def)

lemma normalize_known:
  "normalize_identifier ''take'' = ''take''" "normalize_identifier ''skip'' = ''skip''"
  "normalize_identifier ''slice'' = ''slice''" "normalize_identifier ''end'' = ''end''"
  by (intro normalize_canonical_id,
      simp add: canonical_ident_def ident_body_def char_class_defs code_def)+

lemma split_on_two: "c \<notin> set a \<Longrightarrow> c \<notin> set b \<Longrightarrow> split_on c (a @ c # b) = [a, b]"
  by (simp add: split_on_append split_on_absent)

lemma parse_call_one:
  assumes "name \<in> {''take'', ''skip''}"
  shows "parse_invocation (name @ ''('' @ show_nat n @ '')'') =
    Inr \<lparr>ti_raw = name @ ''('' @ show_nat n @ '')'', ti_name = name, ti_args = [show_nat n]\<rparr>"
  using assms
  by (subst parse_invocation_call)
    (auto simp: split_on_absent normalize_known is_ws_def code_def)

lemma parse_call_end:
  assumes "name \<in> {''take'', ''skip''}"
  shows "parse_invocation (name @ ''('' @ show_nat n @ '', end'' @ '')'') =
    Inr \<lparr>ti_raw = name @ ''('' @ show_nat n @ '', end'' @ '')'', ti_name = name,
      ti_args = [show_nat n, ''end'']\<rparr>"
proof -
  have "split_on (CHR '','') (show_nat n @ '', end'') = [show_nat n, '' end'']"
    using split_on_two [of "CHR '',''" "show_nat n" "'' end''"] by simp
  moreover have "trim '' end'' = ''end''"
    by (simp add: trim_def trim_by_def trim_end_by_def is_ws_def code_def)
  moreover have "name \<noteq> []" "\<not> is_ws (hd name)" "\<not> is_ws (last name)" "CHR ''('' \<notin> set name"
    using assms by (auto simp: is_ws_def code_def)
  ultimately show ?thesis
    using assms parse_invocation_call [of name "show_nat n @ '', end''"]
    by (auto simp: normalize_known)
qed

section \<open>Properties\<close>

text \<open>
  Identifier normalisation, which decides whether a transform, a preset or a direction is known,
  always ends in the canonical form (lower-case letters and digits in words joined by single
  underscores) and changes nothing the second time.
\<close>

theorem normalize_identifier_canonical:
  "canonical_ident (normalize_identifier s) \<and>
   normalize_identifier (normalize_identifier s) = normalize_identifier s"
  by (simp add: canonical_normalize normalize_idem)

text \<open>
  C40. Evaluating a pipeline fails exactly when the static check of its segments fails, and with the
  same error, that of the first bad segment: whether a template is usable depends on its segments
  and on the context's variables, never on the text it is applied to or on the regular expressions.
\<close>

theorem evaluate_error_iff:
  "evaluate re p ctx = Inl e \<longleftrightarrow> check_segments ctx (segments p) = Inl e"
  by (simp add: evaluate_def evaluate_from_error)

text \<open>
  The snake and kebab transforms find the same words in their own output: each is idempotent and
  either can follow the other without changing the result it would have had alone.
\<close>

theorem snake_kebab_stable:
  "to_snake (to_snake s) = to_snake s \<and> to_kebab (to_kebab s) = to_kebab s \<and>
   to_snake (to_kebab s) = to_snake s \<and> to_kebab (to_snake s) = to_kebab s"
  unfolding to_kebab_join to_snake_def by (simp add: words_for_case_join)

text \<open>
  The transforms \<open>take(n)\<close> and \<open>skip(n)\<close>, read from their text, split the input at \<open>n\<close>
  characters from the start, and \<open>take(n, end)\<close> and \<open>skip(n, end)\<close> at \<open>n\<close> characters from the
  end, for every \<open>n\<close> a 64-bit \<open>usize\<close> holds, lengths beyond the input included.
\<close>

theorem take_skip_split:
  assumes "n < 2 ^ 64"
  shows "apply_transform re (''take('' @ show_nat n @ '')'') s = Inr (take n s) \<and>
    apply_transform re (''skip('' @ show_nat n @ '')'') s = Inr (drop n s) \<and>
    apply_transform re (''take('' @ show_nat n @ '', end)'') s = Inr (drop (length s - n) s) \<and>
    apply_transform re (''skip('' @ show_nat n @ '', end)'') s = Inr (take (length s - n) s)"
  using assms parse_call_one [of "''take''" n] parse_call_one [of "''skip''" n]
    parse_call_end [of "''take''" n] parse_call_end [of "''skip''" n]
  by (simp add: apply_transform_def apply_invocation_def take_chars_def skip_chars_def
      require_arg_range_def parse_usize_arg_def second_arg_def parse_direction_arg_def
      normalize_known Let_def)

theorem take_skip_split_witness:
  "(3 :: nat) < 2 ^ 64 \<and>
   apply_transform \<lparr>re_replace_all = \<lambda>p s r. s, re_find = \<lambda>p s. None\<rparr>
     (''take('' @ show_nat 3 @ '', end)'') ''report'' = Inr ''ort''"
  using take_skip_split
    [of 3 "\<lparr>re_replace_all = \<lambda>p s r. s, re_find = \<lambda>p s. None\<rparr>" "''report''"]
  by simp

end
