(* ===== verification/Template_Display.thy ===== *)
theory Template_Display
  imports Tokenizer
begin

text \<open>
  The display syntax of templates, \<open>crates/autoflow-domain/src/tokenizer/display.rs\<close>: the parser
  from the text a user edits to the pipeline that is stored, the printer back, and the round trip.
  The source walks an index over a vector of characters; here the state is what is left of the text,
  so \<open>chars[index]\<close> is its head and \<open>chars[index + 1]\<close> the head of its tail.
\<close>

section \<open>Known names\<close>

definition known_transforms :: "string list" where
  "known_transforms =
     [''upper'', ''lower'', ''capitalized'', ''title'', ''snake'', ''camel'', ''pascal'',
      ''kebab'', ''trim'', ''collapse_spaces'', ''strip_symbols'', ''spaces_to_underscore'',
      ''sanitize_windows_filename'', ''take'', ''skip'', ''slice'']"

definition known_presets :: "string list" where
  "known_presets =
     [''remove_digits'', ''strip_special'', ''extract_date'', ''remove_parens'', ''digits_only'',
      ''letters_only'']"

definition is_known_transform :: "string \<Rightarrow> bool" where
  "is_known_transform name \<longleftrightarrow>
     normalize_identifier (hd (split_on (CHR ''('') name)) \<in> set known_transforms"

definition is_known_regex_preset :: "string \<Rightarrow> bool" where
  "is_known_regex_preset name \<longleftrightarrow> normalize_identifier name \<in> set known_presets"

definition ident_char :: "char \<Rightarrow> bool" where
  "ident_char ch \<longleftrightarrow> is_alnum ch \<or> ch = CHR ''_''"

definition is_identifier :: "string \<Rightarrow> bool" where
  "is_identifier s =
     (case s of
        [] \<Rightarrow> False
      | first # chars \<Rightarrow> (is_alpha first \<or> first = CHR ''_'') \<and> list_all ident_char chars)"

definition is_escapable :: "char \<Rightarrow> bool" where
  "is_escapable ch \<longleftrightarrow> ch = CHR ''['' \<or> ch = CHR '']'' \<or> ch = CHR ''/'' \<or> ch = bslash"

section \<open>Parsing\<close>

fun read_until :: "string \<Rightarrow> char \<Rightarrow> (string \<times> string) option" where
  "read_until [] delimiter = None"
| "read_until (ch # rest) delimiter =
     (if ch = delimiter then Some ([], rest)
      else if (delimiter = CHR '']'' \<or> delimiter = CHR ''/'') \<and> (code ch = 10 \<or> code ch = 13)
      then None
      else map_option (\<lambda>(v, next). (ch # v, next)) (read_until rest delimiter))"

lemma read_until_length: "read_until s d = Some (v, next) \<Longrightarrow> length next < length s"
  by (induction s d arbitrary: v rule: read_until.induct) (fastforce split: if_splits)+

definition flush_literal :: "template_segment list \<Rightarrow> string \<Rightarrow> template_segment list" where
  "flush_literal segs literal = (if literal \<noteq> [] then segs @ [Literal literal] else segs)"

text \<open>
  What a \<open>{\<close>, \<open>[\<close> or \<open>/\<close> opens, if it opens anything: the segment and the text after it.
\<close>

definition read_segment :: "char \<Rightarrow> string \<Rightarrow> (template_segment \<times> string) option" where
  "read_segment ch rest =
     (if ch = CHR ''{'' then
        (case read_until rest (CHR ''}'') of
           Some (content, next) \<Rightarrow> if is_identifier content then Some (Token content, next) else None
         | None \<Rightarrow> None)
      else if ch = CHR ''['' then
        (case read_until rest (CHR '']'') of
           Some (content, next) \<Rightarrow>
             (let trimmed = trim content in
              if trimmed \<noteq> [] \<and> is_known_transform trimmed then Some (Transform trimmed, next)
              else None)
         | None \<Rightarrow> None)
      else if ch = CHR ''/'' then
        (case read_until rest (CHR ''/'') of
           Some (content, next) \<Rightarrow>
             if is_identifier content \<and> is_known_regex_preset content
             then Some (RegexPreset content, next) else None
         | None \<Rightarrow> None)
      else None)"

lemma read_segment_length: "read_segment ch rest = Some (seg, next) \<Longrightarrow> length next < length rest"
  by (auto simp: read_segment_def Let_def dest: read_until_length
      split: if_splits option.splits)

text \<open>
  The two-character sequences the parser reads as one literal character: a backslash before an
  escapable character, a doubled opening brace and a doubled closing brace.
\<close>

definition read_escape :: "char \<Rightarrow> string \<Rightarrow> (char \<times> string) option" where
  "read_escape ch rest =
     (case rest of
        [] \<Rightarrow> None
      | n # rest' \<Rightarrow>
          if ch = bslash \<and> is_escapable n then Some (n, rest')
          else if ch = CHR ''{'' \<and> n = CHR ''{'' then Some (CHR ''{'', rest')
          else if ch = CHR ''}'' \<and> n = CHR ''}'' then Some (CHR ''}'', rest')
          else None)"

lemma read_escape_length: "read_escape ch rest = Some (c, next) \<Longrightarrow> length next < length rest"
  by (auto simp: read_escape_def split: list.splits if_splits)

function parse_from :: "string \<Rightarrow> template_segment list \<Rightarrow> string \<Rightarrow> template_segment list" where
  "parse_from [] segs literal = flush_literal segs literal"
| "parse_from (ch # rest) segs literal =
     (case read_escape ch rest of
        Some (c, next) \<Rightarrow> parse_from next segs (literal @ [c])
      | None \<Rightarrow>
          (case read_segment ch rest of
             Some (seg, next) \<Rightarrow> parse_from next (flush_literal segs literal @ [seg]) []
           | None \<Rightarrow> parse_from rest segs (literal @ [ch])))"
  by pat_completeness auto
termination
  by (relation "measure (\<lambda>(s, _, _). length s)")
    (auto dest: read_escape_length read_segment_length)

definition parse_template :: "string \<Rightarrow> template_pipeline" where
  "parse_template input = \<lparr>segments = parse_from input [] []\<rparr>"

section \<open>Printing\<close>

definition needs_slash_escape :: "string \<Rightarrow> bool" where
  "needs_slash_escape rest \<longleftrightarrow>
     CHR ''/'' \<in> set rest \<and>
     (let candidate = takeWhile (\<lambda>c. c \<noteq> CHR ''/'') rest
      in is_identifier candidate \<and> is_known_regex_preset candidate)"

definition format_char :: "bool \<Rightarrow> char \<Rightarrow> string \<Rightarrow> string" where
  "format_char followed_by_segment ch rest =
     (if ch = bslash then
        (if (case rest of n # _ \<Rightarrow> is_escapable n | [] \<Rightarrow> followed_by_segment)
         then [bslash, bslash] else [bslash])
      else if ch = CHR ''{'' then ''{{''
      else if ch = CHR ''}'' then ''}}''
      else if ch = CHR ''['' \<or> ch = CHR '']'' then [bslash, ch]
      else if ch = CHR ''/'' \<and> needs_slash_escape rest then [bslash, CHR ''/'']
      else [ch])"

fun format_literal :: "bool \<Rightarrow> string \<Rightarrow> string" where
  "format_literal followed_by_segment [] = []"
| "format_literal followed_by_segment (ch # rest) =
     format_char followed_by_segment ch rest @ format_literal followed_by_segment rest"

fun format_segments :: "template_segment list \<Rightarrow> string" where
  "format_segments [] = []"
| "format_segments (Literal v # segs) = format_literal (segs \<noteq> []) v @ format_segments segs"
| "format_segments (Token name # segs) = ''{'' @ name @ ''}'' @ format_segments segs"
| "format_segments (Transform name # segs) = ''['' @ name @ '']'' @ format_segments segs"
| "format_segments (RegexPreset name # segs) = ''/'' @ name @ ''/'' @ format_segments segs"

definition format_template :: "template_pipeline \<Rightarrow> string" where
  "format_template pipeline = format_segments (segments pipeline)"

section \<open>Canonical pipelines\<close>

text \<open>
  The pipelines the parser produces: literals are not empty and not adjacent, names are the ones the
  display syntax recognises.
\<close>

fun segment_ok :: "template_segment \<Rightarrow> bool" where
  "segment_ok (Literal v) \<longleftrightarrow> v \<noteq> []"
| "segment_ok (Token name) \<longleftrightarrow> is_identifier name"
| "segment_ok (Transform name) \<longleftrightarrow>
     name \<noteq> [] \<and> trim name = name \<and> is_known_transform name \<and>
     list_all (\<lambda>c. c \<noteq> CHR '']'' \<and> code c \<noteq> 10 \<and> code c \<noteq> 13) name"
| "segment_ok (RegexPreset name) \<longleftrightarrow> is_identifier name \<and> is_known_regex_preset name"

fun is_literal :: "template_segment \<Rightarrow> bool" where
  "is_literal (Literal v) = True"
| "is_literal _ = False"

fun is_preset :: "template_segment \<Rightarrow> bool" where
  "is_preset (RegexPreset v) = True"
| "is_preset _ = False"

definition canonical_segments :: "template_segment list \<Rightarrow> bool" where
  "canonical_segments segs \<longleftrightarrow>
     list_all segment_ok segs \<and> successively (\<lambda>x y. \<not> (is_literal x \<and> is_literal y)) segs"

text \<open>A literal whose text after its last slash is the name of a preset.\<close>

definition ends_like_preset :: "string \<Rightarrow> bool" where
  "ends_like_preset v \<longleftrightarrow>
     CHR ''/'' \<in> set v \<and>
     (let candidate = rev (takeWhile (\<lambda>c. c \<noteq> CHR ''/'') (rev v))
      in is_identifier candidate \<and> is_known_regex_preset candidate)"

text \<open>No literal that ends so is followed at once by a preset.\<close>

fun preset_clear :: "template_segment list \<Rightarrow> bool" where
  "preset_clear (Literal v # RegexPreset r # segs) \<longleftrightarrow>
     \<not> ends_like_preset v \<and> preset_clear (RegexPreset r # segs)"
| "preset_clear (s # segs) \<longleftrightarrow> preset_clear segs"
| "preset_clear [] \<longleftrightarrow> True"

section \<open>Lemmas: reading\<close>

lemma ident_char_special [simp]:
  "\<not> ident_char (CHR ''{'')" "\<not> ident_char (CHR ''}'')" "\<not> ident_char (CHR ''['')"
  "\<not> ident_char (CHR '']'')" "\<not> ident_char (CHR ''/'')" "\<not> ident_char bslash"
  by (simp_all add: ident_char_def char_class_defs code_def)

lemma ident_char_newline: "ident_char c \<Longrightarrow> code c \<noteq> 10 \<and> code c \<noteq> 13"
  by (auto simp: ident_char_def char_class_defs code_def)

lemma identifier_chars: "is_identifier s \<Longrightarrow> s \<noteq> [] \<and> list_all ident_char s"
  by (auto simp: is_identifier_def ident_char_def is_alnum_def split: list.splits)

lemma identifier_plain:
  assumes "is_identifier s"
  shows "CHR ''{'' \<notin> set s" "CHR ''}'' \<notin> set s" "CHR ''/'' \<notin> set s"
    and "\<forall>c \<in> set s. code c \<noteq> 10 \<and> code c \<noteq> 13"
proof -
  from identifier_chars [OF assms] have s: "\<And>c. c \<in> set s \<Longrightarrow> ident_char c"
    by (simp add: list_all_iff)
  show "CHR ''{'' \<notin> set s" "CHR ''}'' \<notin> set s" "CHR ''/'' \<notin> set s"
    using s ident_char_special by blast+
  show "\<forall>c \<in> set s. code c \<noteq> 10 \<and> code c \<noteq> 13"
    using s ident_char_newline by blast
qed

lemma read_until_split:
  "read_until s d = Some (v, next) \<Longrightarrow>
     s = v @ d # next \<and> d \<notin> set v \<and>
     (d = CHR '']'' \<or> d = CHR ''/'' \<longrightarrow> (\<forall>c \<in> set v. code c \<noteq> 10 \<and> code c \<noteq> 13))"
proof (induction s arbitrary: v)
  case (Cons ch rest)
  show ?case
  proof (cases "ch = d")
    case False
    with Cons.prems obtain v' where v: "v = ch # v'" "read_until rest d = Some (v', next)"
      and nl: "\<not> ((d = CHR '']'' \<or> d = CHR ''/'') \<and> (code ch = 10 \<or> code ch = 13))"
      by (auto split: if_splits)
    from Cons.IH [OF v(2)] v(1) nl False show ?thesis by auto
  qed (use Cons.prems in simp)
qed simp

lemma read_until_found:
  "d \<notin> set v \<Longrightarrow> \<forall>c \<in> set v. code c \<noteq> 10 \<and> code c \<noteq> 13 \<Longrightarrow>
     read_until (v @ d # next) d = Some (v, next)"
  by (induction v) auto

lemma read_until_brace: "CHR ''}'' \<notin> set v \<Longrightarrow> read_until (v @ CHR ''}'' # next) (CHR ''}'') = Some (v, next)"
  by (induction v) auto

lemma read_segment_token:
  "is_identifier name \<Longrightarrow>
     read_segment (CHR ''{'') (name @ CHR ''}'' # next) = Some (Token name, next)"
  by (simp add: read_segment_def read_until_brace identifier_plain)

lemma read_segment_transform:
  "segment_ok (Transform name) \<Longrightarrow>
     read_segment (CHR ''['') (name @ CHR '']'' # next) = Some (Transform name, next)"
  using read_until_found [of "CHR '']''" name "next"]
  by (fastforce simp: read_segment_def Let_def list_all_iff)

lemma read_segment_preset:
  "segment_ok (RegexPreset name) \<Longrightarrow>
     read_segment (CHR ''/'') (name @ CHR ''/'' # next) = Some (RegexPreset name, next)"
  using read_until_found [of "CHR ''/''" name "next"]
  by (auto simp: read_segment_def identifier_plain)

lemma read_segment_other:
  "c \<noteq> CHR ''{'' \<Longrightarrow> c \<noteq> CHR ''['' \<Longrightarrow> c \<noteq> CHR ''/'' \<Longrightarrow> read_segment c rest = None"
  by (simp add: read_segment_def)

lemma read_escape_other: "c \<noteq> bslash \<Longrightarrow> c \<noteq> CHR ''{'' \<Longrightarrow> c \<noteq> CHR ''}'' \<Longrightarrow> read_escape c rest = None"
  by (simp add: read_escape_def split: list.split)

lemma read_escape_token: "is_identifier name \<Longrightarrow> read_escape (CHR ''{'') (name @ rest) = None"
  using identifier_chars [of name] by (cases name) (auto simp: read_escape_def)

lemma read_segment_ok: "read_segment c rest = Some (seg, next) \<Longrightarrow> segment_ok seg \<and> \<not> is_literal seg"
  using set_trim
  by (fastforce simp: read_segment_def Let_def list_all_iff dest: read_until_split
      split: if_splits option.splits)

section \<open>Lemmas: printing\<close>

lemma format_char_head:
  "\<exists>c rest'. format_char f x rest = c # rest' \<and>
     (c = x \<or> c = bslash \<and> \<not> ident_char x \<and> x \<noteq> bslash)"
  by (auto simp: format_char_def)

lemma format_char_ident: "ident_char x \<Longrightarrow> format_char f x rest = [x]"
  by (auto simp: format_char_def)

definition tail_ok :: "bool \<Rightarrow> string \<Rightarrow> bool" where
  "tail_ok f tail \<longleftrightarrow>
     (if f then tail \<noteq> [] \<and> hd tail \<in> {CHR ''{'', CHR ''['', CHR ''/''} else tail = [])"

lemma tail_ok_head: "tail_ok f (c # tail) \<Longrightarrow> \<not> ident_char c"
  by (auto simp: tail_ok_def split: if_splits)

lemma format_literal_prefix:
  assumes "format_literal f w @ tail = content @ CHR ''/'' # next"
    and "list_all ident_char content" and "tail_ok f tail"
  shows "(\<exists>w'. w = content @ CHR ''/'' # w') \<or> (w = content \<and> tail \<noteq> [] \<and> hd tail = CHR ''/'')"
  using assms
proof (induction w arbitrary: content)
  case Nil
  then show ?case by (cases content) (auto dest: tail_ok_head)
next
  case (Cons x w)
  show ?case
  proof (cases "ident_char x")
    case True
    with Cons.prems obtain c' where "content = x # c'"
      by (cases content) (auto simp: format_char_ident)
    with True Cons show ?thesis by (auto simp: format_char_ident)
  next
    case False
    obtain c rest' where h: "format_char f x w = c # rest'" "c = x \<or> c = bslash"
      using format_char_head by blast
    with False Cons.prems have "content = []"
      by (cases content) auto
    with h Cons.prems show ?thesis by auto
  qed
qed

lemma ends_like_presetI:
  "v = pre @ CHR ''/'' # cand \<Longrightarrow> is_identifier cand \<Longrightarrow> is_known_regex_preset cand \<Longrightarrow>
     ends_like_preset v"
proof -
  assume v: "v = pre @ CHR ''/'' # cand" and i: "is_identifier cand" "is_known_regex_preset cand"
  have "takeWhile (\<lambda>c. c \<noteq> CHR ''/'') (rev v) = rev cand"
    using identifier_plain(3) [OF i(1)] v by simp
  with v i show ?thesis by (simp add: ends_like_preset_def)
qed

lemma ends_like_preset_Cons: "ends_like_preset v \<Longrightarrow> ends_like_preset (c # v)"
  by (auto simp: ends_like_preset_def takeWhile_append)

lemma slash_stays_literal:
  assumes "\<not> needs_slash_escape w" "tail_ok f tail"
    and "tail \<noteq> [] \<and> hd tail = CHR ''/'' \<longrightarrow> \<not> ends_like_preset (CHR ''/'' # w)"
  shows "read_segment (CHR ''/'') (format_literal f w @ tail) = None"
proof (rule ccontr)
  assume "read_segment (CHR ''/'') (format_literal f w @ tail) \<noteq> None"
  then obtain content "next" where r: "read_until (format_literal f w @ tail) (CHR ''/'') = Some (content, next)"
    and i: "is_identifier content" "is_known_regex_preset content"
    by (auto simp: read_segment_def split: option.splits if_splits)
  from read_until_split [OF r]
  have "format_literal f w @ tail = content @ CHR ''/'' # next" "CHR ''/'' \<notin> set content" by auto
  with format_literal_prefix [OF this(1) _ assms(2)] identifier_chars [OF i(1)]
  consider w' where "w = content @ CHR ''/'' # w'" | "w = content" "tail \<noteq> []" "hd tail = CHR ''/''"
    by blast
  then show False
  proof cases
    case 1
    with i \<open>CHR ''/'' \<notin> set content\<close> have "needs_slash_escape w"
      by (simp add: needs_slash_escape_def)
    with assms(1) show False by simp
  next
    case 2
    with i assms(3) ends_like_presetI [of "CHR ''/'' # w" "[]" w] show False by simp
  qed
qed

section \<open>Lemmas: the round trip\<close>

lemma read_escape_slash: "read_escape (CHR ''/'') rest = None"
  by (simp add: read_escape_other)

lemma read_escape_bslash_none:
  "(\<And>n r. rest = n # r \<Longrightarrow> \<not> is_escapable n) \<Longrightarrow> read_escape bslash rest = None"
  by (cases rest) (auto simp: read_escape_def)

lemma format_literal_head:
  assumes "\<not> is_escapable n" "format_literal f (n # w) @ tail = m # r"
  shows "m = n"
  using assms by (auto simp: format_char_def is_escapable_def split: if_splits)

lemma format_char_cases:
  "(c = CHR ''/'' \<and> \<not> needs_slash_escape w) \<or>
   (c = bslash \<and> format_char f c w = [bslash]) \<or>
   (\<exists>c'. format_char f c w = [c', c] \<and> read_escape c' (c # T) = Some (c, T)) \<or>
   (format_char f c w = [c] \<and> c \<notin> {CHR ''/'', bslash, CHR ''{'', CHR ''}'', CHR ''[''})"
proof -
  consider "c = bslash" | "c = CHR ''{''" | "c = CHR ''}''" | "c = CHR ''[''" | "c = CHR '']''"
    | "c = CHR ''/''" | "c \<notin> {CHR ''/'', bslash, CHR ''{'', CHR ''}'', CHR ''['', CHR '']''}"
    by blast
  then show ?thesis
    by cases (simp_all add: format_char_def read_escape_def is_escapable_def)
qed

lemma parse_literal:
  assumes "tail_ok f tail" "tail \<noteq> [] \<and> hd tail = CHR ''/'' \<longrightarrow> \<not> ends_like_preset v"
  shows "parse_from (format_literal f v @ tail) segs literal = parse_from tail segs (literal @ v)"
  using assms
proof (induction v arbitrary: literal)
  case (Cons c w)
  let ?T = "format_literal f w @ tail"
  have IH: "\<And>literal. parse_from ?T segs literal = parse_from tail segs (literal @ w)"
    using Cons ends_like_preset_Cons by blast
  consider (slash) "c = CHR ''/''" "\<not> needs_slash_escape w"
    | (bs) "c = bslash" "format_char f c w = [bslash]"
    | (esc) c' where "format_char f c w = [c', c]" "read_escape c' (c # ?T) = Some (c, ?T)"
    | (plain) "format_char f c w = [c]" "c \<notin> {CHR ''/'', bslash, CHR ''{'', CHR ''}'', CHR ''[''}"
    using format_char_cases [of c w f ?T] by blast
  then show ?case
  proof cases
    case slash
    then have "read_segment c ?T = None"
      using Cons.prems by (simp add: slash_stays_literal)
    with slash IH show ?thesis by (simp add: format_char_def read_escape_slash)
  next
    case bs
    have "read_escape bslash ?T = None"
    proof (rule read_escape_bslash_none)
      fix n r assume T: "?T = n # r"
      show "\<not> is_escapable n"
      proof (cases w)
        case Nil
        with bs have "\<not> f" by (auto simp: format_char_def split: if_splits)
        with Cons.prems(1) T Nil show ?thesis by (simp add: tail_ok_def)
      next
        case (Cons m w')
        with bs have "\<not> is_escapable m" by (auto simp: format_char_def split: if_splits)
        with Cons T show ?thesis using format_literal_head by metis
      qed
    qed
    with bs IH show ?thesis by (simp add: read_segment_other)
  next
    case esc
    with IH show ?thesis by simp
  next
    case plain
    with IH show ?thesis by (simp add: read_escape_other read_segment_other)
  qed
qed simp

lemma segments_tail_ok:
  "segs \<noteq> [] \<Longrightarrow> \<not> is_literal (hd segs) \<Longrightarrow> tail_ok True (format_segments segs)"
  by (cases segs; cases "hd segs") (auto simp: tail_ok_def)

lemma segments_tail_slash:
  "segs \<noteq> [] \<Longrightarrow> \<not> is_literal (hd segs) \<Longrightarrow> hd (format_segments segs) = CHR ''/'' \<Longrightarrow>
     is_preset (hd segs)"
  by (cases segs; cases "hd segs") auto

lemma preset_clear_tl: "preset_clear (s # segs) \<Longrightarrow> preset_clear segs"
  by (cases s; cases segs; cases "hd segs") auto

lemma preset_clear_literal:
  "preset_clear (Literal v # segs) \<Longrightarrow> segs \<noteq> [] \<Longrightarrow> is_preset (hd segs) \<Longrightarrow> \<not> ends_like_preset v"
  by (cases segs; cases "hd segs") auto

lemma canonical_segments_Cons:
  "canonical_segments (s # segs) \<longleftrightarrow>
     segment_ok s \<and> canonical_segments segs \<and>
     (segs \<noteq> [] \<longrightarrow> \<not> (is_literal s \<and> is_literal (hd segs)))"
  by (cases segs) (auto simp: canonical_segments_def)

text \<open>
  Parsing the printed segments, with the literal read so far still pending: it is flushed before the
  first segment that is not a literal.
\<close>

lemma parse_format_segments:
  assumes "canonical_segments segs" "preset_clear segs"
    and "literal \<noteq> [] \<longrightarrow> (segs \<noteq> [] \<longrightarrow> \<not> is_literal (hd segs))"
  shows "parse_from (format_segments segs) acc literal = flush_literal acc literal @ segs"
  using assms
proof (induction segs arbitrary: acc literal)
  case (Cons s segs)
  have c: "canonical_segments segs" "preset_clear segs" and ok: "segment_ok s"
    using Cons.prems preset_clear_tl by (auto simp: canonical_segments_Cons)
  note IH = Cons.IH [OF c]
  show ?case
  proof (cases s)
    case (Literal v)
    with Cons.prems(3) have l: "literal = []" by auto
    have next_ok: "segs \<noteq> [] \<longrightarrow> \<not> is_literal (hd segs)"
      using Cons.prems(1) Literal by (auto simp: canonical_segments_Cons)
    have "parse_from (format_literal (segs \<noteq> []) v @ format_segments segs) acc [] =
        parse_from (format_segments segs) acc ([] @ v)"
    proof (rule parse_literal)
      show "tail_ok (segs \<noteq> []) (format_segments segs)"
        using next_ok segments_tail_ok [of segs] by (cases "segs = []") (auto simp: tail_ok_def)
      show "format_segments segs \<noteq> [] \<and> hd (format_segments segs) = CHR ''/'' \<longrightarrow>
          \<not> ends_like_preset v"
        using next_ok Cons.prems(2) Literal segments_tail_slash preset_clear_literal
        by (cases "segs = []") auto
    qed
    with IH [of v acc] next_ok ok Literal l show ?thesis by (simp add: flush_literal_def)
  next
    case (Token name)
    with ok IH [of "[]"] show ?thesis
      by (simp add: read_escape_token read_segment_token flush_literal_def)
  next
    case (Transform name)
    then have "read_segment (CHR ''['') (name @ CHR '']'' # format_segments segs) =
        Some (Transform name, format_segments segs)"
      using ok read_segment_transform by blast
    with Transform IH [of "[]"] show ?thesis
      by (simp add: read_escape_other flush_literal_def)
  next
    case (RegexPreset name)
    then have "read_segment (CHR ''/'') (name @ CHR ''/'' # format_segments segs) =
        Some (RegexPreset name, format_segments segs)"
      using ok read_segment_preset by blast
    with RegexPreset IH [of "[]"] show ?thesis
      by (simp add: read_escape_slash flush_literal_def)
  qed
qed simp

lemma canonical_segments_snoc:
  "canonical_segments (segs @ [s]) \<longleftrightarrow>
     segment_ok s \<and> canonical_segments segs \<and> \<not> (segs \<noteq> [] \<and> is_literal (last segs) \<and> is_literal s)"
  by (auto simp: canonical_segments_def successively_snoc)

lemma canonical_flush:
  "canonical_segments segs \<Longrightarrow> segs = [] \<or> \<not> is_literal (last segs) \<Longrightarrow>
     canonical_segments (flush_literal segs literal)"
  by (auto simp: flush_literal_def canonical_segments_snoc)

lemma parse_from_canonical:
  "canonical_segments segs \<Longrightarrow> segs = [] \<or> \<not> is_literal (last segs) \<Longrightarrow>
     canonical_segments (parse_from s segs literal)"
proof (induction s segs literal rule: parse_from.induct)
  case (1 segs literal)
  then show ?case by (simp add: canonical_flush)
next
  case (2 ch rest segs literal)
  show ?case
  proof (cases "read_escape ch rest")
    case None
    show ?thesis
    proof (cases "read_segment ch rest")
      case None
      with \<open>read_escape ch rest = None\<close> 2 show ?thesis by simp
    next
      case (Some p)
      then obtain seg "next" where p: "read_segment ch rest = Some (seg, next)" by (cases p) auto
      then have "canonical_segments (flush_literal segs literal @ [seg])"
        using 2 read_segment_ok [OF p] by (simp add: canonical_segments_snoc canonical_flush)
      with 2(2) [OF None p] None p read_segment_ok [OF p] show ?thesis by simp
    qed
  next
    case (Some p)
    with 2 show ?thesis by (cases p) simp
  qed
qed

section \<open>Properties\<close>

text \<open>
  C4. The round trip of the display syntax: printing a canonical pipeline and parsing the text gives
  the pipeline back, segment by segment, whatever the literals hold (backslashes, braces, brackets,
  slashes around preset names, line breaks), provided no literal that ends in a slash and a preset's
  name stands right before a preset.
\<close>

theorem parse_format_round_trip:
  assumes "canonical_segments (segments p)" "preset_clear (segments p)"
  shows "parse_template (format_template p) = (p :: template_pipeline)"
  using parse_format_segments [OF assms, of "[]" "[]"]
  by (cases p) (simp add: parse_template_def format_template_def flush_literal_def)

theorem parse_format_round_trip_witness:
  "parse_template (format_template
     \<lparr>segments = [Literal ''[a] {b}'', Token ''stem'', Literal ''x/y'', RegexPreset ''digits_only'']\<rparr>) =
     \<lparr>segments = [Literal ''[a] {b}'', Token ''stem'', Literal ''x/y'', RegexPreset ''digits_only'']\<rparr>"
proof (rule parse_format_round_trip)
  have "normalize_identifier ''digits_only'' = ''digits_only''"
    by (rule normalize_canonical_id)
      (simp add: canonical_ident_def ident_body_def char_class_defs code_def)
  then show "canonical_segments (segments
     \<lparr>segments = [Literal ''[a] {b}'', Token ''stem'', Literal ''x/y'', RegexPreset ''digits_only'']\<rparr>)"
    by (simp add: canonical_segments_def is_known_regex_preset_def known_presets_def
        is_identifier_def ident_char_def char_class_defs code_def)
  show "preset_clear (segments
     \<lparr>segments = [Literal ''[a] {b}'', Token ''stem'', Literal ''x/y'', RegexPreset ''digits_only'']\<rparr>)"
    by (simp add: ends_like_preset_def is_known_regex_preset_def known_presets_def
        is_identifier_def normalize_identifier_def normalize_step_def trim_def trim_by_def
        trim_end_by_def char_class_defs code_def ends_with_def to_lower_def ident_char_def)
qed

text \<open>
  Whatever the text, the parser's result is canonical: no empty literal, no two literals side by
  side, every token an identifier, every transform and preset one the evaluator knows.
\<close>

theorem parse_template_canonical: "canonical_segments (segments (parse_template s))"
  using parse_from_canonical [of "[]" s "[]"]
  by (simp add: parse_template_def) (simp add: canonical_segments_def)

text \<open>
  The exception in the round trip is real: in the text \<open>\/remove_digits/strip_special/\<close> the first
  slash is escaped, so the text is a literal and a preset, but the printer drops the escape (it looks
  for a closing slash in the literal only) and the printed text is read as the other preset and a
  literal. Saving and reopening the template changes what it does.
\<close>

theorem reformat_changes_template:
  "parse_template (bslash # ''/remove_digits/strip_special/'') =
     \<lparr>segments = [Literal ''/remove_digits'', RegexPreset ''strip_special'']\<rparr> \<and>
   format_template \<lparr>segments = [Literal ''/remove_digits'', RegexPreset ''strip_special'']\<rparr> =
     ''/remove_digits/strip_special/'' \<and>
   parse_template ''/remove_digits/strip_special/'' =
     \<lparr>segments = [RegexPreset ''remove_digits'', Literal ''strip_special/'']\<rparr>"
proof -
  have k: "is_known_regex_preset ''strip_special''" "is_known_regex_preset ''remove_digits''"
    unfolding is_known_regex_preset_def
    by (subst normalize_canonical_id;
        simp add: canonical_ident_def ident_body_def char_class_defs code_def known_presets_def)+
  have i: "is_identifier ''strip_special''" "is_identifier ''remove_digits''"
    by (simp_all add: is_identifier_def ident_char_def char_class_defs code_def)
  show ?thesis
    using k i
    by (simp add: parse_template_def format_template_def read_escape_def is_escapable_def
        read_segment_def flush_literal_def format_char_def needs_slash_escape_def code_def)
qed

text \<open>
  A backslash before a brace is not an escape, although the parser's documentation lists it as
  one: the backslash stays in the text and the braces still make a token.
\<close>

theorem backslash_brace_is_token:
  "parse_template (bslash # ''{stem}'') = \<lparr>segments = [Literal [bslash], Token ''stem'']\<rparr>"
  by (simp add: parse_template_def read_escape_def is_escapable_def read_segment_def
      flush_literal_def is_identifier_def ident_char_def char_class_defs code_def)

end
