(* ===== verification/Path_Policy.thy ===== *)
theory Path_Policy
  imports Tokenizer
begin

text \<open>
  Names and paths a plan may touch, \<open>crates/autoflow-domain/src/path_policy.rs\<close>, for the POSIX
  target (\<open>MAIN_SEPARATOR\<close> is the slash and a path is absolute when it starts with one). The
  file system's canonicalisation (\<open>dunce::canonicalize\<close>) is the parameter \<open>canon\<close>, an option: \<open>None\<close>
  is its error.
\<close>

section \<open>Validation\<close>

definition validate_file_name :: "string \<Rightarrow> string + unit" where
  "validate_file_name name =
     (if name = [] then Inl ''file name is empty''
      else if name = ''.'' \<or> name = ''..'' then Inl (''invalid file name: '' @ name)
      else if length name > 255 then Inl (''file name is too long: '' @ name)
      else if ends_with name (CHR ''.'') \<or> ends_with name (CHR '' '')
      then Inl (''file name cannot end with a dot or space: '' @ name)
      else if list_ex is_control name then Inl (''file name contains control characters: '' @ name)
      else if list_ex (\<lambda>ch. ch \<in> set windows_invalid) name
      then Inl (''file name contains invalid characters: '' @ name)
      else if name_stem name \<in> set windows_reserved
      then Inl (''file name is reserved on Windows: '' @ name)
      else Inr ())"

fun validate_components :: "string \<Rightarrow> string list \<Rightarrow> string + unit" where
  "validate_components path [] = Inr ()"
| "validate_components path (component # rest) =
     (if component = [] \<or> component = ''.'' then validate_components path rest
      else if component = ''..'' then Inl (''relative path escapes the root: '' @ path)
      else rbind (validate_file_name component) (\<lambda>_. validate_components path rest))"

definition validate_relative_path :: "string \<Rightarrow> string + unit" where
  "validate_relative_path path =
     (let normalized = replace_char bslash (CHR ''/'') (trim path) in
      if normalized \<noteq> [] \<and> hd normalized = CHR ''/''
      then Inl (''path must be relative: '' @ path)
      else
        (let stripped = trim_by (\<lambda>c. c = CHR ''/'') normalized in
         if stripped = [] then Inl ''relative path is empty''
         else if length stripped > 4096 then Inl ''relative path is too long''
         else validate_components path (split_on (CHR ''/'') stripped)))"

section \<open>Paths\<close>

text \<open>
  \<open>Path::components\<close>: empty components and inner dots disappear; two paths are equal when their
  components are.
\<close>

datatype component = RootDir | CurDir | Normal string

definition path_components :: "string \<Rightarrow> component list" where
  "path_components p =
     (let parts = split_on (CHR ''/'') p;
          names = map Normal (filter (\<lambda>c. c \<noteq> [] \<and> c \<noteq> ''.'') parts)
      in if p \<noteq> [] \<and> hd p = CHR ''/'' then RootDir # names
         else if hd parts = ''.'' then CurDir # names
         else names)"

definition path_eq :: "string \<Rightarrow> string \<Rightarrow> bool" where
  "path_eq p q \<longleftrightarrow> path_components p = path_components q"

definition path_join :: "string \<Rightarrow> string \<Rightarrow> string" where
  "path_join base rel =
     (if rel \<noteq> [] \<and> hd rel = CHR ''/'' then rel
      else if base = [] \<or> last base = CHR ''/'' then base @ rel
      else base @ ''/'' @ rel)"

definition normalize_path :: "(string \<Rightarrow> string option) \<Rightarrow> string \<Rightarrow> string" where
  "normalize_path canon path = (case canon path of Some p \<Rightarrow> p | None \<Rightarrow> path)"

definition starts_with :: "string \<Rightarrow> string \<Rightarrow> bool" where
  "starts_with s p \<longleftrightarrow> take (length p) s = p"

definition is_path_under_root :: "(string \<Rightarrow> string option) \<Rightarrow> string \<Rightarrow> string \<Rightarrow> bool" where
  "is_path_under_root canon path0 root0 =
     (let path = normalize_path canon path0; root = normalize_path canon root0 in
      if path_eq path root then True
      else
        (let pre = (if \<not> ends_with root (CHR ''/'') then root @ ''/'' else root)
         in starts_with path pre))"

definition is_path_authorized :: "(string \<Rightarrow> string option) \<Rightarrow> string \<Rightarrow> string list \<Rightarrow> bool" where
  "is_path_authorized canon path roots = list_ex (is_path_under_root canon path) roots"

text \<open>
  Lexical resolution of a component list, the reference the path properties are stated against: a
  name enters a directory and \<open>..\<close> leaves it.
\<close>

fun resolve_from :: "string list \<Rightarrow> component list \<Rightarrow> string list" where
  "resolve_from stack [] = stack"
| "resolve_from stack (Normal n # cs) =
     (if n = ''..'' then resolve_from (butlast stack) cs else resolve_from (stack @ [n]) cs)"
| "resolve_from stack (_ # cs) = resolve_from stack cs"

definition resolve :: "string \<Rightarrow> string list" where
  "resolve p = resolve_from [] (path_components p)"

section \<open>Lemmas: file names\<close>

lemma validate_file_name_ok_iff:
  "validate_file_name name = Inr () \<longleftrightarrow>
     name \<noteq> [] \<and> name \<noteq> ''.'' \<and> name \<noteq> ''..'' \<and> length name \<le> 255 \<and>
     last name \<noteq> CHR ''.'' \<and> last name \<noteq> CHR '' '' \<and>
     (\<forall>c \<in> set name. \<not> is_control c \<and> c \<notin> set windows_invalid) \<and>
     name_stem name \<notin> set windows_reserved"
  by (auto simp: validate_file_name_def ends_with_def list_ex_iff)

lemma underscore_plain [simp]:
  "CHR ''_'' \<notin> set windows_invalid" "\<not> is_control (CHR ''_'')"
  by (simp_all add: windows_invalid_def is_control_def code_def)

lemma name_stem_underscore: "\<exists>r. name_stem (CHR ''_'' # n) = CHR ''_'' # r"
proof -
  have "hd (split_on (CHR ''.'') (CHR ''_'' # n)) = CHR ''_'' # hd (split_on (CHR ''.'') n)"
    by (simp add: hd_split_on del: split_on.simps)
  moreover have "trim (CHR ''_'' # t) \<noteq> [] \<and> hd (trim (CHR ''_'' # t)) = CHR ''_''" for t
    using trim_end_by_hd [of "CHR ''_'' # t" is_ws]
    by (simp add: trim_def trim_by_def trim_end_by_eq_Nil)
  moreover have "to_upper (CHR ''_'') = CHR ''_''"
    by (simp add: to_upper_def is_lower_def code_def)
  ultimately show ?thesis
    by (metis list.collapse list.simps(9) name_stem_def uppercase_def)
qed

lemma reserved_not_underscore: "CHR ''_'' # r \<notin> set windows_reserved"
  by (simp add: windows_reserved_def)

lemma sanitize_map_plain:
  "\<forall>c \<in> set (map (\<lambda>c. if c \<in> set windows_invalid \<or> is_control c then CHR ''_'' else c) s).
     \<not> is_control c \<and> c \<notin> set windows_invalid"
  by auto

lemma file_valid: "validate_file_name ''file'' = Inr ()"
proof -
  have "name_stem ''file'' = ''FILE''" by code_simp
  then show ?thesis
    by (simp add: validate_file_name_ok_iff windows_reserved_def windows_invalid_def is_control_def
        code_def)
qed

lemma sanitize_valid:
  assumes "length (sanitize_windows_filename s) \<le> 255"
  shows "validate_file_name (sanitize_windows_filename s) = Inr ()"
proof -
  let ?m = "map (\<lambda>c. if c \<in> set windows_invalid \<or> is_control c then CHR ''_'' else c) s"
  define out where "out = trim_end_by (\<lambda>c. c = CHR ''.'' \<or> c = CHR '' '') ?m"
  have plain: "\<forall>c \<in> set out. \<not> is_control c \<and> c \<notin> set windows_invalid"
    using sanitize_map_plain [of s] set_trim_end_by unfolding out_def by blast
  have last: "out \<noteq> [] \<Longrightarrow> last out \<noteq> CHR ''.'' \<and> last out \<noteq> CHR '' ''"
    using trim_end_by_last unfolding out_def by blast
  have s: "sanitize_windows_filename s =
      (if out = [] then ''file''
       else if name_stem out \<in> set windows_reserved then CHR ''_'' # out else out)"
    by (simp only: sanitize_windows_filename_def out_def Let_def)
  show ?thesis
  proof (cases "out = []")
    case True
    with s file_valid show ?thesis by simp
  next
    case False
    with s plain last assms name_stem_underscore [of out] reserved_not_underscore show ?thesis
      by (auto simp: validate_file_name_ok_iff)
  qed
qed

lemma sanitize_id:
  assumes "validate_file_name n = Inr ()"
  shows "sanitize_windows_filename n = n"
proof -
  from assms have n: "n \<noteq> []" "last n \<noteq> CHR ''.''" "last n \<noteq> CHR '' ''"
      "\<forall>c \<in> set n. \<not> is_control c \<and> c \<notin> set windows_invalid"
      "name_stem n \<notin> set windows_reserved"
    by (auto simp: validate_file_name_ok_iff)
  then have "map (\<lambda>c. if c \<in> set windows_invalid \<or> is_control c then CHR ''_'' else c) n = n"
    by (simp add: map_idI)
  with n show ?thesis
    by (simp add: sanitize_windows_filename_def trim_end_by_id)
qed

section \<open>Lemmas: relative paths\<close>

lemma split_on_append_sep: "split_on c (a @ c # b) = split_on c a @ split_on c b"
  by (induction a) (auto split: list.splits)

lemma join_with_snoc: "join_with sep (ws @ [w]) = (if ws = [] then w else join_with sep ws @ sep @ w)"
proof (induction ws)
  case (Cons v ws)
  then show ?case by (cases ws) auto
qed simp

lemma rev_join_with: "rev (join_with [c] ws) = join_with [c] (rev (map rev ws))"
proof (induction ws)
  case (Cons w ws)
  show ?case
  proof (cases "ws = []")
    case False
    then have "join_with [c] (w # ws) = w @ [c] @ join_with [c] ws" by (cases ws) auto
    with Cons False show ?thesis by (simp add: join_with_snoc)
  qed simp
qed simp

lemma split_on_rev: "split_on c (rev s) = rev (map rev (split_on c s))"
proof -
  have "rev s = join_with [c] (rev (map rev (split_on c s)))"
    using rev_join_with [of c "split_on c s"] by (simp add: join_split_on)
  moreover have "split_on c (join_with [c] (rev (map rev (split_on c s)))) = rev (map rev (split_on c s))"
    by (rule split_on_join) (auto dest: split_on_no_sep)
  ultimately show ?thesis by simp
qed

lemma split_on_dropWhile:
  "w \<in> set (split_on c s) \<Longrightarrow> w \<noteq> [] \<Longrightarrow> \<not> P (hd w) \<Longrightarrow> w \<in> set (split_on c (dropWhile P s))"
proof (induction s)
  case (Cons x s)
  show ?case
  proof (cases "P x")
    case True
    with Cons.prems have "w \<in> set (split_on c s)"
      by (auto split: if_splits list.splits)
    with Cons True show ?thesis by simp
  qed (use Cons.prems in simp)
qed simp

lemma split_on_trim_end_by:
  assumes "w \<in> set (split_on c s)" "w \<noteq> []" "\<not> P (last w)"
  shows "w \<in> set (split_on c (trim_end_by P s))"
proof -
  have "rev w \<in> set (split_on c (rev s))"
    using assms(1) by (auto simp: split_on_rev)
  then have "rev w \<in> set (split_on c (dropWhile P (rev s)))"
    using assms(2,3) by (intro split_on_dropWhile) (auto simp: hd_rev)
  then have "rev (rev w) \<in> rev ` set (split_on c (dropWhile P (rev s)))" by (rule imageI)
  then show ?thesis
    by (simp add: trim_end_by_def split_on_rev)
qed

lemma split_on_trim_by:
  "w \<in> set (split_on c s) \<Longrightarrow> w \<noteq> [] \<Longrightarrow> \<not> P (hd w) \<Longrightarrow> \<not> P (last w) \<Longrightarrow>
     w \<in> set (split_on c (trim_by P s))"
  by (simp add: trim_by_def split_on_dropWhile split_on_trim_end_by)

lemma split_on_Cons_other: "x \<noteq> c \<Longrightarrow> split_on c (x # s) = (x # hd (split_on c s)) # tl (split_on c s)"
  by (cases "split_on c s") auto

lemma split_on_replace_aux:
  "b \<noteq> c \<Longrightarrow>
   (b \<notin> set (hd (split_on c s)) \<longrightarrow> hd (split_on c (replace_char b c s)) = hd (split_on c s)) \<and>
   (\<forall>w \<in> set (tl (split_on c s)). b \<notin> set w \<longrightarrow> w \<in> set (tl (split_on c (replace_char b c s))))"
proof (induction s)
  case (Cons x s)
  let ?r = "replace_char b c s"
  have in_r: "w \<in> set (split_on c s) \<Longrightarrow> b \<notin> set w \<Longrightarrow> w \<in> set (split_on c ?r)" for w
    using Cons by (cases "split_on c s"; cases "split_on c ?r") auto
  consider "x = c" | "x = b" "x \<noteq> c" | "x \<noteq> b" "x \<noteq> c" by blast
  then show ?case
  proof cases
    case 1
    with in_r Cons.prems show ?thesis by (simp add: replace_char_def)
  next
    case 2
    have "\<forall>w \<in> set (tl (split_on c s)). b \<notin> set w \<longrightarrow> w \<in> set (split_on c ?r)"
      using in_r by (meson list.set_sel(2) split_on_not_Nil)
    moreover have "split_on c (replace_char b c (x # s)) = [] # split_on c ?r"
      using 2 by (simp add: replace_char_def)
    moreover have "split_on c (x # s) = (x # hd (split_on c s)) # tl (split_on c s)"
      using 2 by (intro split_on_Cons_other) simp
    ultimately show ?thesis using 2 by (metis list.sel(1,3) list.set_intros(1))
  next
    case 3
    with Cons show ?thesis
      by (simp add: replace_char_def split_on_Cons_other del: split_on.simps)
  qed
qed (simp add: replace_char_def)

lemma split_on_replace:
  "b \<noteq> c \<Longrightarrow> w \<in> set (split_on c s) \<Longrightarrow> b \<notin> set w \<Longrightarrow> w \<in> set (split_on c (replace_char b c s))"
  using split_on_replace_aux [of b c s]
  by (cases "split_on c s"; cases "split_on c (replace_char b c s)") auto

lemma validate_components_ok:
  "validate_components path cs = Inr () \<Longrightarrow>
     ''..'' \<notin> set cs \<and> (\<forall>c \<in> set cs. c \<noteq> [] \<and> c \<noteq> ''.'' \<longrightarrow> validate_file_name c = Inr ())"
  by (induction cs) (auto simp: result_simps split: if_splits)

lemma validated_no_dotdot:
  assumes "validate_relative_path path = Inr ()"
  shows "''..'' \<notin> set (split_on (CHR ''/'') path)"
proof
  assume d: "''..'' \<in> set (split_on (CHR ''/'') path)"
  let ?n = "replace_char bslash (CHR ''/'') (trim path)"
  let ?s = "trim_by (\<lambda>c. c = CHR ''/'') ?n"
  from d have "''..'' \<in> set (split_on (CHR ''/'') (trim path))"
    unfolding trim_def by (rule split_on_trim_by) (simp_all add: is_ws_def code_def)
  then have "''..'' \<in> set (split_on (CHR ''/'') ?n)"
    by (intro split_on_replace) auto
  then have "''..'' \<in> set (split_on (CHR ''/'') ?s)"
    by (rule split_on_trim_by) auto
  with assms show False
    by (auto simp: validate_relative_path_def Let_def dest: validate_components_ok split: if_splits)
qed

lemma validated_relative:
  assumes "validate_relative_path path = Inr ()"
  shows "path \<noteq> [] \<and> hd path \<noteq> CHR ''/''"
proof -
  have "path \<noteq> []"
    using assms by (auto simp: validate_relative_path_def replace_char_def)
  moreover have False if h: "hd path = CHR ''/''"
  proof -
    from \<open>path \<noteq> []\<close> h have "dropWhile is_ws path = path"
      by (cases path) (auto simp: is_ws_def code_def)
    moreover have "trim_end_by is_ws path \<noteq> []"
      using \<open>path \<noteq> []\<close> h by (cases path) (auto simp: trim_end_by_eq_Nil is_ws_def code_def)
    ultimately have "trim path \<noteq> [] \<and> hd (trim path) = CHR ''/''"
      using trim_end_by_hd [OF \<open>path \<noteq> []\<close>] h by (simp add: trim_def trim_by_def)
    with assms show False
      by (cases "trim path") (auto simp: validate_relative_path_def replace_char_def Let_def)
  qed
  ultimately show ?thesis by blast
qed

section \<open>Lemmas: resolution\<close>

definition plain :: "string list \<Rightarrow> string list" where
  "plain cs = filter (\<lambda>c. c \<noteq> [] \<and> c \<noteq> ''.'') cs"

lemma plain_append [simp]: "plain (a @ b) = plain a @ plain b"
  by (simp add: plain_def)

lemma resolve_plain: "resolve p = resolve_from [] (map Normal (plain (split_on (CHR ''/'') p)))"
  by (auto simp: resolve_def path_components_def plain_def Let_def)

lemma resolve_from_append: "resolve_from st (a @ b) = resolve_from (resolve_from st a) b"
  by (induction st a rule: resolve_from.induct) auto

lemma resolve_from_down:
  "''..'' \<notin> set names \<Longrightarrow> resolve_from st (map Normal names) = st @ names"
  by (induction names arbitrary: st) auto

lemma resolve_from_join:
  assumes "rel = [] \<or> hd rel \<noteq> CHR ''/''"
  shows "resolve (path_join base rel) =
           resolve_from (resolve base) (map Normal (plain (split_on (CHR ''/'') rel)))"
proof -
  consider "base = []" | b where "base = b @ ''/''" | "base \<noteq> []" "last base \<noteq> CHR ''/''"
    by (metis append_butlast_last_id)
  then show ?thesis
  proof cases
    case 1
    with assms show ?thesis by (auto simp: path_join_def resolve_plain plain_def)
  next
    case 2
    with assms show ?thesis
      by (auto simp: path_join_def resolve_plain split_on_append_sep plain_def
          resolve_from_append [symmetric])
  next
    case 3
    with assms show ?thesis
      by (auto simp: path_join_def resolve_plain split_on_append_sep
          resolve_from_append [symmetric])
  qed
qed

section \<open>Lemmas: authorised roots\<close>

definition abs_path :: "string list \<Rightarrow> string" where
  "abs_path names = CHR ''/'' # join_with ''/'' names"

definition good_names :: "string list \<Rightarrow> bool" where
  "good_names names \<longleftrightarrow> list_all (\<lambda>n. n \<noteq> [] \<and> n \<noteq> ''.'' \<and> CHR ''/'' \<notin> set n) names"

lemma path_components_abs_path:
  assumes "good_names names"
  shows "path_components (abs_path names) = RootDir # map Normal names"
proof (cases "names = []")
  case False
  with assms have "split_on (CHR ''/'') (abs_path names) = [] # names"
    by (simp add: abs_path_def good_names_def list_all_iff split_on_join)
  with assms show ?thesis
    by (simp add: path_components_def good_names_def list_all_iff abs_path_def filter_id_conv)
qed (simp add: path_components_def abs_path_def)

lemma abs_path_not_Nil [simp]: "abs_path ns \<noteq> []"
  by (simp add: abs_path_def)

lemma join_with_append:
  "ms \<noteq> [] \<Longrightarrow> ns \<noteq> [] \<Longrightarrow> join_with sep (ms @ ns) = join_with sep ms @ sep @ join_with sep ns"
proof (induction ms)
  case (Cons m ms)
  then show ?case by (cases ms; cases ns) auto
qed simp

lemma starts_with_iff: "starts_with s p \<longleftrightarrow> (\<exists>t. s = p @ t)"
  by (metis append_eq_conv_conj append_take_drop_id starts_with_def)

lemma path_components_append:
  "path_components (base @ CHR ''/'' # rest) =
     (if base = [] then [RootDir] else path_components base)
       @ map Normal (plain (split_on (CHR ''/'') rest))"
proof (cases "base = []")
  case False
  define bs where "bs = split_on (CHR ''/'') base"
  have "split_on (CHR ''/'') (base @ CHR ''/'' # rest) = bs @ split_on (CHR ''/'') rest" "bs \<noteq> []"
    by (simp_all add: bs_def split_on_append_sep)
  with False show ?thesis
    by (simp add: path_components_def plain_def Let_def flip: bs_def)
qed (simp add: path_components_def plain_def)

lemma under_root_components:
  assumes "is_path_under_root canon path root" "normalize_path canon root \<noteq> []"
  shows "prefix (path_components (normalize_path canon root))
           (path_components (normalize_path canon path))"
proof -
  let ?p = "normalize_path canon path" and ?r = "normalize_path canon root"
  consider "path_eq ?p ?r" | t where "?p = ?r @ t" "ends_with ?r (CHR ''/'')"
    | t where "?p = ?r @ CHR ''/'' # t"
    using assms(1) by (auto simp: is_path_under_root_def Let_def starts_with_iff split: if_splits)
  then show ?thesis
  proof cases
    case 2
    then obtain b where "?r = b @ [CHR ''/'']"
      by (metis append_butlast_last_id ends_with_def)
    with 2 show ?thesis
      using path_components_append [of b t] path_components_append [of b "[]"]
      by (simp add: plain_def)
  qed (use assms(2) path_components_append in \<open>auto simp: path_eq_def\<close>)
qed

lemma abs_path_prefix_iff:
  assumes "good_names ms" "good_names ns"
  shows "is_path_under_root (\<lambda>p. Some p) (abs_path ns) (abs_path ms) \<longleftrightarrow> prefix ms ns"
proof
  assume "is_path_under_root (\<lambda>p. Some p) (abs_path ns) (abs_path ms)"
  from under_root_components [OF this, unfolded normalize_path_def option.case, OF abs_path_not_Nil]
  have "prefix (map Normal ms) (map Normal ns)"
    using assms by (simp add: normalize_path_def path_components_abs_path abs_path_not_Nil)
  then show "prefix ms ns"
    by (metis component.inject injI prefix_map_rightE map_injective)
next
  assume "prefix ms ns"
  then obtain r where "ns = ms @ r" by (auto simp: prefix_def)
  then show "is_path_under_root (\<lambda>p. Some p) (abs_path ns) (abs_path ms)"
    using join_with_append [of ms r "''/''"]
    by (cases "ms = []"; cases "r = []")
      (auto simp: is_path_under_root_def normalize_path_def path_eq_def starts_with_iff abs_path_def
        Let_def ends_with_def)
qed

section \<open>Properties\<close>

text \<open>
  \<open>sanitize_windows_filename\<close> produces a name \<open>validate_file_name\<close> accepts, as long as the
  result is not longer than 255 bytes, and it leaves an already valid name alone; so sanitizing is
  idempotent.
\<close>

lemma sanitized_name_is_valid:
  assumes "length (sanitize_windows_filename s) \<le> 255"
  shows "validate_file_name (sanitize_windows_filename s) = Inr () \<and>
         sanitize_windows_filename (sanitize_windows_filename s) = sanitize_windows_filename s"
  using sanitize_valid [OF assms] sanitize_id by blast

lemma sanitized_name_is_valid_witness:
  "sanitize_windows_filename ''con.txt '' = ''_con.txt'' \<and>
   validate_file_name (sanitize_windows_filename ''con.txt '') = Inr () \<and>
   sanitize_windows_filename (sanitize_windows_filename ''con.txt '')
     = sanitize_windows_filename ''con.txt ''"
proof -
  have e: "sanitize_windows_filename ''con.txt '' = ''_con.txt''" by code_simp
  then have "length (sanitize_windows_filename ''con.txt '') \<le> 255" by simp
  from sanitized_name_is_valid [OF this] e show ?thesis by blast
qed

text \<open>
  C5. A relative path that validates never escapes: joined to any root, its lexical resolution lies
  in the root's directory, whatever slashes, backslashes, dots and blanks the text holds, and
  every component that names something is a portable file name.
\<close>

theorem validated_path_stays_under_root:
  assumes "validate_relative_path rel = Inr ()"
  shows "prefix (resolve root) (resolve (path_join root rel))"
proof -
  have "''..'' \<notin> set (plain (split_on (CHR ''/'') rel))"
    using validated_no_dotdot [OF assms] by (simp add: plain_def)
  then show ?thesis
    using resolve_from_join [of rel root] validated_relative [OF assms]
    by (simp add: resolve_from_down)
qed

theorem validated_path_stays_under_root_witness:
  "resolve (path_join ''/data'' ''docs/report..v2.pdf'') = [''data'', ''docs'', ''report..v2.pdf''] \<and>
   prefix (resolve ''/data'') (resolve (path_join ''/data'' ''docs/report..v2.pdf''))"
proof
  show "resolve (path_join ''/data'' ''docs/report..v2.pdf'') = [''data'', ''docs'', ''report..v2.pdf'']"
    by code_simp
  have "validate_relative_path ''docs/report..v2.pdf'' = Inr ()" by code_simp
  then show "prefix (resolve ''/data'') (resolve (path_join ''/data'' ''docs/report..v2.pdf''))"
    by (rule validated_path_stays_under_root)
qed

text \<open>
  On canonical paths \<open>is_path_authorized\<close> is exactly containment by whole components: a sibling
  whose name merely extends the root's (\<open>/base\<close> and \<open>/basement\<close>) is never accepted, and every
  descendant is.
\<close>

lemma authorized_iff_component_prefix:
  assumes "good_names ns" "list_all good_names rs"
  shows "is_path_authorized (\<lambda>p. Some p) (abs_path ns) (map abs_path rs) \<longleftrightarrow>
           (\<exists>ms \<in> set rs. prefix ms ns)"
  using assms abs_path_prefix_iff by (auto simp: is_path_authorized_def list_ex_iff list_all_iff)

lemma authorized_iff_component_prefix_witness:
  "\<not> is_path_authorized (\<lambda>p. Some p) ''/basement/a'' [''/base'', ''/b''] \<and>
   is_path_authorized (\<lambda>p. Some p) ''/base/a'' [''/x'', ''/base'']"
proof -
  have g: "good_names [''basement'', ''a'']" "good_names [''base'', ''a'']"
    "list_all good_names [[''base''], [''b'']]" "list_all good_names [[''x''], [''base'']]"
    by (simp_all add: good_names_def)
  show ?thesis
    using authorized_iff_component_prefix [OF g(1,3)] authorized_iff_component_prefix [OF g(2,4)]
    by (simp add: abs_path_def)
qed

text \<open>
  The check is lexical when the path cannot be canonicalised, as for a target that is not
  created yet: \<open>normalize_path\<close> then keeps its \<open>..\<close> components, and a path that leaves the root is
  authorised.
\<close>

theorem uncreated_path_escapes_root:
  "is_path_authorized (\<lambda>p. if p = ''/data'' then Some p else None) ''/data/../etc/x'' [''/data''] \<and>
   \<not> prefix (resolve ''/data'') (resolve ''/data/../etc/x'')"
  by code_simp

end
