(* ===== verification/Domain_Types.thy ===== *)
theory Domain_Types
  imports Prelude
begin

text \<open>
  The types every crate shares: identifiers, the error type of
  \<open>crates/autoflow-domain/src/error.rs\<close>, the reports on executions (\<open>execution.rs\<close>) and floating-point numbers, which the code only stores and
  which are their bit patterns here. A UUID is a number; clocks
  are nanoseconds since the Unix epoch.
\<close>

type_synonym uuid = nat
type_synonym f64 = "64 word"
type_synonym timestamp = int

datatype domain_error =
    Validation string
  | SettingsError string
  | JobNotFound
  | BlueprintNotFound
  | JobDisabled
  | SourceNotFound string
  | AlreadyRunning
  | FolderOutOfPattern string
  | DatabaseError string
  | ExecutionNotFound

fun error_text :: "domain_error \<Rightarrow> string" where
  "error_text (Validation e) = ''validation failed: '' @ e"
| "error_text (SettingsError e) = ''settings store error: '' @ e"
| "error_text JobNotFound = ''job not found''"
| "error_text BlueprintNotFound = ''blueprint not found''"
| "error_text JobDisabled = ''job is disabled''"
| "error_text (SourceNotFound p) = ''source not found: '' @ p"
| "error_text AlreadyRunning = ''job already running''"
| "error_text (FolderOutOfPattern p) = ''folder does not match the folder plan: '' @ p"
| "error_text (DatabaseError e) = ''database error: '' @ e"
| "error_text ExecutionNotFound = ''execution not found''"

record execution_progress =
  ep_execution_id :: uuid
  ep_job_id :: uuid
  ep_job_name :: string
  ep_current_file :: string
  ep_percent :: f64
  ep_bytes_per_sec :: f64
  ep_recent_log :: "string list"

record execution_completed =
  ec_execution_id :: uuid
  ec_job_id :: uuid
  ec_success :: bool
  ec_processed :: "32 word"
  ec_failed :: "32 word"
  ec_error_message :: "string option"

record active_execution =
  ae_execution_id :: uuid
  ae_job_id :: uuid
  ae_job_name :: string
  ae_current_file :: string
  ae_percent :: f64
  ae_bytes_per_sec :: f64
  ae_recent_log :: "string list"

definition secs :: "int \<Rightarrow> timestamp" where
  "secs n = n * 1000000000"

text \<open>\<open>DateTime::from_timestamp(d.as_secs() as i64, 0)\<close> of a system time \<open>t\<close>, \<open>None\<close> before the epoch.\<close>

definition whole_seconds :: "timestamp \<Rightarrow> timestamp option" where
  "whole_seconds t = (if t < 0 then None else Some (secs (t div 1000000000)))"

end
