(* ===== verification/Paths.thy ===== *)
theory Paths
  imports Path_Policy Domain_Types
begin

text \<open>
  The parts of \<open>std::path::Path\<close> the crates use, on the components of \<open>Path_Policy\<close>, and the
  constructors of \<open>TokenContext\<close> that read a path (\<open>crates/autoflow-domain/src/tokenizer/mod.rs\<close>). A
  path is rebuilt from its components, so it may differ from Rust's text in repeated separators and
  inner dots, which \<open>Path\<close> ignores when it compares. Every string is valid UTF-8, so \<open>to_str\<close> succeeds.
\<close>

section \<open>Path operations\<close>

definition render :: "component list \<Rightarrow> string" where
  "render cs =
     (let names = map (\<lambda>c. case c of Normal n \<Rightarrow> n | _ \<Rightarrow> ''.'') (filter (\<lambda>c. c \<noteq> RootDir) cs) in
      if RootDir \<in> set cs then CHR ''/'' # join_with ''/'' names else join_with ''/'' names)"

definition file_name :: "string \<Rightarrow> string option" where
  "file_name p =
     (let cs = path_components p in
      if cs = [] then None
      else (case last cs of Normal n \<Rightarrow> if n = ''..'' then None else Some n | _ \<Rightarrow> None))"

definition path_parent :: "string \<Rightarrow> string option" where
  "path_parent p =
     (let cs = path_components p in
      if cs = [] \<or> last cs = RootDir then None else Some (render (butlast cs)))"

text \<open>\<open>rsplit_file_at_dot\<close>: a name without a dot, or with its only dot in front, has no extension.\<close>

definition rsplit_file_at_dot :: "string \<Rightarrow> string option \<times> string option" where
  "rsplit_file_at_dot name =
     (if name = ''..'' then (Some name, None)
      else
        (let parts = split_on (CHR ''.'') name; after = last parts;
             before = join_with ''.'' (butlast parts)
         in if length parts = 1 then (Some name, None)
            else if before = [] then (Some name, None)
            else (Some before, Some after)))"

definition file_stem :: "string \<Rightarrow> string option" where
  "file_stem p = (case file_name p of None \<Rightarrow> None | Some n \<Rightarrow> fst (rsplit_file_at_dot n))"

definition extension :: "string \<Rightarrow> string option" where
  "extension p = (case file_name p of None \<Rightarrow> None | Some n \<Rightarrow> snd (rsplit_file_at_dot n))"

definition strip_prefix :: "string \<Rightarrow> string \<Rightarrow> string option" where
  "strip_prefix p base =
     (let cs = path_components p; bs = path_components base in
      if prefix bs cs then Some (render (drop (length bs) cs)) else None)"

definition or_empty :: "string option \<Rightarrow> string" where
  "or_empty s = (case s of None \<Rightarrow> [] | Some x \<Rightarrow> x)"

definition parent_name :: "string option \<Rightarrow> string option" where
  "parent_name p = Option.bind p file_name"

section \<open>Token contexts\<close>

definition token_context_from_path ::
    "(string \<Rightarrow> string) \<Rightarrow> string \<Rightarrow> string \<Rightarrow> 64 word \<Rightarrow> 64 word \<Rightarrow> token_context" where
  "token_context_from_path now_format new_v4 path index counter =
     \<lparr>tc_original = or_empty (file_name path), tc_stem = or_empty (file_stem path),
      tc_ext = (case extension path of None \<Rightarrow> [] | Some e \<Rightarrow> CHR ''.'' # e),
      tc_parent = or_empty (parent_name (path_parent path)),
      tc_grandparent = or_empty (parent_name (Option.bind (path_parent path) path_parent)),
      tc_now_format = now_format, tc_counter = counter, tc_counter_formatted = [],
      tc_guid = new_v4, tc_index = index, tc_variables = (\<lambda>_. None)\<rparr>"

definition with_variables :: "(string \<Rightarrow> string option) \<Rightarrow> token_context \<Rightarrow> token_context" where
  "with_variables variables ctx = ctx\<lparr>tc_variables := variables\<rparr>"

definition token_context_from_path_with_root ::
    "(string \<Rightarrow> string) \<Rightarrow> string \<Rightarrow> string \<Rightarrow> string \<Rightarrow> 64 word \<Rightarrow> 64 word \<Rightarrow> token_context" where
  "token_context_from_path_with_root now_format new_v4 path root index counter =
     (let ctx = token_context_from_path now_format new_v4 path index counter in
      case strip_prefix path root of
        None \<Rightarrow> ctx
      | Some relative \<Rightarrow>
          ctx\<lparr>tc_parent := or_empty (parent_name (path_parent relative)),
              tc_grandparent := or_empty (parent_name (Option.bind (path_parent relative) path_parent))\<rparr>)"

definition token_context_for_directory ::
    "(string \<Rightarrow> string) \<Rightarrow> string \<Rightarrow> string \<Rightarrow> 64 word \<Rightarrow> 64 word \<Rightarrow> token_context" where
  "token_context_for_directory now_format new_v4 path index counter =
     (let ctx = token_context_from_path now_format new_v4 path index counter;
          original = or_empty (file_name path)
      in ctx\<lparr>tc_original := original, tc_stem := original, tc_ext := []\<rparr>)"

section \<open>Lemmas\<close>

lemma butlast_split_dot:
  assumes "length (split_on c s) \<noteq> 1"
  shows "join_with [c] (butlast (split_on c s)) @ c # last (split_on c s) = s"
proof -
  have ne: "butlast (split_on c s) \<noteq> []"
    using assms split_on_not_Nil [of c s] by (cases "split_on c s" rule: rev_cases) auto
  have "join_with [c] (butlast (split_on c s)) @ [c] @ last (split_on c s) =
      join_with [c] (butlast (split_on c s) @ [last (split_on c s)])"
    using ne by (simp only: join_with_snoc if_False)
  also have "\<dots> = join_with [c] (split_on c s)" by simp
  also have "\<dots> = s" by (rule join_split_on)
  finally show ?thesis by simp
qed

lemma rsplit_file_at_dot_append:
  "or_empty (fst (rsplit_file_at_dot n)) @
     (case snd (rsplit_file_at_dot n) of None \<Rightarrow> [] | Some e \<Rightarrow> CHR ''.'' # e) = n"
proof (cases "length (split_on (CHR ''.'') n) = 1")
  case False
  then have "join_with ''.'' (butlast (split_on (CHR ''.'') n)) @ CHR ''.'' # last (split_on (CHR ''.'') n) = n"
    by (rule butlast_split_dot)
  with False show ?thesis
    by (simp add: rsplit_file_at_dot_def or_empty_def Let_def)
qed (simp add: rsplit_file_at_dot_def or_empty_def Let_def)

section \<open>Properties\<close>

text \<open>
  In the context built from a path the stem and the extension together are the original name, so
  the template \<open>{stem}{ext}\<close> keeps every file name: names without a dot, hidden files, names with
  several dots and names that end in a dot.
\<close>

theorem stem_and_ext_give_original:
  "evaluate re \<lparr>segments = [Token ''stem'', Token ''ext'']\<rparr>
       (token_context_from_path now_format new_v4 path index counter)
     = Inr (tc_original (token_context_from_path now_format new_v4 path index counter))"
proof -
  let ?ctx = "token_context_from_path now_format new_v4 path index counter"
  have "tc_stem ?ctx @ tc_ext ?ctx = tc_original ?ctx"
    using rsplit_file_at_dot_append [of "the (file_name path)"]
    by (cases "file_name path")
      (simp_all add: token_context_from_path_def file_stem_def extension_def or_empty_def)
  moreover have "resolve_token ''stem'' ?ctx = Inr (tc_stem ?ctx)" "resolve_token ''ext'' ?ctx = Inr (tc_ext ?ctx)"
    by (simp_all add: resolve_token_def lowercase_def to_lower_def is_upper_def code_def Let_def)
  ultimately show ?thesis
    by (simp add: evaluate_def)
qed

end
