(* ===== verification/Job_Config.thy ===== *)
theory Job_Config
  imports Paths
begin

text \<open>
  What a job is and how it is checked, the files \<open>job.rs\<close>, \<open>schedule.rs\<close>, \<open>watch.rs\<close>, \<open>naming.rs\<close>,
  \<open>file_filter.rs\<close>, \<open>scripts.rs\<close>, \<open>transfer.rs\<close> and \<open>notify.rs\<close> of \<open>crates/autoflow-domain/src\<close>.
  Parameters: the \<open>regex\<close> crate (\<open>regex_lib\<close>: compiling a pattern, matching it), the time zones of
  \<open>chrono\<close> and \<open>chrono_tz\<close> (\<open>tz_lib\<close>) and the canonicalisation of \<open>Path_Policy\<close>.
\<close>

section \<open>Parameters\<close>

record regex_lib =
  rx_new :: "string \<Rightarrow> string + unit"
  rx_is_match :: "string \<Rightarrow> string \<Rightarrow> bool"

text \<open>
  A zone is its name, \<open>local\<close> the host's. \<open>tz_day z t\<close> is the date of the instant \<open>t\<close> in the zone, counted
  in days from 1970-01-01; \<open>tz_resolve z d h m\<close> is the latest instant whose wall clock in the zone shows
  the date \<open>d\<close> and \<open>h:m:00\<close>, \<open>None\<close> when the clock skips it.
\<close>

record tz_lib =
  tz_known :: "string \<Rightarrow> bool"
  tz_day :: "string \<Rightarrow> timestamp \<Rightarrow> int"
  tz_resolve :: "string \<Rightarrow> int \<Rightarrow> 8 word \<Rightarrow> 8 word \<Rightarrow> timestamp option"

section \<open>Schedules\<close>

datatype schedule_rule =
    Interval "32 word"
  | Daily "8 word" "8 word"
  | Weekly "8 word list" "8 word" "8 word"

record schedule_config =
  sc_enabled :: bool
  sc_timezone :: string
  sc_rule :: schedule_rule

definition schedule_validate :: "tz_lib \<Rightarrow> schedule_config \<Rightarrow> domain_error + unit" where
  "schedule_validate tz s =
     (if \<not> sc_enabled s then Inr ()
      else if sc_timezone s \<noteq> ''local'' \<and> \<not> tz_known tz (sc_timezone s)
      then Inl (Validation (''invalid schedule timezone: '' @ sc_timezone s))
      else
        (case sc_rule s of
           Interval minutes \<Rightarrow>
             if minutes = 0 then Inl (Validation ''schedule interval minutes must be >= 1'') else Inr ()
         | Daily hour minute \<Rightarrow>
             if hour > 23 \<or> minute > 59 then Inl (Validation ''invalid daily schedule time'') else Inr ()
         | Weekly days hour minute \<Rightarrow>
             if days = [] \<or> list_ex (\<lambda>d. d > 6) days
             then Inl (Validation ''weekly schedule days must be 0-6'')
             else if hour > 23 \<or> minute > 59 then Inl (Validation ''invalid weekly schedule time'')
             else Inr ()))"

text \<open>\<open>day.and_hms_opt(hour, minute, 0)\<close> followed by \<open>from_local_datetime(..).latest()\<close>.\<close>

definition valid_hm :: "8 word \<Rightarrow> 8 word \<Rightarrow> bool" where
  "valid_hm hour minute \<longleftrightarrow> hour \<le> 23 \<and> minute \<le> 59"

text \<open>\<open>num_days_from_sunday\<close>; day 0 was a Thursday.\<close>

definition weekday :: "int \<Rightarrow> 8 word" where
  "weekday day = word_of_int ((day + 4) mod 7)"

definition next_daily ::
    "(int \<Rightarrow> 8 word \<Rightarrow> 8 word \<Rightarrow> timestamp option) \<Rightarrow> int \<Rightarrow> timestamp \<Rightarrow> 8 word \<Rightarrow> 8 word \<Rightarrow> timestamp option"
  where
  "next_daily resolve_local day local hour minute =
     (if \<not> valid_hm hour minute then None
      else
        (case resolve_local day hour minute of
           None \<Rightarrow> None
         | Some dt \<Rightarrow>
             if dt \<le> local then resolve_local (day + 1) hour minute else Some dt))"

fun next_weekly ::
    "(int \<Rightarrow> 8 word \<Rightarrow> 8 word \<Rightarrow> timestamp option) \<Rightarrow> int list \<Rightarrow> int \<Rightarrow> timestamp \<Rightarrow> 8 word list \<Rightarrow>
     8 word \<Rightarrow> 8 word \<Rightarrow> timestamp option"
  where
  "next_weekly resolve_local [] date local days hour minute = None"
| "next_weekly resolve_local (offset # offsets) date local days hour minute =
     (let day = date + offset in
      if weekday day \<notin> set days then next_weekly resolve_local offsets date local days hour minute
      else if \<not> valid_hm hour minute then None
      else
        (case resolve_local day hour minute of
           None \<Rightarrow> next_weekly resolve_local offsets date local days hour minute
         | Some dt \<Rightarrow>
             if dt > local then Some dt
             else next_weekly resolve_local offsets date local days hour minute))"

definition next_run :: "tz_lib \<Rightarrow> timestamp \<Rightarrow> schedule_config \<Rightarrow> timestamp option" where
  "next_run tz from s =
     (let zone = (if sc_timezone s = ''local'' then ''local''
                  else if tz_known tz (sc_timezone s) then sc_timezone s else ''UTC'')
      in case sc_rule s of
           Interval minutes \<Rightarrow> Some (from + secs (60 * uint minutes))
         | Daily hour minute \<Rightarrow> next_daily (tz_resolve tz zone) (tz_day tz zone from) from hour minute
         | Weekly days hour minute \<Rightarrow>
             next_weekly (tz_resolve tz zone) [0..7] (tz_day tz zone from) from days hour minute)"

definition compute_next_run :: "tz_lib \<Rightarrow> timestamp \<Rightarrow> schedule_config \<Rightarrow> timestamp option" where
  "compute_next_run tz from s = (if \<not> sc_enabled s then None else next_run tz from s)"

section \<open>Naming patterns and watches\<close>

record naming_pattern =
  np_regex :: "string option"
  np_template_override :: "template_pipeline option"

definition pattern_matches :: "regex_lib \<Rightarrow> naming_pattern \<Rightarrow> string \<Rightarrow> string option \<Rightarrow> bool" where
  "pattern_matches rx np name resolved_template =
     (case np_regex np of
        Some pattern \<Rightarrow>
          if is_ok (rx_new rx pattern) then rx_is_match rx pattern name
          else (case resolved_template of Some expected \<Rightarrow> name = expected | None \<Rightarrow> True)
      | None \<Rightarrow> (case resolved_template of Some expected \<Rightarrow> name = expected | None \<Rightarrow> True))"

definition pattern_validate :: "regex_lib \<Rightarrow> naming_pattern \<Rightarrow> domain_error + unit" where
  "pattern_validate rx np =
     (case np_regex np of
        None \<Rightarrow> Inr ()
      | Some pattern \<Rightarrow> map_err (\<lambda>e. Validation (''invalid naming regex: '' @ e)) (rx_new rx pattern))"

datatype watch_detection_mode = Realtime | Polling "32 word" | Hybrid "32 word"

datatype watch_event_kind = CreateEvent | ModifyEvent | RemoveEvent | RenameEvent

record watch_config =
  wc_enabled :: bool
  wc_settle_seconds :: "32 word"
  wc_detection :: watch_detection_mode
  wc_events :: "watch_event_kind list"
  wc_auto_correct :: bool
  wc_naming_pattern :: "naming_pattern option"

definition watch_default :: watch_config where
  "watch_default = \<lparr>wc_enabled = False, wc_settle_seconds = 2, wc_detection = Realtime,
     wc_events = [CreateEvent], wc_auto_correct = False, wc_naming_pattern = None\<rparr>"

definition poll_interval_secs :: "watch_config \<Rightarrow> 32 word option" where
  "poll_interval_secs w =
     (case wc_detection w of Realtime \<Rightarrow> None | Polling i \<Rightarrow> Some i | Hybrid i \<Rightarrow> Some i)"

definition uses_realtime :: "watch_config \<Rightarrow> bool" where
  "uses_realtime w = (case wc_detection w of Realtime \<Rightarrow> True | Hybrid _ \<Rightarrow> True | _ \<Rightarrow> False)"

definition uses_polling :: "watch_config \<Rightarrow> bool" where
  "uses_polling w = (case wc_detection w of Polling _ \<Rightarrow> True | Hybrid _ \<Rightarrow> True | _ \<Rightarrow> False)"

definition watch_validate :: "regex_lib \<Rightarrow> watch_config \<Rightarrow> domain_error + unit" where
  "watch_validate rx w =
     (if \<not> wc_enabled w then Inr ()
      else if wc_settle_seconds w = 0 \<or> wc_settle_seconds w > 60
      then Inl (Validation ''watch settle_seconds must be between 1 and 60'')
      else if wc_events w = [] then Inl (Validation ''watch must include at least one event kind'')
      else
        rbind (case wc_naming_pattern w of None \<Rightarrow> Inr () | Some np \<Rightarrow> pattern_validate rx np) (\<lambda>_.
          (case poll_interval_secs w of
             None \<Rightarrow> Inr ()
           | Some interval_secs \<Rightarrow>
               if interval_secs < 5 \<or> interval_secs > 3600
               then Inl (Validation ''watch polling interval must be between 5 and 3600 seconds'')
               else Inr ())))"

section \<open>Scripts, transfer options, notifications\<close>

record scripts_config =
  pre_script :: "string option"
  post_script :: "string option"
  timeout_secs :: "32 word"

definition scripts_default :: scripts_config where
  "scripts_default = \<lparr>pre_script = None, post_script = None, timeout_secs = 60\<rparr>"

definition scripts_validate :: "scripts_config \<Rightarrow> domain_error + unit" where
  "scripts_validate s =
     (if timeout_secs s < 5 \<or> timeout_secs s > 600
      then Inl (Validation ''script timeout must be between 5 and 600 seconds'') else Inr ())"

record transfer_options =
  smart_sync :: bool
  strict_hash_sync :: bool
  verify_after_copy :: bool
  stop_on_integrity_error :: bool
  encrypt_output :: bool
  encrypt_password :: "string option"
  remember_encrypt_password :: bool
  remove_files_after_pack :: bool
  pack_filename :: "string option"

definition transfer_default :: transfer_options where
  "transfer_default = \<lparr>smart_sync = False, strict_hash_sync = False, verify_after_copy = True,
     stop_on_integrity_error = False, encrypt_output = False, encrypt_password = None,
     remember_encrypt_password = False, remove_files_after_pack = False, pack_filename = None\<rparr>"

datatype notify_event = Started | CompletedEvent | FailedEvent

datatype notify_channel =
    Generic string "(string \<times> string) list"
  | Discord string
  | Telegram string string bool

record notify_config =
  nc_enabled :: bool
  nc_events :: "notify_event list"
  nc_channels :: "notify_channel list"

definition notify_default :: notify_config where
  "notify_default = \<lparr>nc_enabled = False, nc_events = [], nc_channels = []\<rparr>"

section \<open>File filters\<close>

datatype symlink_mode = Follow | CopyLink | SkipLinks

record file_filter =
  include_extensions :: "string list"
  exclude_patterns :: "string list"
  exclude_preset_ids :: "string list"
  name_regex :: "string option"
  path_regex :: "string option"
  min_size_bytes :: "64 word option"
  max_size_bytes :: "64 word option"
  max_depth :: "32 word option"
  modified_after :: "timestamp option"
  modified_before :: "timestamp option"
  created_after :: "timestamp option"
  created_before :: "timestamp option"
  older_than_days :: "32 word option"
  content_contains :: "string option"
  content_max_bytes :: "64 word"
  content_extensions :: "string list"
  recursive :: bool
  include_hidden :: bool
  symlink_mode :: symlink_mode
  skip_empty_files :: bool

definition filter_default :: file_filter where
  "filter_default = \<lparr>include_extensions = [], exclude_patterns = [], exclude_preset_ids = [],
     name_regex = None, path_regex = None, min_size_bytes = None, max_size_bytes = None,
     max_depth = None, modified_after = None, modified_before = None, created_after = None,
     created_before = None, older_than_days = None, content_contains = None,
     content_max_bytes = 5 * 1024 * 1024,
     content_extensions = [''.txt'', ''.md'', ''.csv'', ''.json'', ''.log'', ''.xml'', ''.yaml'', ''.yml''],
     recursive = True, include_hidden = False, symlink_mode = Follow, skip_empty_files = False\<rparr>"

definition built_in_exclude_presets :: "(string \<times> string list) list" where
  "built_in_exclude_presets =
     [(''node_modules'', [''**/node_modules/**'']),
      (''git'', [''**/.git/**'', ''**/.gitignore'']),
      (''temp'', [''**/temp/**'', ''**/tmp/**'', ''**/*.tmp'']),
      (''system'', [''**/Thumbs.db'', ''**/.DS_Store'', ''**/desktop.ini'']),
      (''build'', [''**/target/**'', ''**/dist/**'', ''**/build/**'', ''**/bin/**'', ''**/obj/**''])]"

definition add_pattern :: "string \<Rightarrow> string list \<Rightarrow> string list" where
  "add_pattern p patterns = (if p \<in> set patterns then patterns else patterns @ [p])"

definition expanded_exclude_patterns :: "file_filter \<Rightarrow> string list" where
  "expanded_exclude_patterns f =
     fold (\<lambda>preset patterns.
             if fst preset \<in> set (exclude_preset_ids f) then fold add_pattern (snd preset) patterns
             else patterns)
       built_in_exclude_presets (exclude_patterns f)"

section \<open>Jobs\<close>

datatype job_mode = Copy | Move

datatype conflict_strategy = Skip | Overwrite | Rename

record job =
  job_id :: uuid
  job_name :: string
  source_path :: string
  target_path :: string
  job_mode :: job_mode
  conflict :: conflict_strategy
  filters :: file_filter
  options :: transfer_options
  schedule :: "schedule_config option"
  watch :: "watch_config option"
  scripts :: scripts_config
  notify :: notify_config
  job_enabled :: bool
  last_run :: "timestamp option"
  next_run_at :: "timestamp option"
  legacy_include_extensions :: "string list"
  legacy_recursive :: "bool option"

record job_summary =
  js_id :: uuid
  js_name :: string
  js_source_path :: string
  js_target_path :: string
  js_mode :: job_mode
  js_enabled :: bool
  js_last_run :: "timestamp option"
  js_next_run :: "timestamp option"
  js_schedule_enabled :: bool
  js_watch_enabled :: bool

definition job_new :: "uuid \<Rightarrow> string \<Rightarrow> string \<Rightarrow> string \<Rightarrow> job" where
  "job_new new_v4 name source target =
     \<lparr>job_id = new_v4, job_name = name, source_path = source, target_path = target, job_mode = Copy,
      conflict = Skip, filters = filter_default, options = transfer_default, schedule = None,
      watch = None, scripts = scripts_default, notify = notify_default, job_enabled = True,
      last_run = None, next_run_at = None, legacy_include_extensions = [], legacy_recursive = None\<rparr>"

definition watch_active :: "job \<Rightarrow> bool" where
  "watch_active j = (case watch j of None \<Rightarrow> False | Some w \<Rightarrow> wc_enabled w)"

definition schedule_active :: "job \<Rightarrow> bool" where
  "schedule_active j = (case schedule j of None \<Rightarrow> False | Some s \<Rightarrow> sc_enabled s)"

text \<open>The legacy fields move into the filters.\<close>

definition normalize_legacy :: "job \<Rightarrow> job" where
  "normalize_legacy j =
     (let f = filters j;
          f1 = (if include_extensions f = [] \<and> legacy_include_extensions j \<noteq> []
                then f\<lparr>include_extensions := legacy_include_extensions j\<rparr> else f);
          f2 = (case legacy_recursive j of None \<Rightarrow> f1 | Some r \<Rightarrow> f1\<lparr>recursive := r\<rparr>)
      in j\<lparr>filters := f2, legacy_recursive := None, legacy_include_extensions := []\<rparr>)"

definition normalize :: "tz_lib \<Rightarrow> timestamp \<Rightarrow> job \<Rightarrow> job" where
  "normalize tz now j0 =
     (let j1 = normalize_legacy j0;
          active = watch_active j1;
          j2 = (if active then j1\<lparr>schedule := map_option (\<lambda>s. s\<lparr>sc_enabled := False\<rparr>) (schedule j1)\<rparr>
                else if schedule_active j1
                then j1\<lparr>watch := map_option (\<lambda>w. w\<lparr>wc_enabled := False\<rparr>) (watch j1)\<rparr>
                else j1)
      in if active then j2\<lparr>next_run_at := None\<rparr>
         else (case schedule j2 of
                 Some s \<Rightarrow>
                   if sc_enabled s then j2\<lparr>next_run_at := compute_next_run tz now s\<rparr>
                   else j2\<lparr>next_run_at := None\<rparr>
               | None \<Rightarrow> j2\<lparr>next_run_at := None\<rparr>))"

definition check_regex :: "regex_lib \<Rightarrow> string \<Rightarrow> string option \<Rightarrow> domain_error + unit" where
  "check_regex rx field r =
     (case r of
        None \<Rightarrow> Inr ()
      | Some p \<Rightarrow> map_err (\<lambda>e. Validation (''invalid '' @ field @ '': '' @ e)) (rx_new rx p))"

definition job_validate ::
    "tz_lib \<Rightarrow> regex_lib \<Rightarrow> (string \<Rightarrow> string option) \<Rightarrow> job \<Rightarrow> domain_error + unit" where
  "job_validate tz rx canon j =
     (let name = trim (job_name j) in
      if name = [] \<or> length name > 120
      then Inl (Validation ''name must be between 1 and 120 characters'')
      else if trim (source_path j) = [] then Inl (Validation ''source_path is required'')
      else if trim (target_path j) = [] then Inl (Validation ''target_path is required'')
      else
        (let source = normalize_path canon (source_path j);
             target = normalize_path canon (target_path j)
         in if path_eq source target
            then Inl (Validation ''source_path and target_path must be different'')
            else if is_path_under_root canon source target \<or> is_path_under_root canon target source
            then Inl (Validation ''source and target must not overlap'')
            else
              rbind (case schedule j of None \<Rightarrow> Inr () | Some s \<Rightarrow> schedule_validate tz s) (\<lambda>_.
              rbind (case watch j of None \<Rightarrow> Inr () | Some w \<Rightarrow> watch_validate rx w) (\<lambda>_.
              rbind (check_regex rx ''name_regex'' (name_regex (filters j))) (\<lambda>_.
              rbind (check_regex rx ''path_regex'' (path_regex (filters j))) (\<lambda>_.
                scripts_validate (scripts j)))))))"

definition summary :: "job \<Rightarrow> job_summary" where
  "summary j =
     \<lparr>js_id = job_id j, js_name = job_name j, js_source_path = source_path j,
      js_target_path = target_path j, js_mode = job_mode j, js_enabled = job_enabled j,
      js_last_run = last_run j, js_next_run = next_run_at j,
      js_schedule_enabled = schedule_active j, js_watch_enabled = watch_active j\<rparr>"

section \<open>Lemmas\<close>

lemma next_weekly_future: "next_weekly r offs date local days h m = Some u \<Longrightarrow> local < u"
  by (induction offs) (auto simp: Let_def split: if_splits option.splits)

definition later_day :: "tz_lib \<Rightarrow> bool" where
  "later_day tz \<longleftrightarrow>
     (\<forall>z d h m t u. tz_resolve tz z d h m = Some u \<longrightarrow> tz_day tz z t < d \<longrightarrow> t < u)"

text \<open>The zone without daylight saving: UTC.\<close>

definition utc :: tz_lib where
  "utc = \<lparr>tz_known = (\<lambda>z. z = ''UTC''), tz_day = (\<lambda>z t. t div secs 86400),
     tz_resolve = (\<lambda>z d h m. if valid_hm h m then Some (secs (d * 86400 + uint h * 3600 + uint m * 60)) else None)\<rparr>"

lemma utc_later_day: "later_day utc"
proof -
  have "t < secs (d * 86400 + uint (h :: 8 word) * 3600 + uint (m :: 8 word) * 60)"
    if "t div secs 86400 < d" for t d h m
  proof -
    have "t < secs 86400 * (t div secs 86400 + 1)"
      using mod_pos_pos_trivial pos_mod_bound [of "secs 86400" t] mult_div_mod_eq [of "secs 86400" t]
      by (simp add: secs_def algebra_simps)
    also have "\<dots> \<le> secs 86400 * d"
      using that by (intro mult_left_mono) (simp_all add: secs_def)
    also have "\<dots> \<le> secs (d * 86400 + uint h * 3600 + uint m * 60)"
      by (simp add: secs_def)
    finally show ?thesis .
  qed
  then show ?thesis by (auto simp: later_day_def utc_def split: if_splits)
qed

lemma weekday_hit:
  assumes "d \<le> (6 :: 8 word)"
  shows "\<exists>offset. 1 \<le> offset \<and> offset \<le> 7 \<and> weekday (date + offset) = d"
proof -
  define k where "k = (uint d - (date + 5)) mod 7"
  have k: "0 \<le> k" "k < 7" by (simp_all add: k_def)
  have "uint d \<le> 6" using assms by (simp add: word_le_def)
  have "date + (1 + k) + 4 = (date + 5) + (uint d - (date + 5)) mod 7"
    by (simp add: k_def)
  then have "(date + (1 + k) + 4) mod 7 = ((date + 5) + (uint d - (date + 5))) mod 7"
    by (metis mod_add_right_eq)
  also have "\<dots> = uint d" using \<open>uint d \<le> 6\<close> by simp
  finally have "(date + (1 + k) + 4) mod 7 = uint d" .
  then have "weekday (date + (1 + k)) = d" by (simp add: weekday_def)
  with k show ?thesis by (intro exI [of _ "1 + k"]) simp
qed

lemma valid_hm_iff: "valid_hm h m \<longleftrightarrow> \<not> (h > 23 \<or> m > 59)"
  by (auto simp: valid_hm_def)

lemma fold_add_pattern_set: "set (fold add_pattern ps xs) = set xs \<union> set ps"
  by (induction ps arbitrary: xs) (auto simp: add_pattern_def)

lemma fold_add_pattern_prefix: "prefix xs (fold add_pattern ps xs)"
proof (induction ps arbitrary: xs)
  case (Cons p ps)
  have "prefix xs (add_pattern p xs)" by (simp add: add_pattern_def)
  also have "prefix (add_pattern p xs) (fold add_pattern ps (add_pattern p xs))" by (rule Cons)
  finally show ?case by simp
qed simp

lemma fold_add_pattern_distinct: "distinct xs \<Longrightarrow> distinct (fold add_pattern ps xs)"
  by (induction ps arbitrary: xs) (auto simp: add_pattern_def)

definition preset_patterns :: "string list \<Rightarrow> (string \<times> string list) list \<Rightarrow> string list" where
  "preset_patterns ids presets = concat (map snd (filter (\<lambda>p. fst p \<in> set ids) presets))"

lemma fold_presets:
  "fold (\<lambda>preset patterns. if fst preset \<in> set ids then fold add_pattern (snd preset) patterns
        else patterns) presets xs = fold add_pattern (preset_patterns ids presets) xs"
  by (induction presets arbitrary: xs) (simp_all add: preset_patterns_def)

lemma under_root_canonical:
  assumes "canon (abs_path ns) = Some (abs_path ns)" "canon (abs_path ms) = Some (abs_path ms)"
    "good_names ns" "good_names ms"
  shows "is_path_under_root canon (abs_path ns) (abs_path ms) \<longleftrightarrow> prefix ms ns"
proof -
  have "is_path_under_root canon (abs_path ns) (abs_path ms) \<longleftrightarrow>
      is_path_under_root (\<lambda>p. Some p) (abs_path ns) (abs_path ms)"
    using assms(1,2) by (simp add: is_path_under_root_def normalize_path_def)
  with abs_path_prefix_iff assms(3,4) show ?thesis by blast
qed

lemma normalize_legacy_idem: "normalize_legacy (normalize_legacy j) = normalize_legacy j"
  by (auto simp: normalize_legacy_def Let_def split: option.splits)

lemma normalize_legacy_keeps [simp]:
  "schedule (normalize_legacy j) = schedule j" "watch (normalize_legacy j) = watch j"
  "legacy_include_extensions (normalize_legacy j) = []" "legacy_recursive (normalize_legacy j) = None"
  by (simp_all add: normalize_legacy_def Let_def)

lemma normalize_legacy_done:
  "legacy_include_extensions j = [] \<Longrightarrow> legacy_recursive j = None \<Longrightarrow> normalize_legacy j = j"
  by (simp add: normalize_legacy_def)

lemma normalize_eq:
  "normalize tz now j = (normalize_legacy j)
     \<lparr>schedule := (if watch_active j then map_option (\<lambda>s. s\<lparr>sc_enabled := False\<rparr>) (schedule j) else schedule j),
      watch := (if \<not> watch_active j \<and> schedule_active j
                then map_option (\<lambda>w. w\<lparr>wc_enabled := False\<rparr>) (watch j) else watch j),
      next_run_at := (if watch_active j \<or> \<not> schedule_active j then None
                      else compute_next_run tz now (the (schedule j)))\<rparr>"
  by (simp add: normalize_def Let_def watch_active_def schedule_active_def split: option.split)

lemma active_normalize:
  "watch_active (normalize tz now j) = watch_active j"
  "schedule_active (normalize tz now j) = (schedule_active j \<and> \<not> watch_active j)"
  by (cases "schedule j"; cases "watch j"; simp add: normalize_eq watch_active_def schedule_active_def)+

lemma off_twice:
  "map_option (\<lambda>s. s\<lparr>sc_enabled := False\<rparr>) (map_option (\<lambda>s. s\<lparr>sc_enabled := False\<rparr>) x) =
     map_option (\<lambda>s. s\<lparr>sc_enabled := False\<rparr>) x"
  "map_option (\<lambda>s. s\<lparr>wc_enabled := False\<rparr>) (map_option (\<lambda>s. s\<lparr>wc_enabled := False\<rparr>) y) =
     map_option (\<lambda>s. s\<lparr>wc_enabled := False\<rparr>) y"
  by (cases x; simp) (cases y; simp)

lemma normalize_twice: "normalize tz now (normalize tz now j) = normalize tz now j"
proof -
  have "normalize_legacy (normalize tz now j) = normalize tz now j"
    by (rule normalize_legacy_done) (simp_all add: normalize_eq)
  then show ?thesis
    by (subst normalize_eq) (simp add: active_normalize, simp add: normalize_eq off_twice)
qed

section \<open>Properties\<close>

text \<open>
  \<open>normalize\<close> leaves a job that is watched or scheduled, never both: an active watch wins and
  switches the schedule off, otherwise an active schedule switches the watch off. The next run is
  set exactly when the schedule is active, the legacy fields are gone, and normalizing again at the
  same moment changes nothing.
\<close>

lemma normalize_exclusive:
  "\<not> (watch_active (normalize tz now j) \<and> schedule_active (normalize tz now j)) \<and>
   watch_active (normalize tz now j) = watch_active j \<and>
   schedule_active (normalize tz now j) = (schedule_active j \<and> \<not> watch_active j) \<and>
   next_run_at (normalize tz now j) =
     (if schedule_active (normalize tz now j)
      then compute_next_run tz now (the (schedule (normalize tz now j))) else None) \<and>
   legacy_include_extensions (normalize tz now j) = [] \<and> legacy_recursive (normalize tz now j) = None \<and>
   normalize tz now (normalize tz now j) = normalize tz now j"
  using active_normalize [of tz now j] normalize_twice [of tz now j] by (simp add: normalize_eq)

text \<open>The zone in which a schedule is read, and what it takes for the clock to leave it without a next run.\<close>

definition schedule_zone :: "tz_lib \<Rightarrow> schedule_config \<Rightarrow> string" where
  "schedule_zone tz s = (if sc_timezone s = ''local'' then ''local''
     else if tz_known tz (sc_timezone s) then sc_timezone s else ''UTC'')"

definition clock_skips :: "tz_lib \<Rightarrow> schedule_config \<Rightarrow> timestamp \<Rightarrow> bool" where
  "clock_skips tz s from =
     (let r = tz_resolve tz (schedule_zone tz s); today = tz_day tz (schedule_zone tz s) from;
          over = (\<lambda>h m. case r today h m of None \<Rightarrow> True | Some t \<Rightarrow> t \<le> from)
      in case sc_rule s of
           Interval _ \<Rightarrow> False
         | Daily h m \<Rightarrow> r today h m = None \<or> over h m \<and> r (today + 1) h m = None
         | Weekly days h m \<Rightarrow>
             (weekday today \<in> set days \<longrightarrow> over h m) \<and>
             list_all (\<lambda>n. weekday (today + n) \<in> set days \<longrightarrow> r (today + n) h m = None) [1..7])"

lemma next_weekly_none:
  assumes "valid_hm h m"
  shows "next_weekly r offs date local days h m = None \<longleftrightarrow>
    (\<forall>n \<in> set offs. weekday (date + n) \<in> set days \<longrightarrow> (case r (date + n) h m of None \<Rightarrow> True | Some t \<Rightarrow> t \<le> local))"
  using assms by (induction offs) (auto simp: Let_def split: option.splits)

text \<open>
  C36. A schedule that is enabled and validates has a next run, and it lies in the future, unless the clock
  skips its time: a daily one has none exactly when its time does not exist today, or is over today and does
  not exist tomorrow; a weekly one exactly when on none of its days within the coming week the time exists
  and is still to come; one with an interval always has one. Assumed of the zone library: an instant on a
  later date is later.
\<close>

theorem validated_schedule_fires:
  assumes "later_day tz" "sc_enabled s" "schedule_validate tz s = Inr ()"
  shows "(compute_next_run tz from s = None \<longleftrightarrow> clock_skips tz s from) \<and>
    (\<forall>u. compute_next_run tz from s = Some u \<longrightarrow> from < u)"
proof -
  let ?r = "tz_resolve tz (schedule_zone tz s)" and ?d = "tz_day tz (schedule_zone tz s) from"
  have run: "compute_next_run tz from s =
      (case sc_rule s of Interval minutes \<Rightarrow> Some (from + secs (60 * uint minutes))
       | Daily hour minute \<Rightarrow> next_daily ?r ?d from hour minute
       | Weekly days hour minute \<Rightarrow> next_weekly ?r [0..7] ?d from days hour minute)"
    unfolding compute_next_run_def next_run_def Let_def schedule_zone_def [symmetric] using assms(2) by simp
  have later: "?r day h m = Some u \<Longrightarrow> ?d < day \<Longrightarrow> from < u" for day h m u
    using assms(1) unfolding later_day_def by blast
  show ?thesis
  proof (cases "sc_rule s")
    case (Interval minutes)
    then have "minutes \<noteq> 0" using assms(2,3) by (auto simp: schedule_validate_def split: if_splits)
    then have "0 < uint minutes" by (simp add: uint_0_iff less_le)
    then show ?thesis by (simp add: run Interval secs_def clock_skips_def Let_def)
  next
    case (Daily h m)
    then have v: "valid_hm h m"
      using assms(2,3) by (auto simp: schedule_validate_def valid_hm_iff split: if_splits)
    with later [of "?d + 1" h m] show ?thesis
      by (auto simp: run Daily next_daily_def clock_skips_def Let_def split: option.splits)
  next
    case (Weekly days h m)
    then have v: "valid_hm h m"
      using assms(2,3) by (auto simp: schedule_validate_def valid_hm_iff split: if_splits)
    have week: "set [0..7] = insert 0 (set [1..7 :: int])" by auto
    have "(case ?r (?d + n) h m of None \<Rightarrow> True | Some t \<Rightarrow> t \<le> from) \<longleftrightarrow> ?r (?d + n) h m = None"
      if "n \<in> set [1..7]" for n
      using later [of "?d + n" h m] that by (auto split: option.splits)
    then have "next_weekly ?r [0..7] ?d from days h m = None \<longleftrightarrow> clock_skips tz s from"
      unfolding next_weekly_none [OF v] week
      by (simp add: clock_skips_def Weekly Let_def list_all_iff)
    with next_weekly_future show ?thesis by (auto simp: run Weekly)
  qed
qed

text \<open>A zone in which every time of day occurs on every date skips no schedule.\<close>

lemma clock_without_gaps:
  assumes "\<And>day h m. valid_hm h m \<Longrightarrow> tz_resolve tz (schedule_zone tz s) day h m \<noteq> None"
    and "sc_enabled s" "schedule_validate tz s = Inr ()"
  shows "\<not> clock_skips tz s from"
proof (cases "sc_rule s")
  case (Weekly days h m)
  then have v: "valid_hm h m" and days: "days \<noteq> []" "list_all (\<lambda>d. d \<le> 6) days"
    using assms(2,3)
    by (auto simp: schedule_validate_def valid_hm_iff list_ex_iff list_all_iff not_less split: if_splits)
  then obtain d where "d \<in> set days" "d \<le> 6" by (cases days) auto
  with weekday_hit obtain n where "1 \<le> n" "n \<le> 7" "weekday (tz_day tz (schedule_zone tz s) from + n) \<in> set days" by metis
  with assms(1) [OF v] show ?thesis by (auto simp: clock_skips_def Weekly Let_def list_all_iff)
qed (use assms in \<open>auto simp: clock_skips_def Let_def schedule_validate_def valid_hm_iff split: if_splits\<close>)

text \<open>In UTC, which skips nothing, a weekly schedule fires.\<close>

theorem validated_schedule_fires_witness:
  "\<exists>u. compute_next_run utc 0 \<lparr>sc_enabled = True, sc_timezone = ''UTC'', sc_rule = Weekly [2, 5] 9 30\<rparr>
     = Some u \<and> 0 < u"
proof -
  let ?s = "\<lparr>sc_enabled = True, sc_timezone = ''UTC'', sc_rule = Weekly [2, 5] 9 30\<rparr>"
  have "schedule_validate utc ?s = Inr ()"
    by (simp add: schedule_validate_def utc_def word_less_def)
  moreover have "\<not> clock_skips utc ?s 0" by code_simp
  ultimately show ?thesis using validated_schedule_fires [OF utc_later_day, of ?s 0] by auto
qed

text \<open>
  A daily schedule whose time of day is skipped on the current date (the clock moves forward over
  it) has no next run at all, although the same time exists on the next date: \<open>normalize\<close> then stores
  \<open>None\<close>, and a job without a next run is never started by the scheduler again.
\<close>

theorem daily_schedule_lost_in_clock_gap:
  assumes "sc_enabled s" "sc_timezone s = ''local''" "sc_rule s = Daily h m" "valid_hm h m"
    "tz_resolve tz ''local'' (tz_day tz ''local'' from) h m = None"
    "schedule j = Some s" "\<not> watch_active j"
  shows "compute_next_run tz from s = None \<and> next_run_at (normalize tz from j) = None \<and>
    schedule_active (normalize tz from j)"
proof -
  have n: "compute_next_run tz from s = None"
    using assms(1-5) by (simp add: compute_next_run_def next_run_def next_daily_def)
  have "schedule (normalize_legacy j) = Some s" "watch_active (normalize_legacy j) = False"
    using assms(6,7) by (simp_all add: normalize_legacy_def watch_active_def Let_def)
  with n assms(1) show ?thesis
    by (simp add: normalize_def schedule_active_def Let_def)
qed

theorem daily_schedule_lost_in_clock_gap_witness:
  "\<exists>tz. tz_resolve tz ''local'' 1 2 30 = Some 100 \<and>
     compute_next_run tz 0 \<lparr>sc_enabled = True, sc_timezone = ''local'', sc_rule = Daily 2 30\<rparr> = None"
proof -
  define tz where "tz = \<lparr>tz_known = (\<lambda>_. False), tz_day = (\<lambda>_ _. 0),
    tz_resolve = (\<lambda>_ d _ _. if d = 0 then None else Some (100 :: timestamp))\<rparr>"
  let ?s = "\<lparr>sc_enabled = True, sc_timezone = ''local'', sc_rule = Daily 2 30\<rparr>"
  let ?j = "(job_new 1 [] [] [])\<lparr>schedule := Some ?s\<rparr>"
  have h: "sc_enabled ?s" "sc_timezone ?s = ''local''" "sc_rule ?s = Daily 2 30" "valid_hm 2 30"
    "tz_resolve tz ''local'' (tz_day tz ''local'' 0) 2 30 = None" "schedule ?j = Some ?s" "\<not> watch_active ?j"
    by (simp_all add: tz_def valid_hm_def watch_active_def job_new_def)
  from daily_schedule_lost_in_clock_gap [OF h] show ?thesis
    by (intro exI [of _ tz]) (simp add: tz_def)
qed

text \<open>
  The exclude patterns of a filter are its own, in their order and first, followed by those of the
  chosen presets that are not there yet: nothing else, nothing lost, and no pattern twice unless the
  user wrote it twice.
\<close>

theorem exclude_patterns_expand:
  "prefix (exclude_patterns f) (expanded_exclude_patterns f) \<and>
   set (expanded_exclude_patterns f) = set (exclude_patterns f) \<union>
     \<Union> (set ` snd ` {p \<in> set built_in_exclude_presets. fst p \<in> set (exclude_preset_ids f)}) \<and>
   distinct (expanded_exclude_patterns f) = distinct (exclude_patterns f)"
proof -
  have e: "expanded_exclude_patterns f = fold add_pattern
      (preset_patterns (exclude_preset_ids f) built_in_exclude_presets) (exclude_patterns f)"
    by (simp only: expanded_exclude_patterns_def fold_presets)
  have "distinct (expanded_exclude_patterns f) = distinct (exclude_patterns f)"
    using fold_add_pattern_prefix fold_add_pattern_distinct
    by (metis distinct_append e prefix_def)
  moreover have "set (preset_patterns (exclude_preset_ids f) built_in_exclude_presets) =
      \<Union> (set ` snd ` {p \<in> set built_in_exclude_presets. fst p \<in> set (exclude_preset_ids f)})"
    by (auto simp: preset_patterns_def)
  ultimately show ?thesis
    by (simp add: e fold_add_pattern_prefix fold_add_pattern_set)
qed

text \<open>
  C37. A job that validates never reads and writes the same tree when both of its paths exist: their canonical
  paths lie neither in the other; its script timeout is in bounds, and its name is not blank.
\<close>

theorem validated_job_is_disjoint:
  assumes "job_validate tz rx canon j = Inr ()"
    "canon (source_path j) = Some (abs_path ss)" "canon (target_path j) = Some (abs_path ts)"
    "canon (abs_path ss) = Some (abs_path ss)" "canon (abs_path ts) = Some (abs_path ts)"
    "good_names ss" "good_names ts"
  shows "\<not> prefix ss ts \<and> \<not> prefix ts ss \<and> trim (job_name j) \<noteq> [] \<and>
    5 \<le> timeout_secs (scripts j) \<and> timeout_secs (scripts j) \<le> 600"
proof -
  from assms(1) have "\<not> is_path_under_root canon (abs_path ss) (abs_path ts)"
    "\<not> is_path_under_root canon (abs_path ts) (abs_path ss)"
    and rest: "trim (job_name j) \<noteq> []" "scripts_validate (scripts j) = Inr ()"
    using assms(2,3)
    by (auto simp: job_validate_def Let_def normalize_path_def result_simps split: if_splits)
  with under_root_canonical [of canon ss ts] under_root_canonical [of canon ts ss] assms(4-7)
  show ?thesis
    by (auto simp: scripts_validate_def not_less split: if_splits)
qed

theorem validated_job_is_disjoint_witness:
  "\<not> prefix [''in''] [''out''] \<and> \<not> prefix [''out''] [''in'']"
proof -
  let ?j = "job_new 1 ''Backup'' ''/in'' ''/out''"
  let ?rx = "\<lparr>rx_new = (\<lambda>_. Inr ()), rx_is_match = (\<lambda>_ _. True)\<rparr>"
  have p: "abs_path [''in''] = ''/in''" "abs_path [''out''] = ''/out''" by (simp_all add: abs_path_def)
  have "job_validate utc ?rx (\<lambda>p. Some p) ?j = Inr ()" by code_simp
  from validated_job_is_disjoint [OF this, of "[''in'']" "[''out'']"] show ?thesis
    by (simp add: p job_new_def good_names_def)
qed

end
