(* ===== verification/Secret_Vault.thy ===== *)
theory Secret_Vault
  imports Job_Config
begin

unbundle bit_operations_syntax

text \<open>
  Secrets at rest, \<open>crates/autoflow-infrastructure/src/vault.rs\<close>: hexadecimal encoding, sealing and
  opening one field, and all the secrets of a job. AES-256-GCM of the \<open>ring\<close> crate is the parameter
  \<open>aead\<close>; its random source is \<open>rng\<close>, the nonce of the n-th draw or \<open>None\<close> when drawing fails, and the
  number of draws is threaded through. \<open>Vault_Key\<close> holds where the master key is kept.
\<close>

section \<open>Hexadecimal\<close>

definition hex_chars :: string where
  "hex_chars = ''0123456789abcdef''"

fun encode_hex :: "8 word list \<Rightarrow> string" where
  "encode_hex [] = []"
| "encode_hex (byte # bytes) =
     hex_chars ! unat (drop_bit 4 byte) # hex_chars ! unat (byte AND 0x0f) # encode_hex bytes"

definition hex_digit :: "char \<Rightarrow> domain_error + 8 word" where
  "hex_digit c =
     (if 48 \<le> code c \<and> code c \<le> 57 then Inr (of_nat (code c - 48))
      else if 97 \<le> code c \<and> code c \<le> 102 then Inr (of_nat (code c - 97 + 10))
      else if 65 \<le> code c \<and> code c \<le> 70 then Inr (of_nat (code c - 65 + 10))
      else Inl (DatabaseError ''invalid hex digit''))"

fun decode_pairs :: "string \<Rightarrow> domain_error + 8 word list" where
  "decode_pairs (a # b # rest) =
     rbind (hex_digit a) (\<lambda>high.
     rbind (hex_digit b) (\<lambda>low.
     rbind (decode_pairs rest) (\<lambda>out. Inr ((push_bit 4 high OR low) # out))))"
| "decode_pairs _ = Inr []"

definition decode_hex :: "string \<Rightarrow> domain_error + 8 word list" where
  "decode_hex value =
     (if length value mod 2 \<noteq> 0 then Inl (DatabaseError ''invalid hex value'') else decode_pairs value)"

definition decode_key :: "string \<Rightarrow> domain_error + 8 word list" where
  "decode_key encoded =
     rbind (decode_hex encoded) (\<lambda>bytes.
       if length bytes = 32 then Inr bytes else Inl (DatabaseError ''vault key must be 32 bytes''))"

section \<open>Fields\<close>

record aead =
  ae_seal :: "8 word list \<Rightarrow> 8 word list \<Rightarrow> 8 word list \<Rightarrow> 8 word list option"
  ae_open :: "8 word list \<Rightarrow> 8 word list \<Rightarrow> 8 word list \<Rightarrow> 8 word list option"

definition sealed_prefix :: string where
  "sealed_prefix = ''enc:v1:''"

definition nonce_len :: nat where
  "nonce_len = 12"

definition as_bytes :: "string \<Rightarrow> 8 word list" where
  "as_bytes s = map (\<lambda>c. of_nat (code c)) s"

text \<open>\<open>String::from_utf8\<close>, exact on ASCII.\<close>

definition from_utf8 :: "8 word list \<Rightarrow> string option" where
  "from_utf8 bytes =
     (if list_all (\<lambda>b. b < 128) bytes then Some (map (\<lambda>b. char_of (unat b)) bytes) else None)"

definition seal :: "aead \<Rightarrow> 8 word list \<Rightarrow> 8 word list option \<Rightarrow> string \<Rightarrow> domain_error + 8 word list" where
  "seal ae key nonce plaintext =
     (case nonce of
        None \<Rightarrow> Inl (DatabaseError ''failed to generate nonce'')
      | Some nonce_bytes \<Rightarrow>
          (case ae_seal ae key nonce_bytes (as_bytes plaintext) of
             None \<Rightarrow> Inl (DatabaseError ''failed to encrypt secret'')
           | Some in_out \<Rightarrow> Inr (nonce_bytes @ in_out)))"

definition open_sealed :: "aead \<Rightarrow> 8 word list \<Rightarrow> 8 word list \<Rightarrow> domain_error + string" where
  "open_sealed ae key sealed =
     (if length sealed \<le> nonce_len then Inl (DatabaseError ''sealed secret is truncated'')
      else
        (case ae_open ae key (take nonce_len sealed) (drop nonce_len sealed) of
           None \<Rightarrow> Inl (DatabaseError ''failed to decrypt secret'')
         | Some plaintext \<Rightarrow>
             (case from_utf8 plaintext of
                None \<Rightarrow> Inl (DatabaseError ''decrypted secret is not UTF-8'')
              | Some s \<Rightarrow> Inr s)))"

definition seal_field :: "aead \<Rightarrow> 8 word list \<Rightarrow> 8 word list option \<Rightarrow> string \<Rightarrow> string" where
  "seal_field ae key nonce value =
     (if value = [] \<or> starts_with value sealed_prefix then value
      else
        (case seal ae key nonce value of
           Inr sealed \<Rightarrow> sealed_prefix @ encode_hex sealed
         | Inl _ \<Rightarrow> value))"

definition open_field :: "aead \<Rightarrow> 8 word list \<Rightarrow> string \<Rightarrow> string" where
  "open_field ae key value =
     (if \<not> starts_with value sealed_prefix then value
      else
        (case decode_hex (drop (length sealed_prefix) value) of
           Inl _ \<Rightarrow> []
         | Inr bytes \<Rightarrow> (case open_sealed ae key bytes of Inr opened \<Rightarrow> opened | Inl _ \<Rightarrow> [])))"

section \<open>Jobs\<close>

text \<open>A traversal of the secret fields in the order the code visits them, with the number of draws.\<close>

type_synonym field_map = "nat \<Rightarrow> string \<Rightarrow> string \<times> nat"

definition seal_drawing :: "aead \<Rightarrow> 8 word list \<Rightarrow> (nat \<Rightarrow> 8 word list option) \<Rightarrow> field_map" where
  "seal_drawing ae key rng n value = (seal_field ae key (rng n) value, Suc n)"

definition open_plain :: "aead \<Rightarrow> 8 word list \<Rightarrow> field_map" where
  "open_plain ae key n value = (open_field ae key value, n)"

fun map_headers :: "field_map \<Rightarrow> nat \<Rightarrow> (string \<times> string) list \<Rightarrow> (string \<times> string) list \<times> nat" where
  "map_headers f n [] = ([], n)"
| "map_headers f n ((k, v) # hs) =
     (let (v', n1) = f n v; (hs', n2) = map_headers f n1 hs in ((k, v') # hs', n2))"

fun map_channel :: "field_map \<Rightarrow> nat \<Rightarrow> notify_channel \<Rightarrow> notify_channel \<times> nat" where
  "map_channel f n (Generic url headers) =
     (let (url', n1) = f n url; (headers', n2) = map_headers f n1 headers in (Generic url' headers', n2))"
| "map_channel f n (Discord webhook_url) = (let (w, n1) = f n webhook_url in (Discord w, n1))"
| "map_channel f n (Telegram bot_token chat_id remember_token) =
     (let (b, n1) = f n bot_token; (c, n2) = f n1 chat_id in (Telegram b c remember_token, n2))"

fun map_channels :: "field_map \<Rightarrow> nat \<Rightarrow> notify_channel list \<Rightarrow> notify_channel list \<times> nat" where
  "map_channels f n [] = ([], n)"
| "map_channels f n (c # cs) =
     (let (c', n1) = map_channel f n c; (cs', n2) = map_channels f n1 cs in (c' # cs', n2))"

definition map_job_secrets :: "field_map \<Rightarrow> nat \<Rightarrow> job \<Rightarrow> job \<times> nat" where
  "map_job_secrets f n j =
     (let (channels', n1) = map_channels f n (nc_channels (notify j));
          (password', n2) =
            (case encrypt_password (options j) of
               None \<Rightarrow> (None, n1)
             | Some p \<Rightarrow> (let (p', m) = f n1 p in (Some p', m)))
      in (j\<lparr>notify := (notify j)\<lparr>nc_channels := channels'\<rparr>,
            options := (options j)\<lparr>encrypt_password := password'\<rparr>\<rparr>, n2))"

definition seal_job_secrets :: "aead \<Rightarrow> 8 word list \<Rightarrow> (nat \<Rightarrow> 8 word list option) \<Rightarrow> nat \<Rightarrow> job \<Rightarrow> job \<times> nat" where
  "seal_job_secrets ae key rng n j = map_job_secrets (seal_drawing ae key rng) n j"

definition open_job_secrets :: "aead \<Rightarrow> 8 word list \<Rightarrow> job \<Rightarrow> job" where
  "open_job_secrets ae key j = fst (map_job_secrets (open_plain ae key) 0 j)"

section \<open>Lemmas\<close>

lemma hex_digit_nibble: "n < 16 \<Longrightarrow> hex_digit (hex_chars ! n) = Inr (of_nat n)"
proof -
  assume n: "n < 16"
  have "list_all (\<lambda>i. hex_digit (hex_chars ! i) = Inr (of_nat i)) [0..<16]" by code_simp
  with n show ?thesis by (simp add: list_all_iff)
qed

lemma nibbles: "push_bit 4 (drop_bit 4 b) OR (b AND 0x0f) = (b :: 8 word)"
proof -
  have "(0x0f :: 8 word) = mask 4" by (simp add: mask_eq_exp_minus_1)
  show ?thesis unfolding \<open>0x0f = mask 4\<close> by (rule bit_word_eqI) (auto simp: bit_simps)
qed

lemma nibble_bounds: "unat (drop_bit 4 (b :: 8 word)) < 16" "unat (b AND 0x0f) < 16"
proof -
  have "unat (drop_bit 4 b) = unat b div 16"
    using unat_drop_bit_eq [of 4 b] unfolding drop_bit_eq_div [of 4 "unat b"] by simp
  moreover have "unat b < 256" using unsigned_less [of b] by simp
  ultimately show "unat (drop_bit 4 b) < 16" by simp
  have "(0x0f :: 8 word) = mask 4" by (simp add: mask_eq_exp_minus_1)
  then have "b AND 0x0f = take_bit 4 b" by (simp add: take_bit_eq_mask)
  then have "unat (b AND 0x0f) = take_bit 4 (unat b)"
    by (simp only: unsigned_take_bit_eq)
  then show "unat (b AND 0x0f) < 16" by (simp add: take_bit_eq_mod [of 4 "unat b"])
qed

lemma length_encode_hex: "length (encode_hex bs) = 2 * length bs"
  by (induction bs) auto

lemma decode_encode_pairs: "decode_pairs (encode_hex bs) = Inr bs"
  by (induction bs) (simp_all add: hex_digit_nibble nibble_bounds nibbles)

lemma decode_encode_hex: "decode_hex (encode_hex bs) = Inr bs"
  by (simp add: decode_hex_def length_encode_hex decode_encode_pairs)

definition ascii :: "string \<Rightarrow> bool" where
  "ascii s \<longleftrightarrow> list_all (\<lambda>c. code c < 128) s"

lemma from_utf8_as_bytes:
  assumes "ascii s"
  shows "from_utf8 (as_bytes s) = Some s"
proof -
  have u: "unat (of_nat (code c) :: 8 word) = code c" for c
    using code_less [of c] by (simp add: unat_of_nat take_bit_eq_mod)
  have "list_all (\<lambda>b. b < 128) (as_bytes s)"
    using assms by (auto simp: as_bytes_def ascii_def list_all_iff word_less_nat_alt u)
  moreover have "map (\<lambda>b. char_of (unat b)) (as_bytes s) = s"
    by (induction s) (simp_all add: as_bytes_def u, simp add: code_def)
  ultimately show ?thesis by (simp add: from_utf8_def)
qed

text \<open>What is used of AES-GCM and its nonces: opening what was sealed with the same nonce gives it back, and the
  authentication tag makes the sealed text longer than the plain one.\<close>

definition aead_ok :: "aead \<Rightarrow> 8 word list \<Rightarrow> bool" where
  "aead_ok ae key \<longleftrightarrow>
     (\<forall>n p c. ae_seal ae key n p = Some c \<longrightarrow> ae_open ae key n c = Some p \<and> c \<noteq> [])"

definition nonces_ok :: "(nat \<Rightarrow> 8 word list option) \<Rightarrow> bool" where
  "nonces_ok rng \<longleftrightarrow> (\<forall>n b. rng n = Some b \<longrightarrow> length b = nonce_len)"

definition plain_secret :: "string \<Rightarrow> bool" where
  "plain_secret s \<longleftrightarrow> ascii s \<and> \<not> starts_with s sealed_prefix"

lemma open_seal_field:
  assumes "aead_ok ae key" "plain_secret v" "\<And>b. nonce = Some b \<Longrightarrow> length b = nonce_len"
  shows "open_field ae key (seal_field ae key nonce v) = v"
proof (cases "v = [] \<or> (\<exists>e. seal ae key nonce v = Inl e)")
  case True
  with assms(2) show ?thesis
    by (auto simp: seal_field_def open_field_def plain_secret_def)
next
  case False
  then obtain b c where n: "nonce = Some b" and c: "ae_seal ae key b (as_bytes v) = Some c"
    and s: "seal ae key nonce v = Inr (b @ c)"
    by (auto simp: seal_def split: option.splits)
  have "length b = nonce_len" using assms(3) n by blast
  moreover have "ae_open ae key b c = Some (as_bytes v)" "c \<noteq> []"
    using assms(1) c unfolding aead_ok_def by blast+
  ultimately have "open_sealed ae key (b @ c) = Inr v"
    using assms(2) by (simp add: open_sealed_def from_utf8_as_bytes plain_secret_def)
  with False s assms(2) show ?thesis
    by (simp add: seal_field_def open_field_def plain_secret_def starts_with_iff decode_encode_hex)
qed

fun job_channel_secrets :: "notify_channel \<Rightarrow> string list" where
  "job_channel_secrets (Generic url headers) = url # map snd headers"
| "job_channel_secrets (Discord webhook_url) = [webhook_url]"
| "job_channel_secrets (Telegram bot_token chat_id _) = [bot_token, chat_id]"

definition job_secrets :: "job \<Rightarrow> string list" where
  "job_secrets j =
     concat (map job_channel_secrets (nc_channels (notify j))) @
     (case encrypt_password (options j) of None \<Rightarrow> [] | Some p \<Rightarrow> [p])"

lemma undo_headers:
  assumes "\<And>n v. v \<in> set (map snd hs) \<Longrightarrow> fst (g m (fst (f n v))) = v" "\<And>n v. snd (g n v) = n"
  shows "map_headers g m (fst (map_headers f n hs)) = (hs, m)"
  using assms
proof (induction hs arbitrary: n)
  case (Cons h hs)
  obtain k v where h: "h = (k, v)" by (cases h)
  obtain v' n1 where f: "f n v = (v', n1)" by (cases "f n v")
  obtain hs' n2 where r: "map_headers f n1 hs = (hs', n2)" by (cases "map_headers f n1 hs")
  have "map_headers g m (fst (map_headers f n1 hs)) = (hs, m)" using Cons by simp
  moreover have "g m v' = (v, m)" using Cons.prems(1) [of v n] Cons.prems(2) [of m v'] f h
    by (cases "g m v'") simp
  ultimately show ?case by (simp add: h f r)
qed simp

lemma undo_channel:
  assumes "\<And>n v. v \<in> set (job_channel_secrets c) \<Longrightarrow> fst (g m (fst (f n v))) = v" "\<And>n v. snd (g n v) = n"
  shows "map_channel g m (fst (map_channel f n c)) = (c, m)"
proof (cases c)
  case (Generic url headers)
  have "g m (fst (f n url)) = (url, m)" for n
    using assms(1) [of url n] assms(2) [of m] by (simp add: Generic prod_eq_iff)
  with undo_headers [of headers g m f] assms Generic show ?thesis
    by (auto simp: split_beta)
next
  case (Discord w)
  with assms show ?thesis by (simp add: split_beta prod_eq_iff)
next
  case (Telegram b i r)
  with assms show ?thesis by (simp add: split_beta prod_eq_iff)
qed

lemma undo_channels:
  assumes "\<And>n v c. c \<in> set cs \<Longrightarrow> v \<in> set (job_channel_secrets c) \<Longrightarrow> fst (g m (fst (f n v))) = v"
    "\<And>n v. snd (g n v) = n"
  shows "map_channels g m (fst (map_channels f n cs)) = (cs, m)"
  using assms
proof (induction cs arbitrary: n)
  case (Cons c cs)
  have "map_channel g m (fst (map_channel f n c)) = (c, m)"
    using Cons.prems by (intro undo_channel) auto
  moreover have "map_channels g m (fst (map_channels f n' cs)) = (cs, m)" for n'
    by (rule Cons.IH) (use Cons.prems in auto)
  ultimately show ?case by (simp add: split_beta)
qed simp

lemma sealed_job_opens:
  assumes "aead_ok ae key" "nonces_ok rng" "list_all plain_secret (job_secrets j)"
  shows "open_job_secrets ae key (fst (seal_job_secrets ae key rng n j)) = j"
proof -
  have field: "fst (open_plain ae key m (fst (seal_drawing ae key rng n v))) = v"
    if "v \<in> set (job_secrets j)" for m n v
    using that assms open_seal_field [of ae key v "rng n"]
    by (simp add: open_plain_def seal_drawing_def nonces_ok_def list_all_iff)
  have chans: "map_channels (open_plain ae key) 0
      (fst (map_channels (seal_drawing ae key rng) n (nc_channels (notify j)))) = (nc_channels (notify j), 0)"
  proof (rule undo_channels)
    fix m v c
    assume "c \<in> set (nc_channels (notify j))" "v \<in> set (job_channel_secrets c)"
    then have "v \<in> set (job_secrets j)" by (auto simp: job_secrets_def)
    then show "fst (open_plain ae key 0 (fst (seal_drawing ae key rng m v))) = v" by (rule field)
  qed (simp add: open_plain_def)
  have pw: "open_field ae key (fst (seal_drawing ae key rng m p)) = p"
    if "encrypt_password (options j) = Some p" for m p
    using field [of p 0 m] that by (simp add: job_secrets_def open_plain_def)
  show ?thesis
    using chans pw
    by (cases "encrypt_password (options j)")
      (simp_all add: open_job_secrets_def seal_job_secrets_def map_job_secrets_def split_beta
        open_plain_def)
qed

section \<open>Properties\<close>

text \<open>
  C38. What \<open>seal_job_secrets\<close> stores, \<open>open_job_secrets\<close> reads back: webhook addresses, header values,
  bot tokens, chat identifiers and the package password come back as they were, empty ones and ones
  whose sealing failed included, provided none begins with the vault's own prefix \<open>enc:v1:\<close>. Assumed of
  AES-GCM: opening inverts sealing and adds a tag.
\<close>

theorem sealed_job_opens_to_itself:
  assumes "aead_ok ae key" "nonces_ok rng" "list_all plain_secret (job_secrets j)"
  shows "open_job_secrets ae key (fst (seal_job_secrets ae key rng n j)) = j"
  by (rule sealed_job_opens [OF assms])

text \<open>A cipher for the witness: it appends one tag byte, and opening removes it.\<close>

definition demo_aead :: aead where
  "demo_aead = \<lparr>ae_seal = (\<lambda>_ _ p. Some (p @ [0])), ae_open = (\<lambda>_ _ c. Some (butlast c))\<rparr>"

theorem sealed_job_opens_to_itself_witness:
  "open_job_secrets demo_aead [] (fst (seal_job_secrets demo_aead [] (\<lambda>_. Some (replicate 12 7)) 0
     ((job_new 1 [] [] [])\<lparr>notify := \<lparr>nc_enabled = True, nc_events = [], nc_channels = [Discord ''https://d'']\<rparr>\<rparr>)))
   = (job_new 1 [] [] [])\<lparr>notify := \<lparr>nc_enabled = True, nc_events = [], nc_channels = [Discord ''https://d'']\<rparr>\<rparr>"
  by (rule sealed_job_opens_to_itself)
    (simp_all add: aead_ok_def demo_aead_def nonces_ok_def nonce_len_def job_secrets_def job_new_def
      transfer_default_def plain_secret_def ascii_def starts_with_def sealed_prefix_def code_def)

text \<open>
  A secret that itself begins with the sealed prefix is stored as it is and cannot be read back:
  opening takes it for a sealed value, and unless it is valid hexadecimal of a real sealed value the
  secret becomes the empty string.
\<close>

theorem prefixed_secret_is_lost:
  "seal_field ae key nonce ''enc:v1:my-password'' = ''enc:v1:my-password'' \<and>
   open_field ae key (seal_field ae key nonce ''enc:v1:my-password'') = []"
  by (simp add: seal_field_def open_field_def starts_with_def sealed_prefix_def decode_hex_def)

end
