(* ===== verification/File_Selection.thy ===== *)
theory File_Selection
  imports Job_Config "HOL-Library.List_Lexorder" "HOL-Library.Product_Lexorder" "HOL-Library.Char_ord"
begin

text \<open>
  Which files a job processes, \<open>crates/autoflow-domain/src/filter.rs\<close>: the compiled filters
  (\<open>FilterEngine\<close>), the decision for one file and the listing. What the file system answers is the
  parameter \<open>fs_probe\<close>; the \<open>globset\<close> crate is \<open>glob_lib\<close> and the \<open>walkdir\<close> crate the field
  \<open>fp_walk\<close> (path, is a symbolic link, is a file; entries with an error already dropped).
\<close>

section \<open>Parameters\<close>

record glob_lib =
  gl_new :: "string \<Rightarrow> string + unit"
  gl_build :: "string list \<Rightarrow> string + unit"
  gl_is_match :: "string list \<Rightarrow> string \<Rightarrow> bool"

record file_meta =
  fm_len :: "64 word"
  fm_modified :: "timestamp option"
  fm_created :: "timestamp option"

record fs_probe =
  fp_metadata :: "string \<Rightarrow> string + file_meta"
  fp_read :: "string \<Rightarrow> string + string"
  fp_exists :: "string \<Rightarrow> bool"
  fp_is_file :: "string \<Rightarrow> bool"
  fp_is_dir :: "string \<Rightarrow> bool"
  fp_walk :: "string \<Rightarrow> bool \<Rightarrow> (string \<times> bool \<times> bool) list"
  fp_read_dir :: "string \<Rightarrow> string + (string + string) list"

section \<open>The filter engine\<close>

record filter_engine =
  fe_exclude :: "string list"
  fe_name_regex :: "string option"
  fe_path_regex :: "string option"

fun check_globs :: "glob_lib \<Rightarrow> string list \<Rightarrow> string + unit" where
  "check_globs gl [] = Inr ()"
| "check_globs gl (p # ps) = rbind (gl_new gl p) (\<lambda>_. check_globs gl ps)"

definition compile_optional :: "regex_lib \<Rightarrow> string option \<Rightarrow> string + string option" where
  "compile_optional rx r =
     (case r of None \<Rightarrow> Inr None | Some p \<Rightarrow> rbind (rx_new rx p) (\<lambda>_. Inr (Some p)))"

definition from_job :: "glob_lib \<Rightarrow> regex_lib \<Rightarrow> job \<Rightarrow> string + filter_engine" where
  "from_job gl rx j =
     (let patterns = expanded_exclude_patterns (filters j) in
      rbind (check_globs gl patterns) (\<lambda>_.
      rbind (gl_build gl patterns) (\<lambda>_.
      rbind (compile_optional rx (name_regex (filters j))) (\<lambda>name.
      rbind (compile_optional rx (path_regex (filters j))) (\<lambda>path.
        Inr \<lparr>fe_exclude = patterns, fe_name_regex = name, fe_path_regex = path\<rparr>)))))"

definition is_hidden :: "string \<Rightarrow> bool" where
  "is_hidden path =
     (case file_name path of None \<Rightarrow> False | Some n \<Rightarrow> n \<noteq> [] \<and> hd n = CHR ''.'')"

definition file_modified :: "fs_probe \<Rightarrow> string \<Rightarrow> timestamp option" where
  "file_modified fs path =
     (case fp_metadata fs path of
        Inl _ \<Rightarrow> None
      | Inr meta \<Rightarrow> Option.bind (fm_modified meta) whole_seconds)"

definition file_created :: "fs_probe \<Rightarrow> string \<Rightarrow> timestamp option" where
  "file_created fs path =
     (case fp_metadata fs path of
        Inl _ \<Rightarrow> None
      | Inr meta \<Rightarrow>
          Option.bind (case fm_created meta of None \<Rightarrow> fm_modified meta | Some c \<Rightarrow> Some c)
            whole_seconds)"

definition relative_depth :: "string \<Rightarrow> string \<Rightarrow> 32 word" where
  "relative_depth root path =
     (case strip_prefix path root of
        None \<Rightarrow> 0
      | Some rel \<Rightarrow> of_nat (length (path_components rel) - 1))"

definition dotted_extension :: "string \<Rightarrow> string" where
  "dotted_extension path =
     (case extension path of None \<Rightarrow> [] | Some e \<Rightarrow> CHR ''.'' # lowercase e)"

definition contains :: "string \<Rightarrow> string \<Rightarrow> bool" where
  "contains haystack needle \<longleftrightarrow> sublist needle haystack"

definition content_matches :: "fs_probe \<Rightarrow> string \<Rightarrow> string \<Rightarrow> file_filter \<Rightarrow> string + bool" where
  "content_matches fs path needle f =
     (let ext = dotted_extension path in
      if content_extensions f \<noteq> [] \<and> \<not> list_ex (\<lambda>e. lowercase (trim e) = ext) (content_extensions f)
      then Inr False
      else
        rbind (fp_metadata fs path) (\<lambda>meta.
          if fm_len meta > content_max_bytes f then Inr False
          else rbind (fp_read fs path) (\<lambda>haystack. Inr (contains haystack needle))))"

text \<open>
  \<open>too_young\<close>: the system clock's time since the modification, an error (and no objection) when the
  modification lies in the future. The product \<open>days as u64 * 86400\<close> cannot overflow.
\<close>

definition too_young :: "timestamp \<Rightarrow> 32 word \<Rightarrow> timestamp option \<Rightarrow> bool" where
  "too_young now days modified =
     (case modified of
        None \<Rightarrow> False
      | Some m \<Rightarrow> m \<le> now \<and> (now - m) div 1000000000 < uint days * 86400)"

definition exceeds :: "('a \<Rightarrow> 'a \<Rightarrow> bool) \<Rightarrow> 'a option \<Rightarrow> 'a option \<Rightarrow> bool" where
  "exceeds bad limit v =
     (case limit of None \<Rightarrow> False | Some l \<Rightarrow> (case v of None \<Rightarrow> False | Some x \<Rightarrow> bad x l))"

definition should_process ::
    "regex_lib \<Rightarrow> glob_lib \<Rightarrow> fs_probe \<Rightarrow> timestamp \<Rightarrow> filter_engine \<Rightarrow> string \<Rightarrow> job \<Rightarrow> string \<Rightarrow>
     string + bool" where
  "should_process rx gl fs now engine path j source_root =
     (let f = filters j in
      rbind (fp_metadata fs path) (\<lambda>meta.
        if skip_empty_files f \<and> fm_len meta = 0 then Inr False
        else if \<not> include_hidden f \<and> is_hidden path then Inr False
        else if exceeds (<) (min_size_bytes f) (Some (fm_len meta)) then Inr False
        else if exceeds (>) (max_size_bytes f) (Some (fm_len meta)) then Inr False
        else if exceeds (>) (max_depth f) (Some (relative_depth source_root path)) then Inr False
        else if exceeds (>) (modified_before f) (file_modified fs path) then Inr False
        else if exceeds (<) (modified_after f) (file_modified fs path) then Inr False
        else if exceeds (<) (created_after f) (file_created fs path) then Inr False
        else if exceeds (>) (created_before f) (file_created fs path) then Inr False
        else if (case older_than_days f of None \<Rightarrow> False | Some days \<Rightarrow> too_young now days (fm_modified meta))
        then Inr False
        else if gl_is_match gl (fe_exclude engine) path then Inr False
        else if include_extensions f \<noteq> [] \<and>
          \<not> list_ex (\<lambda>allowed. lowercase (trim allowed) = dotted_extension path) (include_extensions f)
        then Inr False
        else if (case fe_name_regex engine of
            None \<Rightarrow> False | Some r \<Rightarrow> \<not> rx_is_match rx r (or_empty (file_name path)))
        then Inr False
        else if (case fe_path_regex engine of None \<Rightarrow> False | Some r \<Rightarrow> \<not> rx_is_match rx r path)
        then Inr False
        else
          (case content_contains f of
             None \<Rightarrow> Inr True
           | Some needle \<Rightarrow> content_matches fs path needle f)))"

definition unwrap_or_false :: "string + bool \<Rightarrow> bool" where
  "unwrap_or_false r = (case r of Inl _ \<Rightarrow> False | Inr b \<Rightarrow> b)"

section \<open>Listing\<close>

text \<open>\<open>Ord\<close> of \<open>PathBuf\<close>: component by component, the root first, then dots, then names by their bytes.\<close>

fun component_key :: "component \<Rightarrow> nat \<times> string" where
  "component_key RootDir = (0, [])"
| "component_key CurDir = (1, [])"
| "component_key (Normal n) = (if n = ''..'' then (2, []) else (3, n))"

definition path_key :: "string \<Rightarrow> (nat \<times> string) list" where
  "path_key p = map component_key (path_components p)"

fun collect_dir :: "(string \<Rightarrow> bool) \<Rightarrow> (string + string) list \<Rightarrow> string + string list" where
  "collect_dir keep [] = Inr []"
| "collect_dir keep (entry # entries) =
     rbind entry (\<lambda>path.
     rbind (collect_dir keep entries) (\<lambda>rest. Inr (if keep path then path # rest else rest)))"

definition collect_files ::
    "regex_lib \<Rightarrow> glob_lib \<Rightarrow> fs_probe \<Rightarrow> timestamp \<Rightarrow> job \<Rightarrow> string + string list" where
  "collect_files rx gl fs now j =
     (let source = source_path j in
      if \<not> fp_exists fs source then Inr []
      else
        rbind (from_job gl rx j) (\<lambda>engine.
          let accepted = (\<lambda>path. unwrap_or_false (should_process rx gl fs now engine path j source)) in
          if fp_is_file fs source then Inr (if accepted source then [source] else [])
          else
            rbind
              (if recursive (filters j)
               then Inr (map fst (filter (\<lambda>(path, is_symlink, is_file).
                      \<not> (is_symlink \<and> symlink_mode (filters j) = SkipLinks) \<and> is_file \<and> accepted path)
                    (fp_walk fs source (symlink_mode (filters j) = Follow))))
               else if fp_is_dir fs source
               then rbind (fp_read_dir fs source) (collect_dir (\<lambda>path. fp_is_file fs path \<and> accepted path))
               else Inr [])
              (\<lambda>files. Inr (sort_key path_key files))))"

definition should_process_file ::
    "regex_lib \<Rightarrow> glob_lib \<Rightarrow> fs_probe \<Rightarrow> timestamp \<Rightarrow> string \<Rightarrow> job \<Rightarrow> bool" where
  "should_process_file rx gl fs now path j =
     (case from_job gl rx j of
        Inl _ \<Rightarrow> False
      | Inr engine \<Rightarrow>
          unwrap_or_false (should_process rx gl fs now engine path j (source_path j)))"

section \<open>Lemmas\<close>

lemma collect_dir_ok:
  "collect_dir keep es = Inr ps \<Longrightarrow> set ps = {p. Inr p \<in> set es \<and> keep p} \<and> (\<forall>e \<in> set es. is_ok e)"
  by (induction es arbitrary: ps) (auto simp: result_simps split: if_splits)

lemma unwrap_or_false_iff: "unwrap_or_false r \<longleftrightarrow> r = Inr True"
  by (cases r) (auto simp: unwrap_or_false_def)

lemma should_process_file_engine:
  "from_job gl rx j = Inr engine \<Longrightarrow>
   should_process_file rx gl fs now path j \<longleftrightarrow>
     should_process rx gl fs now engine path j (source_path j) = Inr True"
  by (simp add: should_process_file_def unwrap_or_false_iff)

section \<open>Properties\<close>

text \<open>
  C39. Every file \<open>collect_files\<close> returns is one that \<open>should_process_file\<close> accepts on its own and that the
  listing of the source named, and the result is sorted by path, so repeated runs over the same tree
  number the files alike.
\<close>

theorem collected_files_accepted_and_sorted:
  assumes "collect_files rx gl fs now j = Inr files"
  shows "list_all (\<lambda>p. should_process_file rx gl fs now p j) files \<and>
    sorted (map path_key files) \<and>
    set files \<subseteq> {source_path j} \<union> set (map fst (fp_walk fs (source_path j) (symlink_mode (filters j) = Follow)))
      \<union> {p. \<exists>es. fp_read_dir fs (source_path j) = Inr es \<and> Inr p \<in> set es}"
proof (cases "fp_exists fs (source_path j)")
  case False
  with assms show ?thesis by (simp add: collect_files_def Let_def)
next
  case True
  with assms obtain engine where e: "from_job gl rx j = Inr engine"
    by (auto simp: collect_files_def Let_def result_simps)
  note accept = should_process_file_engine [OF e, of fs now]
  show ?thesis
  proof (cases "fp_is_file fs (source_path j)")
    case True
    with assms e \<open>fp_exists fs (source_path j)\<close> show ?thesis
      by (auto simp: collect_files_def Let_def accept unwrap_or_false_iff)
  next
    case False
    with assms e True show ?thesis
      by (auto simp: collect_files_def Let_def accept unwrap_or_false_iff result_simps list_all_iff
          dest!: collect_dir_ok split: if_splits)
  qed
qed

text \<open>A source with two files below it, listed out of order, and a hidden one that is left out.\<close>

definition demo_fs :: fs_probe where
  "demo_fs = \<lparr>fp_metadata = (\<lambda>_. Inr \<lparr>fm_len = 1, fm_modified = Some 0, fm_created = None\<rparr>),
     fp_read = (\<lambda>_. Inr ''x''), fp_exists = (\<lambda>_. True), fp_is_file = (\<lambda>p. p \<noteq> ''/in''),
     fp_is_dir = (\<lambda>p. p = ''/in''),
     fp_walk = (\<lambda>_ _. [(''/in'', False, False), (''/in/b.txt'', False, True), (''/in/.git'', False, True),
                  (''/in/a.txt'', False, True)]),
     fp_read_dir = (\<lambda>_. Inr [])\<rparr>"

theorem collected_files_accepted_and_sorted_witness:
  "sorted (map path_key [''/in/a.txt'', ''/in/b.txt'']) \<and>
   list_all (\<lambda>p. should_process_file \<lparr>rx_new = (\<lambda>_. Inr ()), rx_is_match = (\<lambda>_ _. True)\<rparr>
       \<lparr>gl_new = (\<lambda>_. Inr ()), gl_build = (\<lambda>_. Inr ()), gl_is_match = (\<lambda>_ _. False)\<rparr> demo_fs 0 p
       (job_new 1 ''Backup'' ''/in'' ''/out'')) [''/in/a.txt'', ''/in/b.txt'']"
proof -
  let ?rx = "\<lparr>rx_new = (\<lambda>_. Inr ()), rx_is_match = (\<lambda>_ _. True)\<rparr>"
  let ?gl = "\<lparr>gl_new = (\<lambda>_. Inr ()), gl_build = (\<lambda>_. Inr ()), gl_is_match = (\<lambda>_ _. False)\<rparr>"
  have "collect_files ?rx ?gl demo_fs 0 (job_new 1 ''Backup'' ''/in'' ''/out'') =
      Inr [''/in/a.txt'', ''/in/b.txt'']" by code_simp
  from collected_files_accepted_and_sorted [OF this] show ?thesis by blast
qed

end
