(* ===== verification/Hash_Map.thy ===== *)
theory Hash_Map
  imports Prelude
begin

text \<open>
  Rust's \<open>HashMap\<close> and \<open>BTreeMap\<close> as the list of their entries. The list order stands for the
  iteration order, which Rust leaves open for \<open>HashMap\<close>; no property below depends on it. The locale
  \<open>map_store\<close> is the contract the components rely on, interpreted here on the entry lists.
\<close>

type_synonym ('k, 'v) hash_map = "('k \<times> 'v) list"

definition hm_get :: "'k \<Rightarrow> ('k, 'v) hash_map \<Rightarrow> 'v option" where
  "hm_get k m = map_of m k"

definition hm_contains :: "'k \<Rightarrow> ('k, 'v) hash_map \<Rightarrow> bool" where
  "hm_contains k m \<longleftrightarrow> k \<in> set (map fst m)"

definition hm_remove :: "'k \<Rightarrow> ('k, 'v) hash_map \<Rightarrow> ('k, 'v) hash_map" where
  "hm_remove k m = filter (\<lambda>p. fst p \<noteq> k) m"

fun hm_insert :: "'k \<Rightarrow> 'v \<Rightarrow> ('k, 'v) hash_map \<Rightarrow> ('k, 'v) hash_map" where
  "hm_insert k v [] = [(k, v)]"
| "hm_insert k v (p # m) = (if fst p = k then (k, v) # m else p # hm_insert k v m)"

definition hm_keys :: "('k, 'v) hash_map \<Rightarrow> 'k list" where
  "hm_keys m = map fst m"

definition hm_values :: "('k, 'v) hash_map \<Rightarrow> 'v list" where
  "hm_values m = map snd m"

definition hm_ok :: "('k, 'v) hash_map \<Rightarrow> bool" where
  "hm_ok m \<longleftrightarrow> distinct (map fst m)"

named_theorems hm_simps \<open>rewrite rules for hash maps\<close>

lemma hm_get_Nil [hm_simps]: "hm_get k [] = None"
  by (simp add: hm_get_def)

lemma hm_get_insert [hm_simps]: "hm_get k' (hm_insert k v m) = (if k' = k then Some v else hm_get k' m)"
  by (induction m) (auto simp: hm_get_def)

lemma hm_get_remove [hm_simps]: "hm_get k' (hm_remove k m) = (if k' = k then None else hm_get k' m)"
  by (induction m) (auto simp: hm_get_def hm_remove_def)

lemma hm_contains_get: "hm_contains k m \<longleftrightarrow> hm_get k m \<noteq> None"
  by (simp add: hm_contains_def hm_get_def map_of_eq_None_iff)

lemma hm_contains_iff: "hm_contains k m \<longleftrightarrow> (\<exists>v. (k, v) \<in> set m)"
  by (force simp: hm_contains_def)

lemma keys_insert: "set (map fst (hm_insert k v m)) = insert k (set (map fst m))"
  by (induction m) auto

lemma hm_ok_Nil [simp, hm_simps]: "hm_ok []"
  by (simp add: hm_ok_def)

lemma hm_ok_insert [simp, hm_simps]: "hm_ok m \<Longrightarrow> hm_ok (hm_insert k v m)"
proof (induction m)
  case (Cons p m)
  then show ?case using keys_insert [of k v m] by (auto simp: hm_ok_def)
qed (simp add: hm_ok_def)

lemma hm_ok_remove [simp, hm_simps]: "hm_ok m \<Longrightarrow> hm_ok (hm_remove k m)"
  by (simp add: hm_ok_def hm_remove_def distinct_map_filter)

lemma hm_get_Some_iff: "hm_ok m \<Longrightarrow> hm_get k m = Some v \<longleftrightarrow> (k, v) \<in> set m"
  by (simp add: hm_ok_def hm_get_def)

lemma set_hm_insert: "hm_ok m \<Longrightarrow> set (hm_insert k v m) = insert (k, v) {p \<in> set m. fst p \<noteq> k}"
  by (induction m) (force simp: hm_ok_def)+

lemma set_hm_remove [hm_simps]: "set (hm_remove k m) = {p \<in> set m. fst p \<noteq> k}"
  by (auto simp: hm_remove_def)

lemma hm_insert_new: "\<not> hm_contains k m \<Longrightarrow> hm_insert k v m = m @ [(k, v)]"
  by (induction m) (auto simp: hm_contains_def)

lemma hm_remove_absent: "\<not> hm_contains k m \<Longrightarrow> hm_remove k m = m"
  by (force simp: hm_remove_def hm_contains_def filter_id_conv)

locale map_store =
  fixes get :: "'k \<Rightarrow> 's \<Rightarrow> 'v option"
    and put :: "'k \<Rightarrow> 'v \<Rightarrow> 's \<Rightarrow> 's"
    and del :: "'k \<Rightarrow> 's \<Rightarrow> 's"
    and empty :: 's
    and invar :: "'s \<Rightarrow> bool"
  assumes get_empty: "get k empty = None"
    and get_put: "invar s \<Longrightarrow> get k' (put k v s) = (if k' = k then Some v else get k' s)"
    and get_del: "invar s \<Longrightarrow> get k' (del k s) = (if k' = k then None else get k' s)"
    and invar_empty: "invar empty"
    and invar_put: "invar s \<Longrightarrow> invar (put k v s)"
    and invar_del: "invar s \<Longrightarrow> invar (del k s)"
begin

lemma get_put_same: "invar s \<Longrightarrow> get k (put k v s) = Some v"
  by (simp add: get_put)

lemma put_put: "invar s \<Longrightarrow> get x (put k v (put k w s)) = get x (put k v s)"
  by (simp add: get_put invar_put)

lemma put_commute:
  "invar s \<Longrightarrow> k \<noteq> l \<Longrightarrow> get x (put k v (put l w s)) = get x (put l w (put k v s))"
  by (simp add: get_put invar_put)

lemma del_put: "invar s \<Longrightarrow> get k s = None \<Longrightarrow> get x (del k (put k v s)) = get x s"
  by (simp add: get_put get_del invar_put)

end

interpretation hm: map_store hm_get hm_insert hm_remove "[]" hm_ok
  by unfold_locales (simp_all add: hm_simps)

section \<open>Rows with a key\<close>

text \<open>The first row of a table with a given key.\<close>

definition key_map :: "('a \<Rightarrow> 'k) \<Rightarrow> 'a list \<Rightarrow> 'k \<Rightarrow> 'a option" where
  "key_map key xs = map_of (map (\<lambda>x. (key x, x)) xs)"

lemma key_map_Nil [simp]: "key_map key [] = (\<lambda>_. None)"
  by (simp add: key_map_def)

lemma key_map_Cons: "key_map key (x # xs) = (key_map key xs)(key x \<mapsto> x)"
  by (simp add: key_map_def)

lemma key_map_append: "key_map key (xs @ ys) = key_map key ys ++ key_map key xs"
  by (simp add: key_map_def)

lemma find_is_key_map: "find (\<lambda>x. key x = k) xs = key_map key xs k"
  by (induction xs) (auto simp: key_map_def)

lemma key_map_Some: "distinct (map key xs) \<Longrightarrow> key_map key xs k = Some x \<longleftrightarrow> x \<in> set xs \<and> key x = k"
  by (auto simp: key_map_def map_of_eq_Some_iff comp_def)

lemma key_map_key: "key_map key xs k = Some x \<Longrightarrow> x \<in> set xs \<and> key x = k"
  by (auto simp: key_map_def dest!: map_of_SomeD)

lemma key_map_None: "key_map key xs k = None \<longleftrightarrow> k \<notin> key ` set xs"
  by (auto simp: key_map_def map_of_eq_None_iff image_image)

lemma key_map_update_all:
  assumes "\<And>x. key (f x) = key x"
  shows "key_map key (map (\<lambda>x. if key x = k then f x else x) xs) k' =
    (if k' = k then map_option f (key_map key xs k) else key_map key xs k')"
  by (induction xs) (auto simp: key_map_Cons assms)

lemma find_Some: "find P xs = Some x \<Longrightarrow> P x \<and> x \<in> set xs"
  by (auto simp: find_Some_iff)

end
