(* ===== verification/Job_Store.thy ===== *)
theory Job_Store
  imports Secret_Vault File_Selection Hash_Map
begin

text \<open>
  The SQLite job store, \<open>crates/autoflow-infrastructure/src/jobs.rs\<close>, and the use cases over it,
  \<open>crates/autoflow-application/src/jobs.rs\<close>. A row holds the job as \<open>serde_json\<close> writes it: the same job
  without the two legacy fields, which are not serialized. The locale \<open>job_store\<close> is the port the use
  cases rely on (\<open>ports/mod.rs\<close>), interpreted on the SQLite store. A row that is not valid JSON, a
  database error and a failing keyring are not modelled.
\<close>

section \<open>The store\<close>

record store_config =
  st_vault :: "(aead \<times> 8 word list) option"
  st_encryption_enabled :: bool
  st_rng :: "nat \<Rightarrow> 8 word list option"
  st_tz :: tz_lib
  st_rx :: regex_lib
  st_canon :: "string \<Rightarrow> string option"

record job_row =
  jr_payload :: job
  jr_updated_at :: timestamp

record job_db =
  db_rows :: "(uuid, job_row) hash_map"
  db_draws :: nat

definition to_payload :: "job \<Rightarrow> job" where
  "to_payload j = j\<lparr>legacy_include_extensions := [], legacy_recursive := None\<rparr>"

definition open_stored :: "store_config \<Rightarrow> job \<Rightarrow> job" where
  "open_stored cfg j =
     (if st_encryption_enabled cfg
      then (case st_vault cfg of Some (ae, key) \<Rightarrow> open_job_secrets ae key j | None \<Rightarrow> j) else j)"

definition seal_stored :: "store_config \<Rightarrow> nat \<Rightarrow> job \<Rightarrow> job \<times> nat" where
  "seal_stored cfg n j =
     (if st_encryption_enabled cfg
      then (case st_vault cfg of
              Some (ae, key) \<Rightarrow> seal_job_secrets ae key (st_rng cfg) n j | None \<Rightarrow> (j, n))
      else (j, n))"

definition deserialize :: "store_config \<Rightarrow> timestamp \<Rightarrow> job \<Rightarrow> job" where
  "deserialize cfg now payload = open_stored cfg (normalize (st_tz cfg) now payload)"

definition store_list :: "store_config \<Rightarrow> timestamp \<Rightarrow> job_db \<Rightarrow> job_summary list" where
  "store_list cfg now db =
     map (\<lambda>row. summary (deserialize cfg now (jr_payload row)))
       (sort_key (\<lambda>row. - jr_updated_at row) (hm_values (db_rows db)))"

definition store_get :: "store_config \<Rightarrow> timestamp \<Rightarrow> uuid \<Rightarrow> job_db \<Rightarrow> domain_error + job" where
  "store_get cfg now jid db =
     (case hm_get jid (db_rows db) of
        Some row \<Rightarrow> Inr (deserialize cfg now (jr_payload row))
      | None \<Rightarrow> Inl JobNotFound)"

definition store_save :: "store_config \<Rightarrow> timestamp \<Rightarrow> job \<Rightarrow> job_db \<Rightarrow> domain_error + job_db" where
  "store_save cfg now j db =
     rbind (job_validate (st_tz cfg) (st_rx cfg) (st_canon cfg) j) (\<lambda>_.
       (let (stored, n) = seal_stored cfg (db_draws db) j in
        Inr \<lparr>db_rows = hm_insert (job_id j) \<lparr>jr_payload = to_payload stored, jr_updated_at = now\<rparr> (db_rows db),
             db_draws = n\<rparr>))"

definition store_delete :: "uuid \<Rightarrow> job_db \<Rightarrow> domain_error + job_db" where
  "store_delete jid db =
     (if hm_contains jid (db_rows db) then Inr (db\<lparr>db_rows := hm_remove jid (db_rows db)\<rparr>)
      else Inl JobNotFound)"

fun dedup_paths :: "string list \<Rightarrow> string list" where
  "dedup_paths (p # q # rest) =
     (if path_eq q p then dedup_paths (p # rest) else p # dedup_paths (q # rest))"
| "dedup_paths ps = ps"

definition authorized_roots :: "store_config \<Rightarrow> timestamp \<Rightarrow> job_db \<Rightarrow> string list" where
  "authorized_roots cfg now db =
     dedup_paths (sort_key path_key
       (concat (map (\<lambda>row. let j = deserialize cfg now (jr_payload row) in [source_path j, target_path j])
          (hm_values (db_rows db)))))"

section \<open>The port\<close>

text \<open>
  \<open>view now j\<close> is what reading a saved job at the moment \<open>now\<close> gives; \<open>ok j\<close> are the jobs whose save
  keeps all of the job.
\<close>

locale job_store =
  fixes get :: "timestamp \<Rightarrow> uuid \<Rightarrow> 's \<Rightarrow> domain_error + job"
    and save :: "timestamp \<Rightarrow> job \<Rightarrow> 's \<Rightarrow> domain_error + 's"
    and delete :: "uuid \<Rightarrow> 's \<Rightarrow> domain_error + 's"
    and view :: "timestamp \<Rightarrow> job \<Rightarrow> job"
    and ok :: "job \<Rightarrow> bool"
    and invar :: "'s \<Rightarrow> bool"
  assumes get_save: "invar s \<Longrightarrow> ok j \<Longrightarrow> save t j s = Inr s' \<Longrightarrow>
      get now jid s' = (if jid = job_id j then Inr (view now j) else get now jid s)"
    and get_delete: "invar s \<Longrightarrow> delete jid s = Inr s' \<Longrightarrow>
      get now jid' s' = (if jid' = jid then Inl JobNotFound else get now jid' s)"
    and delete_error: "delete jid s = Inl e \<Longrightarrow> e = JobNotFound \<and> get now jid s = Inl JobNotFound"
    and invar_save: "invar s \<Longrightarrow> save t j s = Inr s' \<Longrightarrow> invar s'"
    and invar_delete: "invar s \<Longrightarrow> delete jid s = Inr s' \<Longrightarrow> invar s'"
begin

lemma save_twice:
  assumes "invar s" "ok j" "ok k" "job_id k = job_id j" "save t j s = Inr s1" "save u k s1 = Inr s2"
  shows "get now jid s2 = (if jid = job_id j then Inr (view now k) else get now jid s)"
  using get_save [OF assms(1,2,5)] get_save [OF invar_save [OF assms(1,5)] assms(3,6)] assms(4) by simp

lemma delete_after_save:
  assumes "invar s" "ok j" "save t j s = Inr s1" "delete (job_id j) s1 = Inr s2"
  shows "get now (job_id j) s2 = Inl JobNotFound"
  using get_delete [OF invar_save [OF assms(1,3)] assms(4)] by simp

lemma delete_saved:
  assumes "invar s" "ok j" "save t j s = Inr s1"
  shows "is_ok (delete (job_id j) s1)"
proof (rule ccontr)
  assume "\<not> is_ok (delete (job_id j) s1)"
  then obtain e where "delete (job_id j) s1 = Inl e" by (auto simp: not_is_ok_iff)
  from delete_error [OF this] get_save [OF assms] show False by simp
qed

end

section \<open>Use cases\<close>

definition create_job :: "store_config \<Rightarrow> timestamp \<Rightarrow> job \<Rightarrow> job_db \<Rightarrow> domain_error + job \<times> job_db" where
  "create_job cfg now j db =
     (let j' = normalize (st_tz cfg) now j in
      rbind (job_validate (st_tz cfg) (st_rx cfg) (st_canon cfg) j') (\<lambda>_.
      rbind (store_save cfg now j' db) (\<lambda>db'. Inr (j', db'))))"

definition update_job :: "store_config \<Rightarrow> timestamp \<Rightarrow> job \<Rightarrow> job_db \<Rightarrow> domain_error + job \<times> job_db" where
  "update_job cfg now j db =
     (let j' = normalize (st_tz cfg) now j in
      rbind (job_validate (st_tz cfg) (st_rx cfg) (st_canon cfg) j') (\<lambda>_.
      rbind (store_save cfg now j' db) (\<lambda>db'. Inr (j', db'))))"

definition delete_job :: "uuid \<Rightarrow> job_db \<Rightarrow> domain_error + job_db" where
  "delete_job jid db = store_delete jid db"

record simulation_sample =
  sim_source :: string
  sim_target :: string
  sim_action :: string

record simulation_report =
  files_matched :: "32 word"
  files_skipped :: "32 word"
  sim_sample :: "simulation_sample list"
  sim_warnings :: "string list"

definition count_files ::
    "regex_lib \<Rightarrow> glob_lib \<Rightarrow> fs_probe \<Rightarrow> timestamp \<Rightarrow> string \<Rightarrow> job \<Rightarrow> filter_engine \<Rightarrow>
     domain_error + nat \<times> nat" where
  "count_files rx gl fs now source j engine =
     (let visit = (\<lambda>paths.
            let visited = filter (fp_is_file fs) paths in
            (length visited,
             length (filter (\<lambda>p. \<not> unwrap_or_false (should_process rx gl fs now engine p j source)) visited)))
      in if fp_is_file fs source then Inr (visit [source])
         else if recursive (filters j)
         then Inr (visit (map fst (filter (\<lambda>(path, is_symlink, is_file).
                \<not> (is_symlink \<and> symlink_mode (filters j) = SkipLinks))
                (fp_walk fs source (symlink_mode (filters j) = Follow)))))
         else
           rbind (map_err DatabaseError (rbind (fp_read_dir fs source) (collect_dir (\<lambda>_. True))))
             (\<lambda>paths. Inr (visit paths)))"

definition simulate_job_data ::
    "regex_lib \<Rightarrow> glob_lib \<Rightarrow> fs_probe \<Rightarrow> timestamp \<Rightarrow> job \<Rightarrow> domain_error + simulation_report" where
  "simulate_job_data rx gl fs now j =
     (let source = source_path j in
      if \<not> fp_exists fs source then Inl (SourceNotFound source)
      else
        rbind (map_err Validation (from_job gl rx j)) (\<lambda>engine.
          let warn = (\<lambda>field r. case r of
                None \<Rightarrow> []
              | Some p \<Rightarrow> if is_ok (rx_new rx p) then [] else [''invalid '' @ field @ '': '' @ p]);
              warnings = warn ''name_regex'' (name_regex (filters j)) @ warn ''path_regex'' (path_regex (filters j))
          in rbind (count_files rx gl fs now source j engine) (\<lambda>(_, skipped).
             rbind (map_err DatabaseError (collect_files rx gl fs now j)) (\<lambda>matched.
               Inr \<lparr>files_matched = of_nat (length matched), files_skipped = of_nat skipped,
                    sim_sample = map (\<lambda>file.
                        \<lparr>sim_source = file,
                         sim_target = path_join (target_path j)
                           (case strip_prefix file source of None \<Rightarrow> file | Some relative \<Rightarrow> relative),
                         sim_action = (case job_mode j of Copy \<Rightarrow> ''copy'' | Move \<Rightarrow> ''move'')\<rparr>) (take 25 matched),
                    sim_warnings = warnings\<rparr>))))"

definition simulate_job_draft ::
    "tz_lib \<Rightarrow> (string \<Rightarrow> string option) \<Rightarrow> regex_lib \<Rightarrow> glob_lib \<Rightarrow> fs_probe \<Rightarrow> timestamp \<Rightarrow> job \<Rightarrow>
     domain_error + simulation_report" where
  "simulate_job_draft tz canon rx gl fs now j =
     (let j' = normalize tz now j in
      rbind (job_validate tz rx canon j') (\<lambda>_. simulate_job_data rx gl fs now j'))"

section \<open>The SQLite store provides the port\<close>

definition db_ok :: "job_db \<Rightarrow> bool" where
  "db_ok db \<longleftrightarrow> hm_ok (db_rows db)"

definition vault_ok :: "store_config \<Rightarrow> bool" where
  "vault_ok cfg \<longleftrightarrow>
     nonces_ok (st_rng cfg) \<and> (\<forall>ae key. st_vault cfg = Some (ae, key) \<longrightarrow> aead_ok ae key)"

definition storable :: "store_config \<Rightarrow> job \<Rightarrow> bool" where
  "storable cfg j \<longleftrightarrow> vault_ok cfg \<and> list_all plain_secret (job_secrets j)"

definition stored_view :: "store_config \<Rightarrow> timestamp \<Rightarrow> job \<Rightarrow> job" where
  "stored_view cfg now j = normalize (st_tz cfg) now (to_payload j)"

lemma secrets_frame:
  "map_job_secrets f n (to_payload j) = (let (k, m) = map_job_secrets f n j in (to_payload k, m))"
  by (simp add: map_job_secrets_def to_payload_def split_beta Let_def split: option.splits)

lemma secrets_normalize:
  "map_job_secrets f n (normalize tz now j) = (let (k, m) = map_job_secrets f n j in (normalize tz now k, m))"
  by (simp add: map_job_secrets_def normalize_eq normalize_legacy_def watch_active_def schedule_active_def
      split_beta Let_def split: option.splits)

lemma open_stored_seal:
  assumes "storable cfg j"
  shows "deserialize cfg now (to_payload (fst (seal_stored cfg n j))) = stored_view cfg now j"
proof (cases "st_encryption_enabled cfg \<and> (\<exists>v. st_vault cfg = Some v)")
  case False
  then show ?thesis
    by (auto simp: deserialize_def open_stored_def seal_stored_def stored_view_def split: option.splits)
next
  case True
  then obtain ae key where v: "st_vault cfg = Some (ae, key)" "st_encryption_enabled cfg" by auto
  let ?s = "fst (seal_job_secrets ae key (st_rng cfg) n j)"
  have "open_job_secrets ae key ?s = j"
    using assms v unfolding storable_def vault_ok_def by (intro sealed_job_opens) auto
  moreover have "open_job_secrets ae key (normalize (st_tz cfg) now (to_payload ?s)) =
      normalize (st_tz cfg) now (to_payload (open_job_secrets ae key ?s))"
    by (simp add: open_job_secrets_def secrets_frame secrets_normalize split_beta Let_def)
  ultimately show ?thesis
    using v by (simp add: deserialize_def open_stored_def seal_stored_def stored_view_def)
qed

interpretation sqlite: job_store "store_get cfg" "store_save cfg" store_delete "stored_view cfg"
    "storable cfg" db_ok for cfg
  by unfold_locales
    (auto simp: store_get_def store_save_def store_delete_def db_ok_def result_simps split_beta hm_simps
      open_stored_seal hm_contains_get split: if_splits option.splits)

lemma to_payload_normalize: "to_payload (normalize tz now j) = normalize tz now j"
proof -
  have "legacy_include_extensions (normalize tz now j) = []" "legacy_recursive (normalize tz now j) = None"
    by (simp_all add: normalize_eq)
  then show ?thesis by (simp add: to_payload_def)
qed

lemma job_id_normalize [simp]: "job_id (normalize tz now j) = job_id j"
  by (simp add: normalize_eq normalize_legacy_def Let_def)

lemma storable_normalize: "storable cfg (normalize tz now j) = storable cfg j"
  by (simp add: storable_def job_secrets_def normalize_eq normalize_legacy_def Let_def)

section \<open>Properties\<close>

text \<open>
  C6. A job that \<open>create_job\<close> accepts, where the vault can be used and none of its secrets begins with the
  vault's own prefix \<open>enc:v1:\<close>, is read back as it was returned, with its secrets decrypted and
  its next run computed anew at the moment of reading; every other job reads as before, and deleting
  it afterwards succeeds and leaves no such job.
\<close>

theorem created_job_reads_back:
  assumes "db_ok db" "storable cfg j" "create_job cfg t j db = Inr (j', db')"
  shows "j' = normalize (st_tz cfg) t j \<and>
    store_get cfg now (job_id j) db' = Inr (normalize (st_tz cfg) now j') \<and>
    (jid = job_id j \<or> store_get cfg now jid db' = store_get cfg now jid db) \<and>
    (case delete_job (job_id j) db' of
       Inl _ \<Rightarrow> False | Inr db'' \<Rightarrow> store_get cfg now (job_id j) db'' = Inl JobNotFound)"
proof -
  from assms(3) have j': "j' = normalize (st_tz cfg) t j" and save: "store_save cfg t j' db = Inr db'"
    by (auto simp: create_job_def Let_def result_simps)
  have st: "storable cfg j'" using assms(2) by (simp add: j' storable_normalize)
  have jid: "job_id j' = job_id j" by (simp add: j')
  note get = sqlite.get_save [OF assms(1) st save]
  have "stored_view cfg now j' = normalize (st_tz cfg) now j'"
    by (simp add: stored_view_def j' to_payload_normalize)
  moreover obtain db'' where d: "store_delete (job_id j') db' = Inr db''"
    using sqlite.delete_saved [OF assms(1) st save] by (auto simp: is_ok_iff)
  moreover have "store_get cfg now (job_id j) db'' = Inl JobNotFound"
    using sqlite.delete_after_save [OF assms(1) st save d, of now] by (simp add: jid)
  ultimately show ?thesis
    using get [of now] by (auto simp: j' jid delete_job_def)
qed

definition demo_store :: store_config where
  "demo_store = \<lparr>st_vault = Some (demo_aead, []), st_encryption_enabled = True,
     st_rng = (\<lambda>_. Some (replicate 12 7)), st_tz = utc,
     st_rx = \<lparr>rx_new = (\<lambda>_. Inr ()), rx_is_match = (\<lambda>_ _. True)\<rparr>, st_canon = (\<lambda>p. Some p)\<rparr>"

definition demo_job :: job where
  "demo_job = (job_new 1 ''Backup'' ''/in'' ''/out'')
     \<lparr>schedule := Some \<lparr>sc_enabled = True, sc_timezone = ''UTC'', sc_rule = Interval 15\<rparr>,
      options := transfer_default\<lparr>encrypt_password := Some ''s3cret''\<rparr>\<rparr>"

lemma demo_storable: "storable demo_store demo_job"
  by (simp add: storable_def vault_ok_def demo_store_def demo_job_def job_new_def job_secrets_def
      nonces_ok_def nonce_len_def aead_ok_def demo_aead_def notify_default_def transfer_default_def
      plain_secret_def ascii_def starts_with_def sealed_prefix_def code_def)

theorem created_job_reads_back_witness:
  "\<exists>j' db'. create_job demo_store 0 demo_job \<lparr>db_rows = [], db_draws = 0\<rparr> = Inr (j', db') \<and>
     store_get demo_store 5 1 db' = Inr (normalize utc 5 j') \<and> encrypt_password (options j') = Some ''s3cret''"
proof -
  let ?db = "\<lparr>db_rows = [], db_draws = 0\<rparr>"
  have "is_ok (create_job demo_store 0 demo_job ?db)" by code_simp
  then obtain j' db' where c: "create_job demo_store 0 demo_job ?db = Inr (j', db')"
    by (auto simp: is_ok_iff)
  have "db_ok ?db" by (simp add: db_ok_def)
  from created_job_reads_back [OF this demo_storable c, of 5]
  have "j' = normalize utc 0 demo_job" "store_get demo_store 5 1 db' = Inr (normalize utc 5 j')"
    by (simp_all add: demo_store_def demo_job_def job_new_def)
  moreover have "encrypt_password (options (normalize utc 0 demo_job)) = Some ''s3cret''"
    by (simp add: normalize_eq normalize_legacy_def demo_job_def Let_def)
  ultimately show ?thesis using c by blast
qed

end
