(* ===== verification/Machine.thy ===== *)
theory Machine
  imports Main
begin

text \<open>
  Components that run as state machines: \<open>perform a s\<close> is the state after the action \<open>a\<close>, \<open>None\<close>
  when the action cannot happen in \<open>s\<close>. A component interprets the locale \<open>machine\<close> on its own
  actions with its invariant and gets the invariant on every run from its initial state.
\<close>

fun run_all :: "('a \<Rightarrow> 's \<Rightarrow> 's option) \<Rightarrow> 'a list \<Rightarrow> 's \<Rightarrow> 's option" where
  "run_all perform [] s = Some s"
| "run_all perform (a # as) s =
     (case perform a s of None \<Rightarrow> None | Some s' \<Rightarrow> run_all perform as s')"

inductive reach :: "('a \<Rightarrow> 's \<Rightarrow> 's option) \<Rightarrow> 's \<Rightarrow> 's \<Rightarrow> bool" for perform s0 where
  reach_init: "reach perform s0 s0"
| reach_step: "reach perform s0 s \<Longrightarrow> perform a s = Some s' \<Longrightarrow> reach perform s0 s'"

lemma run_all_append:
  "run_all perform (as @ bs) s =
     (case run_all perform as s of None \<Rightarrow> None | Some s' \<Rightarrow> run_all perform bs s')"
  by (induction as arbitrary: s) (auto split: option.splits)

lemma reach_run_all: "reach perform s0 s \<Longrightarrow> run_all perform as s = Some s' \<Longrightarrow> reach perform s0 s'"
  by (induction as arbitrary: s) (auto split: option.splits intro: reach_step)

lemma reach_iff_run_all: "reach perform s0 s \<longleftrightarrow> (\<exists>as. run_all perform as s0 = Some s)"
proof
  assume "reach perform s0 s"
  then show "\<exists>as. run_all perform as s0 = Some s"
  proof (induction rule: reach.induct)
    case reach_init
    show ?case by (rule exI [of _ "[]"]) simp
  next
    case (reach_step s a s')
    then obtain as where "run_all perform as s0 = Some s" by blast
    with reach_step show ?case by (intro exI [of _ "as @ [a]"]) (simp add: run_all_append)
  qed
qed (auto intro: reach_run_all reach_init)

locale machine =
  fixes perform :: "'a \<Rightarrow> 's \<Rightarrow> 's option"
    and initial :: 's
    and inv :: "'s \<Rightarrow> bool"
  assumes inv_initial: "inv initial"
    and inv_perform: "inv s \<Longrightarrow> perform a s = Some s' \<Longrightarrow> inv s'"
begin

lemma reach_inv: "reach perform initial s \<Longrightarrow> inv s"
  by (induction rule: reach.induct) (auto intro: inv_initial inv_perform)

lemma run_inv: "inv s \<Longrightarrow> run_all perform as s = Some s' \<Longrightarrow> inv s'"
  by (induction as arbitrary: s) (auto split: option.splits intro: inv_perform)

lemma run_stable:
  assumes "\<And>a s s'. inv s \<Longrightarrow> P s \<Longrightarrow> a \<in> A \<Longrightarrow> perform a s = Some s' \<Longrightarrow> P s'"
  shows "inv s \<Longrightarrow> P s \<Longrightarrow> set as \<subseteq> A \<Longrightarrow> run_all perform as s = Some s' \<Longrightarrow> P s'"
  by (induction as arbitrary: s) (auto split: option.splits intro: inv_perform assms)

lemma reach_stable:
  assumes "\<And>a s s'. inv s \<Longrightarrow> P s \<Longrightarrow> perform a s = Some s' \<Longrightarrow> P s'" "P initial"
  shows "reach perform initial s \<Longrightarrow> P s"
proof (induction rule: reach.induct)
  case (reach_step s a s')
  then show ?case using assms(1) reach_inv by blast
qed (rule assms(2))

end

end
