(* ===== verification/Job_Queue.thy ===== *)
theory Job_Queue
  imports Machine Hash_Map Domain_Types "HOL-Library.Multiset"
begin

text \<open>
  The job queue, \<open>crates/autoflow-core/src/queue.rs\<close>: the shared state of \<open>JobQueue\<close>, the client's
  operations, the worker loop and the tasks it spawns, as atomic actions. An action is what the code
  does between two points where another thread can act: the worker's program counter (\<open>worker_pc\<close>)
  names those points. The tasks of \<open>run_job\<close> are seen through their callbacks: any number of progress
  reports, then either the completed callback (the run returned \<open>Ok\<close>) or the error branch. A sender of
  the channel is alive as long as the queue is, so \<open>send\<close> does not fail and \<open>recv\<close> does not end.
  \<open>issued\<close> is a ghost list of the executions handed out: \<open>Uuid::new_v4\<close> never returns one of them again.
\<close>

section \<open>State\<close>

datatype execution_event =
    Progress execution_progress
  | Completed execution_completed

datatype queue_message =
    Run uuid uuid
  | Cancel uuid

text \<open>
  \<open>LoopHead\<close>: at the top of the loop. \<open>SawPaused\<close>: the paused flag was read as true, \<open>select!\<close> not yet
  entered. \<open>Selecting\<close>: in the \<open>select!\<close> of the paused branch. \<open>Receiving\<close>: in \<open>recv().await\<close> of the
  other branch. \<open>Starting j e\<close>: a \<open>Run\<close> message was taken and removed from \<open>queued\<close>.
\<close>

datatype worker_pc = LoopHead | SawPaused | Selecting | Receiving | Starting uuid uuid

record job_queue =
  channel :: "queue_message list"
  active :: "(uuid, active_execution) hash_map"
  running_jobs :: "(uuid, uuid) hash_map"
  queued :: "(uuid, uuid) hash_map"
  cancelled :: "uuid list"
  paused :: bool
  pending :: "queue_message list"
  cancel_tokens :: "uuid list"
  signalled :: "uuid list"
  worker :: worker_pc
  tasks :: "(uuid \<times> uuid) list"
  events :: "execution_event list"
  issued :: "(uuid \<times> uuid) list"

definition start :: job_queue where
  "start = \<lparr>channel = [], active = [], running_jobs = [], queued = [], cancelled = [], paused = False,
     pending = [], cancel_tokens = [], signalled = [], worker = LoopHead, tasks = [], events = [],
     issued = []\<rparr>"

section \<open>The client's operations\<close>

definition send :: "queue_message \<Rightarrow> job_queue \<Rightarrow> job_queue" where
  "send msg q = q\<lparr>channel := channel q @ [msg]\<rparr>"

definition pause :: "job_queue \<Rightarrow> job_queue" where
  "pause q = q\<lparr>paused := True\<rparr>"

text \<open>\<open>notify_waiters\<close> wakes a worker that waits, and nobody else.\<close>

definition resume :: "job_queue \<Rightarrow> job_queue" where
  "resume q = q\<lparr>paused := False, worker := (if worker q = Selecting then LoopHead else worker q)\<rparr>"

definition is_paused :: "job_queue \<Rightarrow> bool" where
  "is_paused q = paused q"

definition cancel :: "uuid \<Rightarrow> job_queue \<Rightarrow> (domain_error + unit) \<times> job_queue" where
  "cancel execution_id q =
     (if \<not> hm_contains execution_id (active q) \<and> \<not> hm_contains execution_id (queued q)
      then (Inl ExecutionNotFound, q)
      else (Inr (), send (Cancel execution_id) q))"

definition stop_all :: "job_queue \<Rightarrow> job_queue" where
  "stop_all q =
     (let q' = fold (\<lambda>execution_id s. snd (cancel execution_id s)) (hm_keys (active q)) q
      in q'\<lparr>pending := []\<rparr>)"

definition enqueue :: "uuid \<Rightarrow> uuid \<Rightarrow> job_queue \<Rightarrow> (domain_error + uuid) \<times> job_queue" where
  "enqueue new_v4 job_id q =
     (if hm_contains job_id (running_jobs q) \<or> job_id \<in> set (hm_values (queued q))
      then (Inl AlreadyRunning, q)
      else
        (let execution_id = new_v4;
             q' = q\<lparr>queued := hm_insert execution_id job_id (queued q),
                    issued := (job_id, execution_id) # issued q\<rparr>
         in (Inr execution_id, send (Run job_id execution_id) q')))"

definition list_active :: "job_queue \<Rightarrow> active_execution list" where
  "list_active q = hm_values (active q)"

section \<open>The worker\<close>

definition emit :: "execution_event \<Rightarrow> job_queue \<Rightarrow> job_queue" where
  "emit ev q = q\<lparr>events := events q @ [ev]\<rparr>"

definition failure :: "uuid \<Rightarrow> uuid \<Rightarrow> string \<Rightarrow> execution_completed" where
  "failure execution_id job_id message =
     \<lparr>ec_execution_id = execution_id, ec_job_id = job_id, ec_success = False, ec_processed = 0,
      ec_failed = 0, ec_error_message = Some message\<rparr>"

definition handle_cancel :: "uuid \<Rightarrow> job_queue \<Rightarrow> job_queue" where
  "handle_cancel execution_id q =
     (if execution_id \<in> set (cancel_tokens q)
      then q\<lparr>cancel_tokens := removeAll execution_id (cancel_tokens q),
             signalled := execution_id # signalled q\<rparr>
      else
        (case hm_get execution_id (queued q) of
           None \<Rightarrow> q
         | Some job_id \<Rightarrow>
             emit (Completed (failure execution_id job_id ''cancelled''))
               (q\<lparr>queued := hm_remove execution_id (queued q),
                  cancelled := List.insert execution_id (cancelled q)\<rparr>)))"

fun handle_paused :: "queue_message \<Rightarrow> job_queue \<Rightarrow> job_queue" where
  "handle_paused (Run job_id execution_id) q = q\<lparr>pending := pending q @ [Run job_id execution_id]\<rparr>"
| "handle_paused (Cancel execution_id) q = handle_cancel execution_id q"

fun handle :: "queue_message \<Rightarrow> job_queue \<Rightarrow> job_queue" where
  "handle (Run job_id execution_id) q =
     q\<lparr>queued := hm_remove execution_id (queued q), worker := Starting job_id execution_id\<rparr>"
| "handle (Cancel execution_id) q = (handle_cancel execution_id q)\<lparr>worker := LoopHead\<rparr>"

definition start_run :: "uuid \<Rightarrow> uuid \<Rightarrow> job_queue \<Rightarrow> job_queue" where
  "start_run job_id execution_id q =
     (if execution_id \<in> set (cancelled q)
      then emit (Completed (failure execution_id job_id ''cancelled''))
             (q\<lparr>cancelled := removeAll execution_id (cancelled q), worker := LoopHead\<rparr>)
      else if hm_contains job_id (running_jobs q) then q\<lparr>worker := LoopHead\<rparr>
      else q\<lparr>running_jobs := hm_insert job_id execution_id (running_jobs q),
             cancel_tokens := List.insert execution_id (cancel_tokens q),
             tasks := (job_id, execution_id) # tasks q,
             worker := LoopHead\<rparr>)"

text \<open>One step of the worker; \<open>None\<close> when it waits for a message or for \<open>resume\<close>.\<close>

definition worker_step :: "job_queue \<Rightarrow> job_queue option" where
  "worker_step q =
     (case worker q of
        LoopHead \<Rightarrow>
          (if paused q then Some (q\<lparr>worker := SawPaused\<rparr>)
           else if pending q \<noteq> [] then Some (handle (last (pending q)) (q\<lparr>pending := butlast (pending q)\<rparr>))
           else Some (q\<lparr>worker := Receiving\<rparr>))
      | SawPaused \<Rightarrow> Some (q\<lparr>worker := Selecting\<rparr>)
      | Selecting \<Rightarrow>
          (case channel q of
             [] \<Rightarrow> None
           | msg # rest \<Rightarrow> Some ((handle_paused msg (q\<lparr>channel := rest\<rparr>))\<lparr>worker := LoopHead\<rparr>))
      | Receiving \<Rightarrow>
          (case channel q of
             [] \<Rightarrow> None
           | msg # rest \<Rightarrow> Some (handle msg (q\<lparr>channel := rest\<rparr>)))
      | Starting job_id execution_id \<Rightarrow> Some (start_run job_id execution_id q))"

section \<open>The spawned tasks\<close>

definition progress_cb :: "execution_progress \<Rightarrow> job_queue \<Rightarrow> job_queue" where
  "progress_cb p q =
     emit (Progress p)
       (q\<lparr>active := hm_insert (ep_execution_id p)
            \<lparr>ae_execution_id = ep_execution_id p, ae_job_id = ep_job_id p, ae_job_name = ep_job_name p,
             ae_current_file = ep_current_file p, ae_percent = ep_percent p,
             ae_bytes_per_sec = ep_bytes_per_sec p, ae_recent_log = ep_recent_log p\<rparr> (active q)\<rparr>)"

definition completed_cb :: "execution_completed \<Rightarrow> job_queue \<Rightarrow> job_queue" where
  "completed_cb c q =
     emit (Completed c)
       (q\<lparr>active := hm_remove (ec_execution_id c) (active q),
          running_jobs := hm_remove (ec_job_id c) (running_jobs q),
          cancel_tokens := removeAll (ec_execution_id c) (cancel_tokens q),
          tasks := removeAll (ec_job_id c, ec_execution_id c) (tasks q)\<rparr>)"

definition task_failed :: "uuid \<Rightarrow> uuid \<Rightarrow> string \<Rightarrow> job_queue \<Rightarrow> job_queue" where
  "task_failed job_id execution_id message q =
     emit (Completed (failure execution_id job_id message))
       (q\<lparr>active := hm_remove execution_id (active q),
          running_jobs := hm_remove job_id (running_jobs q),
          cancel_tokens := removeAll execution_id (cancel_tokens q),
          cancelled := removeAll execution_id (cancelled q),
          tasks := removeAll (job_id, execution_id) (tasks q)\<rparr>)"

section \<open>Steps\<close>

datatype action =
    DoPause | DoResume | DoStopAll
  | DoEnqueue uuid uuid
  | DoCancel uuid
  | DoWorker
  | DoProgress execution_progress
  | DoCompleted execution_completed
  | DoFailed uuid uuid string

fun perform :: "action \<Rightarrow> job_queue \<Rightarrow> job_queue option" where
  "perform DoPause q = Some (pause q)"
| "perform DoResume q = Some (resume q)"
| "perform DoStopAll q = Some (stop_all q)"
| "perform (DoEnqueue execution_id job_id) q =
     (if execution_id \<in> set (map snd (issued q)) then None else Some (snd (enqueue execution_id job_id q)))"
| "perform (DoCancel execution_id) q = Some (snd (cancel execution_id q))"
| "perform DoWorker q = worker_step q"
| "perform (DoProgress p) q =
     (if (ep_job_id p, ep_execution_id p) \<in> set (tasks q) then Some (progress_cb p q) else None)"
| "perform (DoCompleted c) q =
     (if (ec_job_id c, ec_execution_id c) \<in> set (tasks q) then Some (completed_cb c q) else None)"
| "perform (DoFailed job_id execution_id message) q =
     (if (job_id, execution_id) \<in> set (tasks q) then Some (task_failed job_id execution_id message q)
      else None)"

section \<open>The invariant\<close>

fun run_of :: "queue_message \<Rightarrow> (uuid \<times> uuid) list" where
  "run_of (Run job_id execution_id) = [(job_id, execution_id)]"
| "run_of (Cancel _) = []"

definition runs :: "job_queue \<Rightarrow> (uuid \<times> uuid) list" where
  "runs q = concat (map run_of (channel q @ pending q))"

definition starting :: "job_queue \<Rightarrow> (uuid \<times> uuid) list" where
  "starting q = (case worker q of Starting job_id execution_id \<Rightarrow> [(job_id, execution_id)] | _ \<Rightarrow> [])"

definition inflight :: "job_queue \<Rightarrow> (uuid \<times> uuid) list" where
  "inflight q = runs q @ starting q @ tasks q"

text \<open>
  The invariant in three parts: where an execution is (waiting in a message, being started, running)
  against the ones queued and cancelled; that all agree on its job; and the running tasks against the
  maps kept for them.
\<close>

definition life :: "uuid list \<Rightarrow> uuid list \<Rightarrow> uuid list \<Rightarrow> uuid set \<Rightarrow> uuid set \<Rightarrow> uuid set \<Rightarrow> bool" where
  "life r s t i k c \<longleftrightarrow>
     distinct (r @ s @ t) \<and> set r \<union> set s \<union> set t \<subseteq> i \<and> k \<subseteq> i \<and> c \<subseteq> i \<and>
     k \<inter> (set s \<union> set t) = {} \<and> c \<inter> (k \<union> set t) = {} \<and> set r \<subseteq> k \<union> c"

definition matching :: "job_queue \<Rightarrow> bool" where
  "matching q \<longleftrightarrow>
     distinct (map snd (issued q)) \<and> set (inflight q) \<subseteq> set (issued q) \<and>
     hm_ok (queued q) \<and> (\<forall>(e, j) \<in> set (queued q). (j, e) \<in> set (issued q))"

definition busy :: "job_queue \<Rightarrow> bool" where
  "busy q \<longleftrightarrow>
     hm_ok (running_jobs q) \<and> set (running_jobs q) = set (tasks q) \<and>
     fst ` set (active q) \<subseteq> snd ` set (tasks q) \<and> set (cancel_tokens q) \<subseteq> snd ` set (tasks q)"

definition place :: "job_queue \<Rightarrow> bool" where
  "place q \<longleftrightarrow>
     life (map snd (runs q)) (map snd (starting q)) (map snd (tasks q)) (snd ` set (issued q))
       (fst ` set (queued q)) (set (cancelled q))"

definition queue_inv :: "job_queue \<Rightarrow> bool" where
  "queue_inv q \<longleftrightarrow> place q \<and> matching q \<and> busy q"

lemma keys_remove [simp]: "fst ` set (hm_remove k m) = fst ` set m - {k}"
  by (auto simp: hm_remove_def)

lemma keys_filter [simp]: "fst ` {p \<in> set m. fst p \<noteq> k} = fst ` set m - {k}"
  by auto

lemma keys_insert_image [simp]: "fst ` set (hm_insert k v m) = insert k (fst ` set m)"
  using keys_insert [of k v m] by simp

lemma life_perm: "life r s t i k c \<Longrightarrow> mset r' = mset r \<Longrightarrow> life r' s t i k c"
  using mset_eq_setD [of r' r] mset_eq_imp_distinct_iff [of r' r] by (simp add: life_def)

lemma life_drop_waiting: "life (r @ r') s t i k c \<Longrightarrow> life r s t i k c"
  unfolding life_def by auto

lemma life_enqueue: "life r s t i k c \<Longrightarrow> e \<notin> i \<Longrightarrow> life (r @ [e]) s t (insert e i) (insert e k) c"
  unfolding life_def by auto

lemma life_take: "life (e # r) [] t i k c \<Longrightarrow> life r [e] t i (k - {e}) c"
  unfolding life_def by auto

lemma life_begin: "life r [e] t i k c \<Longrightarrow> e \<notin> c \<Longrightarrow> life r [] (e # t) i k c"
  unfolding life_def by auto

lemma life_skip: "life r [e] t i k c \<Longrightarrow> life r [] t i k c"
  unfolding life_def by auto

lemma life_skip_cancelled: "life r [e] t i k c \<Longrightarrow> life r [] t i k (c - {e})"
  unfolding life_def by auto

lemma life_cancel_queued: "life r s t i k c \<Longrightarrow> e \<in> k \<Longrightarrow> life r s t i (k - {e}) (insert e c)"
  unfolding life_def by auto

lemma life_finish: "life r s t i k c \<Longrightarrow> e \<in> set t \<Longrightarrow> life r s (removeAll e t) i k (c - {e})"
  unfolding life_def by (auto simp: distinct_removeAll)

named_theorems queue_defs \<open>definitions of the queue's operations\<close>

lemmas [queue_defs] = pause_def resume_def cancel_def enqueue_def send_def emit_def handle_cancel_def
  start_run_def progress_cb_def completed_cb_def task_failed_def failure_def
  runs_def starting_def inflight_def

lemma cancel_effect:
  "snd (cancel e q) = q \<or> snd (cancel e q) = q\<lparr>channel := channel q @ [Cancel e]\<rparr>"
  by (simp add: cancel_def send_def)

lemma fold_cancel_active:
  "set es \<subseteq> fst ` set (active q) \<Longrightarrow>
   fold (\<lambda>e s. snd (cancel e s)) es q = q\<lparr>channel := channel q @ map Cancel es\<rparr>"
proof (induction es arbitrary: q)
  case (Cons e es)
  then have "snd (cancel e q) = q\<lparr>channel := channel q @ [Cancel e]\<rparr>"
    by (auto simp: cancel_def send_def hm_contains_def)
  with Cons show ?case by simp
qed simp

lemma stop_all_eq:
  "stop_all q = q\<lparr>channel := channel q @ map Cancel (hm_keys (active q)), pending := []\<rparr>"
  by (simp add: stop_all_def Let_def fold_cancel_active hm_keys_def)

lemma run_of_Cancels [simp]: "concat (map (run_of \<circ> Cancel) es) = []"
  by (induction es) auto

lemma runs_snoc_Cancel [simp]: "runs (q\<lparr>channel := channel q @ map Cancel es\<rparr>) = runs q"
  by (simp add: runs_def)

lemma start_inv: "queue_inv start"
  by (simp add: queue_inv_def start_def queue_defs place_def life_def matching_def busy_def)

lemma queue_inv_cong:
  assumes "queue_inv q" "mset (runs q') = mset (runs q)" "starting q' = starting q"
    "tasks q' = tasks q" "issued q' = issued q" "running_jobs q' = running_jobs q"
    "queued q' = queued q" "cancelled q' = cancelled q" "active q' = active q"
    "cancel_tokens q' = cancel_tokens q"
  shows "queue_inv q'"
proof -
  have "set (runs q') = set (runs q)" by (rule mset_eq_setD) (rule assms(2))
  moreover have "mset (map snd (runs q')) = mset (map snd (runs q))" using assms(2) by simp
  then have "place q'"
    using assms life_perm [of "map snd (runs q)" _ _ _ _ _ "map snd (runs q')"]
    by (simp add: queue_inv_def place_def)
  ultimately show ?thesis
    using assms by (simp add: queue_inv_def matching_def busy_def inflight_def)
qed

lemma cancel_inv: "queue_inv q \<Longrightarrow> queue_inv (snd (cancel e q))"
  using cancel_effect [of e q] by (auto elim!: queue_inv_cong simp: runs_def starting_def)

lemma stop_all_inv:
  assumes "queue_inv q"
  shows "queue_inv (stop_all q)"
proof -
  have "place (stop_all q)"
    using assms by (auto simp: queue_inv_def place_def stop_all_eq runs_def starting_def
        intro: life_drop_waiting)
  moreover have "matching (stop_all q)" "busy (stop_all q)"
    using assms
    by (auto simp: queue_inv_def matching_def busy_def inflight_def stop_all_eq runs_def starting_def)
  ultimately show ?thesis by (simp add: queue_inv_def)
qed

lemma enqueue_inv:
  assumes "queue_inv q" "e \<notin> snd ` set (issued q)"
  shows "queue_inv (snd (enqueue e j q))"
proof (cases "snd (enqueue e j q) = q")
  case False
  then have q': "snd (enqueue e j q) =
      q\<lparr>queued := hm_insert e j (queued q), issued := (j, e) # issued q, channel := channel q @ [Run j e]\<rparr>"
    by (auto simp: enqueue_def Let_def send_def split: if_splits)
  let ?q = "snd (enqueue e j q)"
  have m: "mset (runs ?q) = mset (runs q @ [(j, e)])"
    by (simp add: q' runs_def)
  have "life (map snd (runs q) @ [e]) (map snd (starting q)) (map snd (tasks q))
      (insert e (snd ` set (issued q))) (insert e (fst ` set (queued q))) (set (cancelled q))"
    using assms by (intro life_enqueue) (simp_all add: queue_inv_def place_def)
  then have "life (map snd (runs ?q)) (map snd (starting q)) (map snd (tasks q))
      (insert e (snd ` set (issued q))) (insert e (fst ` set (queued q))) (set (cancelled q))"
    by (rule life_perm) (use arg_cong [OF m, of "image_mset snd"] in simp)
  then have "place ?q" by (simp add: q' place_def starting_def)
  moreover have "starting ?q = starting q" by (simp add: q' starting_def)
  then have "matching ?q"
    using assms mset_eq_setD [OF m]
    by (auto simp: q' queue_inv_def matching_def inflight_def set_hm_insert)
  moreover have "busy ?q" using assms by (simp add: q' queue_inv_def busy_def)
  ultimately show ?thesis by (simp add: queue_inv_def)
qed (use assms in simp)

lemma handle_cancel_inv:
  assumes "queue_inv q"
  shows "queue_inv (handle_cancel e q)"
proof (cases "e \<in> set (cancel_tokens q)")
  case True
  with assms show ?thesis
    by (auto simp: handle_cancel_def queue_inv_def place_def matching_def busy_def inflight_def runs_def
        starting_def)
next
  case no_token: False
  show ?thesis
  proof (cases "hm_get e (queued q)")
    case (Some j)
    then have "e \<in> fst ` set (queued q)"
      using assms by (force simp: queue_inv_def matching_def hm_get_Some_iff)
    with Some no_token assms life_cancel_queued show ?thesis
      by (auto simp: handle_cancel_def queue_inv_def place_def matching_def busy_def inflight_def
          runs_def starting_def emit_def set_hm_remove)
  qed (use no_token assms in \<open>simp add: handle_cancel_def\<close>)
qed

lemma handle_cancel_worker: "handle_cancel e (q\<lparr>worker := w\<rparr>) = (handle_cancel e q)\<lparr>worker := w\<rparr>"
  by (simp add: handle_cancel_def emit_def split: option.splits)

lemma handle_inv:
  assumes "queue_inv q" "starting q = []"
    "mset (runs q) = mset (run_of msg) + mset (runs (q\<lparr>channel := c, pending := p\<rparr>))"
  shows "queue_inv (handle msg (q\<lparr>channel := c, pending := p\<rparr>))"
proof (cases msg)
  case (Run j e)
  let ?q = "handle msg (q\<lparr>channel := c, pending := p\<rparr>)"
  from assms(3) have m: "mset (runs q) = mset ((j, e) # runs ?q)"
    by (simp add: Run runs_def)
  have "life (e # map snd (runs ?q)) [] (map snd (tasks q)) (snd ` set (issued q))
      (fst ` set (queued q)) (set (cancelled q))"
    by (rule life_perm [of "map snd (runs q)"])
      (use assms arg_cong [OF m, of "image_mset snd"] in \<open>simp_all add: queue_inv_def place_def\<close>)
  from life_take [OF this] have "place ?q"
    by (simp add: Run place_def starting_def)
  moreover have "matching ?q" "busy ?q"
    using assms mset_eq_setD [OF m]
    by (auto simp: Run queue_inv_def matching_def busy_def inflight_def starting_def set_hm_remove)
  ultimately show ?thesis by (simp add: queue_inv_def)
next
  case (Cancel e)
  have "queue_inv (q\<lparr>channel := c, pending := p, worker := LoopHead\<rparr>)"
    by (rule queue_inv_cong [OF assms(1)]) (use assms Cancel in \<open>simp_all add: starting_def runs_def\<close>)
  from handle_cancel_inv [OF this, of e] show ?thesis
    by (simp add: Cancel handle_cancel_worker)
qed

lemma start_run_inv:
  assumes "queue_inv q" "worker q = Starting j e"
  shows "queue_inv (start_run j e q)"
proof -
  have l: "life (map snd (runs q)) [e] (map snd (tasks q)) (snd ` set (issued q))
      (fst ` set (queued q)) (set (cancelled q))"
    and m: "matching q" and b: "busy q" and i: "(j, e) \<in> set (issued q)"
    using assms by (simp_all add: queue_inv_def place_def starting_def matching_def inflight_def)
  consider "e \<in> set (cancelled q)" | "e \<notin> set (cancelled q)" "hm_contains j (running_jobs q)"
    | "e \<notin> set (cancelled q)" "\<not> hm_contains j (running_jobs q)" by blast
  then show ?thesis
  proof cases
    case 1
    with life_skip_cancelled [OF l] m b assms(2) show ?thesis
      by (simp add: start_run_def emit_def queue_inv_def place_def matching_def busy_def inflight_def
          runs_def starting_def)
  next
    case 2
    with life_skip [OF l] m b assms(2) show ?thesis
      by (simp add: start_run_def queue_inv_def place_def matching_def busy_def inflight_def
          runs_def starting_def)
  next
    case 3
    then have "set (hm_insert j e (running_jobs q)) = insert (j, e) (set (running_jobs q))"
      using b by (force simp: busy_def set_hm_insert hm_contains_def)
    with 3 life_begin [OF l] m b i assms(2) show ?thesis
      by (auto simp: start_run_def queue_inv_def place_def matching_def busy_def inflight_def
          runs_def starting_def)
  qed
qed

lemma task_ids:
  assumes "queue_inv q" "(j, e) \<in> set (tasks q)"
  shows "removeAll e (map snd (tasks q)) = map snd (removeAll (j, e) (tasks q))"
    "snd ` set (removeAll (j, e) (tasks q)) = snd ` set (tasks q) - {e}"
    "set (hm_remove j (running_jobs q)) = set (removeAll (j, e) (tasks q))"
    "e \<notin> set (cancelled q)"
proof -
  have d: "inj_on snd (set (tasks q))"
    using assms(1) by (simp add: queue_inv_def place_def life_def distinct_map)
  have same: "p \<in> set (tasks q) \<Longrightarrow> snd p = e \<longleftrightarrow> p = (j, e)" for p
    using inj_onD [OF d, of p "(j, e)"] assms(2) by auto
  have "filter (\<lambda>p. snd p \<noteq> e) (tasks q) = filter (\<lambda>p. p \<noteq> (j, e)) (tasks q)"
    by (rule filter_cong) (simp_all add: same)
  then show 1: "removeAll e (map snd (tasks q)) = map snd (removeAll (j, e) (tasks q))"
    by (simp add: removeAll_filter_not_eq filter_map o_def eq_commute)
  show "snd ` set (removeAll (j, e) (tasks q)) = snd ` set (tasks q) - {e}"
    using arg_cong [OF 1, of set] by simp
  have "p \<in> set (tasks q) \<Longrightarrow> fst p = j \<longleftrightarrow> p = (j, e)" for p
  proof -
    assume p: "p \<in> set (tasks q)"
    have r: "set (running_jobs q) = set (tasks q)" "hm_ok (running_jobs q)"
      using assms(1) by (simp_all add: queue_inv_def busy_def)
    then have "inj_on fst (set (tasks q))"
      by (metis distinct_map hm_ok_def)
    then have "fst p = j \<Longrightarrow> p = (j, e)"
      by (rule inj_onD) (use p assms(2) in simp_all)
    then show "fst p = j \<longleftrightarrow> p = (j, e)" by auto
  qed
  then have f: "{p \<in> set (tasks q). fst p \<noteq> j} = {p \<in> set (tasks q). p \<noteq> (j, e)}"
    by (intro Collect_cong) (metis (no_types))
  have "set (running_jobs q) = set (tasks q)"
    using assms(1) by (simp add: queue_inv_def busy_def)
  then show "set (hm_remove j (running_jobs q)) = set (removeAll (j, e) (tasks q))"
    unfolding set_hm_remove by (simp only: f) auto
  have "e \<in> snd ` set (tasks q)" using assms(2) by force
  moreover have "set (cancelled q) \<inter> snd ` set (tasks q) = {}"
    using assms(1) by (auto simp: queue_inv_def place_def life_def)
  ultimately show "e \<notin> set (cancelled q)" by blast
qed

lemma finish_inv:
  assumes "queue_inv q" "(j, e) \<in> set (tasks q)" "c = cancelled q \<or> c = removeAll e (cancelled q)"
  shows "queue_inv (q\<lparr>active := hm_remove e (active q), running_jobs := hm_remove j (running_jobs q),
    cancel_tokens := removeAll e (cancel_tokens q), cancelled := c,
    tasks := removeAll (j, e) (tasks q), events := evs\<rparr>)" (is "queue_inv ?q")
proof -
  have c: "set c = set (cancelled q)" "set (cancelled q) - {e} = set (cancelled q)"
    using assms(3) task_ids(4) [OF assms(1,2)] by auto
  have "e \<in> set (map snd (tasks q))" using assms(2) by force
  then have "life (map snd (runs q)) (map snd (starting q)) (removeAll e (map snd (tasks q)))
      (snd ` set (issued q)) (fst ` set (queued q)) (set (cancelled q) - {e})"
    using assms(1) by (intro life_finish) (simp_all add: queue_inv_def place_def)
  then have "place ?q"
    using c task_ids(1) [OF assms(1,2)] by (simp add: place_def runs_def starting_def)
  moreover have "matching ?q"
    using assms(1) by (auto simp: queue_inv_def matching_def inflight_def runs_def starting_def)
  moreover have "busy ?q"
    using assms(1) task_ids [OF assms(1,2)] by (auto simp: queue_inv_def busy_def)
  ultimately show ?thesis by (simp add: queue_inv_def)
qed

lemma worker_step_inv:
  assumes "queue_inv q" "worker_step q = Some q'"
  shows "queue_inv q'"
proof (cases "worker q")
  case LoopHead
  show ?thesis
  proof (cases "\<not> paused q \<and> pending q \<noteq> []")
    case True
    then obtain p m where p: "pending q = p @ [m]" by (metis append_butlast_last_id)
    have "queue_inv (handle m (q\<lparr>channel := channel q, pending := p\<rparr>))"
      by (rule handle_inv) (use assms(1) LoopHead p in \<open>simp_all add: starting_def runs_def\<close>)
    with True LoopHead p assms(2) show ?thesis by (auto simp: worker_step_def)
  next
    case False
    with assms(2) LoopHead obtain w where "q' = q\<lparr>worker := w\<rparr>" "w = SawPaused \<or> w = Receiving"
      by (auto simp: worker_step_def split: if_splits)
    with LoopHead show ?thesis
      by (auto simp: runs_def starting_def intro!: queue_inv_cong [OF assms(1)])
  qed
next
  case SawPaused
  with assms show ?thesis
    by (auto simp: worker_step_def runs_def starting_def intro!: queue_inv_cong [OF assms(1)])
next
  case Selecting
  with assms obtain m rest where c: "channel q = m # rest"
    and q': "q' = (handle_paused m (q\<lparr>channel := rest\<rparr>))\<lparr>worker := LoopHead\<rparr>"
    by (auto simp: worker_step_def split: list.splits)
  show ?thesis
  proof (cases m)
    case (Run j e)
    with c q' Selecting show ?thesis
      by (auto simp: runs_def starting_def intro!: queue_inv_cong [OF assms(1)])
  next
    case (Cancel e)
    have "queue_inv (q\<lparr>channel := rest, worker := LoopHead\<rparr>)"
      using Cancel c Selecting by (auto simp: runs_def starting_def intro!: queue_inv_cong [OF assms(1)])
    from handle_cancel_inv [OF this, of e] Cancel q' show ?thesis
      by (simp flip: handle_cancel_worker)
  qed
next
  case Receiving
  with assms obtain m rest where c: "channel q = m # rest" and q': "q' = handle m (q\<lparr>channel := rest\<rparr>)"
    by (auto simp: worker_step_def split: list.splits)
  have "queue_inv (handle m (q\<lparr>channel := rest, pending := pending q\<rparr>))"
    by (rule handle_inv) (use assms(1) Receiving c in \<open>simp_all add: starting_def runs_def\<close>)
  with q' show ?thesis by simp
next
  case (Starting j e)
  with assms start_run_inv show ?thesis by (auto simp: worker_step_def)
qed

lemma progress_inv:
  assumes "queue_inv q" "(ep_job_id p, ep_execution_id p) \<in> set (tasks q)"
  shows "queue_inv (progress_cb p q)"
proof -
  have "ep_execution_id p \<in> snd ` set (tasks q)" using assms(2) by force
  with assms(1) show ?thesis
    by (simp add: queue_inv_def place_def matching_def busy_def inflight_def runs_def starting_def
        progress_cb_def emit_def)
qed

lemma flags_inv: "queue_inv q \<Longrightarrow> queue_inv (pause q) \<and> queue_inv (resume q)"
  by (auto simp: pause_def resume_def runs_def starting_def elim!: queue_inv_cong split: worker_pc.splits)

lemma completed_inv:
  "queue_inv q \<Longrightarrow> (ec_job_id c, ec_execution_id c) \<in> set (tasks q) \<Longrightarrow> queue_inv (completed_cb c q)"
  using finish_inv [of q "ec_job_id c" "ec_execution_id c" "cancelled q"]
  by (simp add: completed_cb_def emit_def)

lemma failed_inv: "queue_inv q \<Longrightarrow> (j, e) \<in> set (tasks q) \<Longrightarrow> queue_inv (task_failed j e msg q)"
  using finish_inv [of q j e "removeAll e (cancelled q)"]
  by (simp add: task_failed_def emit_def)

lemmas operation_invs = flags_inv cancel_inv stop_all_inv enqueue_inv worker_step_inv progress_inv
  completed_inv failed_inv

lemma perform_inv: "queue_inv q \<Longrightarrow> perform a q = Some q' \<Longrightarrow> queue_inv q'"
  by (cases a) (auto simp: operation_invs split: if_splits)

interpretation queue: machine perform start queue_inv
  by unfold_locales (auto intro: start_inv perform_inv)

section \<open>Completion reports\<close>

fun reports_of :: "uuid \<Rightarrow> execution_event \<Rightarrow> bool" where
  "reports_of e (Progress _) = False"
| "reports_of e (Completed c) = (ec_execution_id c = e)"

definition reports :: "uuid \<Rightarrow> job_queue \<Rightarrow> nat" where
  "reports e q = length (filter (reports_of e) (events q))"

definition silent :: "uuid \<Rightarrow> job_queue \<Rightarrow> bool" where
  "silent e q \<longleftrightarrow>
     e \<notin> snd ` set (issued q) \<or> e \<in> fst ` set (queued q) \<or> e \<in> snd ` set (tasks q) \<or>
     (e \<in> snd ` set (starting q) \<and> e \<notin> set (cancelled q))"

definition reports_inv :: "job_queue \<Rightarrow> bool" where
  "reports_inv q \<longleftrightarrow>
     (\<forall>e. reports e q \<le> (if silent e q then 0 else if e \<in> set (cancelled q) then 1 else 2))"

lemma reports_emit [simp]:
  "reports e (emit ev q) = reports e q + (if reports_of e ev then 1 else 0)"
  by (simp add: reports_def emit_def)

lemma reports_update: "events q' = events q \<Longrightarrow> reports e q' = reports e q"
  by (simp add: reports_def)

lemma reports_stepI:
  assumes "reports_inv q"
    "\<And>x. reports x q' \<le> reports x q + (if x = e then n else 0)"
    "\<And>x. x \<noteq> e \<Longrightarrow> silent x q' \<Longrightarrow> silent x q"
    "\<And>x. x \<noteq> e \<Longrightarrow> x \<in> set (cancelled q') \<Longrightarrow> \<not> silent x q \<Longrightarrow> x \<in> set (cancelled q)"
    "reports e q + n \<le> (if silent e q' then 0 else if e \<in> set (cancelled q') then 1 else 2)"
  shows "reports_inv q'"
  unfolding reports_inv_def
proof
  fix x
  show "reports x q' \<le> (if silent x q' then 0 else if x \<in> set (cancelled q') then 1 else 2)"
  proof (cases "x = e")
    case True
    have "reports e q' \<le> reports e q + n" using assms(2) [of e] by simp
    with assms(5) show ?thesis unfolding True by (rule order_trans [rotated])
  next
    case False
    have "reports x q \<le> (if silent x q then 0 else if x \<in> set (cancelled q) then 1 else 2)"
      using assms(1) by (simp add: reports_inv_def)
    moreover have "reports x q' \<le> reports x q" using False assms(2) [of x] by simp
    ultimately show ?thesis using False assms(3,4) [of x] by (auto split: if_splits)
  qed
qed

lemma reports_keepI:
  assumes "reports_inv q" "events q' = events q" "\<And>x. silent x q' \<Longrightarrow> silent x q"
    "\<And>x. x \<in> set (cancelled q') \<Longrightarrow> x \<in> set (cancelled q)"
  shows "reports_inv q'"
  unfolding reports_inv_def
proof
  fix x
  have "reports x q \<le> (if silent x q then 0 else if x \<in> set (cancelled q) then 1 else 2)"
    using assms(1) by (simp add: reports_inv_def)
  with assms(3,4) [of x] reports_update [OF assms(2), of x]
  show "reports x q' \<le> (if silent x q' then 0 else if x \<in> set (cancelled q') then 1 else 2)"
    by (auto split: if_splits)
qed

lemma silent_start_inv: "reports_inv start"
  by (simp add: reports_inv_def reports_def start_def)

lemma silent_reports: "reports_inv q \<Longrightarrow> silent e q \<Longrightarrow> reports e q = 0"
  by (metis le_zero_eq reports_inv_def)

lemma handle_cancel_reports:
  assumes "queue_inv q" "reports_inv q"
  shows "reports_inv (handle_cancel e q)"
proof (cases "e \<in> set (cancel_tokens q) \<or> hm_get e (queued q) = None")
  case True
  then have "handle_cancel e q = q \<or>
      handle_cancel e q = q\<lparr>cancel_tokens := removeAll e (cancel_tokens q), signalled := e # signalled q\<rparr>"
    by (auto simp: handle_cancel_def)
  then show ?thesis
    by (auto simp: assms(2) silent_def starting_def intro!: reports_keepI [OF assms(2)])
next
  case False
  then obtain j where "hm_get e (queued q) = Some j" by auto
  then have k: "e \<in> fst ` set (queued q)"
    using assms(1) by (force simp: queue_inv_def matching_def hm_get_Some_iff)
  then have i: "e \<in> snd ` set (issued q)" "e \<notin> snd ` set (tasks q)" "e \<notin> snd ` set (starting q)"
    using assms(1) by (auto simp: queue_inv_def place_def life_def)
  have "reports e q = 0"
    using assms(2) k by (intro silent_reports) (auto simp: silent_def)
  with False i show ?thesis
    by (intro reports_stepI [OF assms(2), of _ e 1])
      (auto simp: handle_cancel_def silent_def starting_def failure_def reports_def emit_def
        set_hm_remove)
qed

lemma handle_reports:
  assumes "queue_inv (q\<lparr>worker := LoopHead\<rparr>)" "reports_inv (q\<lparr>worker := LoopHead\<rparr>)"
    "case msg of Run j e \<Rightarrow> e \<in> fst ` set (queued q) \<or> e \<in> set (cancelled q) | _ \<Rightarrow> True"
  shows "reports_inv (handle msg q)"
proof (cases msg)
  case (Run j e)
  with assms(3) show ?thesis
    by (intro reports_keepI [OF assms(2)]) (auto simp: silent_def starting_def)
next
  case (Cancel e)
  from handle_cancel_reports [OF assms(1,2), of e] Cancel show ?thesis
    by (simp add: handle_cancel_worker)
qed

lemma start_run_reports:
  assumes "queue_inv q" "reports_inv q" "worker q = Starting j e"
  shows "reports_inv (start_run j e q)"
proof (cases "e \<in> set (cancelled q)")
  case True
  have "e \<in> snd ` set (issued q)" "e \<notin> fst ` set (queued q)" "e \<notin> snd ` set (tasks q)"
    using assms True by (auto simp: queue_inv_def place_def life_def starting_def)
  moreover have "reports e q \<le> 1"
    using assms(2) True by (auto simp: reports_inv_def split: if_splits dest: spec [of _ e])
  ultimately show ?thesis
    using True assms(3)
    by (intro reports_stepI [OF assms(2), of _ e 1])
      (auto simp: start_run_def silent_def starting_def failure_def reports_def emit_def)
next
  case False
  then have "start_run j e q = q\<lparr>worker := LoopHead\<rparr> \<or>
      start_run j e q = q\<lparr>running_jobs := hm_insert j e (running_jobs q),
        cancel_tokens := List.insert e (cancel_tokens q), tasks := (j, e) # tasks q, worker := LoopHead\<rparr>"
    by (simp add: start_run_def)
  with False assms(3) show ?thesis
    by (auto simp: silent_def starting_def intro!: reports_keepI [OF assms(2)])
qed

lemma run_waits:
  assumes "queue_inv q" "Run j e \<in> set (channel q @ pending q)"
  shows "e \<in> fst ` set (queued q) \<or> e \<in> set (cancelled q)"
proof -
  have "(j, e) \<in> set (runs q)" using assms(2) by (force simp: runs_def)
  then have "e \<in> snd ` set (runs q)" by force
  then show ?thesis using assms(1) by (auto simp: queue_inv_def place_def life_def)
qed

lemma worker_step_reports:
  assumes inv: "queue_inv q" and r: "reports_inv q" and st: "worker_step q = Some q'"
  shows "reports_inv q'"
proof -
  have take: "reports_inv (handle m (q\<lparr>channel := c, pending := p\<rparr>))"
    if "m \<in> set (channel q @ pending q)" "starting q = []"
      "set c \<subseteq> set (channel q)" "mset (runs q) = mset (run_of m) + mset (runs (q\<lparr>channel := c, pending := p\<rparr>))"
    for m c p
  proof (cases m)
    case (Run j e)
    with run_waits [OF inv] that r show ?thesis
      by (intro reports_keepI [OF r]) (auto simp: silent_def starting_def)
  next
    case (Cancel e)
    have "queue_inv (q\<lparr>channel := c, pending := p, worker := LoopHead\<rparr>)"
      by (rule queue_inv_cong [OF inv]) (use that Cancel in \<open>simp_all add: starting_def runs_def\<close>)
    moreover have "reports_inv (q\<lparr>channel := c, pending := p, worker := LoopHead\<rparr>)"
      using that by (intro reports_keepI [OF r]) (auto simp: silent_def starting_def)
    ultimately show ?thesis
      using handle_cancel_reports [of _ e] Cancel by (simp flip: handle_cancel_worker)
  qed
  show ?thesis
  proof (cases "worker q")
    case LoopHead
    show ?thesis
    proof (cases "\<not> paused q \<and> pending q \<noteq> []")
      case True
      then obtain p m where p: "pending q = p @ [m]" by (metis append_butlast_last_id)
      have "reports_inv (handle m (q\<lparr>channel := channel q, pending := p\<rparr>))"
        by (rule take) (use LoopHead p in \<open>simp_all add: starting_def runs_def\<close>)
      with True LoopHead p st show ?thesis by (auto simp: worker_step_def)
    next
      case False
      with st LoopHead show ?thesis
        by (intro reports_keepI [OF r])
          (auto simp: worker_step_def silent_def starting_def split: if_splits)
    qed
  next
    case SawPaused
    with st show ?thesis
      by (intro reports_keepI [OF r]) (auto simp: worker_step_def silent_def starting_def)
  next
    case Selecting
    with st obtain m rest where c: "channel q = m # rest"
      and q': "q' = (handle_paused m (q\<lparr>channel := rest\<rparr>))\<lparr>worker := LoopHead\<rparr>"
      by (auto simp: worker_step_def split: list.splits)
    show ?thesis
    proof (cases m)
      case (Run j e)
      with c q' Selecting show ?thesis
        by (intro reports_keepI [OF r]) (auto simp: silent_def starting_def)
    next
      case (Cancel e)
      have "reports_inv (handle m (q\<lparr>channel := rest, pending := pending q\<rparr>))"
        by (rule take) (use Selecting c in \<open>auto simp: starting_def runs_def\<close>)
      with q' Cancel show ?thesis by simp
    qed
  next
    case Receiving
    with st obtain m rest where c: "channel q = m # rest" and q': "q' = handle m (q\<lparr>channel := rest\<rparr>)"
      by (auto simp: worker_step_def split: list.splits)
    have "reports_inv (handle m (q\<lparr>channel := rest, pending := pending q\<rparr>))"
      by (rule take) (use Receiving c in \<open>auto simp: starting_def runs_def\<close>)
    with q' show ?thesis by simp
  next
    case (Starting j e)
    with st start_run_reports [OF inv r] show ?thesis by (auto simp: worker_step_def)
  qed
qed

lemma enqueue_reports:
  assumes "reports_inv q" "e \<notin> snd ` set (issued q)"
  shows "reports_inv (snd (enqueue e j q))"
proof (rule reports_keepI [OF assms(1)])
  show "events (snd (enqueue e j q)) = events q" by (simp add: enqueue_def Let_def send_def)
  show "silent x (snd (enqueue e j q)) \<Longrightarrow> silent x q" for x
    using assms(2) by (auto simp: enqueue_def Let_def send_def silent_def starting_def split: if_splits)
qed (simp add: enqueue_def Let_def send_def split: if_splits)

lemma task_issued:
  assumes "queue_inv q" "(j, e) \<in> set (tasks q)"
  shows "e \<in> snd ` set (issued q) \<and> e \<notin> fst ` set (queued q) \<and> e \<notin> snd ` set (starting q) \<and>
    e \<notin> snd ` set (runs q) \<and> e \<notin> set (cancelled q)"
proof -
  have "e \<in> snd ` set (tasks q)" using assms(2) by force
  then show ?thesis using assms(1) by (auto simp: queue_inv_def place_def life_def)
qed

lemma finish_reports:
  assumes "queue_inv q" "reports_inv q" "(j, e) \<in> set (tasks q)"
    "events q' = events q @ [Completed c]" "ec_execution_id c = e" "tasks q' = removeAll (j, e) (tasks q)"
    "queued q' = queued q" "worker q' = worker q" "set (cancelled q') \<subseteq> set (cancelled q)"
    "set (cancelled q) - {e} \<subseteq> set (cancelled q')" "issued q' = issued q"
  shows "reports_inv q'"
proof -
  note e = task_issued [OF assms(1,3)]
  have "silent e q" using assms(3) by (force simp: silent_def)
  then have "reports e q = 0" by (rule silent_reports [OF assms(2)])
  moreover have "snd ` set (tasks q') = snd ` set (tasks q) - {e}"
    using assms(6) task_ids(2) [OF assms(1,3)] by simp
  moreover have "starting q' = starting q" using assms(8) by (simp add: starting_def)
  moreover have "reports x q' = reports x q + (if x = e then 1 else 0)" for x
    using assms(4,5) by (simp add: reports_def)
  ultimately show ?thesis
    using e assms(7,9-11) by (intro reports_stepI [OF assms(2), of _ e 1]) (auto simp: silent_def)
qed

lemma perform_reports:
  assumes "queue_inv q" "reports_inv q" "perform a q = Some q'"
  shows "reports_inv q'"
proof (cases a)
  case (DoEnqueue e j)
  with assms enqueue_reports show ?thesis by (auto split: if_splits)
next
  case (DoCompleted c)
  with assms show ?thesis
    by (intro finish_reports [OF assms(1,2), of "ec_job_id c" "ec_execution_id c" _ c])
      (auto simp: completed_cb_def emit_def split: if_splits)
next
  case (DoFailed j e m)
  with assms show ?thesis
    by (intro finish_reports [OF assms(1,2), of j e _ "failure e j m"])
      (auto simp: task_failed_def emit_def failure_def split: if_splits)
next
  case (DoProgress p)
  with assms(3) have "q' = progress_cb p q" by (auto split: if_splits)
  then have "reports x q' = reports x q" "silent x q' = silent x q" "cancelled q' = cancelled q" for x
    by (auto simp: progress_cb_def reports_def emit_def silent_def starting_def)
  then show ?thesis using assms(2) unfolding reports_inv_def by presburger
next
  case DoWorker
  with assms worker_step_reports show ?thesis by auto
qed (use assms(3) in \<open>auto simp: pause_def resume_def stop_all_eq cancel_def send_def silent_def starting_def
      split: if_splits worker_pc.splits intro!: reports_keepI [OF assms(2)]\<close>)

lemma reach_reports: "reach perform start q \<Longrightarrow> reports_inv q"
  by (rule queue.reach_stable) (auto intro: perform_reports silent_start_inv)

section \<open>The worker settles\<close>

definition work :: "job_queue \<Rightarrow> nat" where
  "work q = 3 * length (channel q) + 3 * length (pending q) +
     (case worker q of LoopHead \<Rightarrow> 1 | SawPaused \<Rightarrow> 3 | Selecting \<Rightarrow> 2 | Receiving \<Rightarrow> 0 | Starting _ _ \<Rightarrow> 2)"

lemma handle_cancel_keeps [simp]:
  "channel (handle_cancel e q) = channel q" "pending (handle_cancel e q) = pending q"
  "paused (handle_cancel e q) = paused q" "worker (handle_cancel e q) = worker q"
  by (simp_all add: handle_cancel_def emit_def split: option.splits)

lemma start_run_keeps [simp]:
  "channel (start_run j e q) = channel q" "pending (start_run j e q) = pending q"
  "paused (start_run j e q) = paused q" "worker (start_run j e q) = LoopHead"
  by (simp_all add: start_run_def emit_def)

lemma handle_keeps [simp]:
  "channel (handle m q) = channel q" "pending (handle m q) = pending q" "paused (handle m q) = paused q"
  by (cases m; simp)+

lemma handle_worker: "worker (handle m q) = LoopHead \<or> (\<exists>j e. worker (handle m q) = Starting j e)"
  by (cases m) simp_all

lemma worker_progress:
  assumes "worker_step q = Some q'" "\<not> paused q"
  shows "\<not> paused q' \<and> work q' < work q"
proof (cases "worker q")
  case LoopHead
  show ?thesis
  proof (cases "pending q = []")
    case False
    then obtain p m where p: "pending q = p @ [m]" by (metis append_butlast_last_id)
    with LoopHead assms handle_worker [of m "q\<lparr>pending := p\<rparr>"] show ?thesis
      by (auto simp: worker_step_def work_def)
  qed (use LoopHead assms in \<open>auto simp: worker_step_def work_def\<close>)
next
  case Selecting
  with assms obtain m rest where c: "channel q = m # rest"
    and q': "q' = (handle_paused m (q\<lparr>channel := rest\<rparr>))\<lparr>worker := LoopHead\<rparr>"
    by (auto simp: worker_step_def split: list.splits)
  with Selecting assms(2) show ?thesis by (cases m) (auto simp: work_def)
next
  case Receiving
  with assms obtain m rest where c: "channel q = m # rest" and q': "q' = handle m (q\<lparr>channel := rest\<rparr>)"
    by (auto simp: worker_step_def split: list.splits)
  with Receiving assms(2) handle_worker [of m "q\<lparr>channel := rest\<rparr>"] show ?thesis
    by (auto simp: work_def)
qed (use assms in \<open>auto simp: worker_step_def work_def\<close>)

lemma worker_halts:
  "\<not> paused q \<Longrightarrow>
   \<exists>n q'. n \<le> work q \<and> run_all perform (replicate n DoWorker) q = Some q' \<and> worker_step q' = None \<and>
     \<not> paused q'"
proof (induction "work q" arbitrary: q rule: less_induct)
  case less
  show ?case
  proof (cases "worker_step q")
    case None
    with less.prems show ?thesis by (intro exI [of _ 0]) simp
  next
    case (Some q1)
    with worker_progress less.prems have q1: "\<not> paused q1" "work q1 < work q" by blast+
    with less.hyps obtain n q' where "n \<le> work q1" "run_all perform (replicate n DoWorker) q1 = Some q'"
      "worker_step q' = None" "\<not> paused q'" by blast
    with Some q1 show ?thesis by (intro exI [of _ "Suc n"]) auto
  qed
qed

definition receiving_inv :: "job_queue \<Rightarrow> bool" where
  "receiving_inv q \<longleftrightarrow> (worker q = Receiving \<longrightarrow> pending q = [])"

lemma perform_receiving: "receiving_inv q \<Longrightarrow> perform a q = Some q' \<Longrightarrow> receiving_inv q'"
proof (cases a)
  case DoWorker
  assume "receiving_inv q" "perform a q = Some q'"
  with DoWorker handle_worker [of "last (pending q)" "q\<lparr>pending := butlast (pending q)\<rparr>"]
    handle_worker [of "hd (channel q)" "q\<lparr>channel := tl (channel q)\<rparr>"]
  show ?thesis
    by (auto simp: receiving_inv_def worker_step_def split: worker_pc.splits if_splits list.splits)
qed (auto simp: receiving_inv_def pause_def resume_def stop_all_eq cancel_def enqueue_def send_def Let_def
    progress_cb_def completed_cb_def task_failed_def emit_def split: if_splits)

lemma reach_receiving: "reach perform start q \<Longrightarrow> receiving_inv q"
  by (erule queue.reach_stable [rotated 2])
    (erule (1) perform_receiving, simp add: receiving_inv_def start_def)

section \<open>A run that started\<close>

definition settled :: "uuid \<Rightarrow> uuid \<Rightarrow> job_queue \<Rightarrow> bool" where
  "settled j e q \<longleftrightarrow>
     e \<in> snd ` set (issued q) \<and> e \<notin> fst ` set (queued q) \<and> e \<notin> snd ` set (starting q) \<and>
     e \<notin> snd ` set (runs q) \<and> e \<notin> set (cancelled q) \<and>
     (if (j, e) \<in> set (tasks q) then reports e q = 0 else e \<notin> snd ` set (tasks q) \<and> reports e q = 1)"

lemma settledI:
  assumes "settled j e q" "snd ` set (issued q) \<subseteq> snd ` set (issued q')"
    "e \<notin> fst ` set (queued q')" "e \<notin> snd ` set (starting q')" "e \<notin> snd ` set (runs q')"
    "e \<notin> set (cancelled q')"
    "(e \<in> snd ` set (tasks q') \<longleftrightarrow> e \<in> snd ` set (tasks q))" "(j, e) \<in> set (tasks q') \<longleftrightarrow> (j, e) \<in> set (tasks q)"
    "reports e q' = reports e q"
  shows "settled j e q'"
  using assms unfolding settled_def by (auto split: if_splits)

lemma settled_less:
  assumes "settled j e q" "tasks q' = tasks q" "events q' = events q" "issued q' = issued q"
    "set (cancelled q') \<subseteq> set (cancelled q)" "set (runs q') \<subseteq> set (runs q)"
    "fst ` set (queued q') \<subseteq> fst ` set (queued q)"
    "set (starting q') \<subseteq> set (starting q) \<union> set (runs q)"
  shows "settled j e q'"
  using assms by (intro settledI [OF assms(1)]) (auto simp: settled_def reports_def)

lemma handle_cancel_settled:
  assumes "settled j e q"
  shows "settled j e (handle_cancel x q)"
proof (cases "x \<in> set (cancel_tokens q) \<or> hm_get x (queued q) = None")
  case True
  then have "handle_cancel x q = q \<or>
      handle_cancel x q = q\<lparr>cancel_tokens := removeAll x (cancel_tokens q), signalled := x # signalled q\<rparr>"
    by (auto simp: handle_cancel_def)
  with assms show ?thesis
    by (auto simp: runs_def starting_def intro!: settled_less [OF assms])
next
  case False
  then obtain k where k: "hm_get x (queued q) = Some k" by auto
  then have "x \<in> fst ` set (queued q)"
    by (metis domI dom_map_of_conv_image_fst hm_get_def)
  with assms have "x \<noteq> e" unfolding settled_def by metis
  with assms False k show ?thesis
    by (auto simp: handle_cancel_def settled_def reports_def runs_def starting_def emit_def failure_def)
qed

lemma handle_settled:
  assumes "settled j e q" "\<forall>r \<in> set (run_of m). snd r \<noteq> e"
  shows "settled j e (handle m q)"
proof (cases m)
  case (Run j' e')
  with assms show ?thesis
    by (auto simp: settled_def reports_def runs_def starting_def)
next
  case (Cancel x)
  have "settled j e (q\<lparr>worker := LoopHead\<rparr>)"
    using assms(1) by (rule settled_less) (auto simp: runs_def starting_def)
  from handle_cancel_settled [OF this] Cancel show ?thesis by (simp flip: handle_cancel_worker)
qed

lemma start_run_settled:
  assumes "settled j e q" "worker q = Starting j' e'"
  shows "settled j e (start_run j' e' q)"
proof -
  have "e \<noteq> e'" using assms by (auto simp: settled_def starting_def)
  with assms show ?thesis
    by (auto simp: settled_def start_run_def reports_def runs_def starting_def emit_def failure_def)
qed

lemma worker_step_settled:
  assumes "settled j e q" "worker_step q = Some q'"
  shows "settled j e q'"
proof -
  have free: "snd r \<noteq> e" if "r \<in> set (run_of m)" "m \<in> set (channel q @ pending q)" for r m
    using assms(1) that by (force simp: settled_def runs_def)
  have drop: "settled j e (q\<lparr>channel := c, pending := p\<rparr>)"
    if "set c \<subseteq> set (channel q)" "set p \<subseteq> set (pending q)" for c p
    by (rule settled_less [OF assms(1)]) (use that in \<open>auto simp: runs_def starting_def\<close>)
  show ?thesis
  proof (cases "worker q")
    case LoopHead
    show ?thesis
    proof (cases "\<not> paused q \<and> pending q \<noteq> []")
      case True
      then obtain p m where p: "pending q = p @ [m]" by (metis append_butlast_last_id)
      with handle_settled [OF drop [of "channel q" p], of m] free [of _ m] True LoopHead assms(2)
      show ?thesis by (auto simp: worker_step_def)
    next
      case False
      with assms(2) LoopHead obtain w where "q' = q\<lparr>worker := w\<rparr>" "w = SawPaused \<or> w = Receiving"
        by (auto simp: worker_step_def split: if_splits)
      then show ?thesis
        by (auto simp: runs_def starting_def intro!: settled_less [OF assms(1)])
    qed
  next
    case SawPaused
    with assms(2) show ?thesis
      by (intro settled_less [OF assms(1)]) (auto simp: worker_step_def runs_def starting_def)
  next
    case Selecting
    with assms obtain m rest where c: "channel q = m # rest"
      and q': "q' = (handle_paused m (q\<lparr>channel := rest\<rparr>))\<lparr>worker := LoopHead\<rparr>"
      by (auto simp: worker_step_def split: list.splits)
    show ?thesis
    proof (cases m)
      case (Run j' e')
      with c q' Selecting show ?thesis
        by (intro settled_less [OF assms(1)]) (auto simp: runs_def starting_def)
    next
      case (Cancel x)
      have "settled j e (handle m (q\<lparr>channel := rest, pending := pending q\<rparr>))"
        by (rule handle_settled [OF drop]) (use c free in auto)
      with Cancel q' show ?thesis by simp
    qed
  next
    case Receiving
    with assms obtain m rest where c: "channel q = m # rest" and q': "q' = handle m (q\<lparr>channel := rest\<rparr>)"
      by (auto simp: worker_step_def split: list.splits)
    have "settled j e (handle m (q\<lparr>channel := rest, pending := pending q\<rparr>))"
      by (rule handle_settled [OF drop]) (use c free in auto)
    with q' show ?thesis by simp
  next
    case (Starting j' e')
    with assms start_run_settled show ?thesis by (auto simp: worker_step_def)
  qed
qed

lemma finish_settled:
  assumes "queue_inv q" "settled j e q" "(j', e') \<in> set (tasks q)"
    "events q' = events q @ [Completed c]" "ec_execution_id c = e'" "tasks q' = removeAll (j', e') (tasks q)"
    "queued q' = queued q" "starting q' = starting q" "set (cancelled q') \<subseteq> set (cancelled q)"
    "issued q' = issued q" "runs q' = runs q"
  shows "settled j e q'"
proof -
  have t: "snd ` set (tasks q') = snd ` set (tasks q) - {e'}"
    using assms(6) task_ids(2) [OF assms(1,3)] by simp
  have r: "reports e q' = reports e q + (if e = e' then 1 else 0)"
    using assms(4,5) by (simp add: reports_def)
  show ?thesis
  proof (cases "e = e'")
    case True
    have "e \<in> snd ` set (tasks q)" using assms(3) True by force
    then have "(j, e) \<in> set (tasks q)" using assms(2) by (auto simp: settled_def split: if_splits)
    then have "(j, e) = (j', e')"
      using True assms(1,3) unfolding queue_inv_def place_def life_def
      by (metis distinct_append distinct_map inj_onD snd_conv)
    with True assms t r show ?thesis by (auto simp: settled_def split: if_splits)
  next
    case False
    with assms t r show ?thesis by (intro settledI [OF assms(2)]) (auto simp: settled_def)
  qed
qed

lemma perform_settled:
  assumes "queue_inv q" "settled j e q" "perform a q = Some q'"
  shows "settled j e q'"
proof (cases a)
  case (DoEnqueue e' j')
  with assms(3) have new: "e' \<notin> snd ` set (issued q)" and q': "q' = snd (enqueue e' j' q)"
    by (auto split: if_splits)
  then have "e \<noteq> e'" using assms(2) by (auto simp: settled_def)
  with assms(2) show ?thesis
    by (auto simp add: q' settled_def enqueue_def Let_def send_def reports_def runs_def starting_def
        split: if_splits)
next
  case (DoCompleted c)
  with assms show ?thesis
    by (intro finish_settled [OF assms(1,2), of "ec_job_id c" "ec_execution_id c" _ c])
      (auto simp: completed_cb_def emit_def runs_def starting_def split: if_splits)
next
  case (DoFailed j' e' m)
  with assms show ?thesis
    by (intro finish_settled [OF assms(1,2), of j' e' _ "failure e' j' m"])
      (auto simp: task_failed_def emit_def failure_def runs_def starting_def split: if_splits)
next
  case (DoProgress p)
  with assms(3) have "q' = progress_cb p q" by (auto split: if_splits)
  then show ?thesis
    using assms(2)
    by (auto simp: settled_def progress_cb_def reports_def emit_def runs_def starting_def split: if_splits)
next
  case DoWorker
  with assms worker_step_settled show ?thesis by auto
qed (use assms(3) in \<open>auto simp: pause_def resume_def stop_all_eq cancel_def send_def runs_def starting_def
      split: if_splits worker_pc.splits intro!: settled_less [OF assms(2)]\<close>)

lemma task_settled:
  assumes "queue_inv q" "reports_inv q" "(j, e) \<in> set (tasks q)"
  shows "settled j e q"
proof -
  have "silent e q" using assms(3) by (force simp: silent_def)
  with silent_reports [OF assms(2)] task_issued [OF assms(1,3)] assms(3) show ?thesis
    by (simp add: settled_def)
qed

section \<open>Properties\<close>

text \<open>
  C2. At every moment two running executions never share a job or an identifier, and \<open>running_jobs\<close>
  names exactly the running execution of each job: whatever the clients, the worker and the tasks
  do, and in whatever order, a job never runs twice at the same time.
\<close>

theorem no_job_runs_twice:
  assumes "reach perform start q"
  shows "distinct (map fst (tasks q)) \<and> distinct (map snd (tasks q)) \<and>
    (\<forall>j e. (j, e) \<in> set (tasks q) \<longleftrightarrow> hm_get j (running_jobs q) = Some e)"
proof -
  have inv: "queue_inv q" by (rule queue.reach_inv [OF assms])
  then have r: "hm_ok (running_jobs q)" "set (running_jobs q) = set (tasks q)"
    and d: "distinct (map snd (tasks q))"
    by (auto simp: queue_inv_def busy_def place_def life_def)
  then have "inj_on fst (set (tasks q))" by (metis distinct_map hm_ok_def)
  with r d show ?thesis by (auto simp: distinct_map hm_get_Some_iff)
qed

theorem no_job_runs_twice_witness:
  "\<exists>q. run_all perform [DoEnqueue 1 7, DoEnqueue 2 8, DoWorker, DoWorker, DoWorker, DoEnqueue 3 7,
        DoWorker, DoWorker, DoWorker] start = Some q \<and> tasks q = [(8, 2), (7, 1)] \<and>
      distinct (map fst (tasks q)) \<and> hm_get 7 (running_jobs q) = Some 1"
proof -
  let ?as = "[DoEnqueue 1 7, DoEnqueue 2 8, DoWorker, DoWorker, DoWorker, DoEnqueue 3 7,
        DoWorker, DoWorker, DoWorker]"
  have "map_option tasks (run_all perform ?as start) = Some [(8, 2), (7, 1)]" by code_simp
  then obtain q where q: "run_all perform ?as start = Some q" "tasks q = [(8, 2), (7, 1)]" by auto
  then have "reach perform start q" by (blast intro: reach_run_all reach_init)
  from no_job_runs_twice [OF this] q show ?thesis by auto
qed

text \<open>
  \<open>enqueue\<close> refuses a job exactly when it is queued or running; otherwise it hands out the new
  identifier, records the job as queued and sends one \<open>Run\<close> message, and nothing else changes. A job
  it accepts has no running execution.
\<close>

lemma enqueue_spec:
  assumes "reach perform start q" "e \<notin> snd ` set (issued q)"
  shows "if hm_contains j (running_jobs q) \<or> j \<in> snd ` set (queued q)
         then enqueue e j q = (Inl AlreadyRunning, q)
         else fst (enqueue e j q) = Inr e \<and> j \<notin> fst ` set (tasks q) \<and>
              channel (snd (enqueue e j q)) = channel q @ [Run j e] \<and>
              queued (snd (enqueue e j q)) = queued q @ [(e, j)] \<and>
              tasks (snd (enqueue e j q)) = tasks q \<and> events (snd (enqueue e j q)) = events q \<and>
              fst (enqueue e' j (snd (enqueue e j q))) = Inl AlreadyRunning"
proof -
  have inv: "queue_inv q" by (rule queue.reach_inv [OF assms(1)])
  then have "e \<notin> fst ` set (queued q)"
    using assms(2) by (auto simp: queue_inv_def place_def life_def)
  then have "hm_insert e j (queued q) = queued q @ [(e, j)]"
    by (intro hm_insert_new) (simp add: hm_contains_def)
  moreover have "hm_contains j (running_jobs q) \<longleftrightarrow> j \<in> fst ` set (tasks q)"
    using inv by (simp add: queue_inv_def busy_def hm_contains_def)
  ultimately show ?thesis
    by (simp add: enqueue_def send_def Let_def hm_values_def)
qed

lemma enqueue_spec_witness:
  "fst (enqueue 1 7 start) = Inr 1 \<and> fst (enqueue 2 7 (snd (enqueue 1 7 start))) = Inl AlreadyRunning"
proof -
  have c: "\<not> (hm_contains 7 (running_jobs start) \<or> 7 \<in> snd ` set (queued start))"
    by (simp add: start_def hm_contains_def)
  have "1 \<notin> snd ` set (issued start)" by (simp add: start_def)
  from enqueue_spec [OF reach_init this, of 7 2] show ?thesis
    unfolding if_not_P [OF c] by blast
qed

text \<open>
  C3. An execution that started running reports its completion exactly once: no report while it
  runs, one afterwards, for every continuation of the run and also when it is cancelled, the queue
  is paused or everything is stopped.
\<close>

theorem started_run_reports_once:
  assumes "reach perform start q" "(j, e) \<in> set (tasks q)" "run_all perform as q = Some q'"
  shows "reports e q' = (if (j, e) \<in> set (tasks q') then 0 else 1)"
proof -
  have inv: "queue_inv q" by (rule queue.reach_inv [OF assms(1)])
  have "settled j e q"
    by (rule task_settled [OF inv reach_reports [OF assms(1)] assms(2)])
  then have "settled j e q'"
    using queue.run_stable [of "settled j e" UNIV q as q'] perform_settled inv assms(3) by blast
  then show ?thesis by (simp add: settled_def split: if_splits)
qed

theorem started_run_reports_once_witness:
  "\<exists>q q'. run_all perform [DoEnqueue 1 7, DoWorker, DoWorker, DoWorker] start = Some q \<and>
     run_all perform [DoPause, DoCancel 1, DoFailed 7 1 ''cancelled'', DoWorker] q = Some q' \<and>
     reports 1 q' = 1"
proof -
  let ?as = "[DoEnqueue 1 7, DoWorker, DoWorker, DoWorker]"
  let ?bs = "[DoPause, DoCancel 1, DoFailed 7 1 ''cancelled'', DoWorker]"
  have "map_option tasks (run_all perform ?as start) = Some [(7, 1)]" by code_simp
  then obtain q where q: "run_all perform ?as start = Some q" "tasks q = [(7, 1)]" by auto
  have "map_option tasks (run_all perform (?as @ ?bs) start) = Some []" by code_simp
  then obtain q' where q': "run_all perform ?bs q = Some q'" "tasks q' = []"
    using q(1) by (auto simp only: run_all_append option.case map_option_eq_Some)
  have "reach perform start q" by (rule reach_run_all [OF reach_init q(1)])
  from started_run_reports_once [OF this _ q'(1), of 7 1] q q' show ?thesis by auto
qed

text \<open>
  C35. The worker always comes to rest: while the queue is not paused it takes finitely many steps, at
  most three for every message plus three, until it waits. If it is not in the paused \<open>select!\<close> by then,
  every message was taken, so each waiting execution was started, reported or refused.
\<close>

theorem worker_drains_queue:
  assumes "reach perform start q" "\<not> paused q"
  shows "\<exists>n q'. n \<le> 3 * length (channel q @ pending q) + 3 \<and>
     run_all perform (replicate n DoWorker) q = Some q' \<and> worker_step q' = None \<and>
     (worker q' = Receiving \<and> channel q' = [] \<and> pending q' = [] \<and> runs q' = [] \<or>
      worker q' = Selecting \<and> channel q' = [])"
proof -
  from worker_halts [OF assms(2)] obtain n q' where n: "n \<le> work q"
    "run_all perform (replicate n DoWorker) q = Some q'" "worker_step q' = None" "\<not> paused q'" by blast
  have "work q \<le> 3 * length (channel q @ pending q) + 3"
    by (simp add: work_def split: worker_pc.splits)
  moreover have "receiving_inv q'"
    using reach_receiving reach_run_all [OF assms(1) n(2)] by blast
  ultimately show ?thesis
    using n by (intro exI [of _ n] exI [of _ q'])
      (auto simp: worker_step_def receiving_inv_def runs_def split: worker_pc.splits list.splits if_splits)
qed

theorem worker_drains_queue_witness:
  "\<exists>q n q'. run_all perform [DoEnqueue 1 7, DoEnqueue 2 8] start = Some q \<and> length (channel q) = 2 \<and> n \<le> 9 \<and>
     run_all perform (replicate n DoWorker) q = Some q' \<and> worker_step q' = None \<and> channel q' = []"
proof -
  have "map_option (\<lambda>q. (paused q, length (channel q), pending q)) (run_all perform [DoEnqueue 1 7, DoEnqueue 2 8] start) =
      Some (False, 2, [])" by code_simp
  then obtain q where q: "run_all perform [DoEnqueue 1 7, DoEnqueue 2 8] start = Some q" "\<not> paused q"
      "length (channel q) = 2" "pending q = []" by auto
  from worker_drains_queue [OF reach_run_all [OF reach_init q(1)] q(2)] q show ?thesis by auto
qed

section \<open>What a cleared queue keeps\<close>

definition wedged :: "uuid \<Rightarrow> uuid \<Rightarrow> job_queue \<Rightarrow> bool" where
  "wedged j e q \<longleftrightarrow>
     (e, j) \<in> set (queued q) \<and> e \<in> snd ` set (issued q) \<and> e \<notin> snd ` set (runs q) \<and>
     Cancel e \<notin> set (channel q @ pending q)"

lemma wedgedI:
  assumes "wedged j e q" "set (channel q') \<union> set (pending q') \<subseteq> set (channel q) \<union> set (pending q) \<union> Cancel ` (- {e})"
    "(e, j) \<in> set (queued q')" "snd ` set (issued q) \<subseteq> snd ` set (issued q')"
  shows "wedged j e q'"
proof -
  have "r \<in> set (runs q)" if r: "r \<in> set (runs q')" for r
  proof -
    from r obtain m where m: "m \<in> set (channel q') \<union> set (pending q')" "r \<in> set (run_of m)"
      by (auto simp: runs_def)
    then have "m \<notin> Cancel ` (- {e})" by auto
    with m assms(2) show ?thesis by (auto simp: runs_def)
  qed
  moreover have "Cancel e \<notin> set (channel q' @ pending q')"
    using assms(1,2) by (auto simp: wedged_def)
  ultimately show ?thesis using assms(1,3,4) unfolding wedged_def by blast
qed

lemma wedged_keep:
  "wedged j e q \<Longrightarrow> channel q' = channel q \<Longrightarrow> pending q' = pending q \<Longrightarrow> queued q' = queued q \<Longrightarrow>
     issued q' = issued q \<Longrightarrow> wedged j e q'"
  by (simp add: wedged_def runs_def)

lemma handle_cancel_wedged: "wedged j e q \<Longrightarrow> x \<noteq> e \<Longrightarrow> wedged j e (handle_cancel x q)"
  by (rule wedgedI, assumption)
    (auto simp: wedged_def handle_cancel_def emit_def set_hm_remove split: option.splits)

lemma handle_wedged:
  assumes "wedged j e q" "m \<noteq> Cancel e" "\<forall>r \<in> set (run_of m). snd r \<noteq> e"
  shows "wedged j e (handle m q)"
proof (cases m)
  case (Run j' e')
  with assms show ?thesis
    by (intro wedgedI [OF assms(1)]) (auto simp: wedged_def set_hm_remove)
next
  case (Cancel x)
  have "wedged j e (q\<lparr>worker := LoopHead\<rparr>)"
    by (rule wedgedI [OF assms(1)]) (use assms(1) in \<open>auto simp: wedged_def\<close>)
  with Cancel assms(2) handle_cancel_wedged show ?thesis by (auto simp flip: handle_cancel_worker)
qed

lemma worker_step_wedged:
  assumes "wedged j e q" "worker_step q = Some q'"
  shows "wedged j e q'"
proof -
  have free: "snd r \<noteq> e" if "r \<in> set (run_of m)" "m \<in> set (channel q @ pending q)" for r m
    using assms(1) that by (force simp: wedged_def runs_def)
  have c: "m \<noteq> Cancel e" if "m \<in> set (channel q @ pending q)" for m
    using assms(1) that by (auto simp: wedged_def)
  have k: "(e, j) \<in> set (queued q)" using assms(1) by (simp add: wedged_def)
  have drop: "wedged j e (q\<lparr>channel := c, pending := p\<rparr>)"
    if "set c \<subseteq> set (channel q)" "set p \<subseteq> set (pending q)" for c p
    by (rule wedgedI [OF assms(1)]) (use that k in auto)
  show ?thesis
  proof (cases "worker q")
    case LoopHead
    show ?thesis
    proof (cases "\<not> paused q \<and> pending q \<noteq> []")
      case True
      then obtain p m where p: "pending q = p @ [m]" by (metis append_butlast_last_id)
      with handle_wedged [OF drop [of "channel q" p], of m] free [of _ m] c [of m] True LoopHead assms(2)
      show ?thesis by (auto simp: worker_step_def)
    next
      case False
      with assms(2) LoopHead obtain w where "q' = q\<lparr>worker := w\<rparr>"
        by (auto simp: worker_step_def split: if_splits)
      then show ?thesis using k by (auto intro!: wedgedI [OF assms(1)])
    qed
  next
    case SawPaused
    with assms(2) k show ?thesis by (intro wedgedI [OF assms(1)]) (auto simp: worker_step_def)
  next
    case Selecting
    with assms obtain m rest where ch: "channel q = m # rest"
      and q': "q' = (handle_paused m (q\<lparr>channel := rest\<rparr>))\<lparr>worker := LoopHead\<rparr>"
      by (auto simp: worker_step_def split: list.splits)
    show ?thesis
    proof (cases m)
      case (Run j' e')
      with ch q' k show ?thesis by (intro wedgedI [OF assms(1)]) auto
    next
      case (Cancel x)
      have "wedged j e (handle m (q\<lparr>channel := rest, pending := pending q\<rparr>))"
        by (rule handle_wedged [OF drop]) (use ch free c in auto)
      with Cancel q' show ?thesis by simp
    qed
  next
    case Receiving
    with assms obtain m rest where ch: "channel q = m # rest" and q': "q' = handle m (q\<lparr>channel := rest\<rparr>)"
      by (auto simp: worker_step_def split: list.splits)
    have "wedged j e (handle m (q\<lparr>channel := rest, pending := pending q\<rparr>))"
      by (rule handle_wedged [OF drop]) (use ch free c in auto)
    with q' show ?thesis by simp
  next
    case (Starting j' e')
    with assms(2) have "q' = start_run j' e' q" by (simp add: worker_step_def)
    with k show ?thesis
      by (intro wedgedI [OF assms(1)]) (auto simp: start_run_def emit_def)
  qed
qed

lemma perform_wedged:
  assumes "queue_inv q" "wedged j e q" "a \<noteq> DoCancel e" "perform a q = Some q'"
  shows "wedged j e q'"
proof (cases a)
  case DoWorker
  with assms worker_step_wedged show ?thesis by auto
next
  case DoStopAll
  have "e \<notin> fst ` set (active q)"
  proof -
    have "e \<in> fst ` set (queued q)" using assms(2) by (force simp: wedged_def)
    moreover have "fst ` set (queued q) \<inter> snd ` set (tasks q) = {}"
      "fst ` set (active q) \<subseteq> snd ` set (tasks q)"
      using assms(1) by (auto simp: queue_inv_def busy_def place_def life_def)
    ultimately show ?thesis by blast
  qed
  then have "set (hm_keys (active q)) \<subseteq> - {e}" by (auto simp: hm_keys_def)
  then have keys: "Cancel ` set (hm_keys (active q)) \<subseteq> Cancel ` (- {e})" by (rule image_mono)
  have "q' = stop_all q" using DoStopAll assms(4) by simp
  moreover have "set (channel (stop_all q)) \<union> set (pending (stop_all q)) \<subseteq>
      set (channel q) \<union> set (pending q) \<union> Cancel ` (- {e})"
    using keys by (simp add: stop_all_eq) blast
  ultimately show ?thesis
    using assms(2) by (intro wedgedI [OF assms(2)]) (auto simp: stop_all_eq wedged_def)
next
  case (DoEnqueue e' j')
  with assms(4) have "e' \<notin> snd ` set (issued q)" and q': "q' = snd (enqueue e' j' q)"
    by (auto split: if_splits)
  then have "e' \<noteq> e" using assms(2) unfolding wedged_def by metis
  with assms(1,2) show ?thesis
    by (auto simp: q' wedged_def enqueue_def Let_def send_def runs_def set_hm_insert queue_inv_def
        matching_def)
next
  case (DoCancel x)
  with assms cancel_effect [of x q] show ?thesis
    by (intro wedgedI [OF assms(2)]) (auto simp: wedged_def)
qed (use assms(2,4) in \<open>auto simp: pause_def resume_def progress_cb_def completed_cb_def task_failed_def
      emit_def split: if_splits intro!: wedged_keep [OF assms(2)]\<close>)

text \<open>
  \<open>stop_all\<close> clears the pending messages but not \<open>queued\<close>. A job whose \<open>Run\<close> message is gone this
  way (\<open>wedged\<close>) is refused as \<open>AlreadyRunning\<close> for ever, whatever happens later, unless somebody
  cancels the execution that no longer exists.
\<close>

lemma cleared_job_is_refused_forever:
  assumes "reach perform start q" "wedged j e q" "DoCancel e \<notin> set as" "run_all perform as q = Some q'"
  shows "enqueue e' j q' = (Inl AlreadyRunning, q')"
proof -
  have inv: "queue_inv q" by (rule queue.reach_inv [OF assms(1)])
  have "wedged j e q'"
    using queue.run_stable [of "wedged j e" "- {DoCancel e}" q as q'] perform_wedged inv assms by auto
  then show ?thesis by (force simp: enqueue_def wedged_def hm_values_def)
qed

lemma cleared_job_is_refused_forever_witness:
  "\<exists>q. run_all perform [DoPause, DoWorker, DoWorker, DoEnqueue 1 7, DoWorker, DoStopAll, DoResume] start
      = Some q \<and> tasks q = [] \<and> runs q = [] \<and> enqueue 2 7 q = (Inl AlreadyRunning, q)"
proof -
  let ?as = "[DoPause, DoWorker, DoWorker, DoEnqueue 1 7, DoWorker, DoStopAll, DoResume]"
  have "map_option (\<lambda>q. (tasks q, runs q, queued q, issued q, channel q @ pending q)) (run_all perform ?as start)
      = Some ([], [], [(1, 7)], [(7, 1)], [])" by code_simp
  then obtain q where q: "run_all perform ?as start = Some q" "tasks q = []" "runs q = []"
    "queued q = [(1, 7)]" "issued q = [(7, 1)]" "channel q @ pending q = []" by auto
  then have "wedged 7 1 q" by (simp add: wedged_def)
  from cleared_job_is_refused_forever [OF reach_run_all [OF reach_init q(1)] this, of "[]" q 2] q
  show ?thesis by simp
qed

lemma reports_bound: "reach perform start q \<Longrightarrow> reports e q \<le> 2"
proof -
  assume "reach perform start q"
  then have "reports e q \<le> (if silent e q then 0 else if e \<in> set (cancelled q) then 1 else 2)"
    using reach_reports by (simp add: reports_inv_def)
  also have "\<dots> \<le> 2" by simp
  finally show "reports e q \<le> 2" .
qed

text \<open>
  An execution that is cancelled while its message waits in \<open>pending\<close> (the queue is paused) reports
  its completion twice: once when the cancellation is handled, once when the message is taken after
  \<open>resume\<close>.
\<close>

theorem paused_cancel_reports_twice:
  "map_option (reports 1) (run_all perform
     [DoPause, DoWorker, DoWorker, DoEnqueue 1 7, DoWorker, DoCancel 1, DoWorker, DoWorker, DoWorker,
      DoResume, DoWorker, DoWorker, DoWorker] start) = Some 2"
  by code_simp

text \<open>
  A worker that waits for a message does not see \<open>pause\<close>: the next job enqueued after \<open>pause\<close> runs.
\<close>

theorem pause_lets_next_job_run:
  "map_option (\<lambda>q. (paused q, tasks q)) (run_all perform
     [DoWorker, DoPause, DoEnqueue 1 7, DoWorker, DoWorker] start) = Some (True, [(7, 1)])"
  by code_simp

text \<open>
  The messages kept while the queue is paused are taken from the end of the list: the executions
  enqueued first start last.
\<close>

theorem paused_jobs_start_in_reverse:
  "map_option (\<lambda>q. rev (map fst (tasks q))) (run_all perform
     [DoPause, DoWorker, DoWorker, DoEnqueue 1 7, DoWorker, DoWorker, DoWorker, DoEnqueue 2 8, DoWorker,
      DoWorker, DoWorker, DoEnqueue 3 9, DoWorker, DoResume, DoWorker, DoWorker, DoWorker, DoWorker,
      DoWorker, DoWorker] start) = Some [9, 8, 7]"
  by code_simp

text \<open>
  Between taking a \<open>Run\<close> message and marking its job as running the job is neither queued nor
  running, so \<open>enqueue\<close> accepts it again; the worker then drops the second execution without any
  report.
\<close>

theorem accepted_execution_is_dropped:
  "map_option (\<lambda>q. (map snd (inflight q), map fst (queued q), issued q, reports 2 q)) (run_all perform
     [DoWorker, DoEnqueue 1 7, DoWorker, DoEnqueue 2 7, DoWorker, DoWorker, DoWorker, DoWorker] start)
   = Some ([1], [], [(7, 2), (7, 1)], 0)"
  by code_simp

text \<open>
  \<open>resume\<close> between the worker's reading of the flag and its wait is lost: the queue is not paused,
  a message is pending, and the worker waits until another message arrives.
\<close>

theorem resume_can_be_lost:
  "map_option (\<lambda>q. (paused q, pending q, worker_step q = None)) (run_all perform
     [DoPause, DoWorker, DoWorker, DoEnqueue 1 7, DoWorker, DoWorker, DoResume, DoWorker] start)
   = Some (False, [Run 7 1], True)"
  by (simp add: start_def pause_def resume_def enqueue_def send_def worker_step_def Let_def hm_contains_def
      hm_values_def)

end
