(* ===== verification/Scheduler.thy ===== *)
theory Scheduler
  imports Job_Store Job_Queue
begin

text \<open>
  The scheduler, \<open>crates/autoflow-core/src/scheduler.rs\<close>: one tick over the job store, the list of missed
  schedules (\<open>SqliteMissedScheduleStore\<close> in \<open>crates/autoflow-infrastructure/src/ui_state.rs\<close>) and the job
  queue. The readings of the clock are arguments: \<open>t_list\<close> when the jobs are listed, \<open>t_now\<close> the tick's
  own \<open>Utc::now()\<close>, \<open>t_rest\<close> all later ones. \<open>new_v4\<close> gives the execution identifier a job would get.
\<close>

record missed_schedule =
  ms_job_id :: uuid
  ms_job_name :: string
  ms_scheduled_at :: timestamp
  ms_detected_at :: timestamp
  ms_acknowledged :: bool

definition record_missed ::
    "timestamp \<Rightarrow> uuid \<Rightarrow> string \<Rightarrow> timestamp \<Rightarrow> missed_schedule list \<Rightarrow> missed_schedule list" where
  "record_missed now jid name scheduled_at ms =
     (if list_ex (\<lambda>m. ms_job_id m = jid \<and> ms_scheduled_at m = scheduled_at \<and> \<not> ms_acknowledged m) ms
      then ms
      else ms @ [\<lparr>ms_job_id = jid, ms_job_name = name, ms_scheduled_at = scheduled_at,
                  ms_detected_at = now, ms_acknowledged = False\<rparr>])"

definition list_unacknowledged :: "missed_schedule list \<Rightarrow> missed_schedule list" where
  "list_unacknowledged ms = sort_key ms_scheduled_at (filter (\<lambda>m. \<not> ms_acknowledged m) ms)"

definition clear_missed :: "missed_schedule list \<Rightarrow> missed_schedule list" where
  "clear_missed ms = map (\<lambda>m. m\<lparr>ms_acknowledged := True\<rparr>) ms"

definition missed_grace_secs :: int where
  "missed_grace_secs = 90"

record scheduler_state =
  ss_jobs :: job_db
  ss_missed :: "missed_schedule list"
  ss_queue :: job_queue

definition tick_job ::
    "store_config \<Rightarrow> timestamp \<Rightarrow> timestamp \<Rightarrow> (uuid \<Rightarrow> uuid) \<Rightarrow> job_summary \<Rightarrow> scheduler_state \<Rightarrow>
     scheduler_state" where
  "tick_job cfg t_now t_rest new_v4 s st =
     (if \<not> js_enabled s \<or> \<not> js_schedule_enabled s then st
      else
        (case js_next_run s of
           None \<Rightarrow> st
         | Some due \<Rightarrow>
             if due > t_now then st
             else
               (let st1 = (if t_now - due > secs missed_grace_secs
                           then st\<lparr>ss_missed := record_missed t_rest (js_id s) (js_name s) due (ss_missed st)\<rparr>
                           else st)
                in case store_get cfg t_rest (js_id s) (ss_jobs st1) of
                     Inl _ \<Rightarrow> st1
                   | Inr j0 \<Rightarrow>
                       (let j1 = normalize (st_tz cfg) t_rest j0;
                            j2 = (case schedule j1 of
                                    Some sc \<Rightarrow>
                                      if sc_enabled sc
                                      then j1\<lparr>next_run_at := compute_next_run (st_tz cfg) t_rest sc\<rparr> else j1
                                  | None \<Rightarrow> j1)
                        in case store_save cfg t_rest j2 (ss_jobs st1) of
                             Inl _ \<Rightarrow> st1
                           | Inr jobs \<Rightarrow>
                               st1\<lparr>ss_jobs := jobs,
                                   ss_queue := snd (enqueue (new_v4 (js_id s)) (js_id s) (ss_queue st1))\<rparr>))))"

definition tick ::
    "store_config \<Rightarrow> timestamp \<Rightarrow> timestamp \<Rightarrow> timestamp \<Rightarrow> (uuid \<Rightarrow> uuid) \<Rightarrow> scheduler_state \<Rightarrow>
     scheduler_state" where
  "tick cfg t_list t_now t_rest new_v4 st =
     fold (tick_job cfg t_now t_rest new_v4) (store_list cfg t_list (ss_jobs st)) st"

section \<open>Lemmas\<close>

lemma next_daily_later:
  assumes "next_daily r day t h m = Some u" "\<And>u. r (day + 1) h m = Some u \<Longrightarrow> t < u"
  shows "t < u"
  using assms by (auto simp: next_daily_def split: if_splits option.splits)

lemma next_run_later:
  assumes "later_day tz" "compute_next_run tz from s = Some u"
  shows "from \<le> u \<and> (\<forall>minutes. sc_rule s = Interval minutes \<longrightarrow> u = from + secs (60 * uint minutes)) \<and>
    ((\<forall>minutes. sc_rule s \<noteq> Interval minutes) \<longrightarrow> from < u)"
proof -
  define zone where "zone = (if sc_timezone s = ''local'' then ''local''
      else if tz_known tz (sc_timezone s) then sc_timezone s else ''UTC'')"
  have later: "tz_resolve tz zone day h m = Some u \<Longrightarrow> tz_day tz zone from < day \<Longrightarrow> from < u" for day h m u
    using assms(1) unfolding later_day_def by blast
  have run: "next_run tz from s = Some u"
    using assms(2) by (simp add: compute_next_run_def split: if_splits)
  show ?thesis
  proof (cases "sc_rule s")
    case (Interval minutes)
    with run show ?thesis by (auto simp: next_run_def Let_def secs_def)
  next
    case (Daily h m)
    with run have "next_daily (tz_resolve tz zone) (tz_day tz zone from) from h m = Some u"
      by (simp add: next_run_def zone_def Let_def)
    then have "from < u" by (rule next_daily_later) (rule later, auto)
    with Daily show ?thesis by simp
  next
    case (Weekly days h m)
    with run have "next_weekly (tz_resolve tz zone) [0..7] (tz_day tz zone from) from days h m = Some u"
      by (simp add: next_run_def zone_def Let_def)
    then have "from < u" by (rule next_weekly_future)
    with Weekly show ?thesis by simp
  qed
qed

lemma open_stored_frame:
  "next_run_at (open_stored cfg j) = next_run_at j" "schedule (open_stored cfg j) = schedule j"
  "watch (open_stored cfg j) = watch j"
  by (auto simp: open_stored_def open_job_secrets_def map_job_secrets_def split_beta Let_def
      split: option.splits)

lemma listed_next_run:
  assumes "s \<in> set (store_list cfg t db)" "js_next_run s = Some u"
  shows "\<exists>row \<in> set (hm_values (db_rows db)). \<exists>sc. schedule (jr_payload row) = Some sc \<and> sc_enabled sc \<and>
    compute_next_run (st_tz cfg) t sc = Some u"
proof -
  from assms(1) obtain row where row: "row \<in> set (hm_values (db_rows db))"
    and s: "s = summary (deserialize cfg t (jr_payload row))"
    by (auto simp: store_list_def)
  then have "next_run_at (normalize (st_tz cfg) t (jr_payload row)) = Some u"
    using assms(2) by (simp add: summary_def deserialize_def open_stored_frame)
  with row show ?thesis
    by (auto simp: normalize_eq schedule_active_def split: if_splits option.splits)
qed

text \<open>What a tick looks at: an enabled job whose next run lies between the listing and the tick's own clock.\<close>

definition due_since :: "timestamp \<Rightarrow> timestamp \<Rightarrow> job_summary \<Rightarrow> bool" where
  "due_since t_list t_now s \<longleftrightarrow> js_enabled s \<and> js_schedule_enabled s \<and>
     (case js_next_run s of Some u \<Rightarrow> t_list \<le> u \<and> u \<le> t_now | None \<Rightarrow> False)"

lemma fold_filter: "(\<And>x st. x \<in> set xs \<Longrightarrow> \<not> P x \<Longrightarrow> f x st = st) \<Longrightarrow> fold f xs st = fold f (filter P xs) st"
  by (induction xs arbitrary: st) auto

lemma tick_job_missed:
  assumes "due_since t_list t_now s" "t_now - t_list \<le> secs missed_grace_secs"
  shows "ss_missed (tick_job cfg t_now t_rest new_v4 s st) = ss_missed st"
proof -
  have "\<not> t_now - u > secs missed_grace_secs" if "js_next_run s = Some u" for u
    using assms that by (auto simp: due_since_def)
  then show ?thesis by (auto simp: tick_job_def Let_def split: option.split sum.split)
qed

lemma fold_keeps: "(\<And>x st. x \<in> set xs \<Longrightarrow> g (f x st) = g st) \<Longrightarrow> g (fold f xs st) = g st"
  by (induction xs arbitrary: st) auto

section \<open>Properties\<close>

text \<open>
  C1. The scheduler sees only the window between its two readings of the clock. The store computes the next
  run of every job anew when it lists the jobs, so a run that was due before the listing is neither started
  nor recorded as missed, however long the scheduler was down: a tick does what it does for the jobs that
  fall due between the listing and the tick's own reading of the clock, and nothing when there is none.
  When the two readings lie no further apart than the grace time, no missed run is ever recorded. Assumed
  of the zone library: an instant on a later date is later.
\<close>

theorem tick_sees_only_its_window:
  assumes "later_day (st_tz cfg)"
  shows "tick cfg t_list t_now t_rest new_v4 st =
      fold (tick_job cfg t_now t_rest new_v4) (filter (due_since t_list t_now) (store_list cfg t_list (ss_jobs st))) st \<and>
    (t_now - t_list \<le> secs missed_grace_secs \<longrightarrow> ss_missed (tick cfg t_list t_now t_rest new_v4 st) = ss_missed st)"
proof -
  let ?jobs = "store_list cfg t_list (ss_jobs st)"
  have idle: "tick_job cfg t_now t_rest new_v4 s st' = st'" if s: "s \<in> set ?jobs" and "\<not> due_since t_list t_now s" for s st'
  proof -
    have "t_list \<le> u" if "js_next_run s = Some u" for u
      using listed_next_run [OF s that] next_run_later [OF assms] by blast
    then show ?thesis using that(2) by (auto simp: tick_job_def due_since_def split: option.split)
  qed
  have window: "tick cfg t_list t_now t_rest new_v4 st = fold (tick_job cfg t_now t_rest new_v4) (filter (due_since t_list t_now) ?jobs) st"
    unfolding tick_def by (rule fold_filter) (rule idle)
  moreover have "ss_missed (fold (tick_job cfg t_now t_rest new_v4) (filter (due_since t_list t_now) ?jobs) st) = ss_missed st"
    if "t_now - t_list \<le> secs missed_grace_secs"
    by (rule fold_keeps [where g = ss_missed]) (use that tick_job_missed in auto)
  ultimately show ?thesis by simp
qed

text \<open>A job that was due every quarter of an hour, in a store the scheduler looks at after a year and a second later.\<close>

theorem tick_sees_only_its_window_witness:
  "\<exists>j' db'. create_job demo_store 0 demo_job \<lparr>db_rows = [], db_draws = 0\<rparr> = Inr (j', db') \<and>
     next_run_at j' = Some (secs 900) \<and>
     tick demo_store (secs 31536000) (secs 31536001) (secs 31536001) (\<lambda>_. 1)
       \<lparr>ss_jobs = db', ss_missed = [], ss_queue = start\<rparr>
     = \<lparr>ss_jobs = db', ss_missed = [], ss_queue = start\<rparr>"
proof -
  let ?db = "\<lparr>db_rows = [], db_draws = 0\<rparr>"
  have "(case create_job demo_store 0 demo_job ?db of Inl _ \<Rightarrow> False
      | Inr (j', db') \<Rightarrow> next_run_at j' = Some (secs 900))"
    by code_simp
  then obtain j' db' where c: "create_job demo_store 0 demo_job ?db = Inr (j', db')"
    "next_run_at j' = Some (secs 900)"
    by (auto split: sum.splits prod.splits)
  have tz: "st_tz demo_store = utc" by (simp add: demo_store_def)
  let ?st = "\<lparr>ss_jobs = db', ss_missed = [], ss_queue = start\<rparr>"
  have "(case create_job demo_store 0 demo_job ?db of Inl _ \<Rightarrow> False
      | Inr (j', db') \<Rightarrow> filter (due_since (secs 31536000) (secs 31536001)) (store_list demo_store (secs 31536000) db') = [] \<and>
          map js_next_run (store_list demo_store (secs 31536000) db') = [Some (secs 31536900)])"
    by code_simp
  then have idle: "filter (due_since (secs 31536000) (secs 31536001)) (store_list demo_store (secs 31536000) db') = []"
    by (simp add: c(1))
  have "tick demo_store (secs 31536000) (secs 31536001) (secs 31536001) (\<lambda>_. 1) ?st = ?st"
    using tick_sees_only_its_window [of demo_store "secs 31536000" "secs 31536001" "secs 31536001" "\<lambda>_. 1" ?st] idle
    by (simp add: tz utc_later_day)
  with c(1,2) show ?thesis by blast
qed

end
