(* ===== verification/File_System.thy ===== *)
theory File_System
  imports Paths
begin

text \<open>
  The file system the execution engine works on: a partial map from absolute paths, as lists of names,
  to directories and files. The operations are those of \<open>std::fs\<close> the crates call, with the failures that
  follow from the tree itself (something is missing, is a directory, is in the way) and from devices
  (\<open>rename\<close> does not cross them); permissions, full disks, symbolic links and concurrent changes by
  other programs are not modelled. Error texts are the model's own.
\<close>

type_synonym fpath = "string list"

datatype node = Dir | File (contents: string) (mtime: timestamp)

type_synonym fs = "fpath \<Rightarrow> node option"

text \<open>
  What lies below the tree: \<open>fs_hash\<close> is blake3 over a file's bytes, \<open>fs_same_device\<close> tells whether a rename
  can work, \<open>fs_copied\<close> gives the bytes that arrive when a file is copied (the same ones on a device that
  does not corrupt them), and \<open>fs_walk\<close> is what \<open>WalkDir\<close> lists, the directory first, or last with
  \<open>contents_first\<close>.
\<close>

record fs_env =
  fs_hash :: "string \<Rightarrow> string"
  fs_same_device :: "fpath \<Rightarrow> fpath \<Rightarrow> bool"
  fs_copied :: "fpath \<Rightarrow> fpath \<Rightarrow> string \<Rightarrow> string"
  fs_walk :: "bool \<Rightarrow> fpath \<Rightarrow> fs \<Rightarrow> fpath list"

section \<open>Operations\<close>

definition exists_at :: "fpath \<Rightarrow> fs \<Rightarrow> bool" where
  "exists_at p fs \<longleftrightarrow> fs p \<noteq> None"

definition file_at :: "fpath \<Rightarrow> fs \<Rightarrow> bool" where
  "file_at p fs \<longleftrightarrow> (case fs p of Some (File _ _) \<Rightarrow> True | _ \<Rightarrow> False)"

definition dir_at :: "fpath \<Rightarrow> fs \<Rightarrow> bool" where
  "dir_at p fs \<longleftrightarrow> fs p = Some Dir"

definition create_dir_all :: "fpath \<Rightarrow> fs \<Rightarrow> string + fs" where
  "create_dir_all p fs =
     (if list_ex (\<lambda>q. file_at q fs) (prefixes p) then Inl ''not a directory''
      else Inr (\<lambda>q. if prefix q p then Some Dir else fs q))"

definition parent_dir :: "fpath \<Rightarrow> fs \<Rightarrow> bool" where
  "parent_dir p fs \<longleftrightarrow> p \<noteq> [] \<and> dir_at (butlast p) fs"

text \<open>Copying a file onto itself truncates it.\<close>

definition copy_file :: "fs_env \<Rightarrow> timestamp \<Rightarrow> fpath \<Rightarrow> fpath \<Rightarrow> fs \<Rightarrow> string + fs" where
  "copy_file env now src dst fs =
     (case fs src of
        Some (File c _) \<Rightarrow>
          if dir_at dst fs \<or> \<not> parent_dir dst fs then Inl ''cannot write the target''
          else Inr (fs(dst \<mapsto> File (fs_copied env src dst (if src = dst then [] else c)) now))
      | _ \<Rightarrow> Inl ''cannot read the source'')"

definition rename_path :: "fs_env \<Rightarrow> fpath \<Rightarrow> fpath \<Rightarrow> fs \<Rightarrow> string + fs" where
  "rename_path env src dst fs =
     (if \<not> fs_same_device env src dst then Inl ''cross-device link''
      else
        (case fs src of
           None \<Rightarrow> Inl ''no such file''
         | Some (File c t) \<Rightarrow>
             if dir_at dst fs \<or> \<not> parent_dir dst fs then Inl ''cannot replace the target''
             else if src = dst then Inr fs
             else Inr (fs(src := None, dst \<mapsto> File c t))
         | Some Dir \<Rightarrow>
             if src = dst then Inr fs
             else if prefix src dst \<or> file_at dst fs \<or> (dir_at dst fs \<and> fs_walk env False dst fs \<noteq> [dst]) \<or>
               \<not> parent_dir dst fs
             then Inl ''cannot move the directory''
             else Inr (\<lambda>q. if prefix dst q then fs (src @ drop (length dst) q)
                           else if prefix src q then None else fs q)))"

definition remove_file :: "fpath \<Rightarrow> fs \<Rightarrow> string + fs" where
  "remove_file p fs = (if file_at p fs then Inr (fs(p := None)) else Inl ''not a file'')"

definition remove_dir_all :: "fpath \<Rightarrow> fs \<Rightarrow> string + fs" where
  "remove_dir_all p fs =
     (if dir_at p fs then Inr (\<lambda>q. if prefix p q then None else fs q) else Inl ''not a directory'')"

definition remove_dir :: "fs_env \<Rightarrow> fpath \<Rightarrow> fs \<Rightarrow> string + fs" where
  "remove_dir env p fs =
     (if \<not> dir_at p fs then Inl ''not a directory''
      else if fs_walk env False p fs \<noteq> [p] then Inl ''directory not empty''
      else Inr (fs(p := None)))"

definition file_hash :: "fs_env \<Rightarrow> fpath \<Rightarrow> fs \<Rightarrow> string + string" where
  "file_hash env p fs =
     (case fs p of Some (File c _) \<Rightarrow> Inr (fs_hash env c) | _ \<Rightarrow> Inl ''cannot read the file'')"

definition metadata_len :: "fpath \<Rightarrow> fs \<Rightarrow> string + nat" where
  "metadata_len p fs =
     (case fs p of Some (File c _) \<Rightarrow> Inr (length c) | Some Dir \<Rightarrow> Inr 4096 | None \<Rightarrow> Inl ''no such file'')"

definition modified_at :: "fpath \<Rightarrow> fs \<Rightarrow> timestamp option" where
  "modified_at p fs = (case fs p of Some (File _ t) \<Rightarrow> Some t | _ \<Rightarrow> None)"

definition files_equal :: "fs_env \<Rightarrow> fpath \<Rightarrow> fpath \<Rightarrow> bool \<Rightarrow> fs \<Rightarrow> string + bool" where
  "files_equal env a b strict fs =
     rbind (metadata_len a fs) (\<lambda>len_a.
     rbind (metadata_len b fs) (\<lambda>len_b.
       if len_a \<noteq> len_b then Inr False
       else if \<not> strict \<and> modified_at a fs \<noteq> None \<and> modified_at a fs = modified_at b fs then Inr True
       else rbind (file_hash env a fs) (\<lambda>hash_a.
            rbind (file_hash env b fs) (\<lambda>hash_b. Inr (hash_a = hash_b)))))"

section \<open>Files of a tree\<close>

text \<open>What the lemmas compare: the files with their contents and times, directories left aside.\<close>

definition file_view :: "fs \<Rightarrow> fs" where
  "file_view fs p = (case fs p of Some (File c t) \<Rightarrow> Some (File c t) | _ \<Rightarrow> None)"

definition tree_ok :: "fs \<Rightarrow> bool" where
  "tree_ok fs \<longleftrightarrow> fs [] = Some Dir \<and> (\<forall>p n. fs (p @ [n]) \<noteq> None \<longrightarrow> fs p = Some Dir)"

lemma file_view_File [simp]: "fs p = Some (File c t) \<Longrightarrow> file_view fs p = Some (File c t)"
  by (simp add: file_view_def)

lemma file_at_view: "file_at p fs \<longleftrightarrow> file_view fs p \<noteq> None"
  by (simp add: file_at_def file_view_def split: option.splits node.splits)

lemma file_view_None: "fs p = None \<Longrightarrow> file_view fs p = None"
  by (simp add: file_view_def)

lemma view_not_dir: "fs p \<noteq> Some Dir \<Longrightarrow> file_view fs p = fs p"
  by (auto simp: file_view_def split: option.splits node.splits)

lemma tree_ok_prefix: "tree_ok fs \<Longrightarrow> prefix q p \<Longrightarrow> q \<noteq> p \<Longrightarrow> fs p \<noteq> None \<Longrightarrow> fs q = Some Dir"
proof (induction p rule: rev_induct)
  case (snoc n p)
  have dir: "fs p = Some Dir" using snoc.prems(1,4) unfolding tree_ok_def by blast
  have "prefix q p" using snoc.prems(2,3) by (simp add: prefix_snoc)
  then show ?case
    using snoc.IH [OF snoc.prems(1)] dir by (cases "q = p") simp_all
qed simp

lemma create_dir_all_eq:
  assumes "create_dir_all p fs = Inr fs'"
  shows "fs' = (\<lambda>q. if prefix q p then Some Dir else fs q)" "prefix q p \<Longrightarrow> file_view fs q = None"
proof -
  show "fs' = (\<lambda>q. if prefix q p then Some Dir else fs q)"
    using assms by (simp add: create_dir_all_def split: if_splits)
  have "\<not> list_ex (\<lambda>q. file_at q fs) (prefixes p)"
    using assms by (simp add: create_dir_all_def split: if_splits)
  then show "prefix q p \<Longrightarrow> file_view fs q = None"
    by (simp add: list_ex_iff file_at_view)
qed

lemma create_dir_all_view:
  assumes "create_dir_all p fs = Inr fs'"
  shows "file_view fs' = file_view fs"
proof
  fix q
  show "file_view fs' q = file_view fs q"
  proof (cases "prefix q p")
    case True
    then have "fs' q = Some Dir" by (simp add: create_dir_all_eq(1) [OF assms])
    with create_dir_all_eq(2) [OF assms True] show ?thesis by (simp add: file_view_def)
  next
    case False
    then have "fs' q = fs q" by (simp add: create_dir_all_eq(1) [OF assms])
    then show ?thesis by (simp add: file_view_def)
  qed
qed

lemma create_dir_all_dir: "create_dir_all p fs = Inr fs' \<Longrightarrow> fs' p = Some Dir"
  using create_dir_all_eq(1) [of p fs fs'] by simp

lemma create_dir_all_keeps:
  assumes "create_dir_all p fs = Inr fs'" "fs q \<noteq> None"
  shows "fs' q = fs q"
proof (cases "prefix q p")
  case True
  with create_dir_all_eq(2) [OF assms(1) True] assms(2) have "fs q = Some Dir"
    by (auto simp: file_view_def split: option.splits node.splits)
  with True show ?thesis by (simp add: create_dir_all_eq(1) [OF assms(1)])
next
  case False
  then show ?thesis by (simp add: create_dir_all_eq(1) [OF assms(1)])
qed

lemma file_at_iff: "file_at p fs \<longleftrightarrow> (\<exists>c t. fs p = Some (File c t))"
  by (simp add: file_at_def split: option.splits node.splits)

lemma file_view_eq_Some: "file_view fs p = Some x \<Longrightarrow> fs p = Some x"
  by (auto simp: file_view_def split: option.splits node.splits)

lemma file_view_upd: "file_view (fs(p \<mapsto> File c t)) = (file_view fs)(p \<mapsto> File c t)" "file_view (fs(p := None)) = (file_view fs)(p := None)"
  by (auto simp: file_view_def fun_eq_iff)

lemma tree_ok_no_child: "tree_ok fs \<Longrightarrow> fs p \<noteq> Some Dir \<Longrightarrow> fs (p @ [n]) = None"
  unfolding tree_ok_def by blast

lemma tree_ok_add:
  assumes "tree_ok fs" "parent_dir p fs" "fs p \<noteq> Some Dir"
  shows "tree_ok (fs(p \<mapsto> File c t))"
  unfolding tree_ok_def
proof (intro conjI allI impI)
  show "(fs(p \<mapsto> File c t)) [] = Some Dir" using assms(1,2) unfolding tree_ok_def parent_dir_def by (cases p) simp_all
  fix q n
  assume *: "(fs(p \<mapsto> File c t)) (q @ [n]) \<noteq> None"
  show "(fs(p \<mapsto> File c t)) q = Some Dir"
  proof (cases "q @ [n] = p")
    case True
    then show ?thesis using assms(2) by (auto simp: parent_dir_def dir_at_def)
  next
    case False
    with * have "fs (q @ [n]) \<noteq> None" by auto
    with assms(1) have "fs q = Some Dir" unfolding tree_ok_def by blast
    with assms(3) show ?thesis by auto
  qed
qed

lemma tree_ok_remove:
  assumes "tree_ok fs" "file_at p fs"
  shows "tree_ok (fs(p := None))"
  unfolding tree_ok_def
proof (intro conjI allI impI)
  have not_dir: "fs p \<noteq> Some Dir" using assms(2) by (auto simp: file_at_iff)
  with assms(1) have "p \<noteq> []" unfolding tree_ok_def by auto
  with assms(1) show "(fs(p := None)) [] = Some Dir" unfolding tree_ok_def by auto
  fix q n
  assume "(fs(p := None)) (q @ [n]) \<noteq> None"
  then have "fs (q @ [n]) \<noteq> None" by (auto split: if_splits)
  with assms(1) have "fs q = Some Dir" unfolding tree_ok_def by blast
  with not_dir show "(fs(p := None)) q = Some Dir" by auto
qed

lemma create_dir_all_tree:
  assumes "tree_ok fs" "create_dir_all p fs = Inr fs'"
  shows "tree_ok fs'"
  using assms(1) unfolding tree_ok_def create_dir_all_eq(1) [OF assms(2)]
  by (auto simp: prefix_snoc dest: append_prefixD)

end
