(* ===== verification/Run_Support.thy ===== *)
theory Run_Support
  imports File_System Job_Config
begin

text \<open>
  What a run calls besides the file operations: the scripts (\<open>crates/autoflow-application/src/script_runner.rs\<close>),
  the encrypted package (\<open>pack.rs\<close>) and the filter in front of the notifications (\<open>notify.rs\<close>). The
  process a script starts, the zip writer and the keyring are not code of the repository:
  \<open>support_env\<close> and the keyring map stand for them. A script may change the file system.
\<close>

section \<open>Paths as text\<close>

text \<open>
  Absolute paths resolve to names; a relative one is taken from the base. There are no symbolic links,
  so \<open>..\<close> is the parent.
\<close>

definition join_path :: "fpath \<Rightarrow> string \<Rightarrow> fpath" where
  "join_path base s =
     resolve_from (if s \<noteq> [] \<and> hd s = CHR ''/'' then [] else base) (path_components s)"

definition parse_path :: "string \<Rightarrow> fpath" where
  "parse_path s = join_path [] s"

section \<open>Scripts\<close>

datatype script_phase = Pre | Post

fun phase_label :: "script_phase \<Rightarrow> string" where
  "phase_label Pre = ''pre''"
| "phase_label Post = ''post''"

record script_result =
  sr_exit_code :: "int option"
  sr_stdout :: string
  sr_stderr :: string
  sr_timed_out :: bool

record script_command =
  cmd_program :: fpath
  cmd_job_id :: uuid
  cmd_env :: "(string \<times> string) list"

text \<open>What becomes of a started process within the timeout.\<close>

datatype process_outcome =
    SpawnError string
  | WaitError string
  | Exited "int option" string string
  | StillRunning

record support_env =
  su_process :: "script_command \<Rightarrow> nat \<Rightarrow> fs \<Rightarrow> process_outcome \<times> fs"
  su_zip :: "string \<Rightarrow> (string \<times> string) list \<Rightarrow> string + string"

definition resolve_script_path :: "fpath \<Rightarrow> string \<Rightarrow> fpath" where
  "resolve_script_path data_dir name = join_path (data_dir @ [''scripts'']) name"

definition build_command :: "fpath \<Rightarrow> job \<Rightarrow> script_command" where
  "build_command script_path j =
     \<lparr>cmd_program = script_path, cmd_job_id = job_id j,
      cmd_env = [(''AUTOFLOW_JOB_NAME'', job_name j), (''AUTOFLOW_SOURCE'', source_path j),
                 (''AUTOFLOW_TARGET'', target_path j)]\<rparr>"

definition run_script ::
    "support_env \<Rightarrow> fpath \<Rightarrow> job \<Rightarrow> script_phase \<Rightarrow> string \<Rightarrow> fs \<Rightarrow> (domain_error + script_result) \<times> fs" where
  "run_script su data_dir j phase name fs =
     (let script_path = resolve_script_path data_dir name; limit = unat (timeout_secs (scripts j)) in
      if \<not> exists_at script_path fs
      then (Inl (Validation (phase_label phase @ '' script not found: '' @ abs_path script_path)), fs)
      else
        (case su_process su (build_command script_path j) limit fs of
           (SpawnError e, fs') \<Rightarrow>
             (Inl (DatabaseError (''failed to spawn '' @ phase_label phase @ '' script: '' @ e)), fs')
         | (WaitError e, fs') \<Rightarrow> (Inl (DatabaseError (phase_label phase @ '' script failed: '' @ e)), fs')
         | (Exited status out err, fs') \<Rightarrow>
             (Inr \<lparr>sr_exit_code = status, sr_stdout = out, sr_stderr = err, sr_timed_out = False\<rparr>, fs')
         | (StillRunning, fs') \<Rightarrow>
             (Inr \<lparr>sr_exit_code = None, sr_stdout = [],
                   sr_stderr = ''script timed out after '' @ show_nat limit @ ''s'', sr_timed_out = True\<rparr>, fs')))"

definition show_int :: "int \<Rightarrow> string" where
  "show_int i = (if i < 0 then CHR ''-'' # show_nat (nat (- i)) else show_nat (nat i))"

definition debug_exit :: "int option \<Rightarrow> string" where
  "debug_exit c = (case c of None \<Rightarrow> ''None'' | Some i \<Rightarrow> ''Some('' @ show_int i @ '')'')"

definition script_failed :: "script_result \<Rightarrow> bool" where
  "script_failed r \<longleftrightarrow> sr_timed_out r \<or> (case sr_exit_code r of None \<Rightarrow> 1 | Some i \<Rightarrow> i) \<noteq> 0"

definition run_pre_script ::
    "support_env \<Rightarrow> fpath \<Rightarrow> job \<Rightarrow> fs \<Rightarrow> (domain_error + script_result option) \<times> fs" where
  "run_pre_script su data_dir j fs =
     (case pre_script (scripts j) of
        None \<Rightarrow> (Inr None, fs)
      | Some name \<Rightarrow>
          (case run_script su data_dir j Pre name fs of
             (Inl e, fs') \<Rightarrow> (Inl e, fs')
           | (Inr r, fs') \<Rightarrow>
               if script_failed r
               then (Inl (Validation (''pre-script failed: '' @
                       (if sr_timed_out r then sr_stderr r
                        else ''exit code '' @ debug_exit (sr_exit_code r) @ '': '' @ trim (sr_stderr r)))), fs')
               else (Inr (Some r), fs')))"

definition run_post_script ::
    "support_env \<Rightarrow> fpath \<Rightarrow> job \<Rightarrow> fs \<Rightarrow> (domain_error + script_result option) \<times> fs" where
  "run_post_script su data_dir j fs =
     (case post_script (scripts j) of
        None \<Rightarrow> (Inr None, fs)
      | Some name \<Rightarrow>
          (case run_script su data_dir j Post name fs of
             (Inl e, fs') \<Rightarrow> (Inl e, fs') | (Inr r, fs') \<Rightarrow> (Inr (Some r), fs')))"

section \<open>The package\<close>

type_synonym keyring = "uuid \<Rightarrow> string option"

definition resolve_encrypt_password ::
    "uuid \<Rightarrow> string option \<Rightarrow> bool \<Rightarrow> keyring \<Rightarrow> (domain_error + string) \<times> keyring" where
  "resolve_encrypt_password jid password remember ring =
     (let missing = Inl (Validation ''encrypt password is required for encrypted output'') in
      if password \<noteq> None \<and> the password \<noteq> []
      then (Inr (the password), if remember then ring(jid := password) else ring)
      else if remember
      then (case ring jid of Some stored \<Rightarrow> (Inr stored, ring) | None \<Rightarrow> (missing, ring))
      else (missing, ring))"

definition resolve_pack_path :: "fpath \<Rightarrow> string option \<Rightarrow> fpath" where
  "resolve_pack_path target_dir filename =
     join_path target_dir
       (case filename of
          Some n \<Rightarrow> if trim n \<noteq> [] then n else ''output.autoflow.zip''
        | None \<Rightarrow> ''output.autoflow.zip'')"

definition package_entries :: "fs_env \<Rightarrow> fpath \<Rightarrow> fpath \<Rightarrow> fs \<Rightarrow> (string \<times> string) list" where
  "package_entries env target_dir output_path fs =
     concat (map (\<lambda>path.
         if path = output_path then []
         else (case fs path of
                 Some (File c _) \<Rightarrow>
                   [(replace_char bslash (CHR ''/'') (join_with ''/'' (drop (length target_dir) path)), c)]
               | _ \<Rightarrow> []))
       (fs_walk env False target_dir fs))"

definition create_encrypted_package ::
    "fs_env \<Rightarrow> support_env \<Rightarrow> timestamp \<Rightarrow> fpath \<Rightarrow> fpath \<Rightarrow> string \<Rightarrow> fs \<Rightarrow> (domain_error + fpath) \<times> fs" where
  "create_encrypted_package env su now target_dir output_path password fs =
     (if password = [] then (Inl (Validation ''encrypt password is required''), fs)
      else
        (case (if output_path = [] then Inr fs else create_dir_all (butlast output_path) fs) of
           Inl e \<Rightarrow> (Inl (DatabaseError e), fs)
         | Inr fs1 \<Rightarrow>
             if dir_at output_path fs1 then (Inl (DatabaseError ''is a directory''), fs1)
             else
               (let fs2 = fs1(output_path \<mapsto> File [] now) in
                case su_zip su password (package_entries env target_dir output_path fs2) of
                  Inl e \<Rightarrow> (Inl (DatabaseError e), fs2)
                | Inr bytes \<Rightarrow> (Inr output_path, fs2(output_path \<mapsto> File bytes now)))))"

fun remove_listed :: "fs_env \<Rightarrow> fpath \<Rightarrow> fpath option \<Rightarrow> fpath list \<Rightarrow> fs \<Rightarrow> (domain_error + unit) \<times> fs" where
  "remove_listed env dir excluded [] fs = (Inr (), fs)"
| "remove_listed env dir excluded (path # paths) fs =
     (if path = dir \<or> Some path = excluded then remove_listed env dir excluded paths fs
      else
        (case (if dir_at path fs then remove_dir env path fs else remove_file path fs) of
           Inl e \<Rightarrow> (Inl (DatabaseError e), fs)
         | Inr fs' \<Rightarrow> remove_listed env dir excluded paths fs'))"

definition remove_files_in_dir_except ::
    "fs_env \<Rightarrow> fpath \<Rightarrow> fpath option \<Rightarrow> fs \<Rightarrow> (domain_error + unit) \<times> fs" where
  "remove_files_in_dir_except env dir excluded fs =
     (if \<not> exists_at dir fs then (Inr (), fs)
      else remove_listed env dir excluded (fs_walk env True dir fs) fs)"

definition remove_files_in_dir :: "fs_env \<Rightarrow> fpath \<Rightarrow> fs \<Rightarrow> (domain_error + unit) \<times> fs" where
  "remove_files_in_dir env dir fs = remove_files_in_dir_except env dir None fs"

section \<open>Notifications\<close>

text \<open>The messages handed to the task that delivers them: the job, the event and the detail.\<close>

type_synonym notification = "uuid \<times> notify_event \<times> string option"

definition fire_notify_event :: "job \<Rightarrow> notify_event \<Rightarrow> string option \<Rightarrow> notification list \<Rightarrow> notification list" where
  "fire_notify_event j event detail sent =
     (if \<not> nc_enabled (notify j) then sent
      else if event \<notin> set (nc_events (notify j)) then sent
      else sent @ [(job_id j, event, detail)])"

section \<open>Lemmas\<close>

lemma removed_at:
  "(if dir_at q fs then remove_dir env q fs else remove_file q fs) = Inr fs1 \<Longrightarrow> fs1 = fs(q := None)"
  by (auto simp: remove_dir_def remove_file_def split: if_splits)

lemma remove_listed_stays_gone:
  "remove_listed env dir excluded paths fs = (r, fs') \<Longrightarrow> fs p = None \<Longrightarrow> fs' p = None"
proof (induction paths arbitrary: fs)
  case (Cons q paths)
  show ?case
  proof (cases "q = dir \<or> Some q = excluded")
    case False
    show ?thesis
    proof (cases "if dir_at q fs then remove_dir env q fs else remove_file q fs")
      case (Inr fs1)
      from False Inr Cons.prems(1) have "remove_listed env dir excluded paths fs1 = (r, fs')" by simp
      then show ?thesis using Cons.IH Cons.prems(2) removed_at [OF Inr] by simp
    qed (use False Cons.prems in auto)
  qed (use Cons in auto)
qed simp

lemma remove_listed_gone:
  assumes "remove_listed env dir excluded paths fs = (Inr (), fs')" "p \<in> set paths" "p \<noteq> dir" "Some p \<noteq> excluded"
  shows "fs' p = None"
  using assms
proof (induction paths arbitrary: fs)
  case (Cons q paths)
  show ?case
  proof (cases "q = dir \<or> Some q = excluded")
    case True
    with Cons.prems have "remove_listed env dir excluded paths fs = (Inr (), fs')" "p \<in> set paths" by auto
    then show ?thesis using Cons.IH Cons.prems(3,4) by simp
  next
    case False
    with Cons.prems(1) obtain fs1 where
        fs1: "(if dir_at q fs then remove_dir env q fs else remove_file q fs) = Inr fs1"
      and rest: "remove_listed env dir excluded paths fs1 = (Inr (), fs')"
      by (auto split: sum.splits)
    from removed_at [OF fs1] have "fs1 q = None" by simp
    from remove_listed_stays_gone [OF rest this] Cons.IH [OF rest] Cons.prems show ?thesis by auto
  qed
qed simp

lemma remove_listed_keeps:
  assumes "remove_listed env dir excluded paths fs = (r, fs')" "p \<notin> set paths \<or> p = dir \<or> Some p = excluded"
  shows "fs' p = fs p"
  using assms
proof (induction paths arbitrary: fs)
  case (Cons q paths)
  show ?case
  proof (cases "q = dir \<or> Some q = excluded")
    case True
    with Cons show ?thesis by auto
  next
    case False
    with Cons.prems have "p \<noteq> q" by auto
    show ?thesis
    proof (cases "if dir_at q fs then remove_dir env q fs else remove_file q fs")
      case (Inr fs1)
      then have "fs1 p = fs p" using removed_at [OF Inr] \<open>p \<noteq> q\<close> by simp
      with False Inr Cons show ?thesis by auto
    qed (use False Cons.prems(1) in auto)
  qed
qed simp

end
