(* ===== verification/Execution.thy ===== *)
theory Execution
  imports Run_Support Job_Store Job_Queue
begin

text \<open>
  One run of a job, \<open>crates/autoflow-application/src/execution.rs\<close>: how the target of a file is chosen
  (\<open>resolve_target\<close>), what happens to a file (\<open>process_file\<close>) and the run itself (\<open>run_job\<close>), with the
  audit entries (\<open>domain/src/audit.rs\<close>) and the rollback manifest (\<open>domain/src/rollback.rs\<close>) it leaves.
  Everything a run touches is in the record \<open>world\<close>; what it is given is in \<open>run_deps\<close>. Paths in audit
  entries and manifests, which the code stores as text, are kept as paths.
\<close>

section \<open>Audit entries and manifests\<close>

datatype audit_status = Copied | Moved | Ignored | Failed | Organized | RolledBack

record new_audit_entry =
  ne_job_id :: "uuid option"
  ne_blueprint_id :: "uuid option"
  ne_job_name :: string
  ne_source_path :: string
  ne_target_path :: string
  ne_status :: audit_status
  ne_file_size :: int
  ne_duration_ms :: f64
  ne_details :: "string option"

record rollback_item =
  ri_source_path :: fpath
  ri_target_path :: fpath
  ri_mode :: job_mode
  ri_status :: audit_status
  ri_target_hash :: "string option"
  ri_is_directory :: bool

record rollback_manifest =
  rm_id :: uuid
  rm_job_id :: uuid
  rm_blueprint_id :: "uuid option"
  rm_execution_id :: uuid
  rm_created_at :: timestamp
  rm_rolled_back_at :: "timestamp option"
  rm_items :: "rollback_item list"

definition manifest_new :: "uuid \<Rightarrow> timestamp \<Rightarrow> uuid \<Rightarrow> uuid \<Rightarrow> rollback_item list \<Rightarrow> rollback_manifest" where
  "manifest_new new_v4 now jid eid items =
     \<lparr>rm_id = new_v4, rm_job_id = jid, rm_blueprint_id = None, rm_execution_id = eid,
      rm_created_at = now, rm_rolled_back_at = None, rm_items = items\<rparr>"

section \<open>One file\<close>

text \<open>\<open>source.strip_prefix(source_root)\<close>, or the name where that fails, joined to the target directory.\<close>

definition target_in :: "fpath \<Rightarrow> fpath \<Rightarrow> fpath \<Rightarrow> fs \<Rightarrow> fpath" where
  "target_in target_dir source_root source fs =
     (if file_at source_root fs then target_dir @ [last source]
      else if prefix source_root source then target_dir @ drop (length source_root) source
      else if source = [] then [] else target_dir @ [last source])"

fun first_free :: "fpath \<Rightarrow> string \<Rightarrow> string \<Rightarrow> fs \<Rightarrow> nat list \<Rightarrow> fpath option" where
  "first_free parent stem ext fs [] = None"
| "first_free parent stem ext fs (i # is) =
     (let candidate = parent @ [stem @ '' ('' @ show_nat i @ '')'' @ ext] in
      if \<not> exists_at candidate fs then Some candidate else first_free parent stem ext fs is)"

definition resolve_target ::
    "fpath \<Rightarrow> string \<Rightarrow> conflict_strategy \<Rightarrow> fpath \<Rightarrow> fpath \<Rightarrow> fs \<Rightarrow> string + fpath option" where
  "resolve_target target_dir name strategy source_root source fs =
     (let candidate = target_in target_dir source_root source fs in
      if \<not> exists_at candidate fs then Inr (Some candidate)
      else
        (case strategy of
           Skip \<Rightarrow> Inr None
         | Overwrite \<Rightarrow> Inr (Some candidate)
         | Rename \<Rightarrow>
             (let parent = (if candidate = [] then target_dir else butlast candidate);
                  stem = (case file_stem name of Some s \<Rightarrow> s | None \<Rightarrow> ''file'');
                  ext = (case extension name of Some e \<Rightarrow> CHR ''.'' # e | None \<Rightarrow> [])
              in case first_free parent stem ext fs [1..<1000] of
                   Some free \<Rightarrow> Inr (Some free)
                 | None \<Rightarrow> Inl ''could not resolve unique target name'')))"

definition verify_copy :: "fs_env \<Rightarrow> fpath \<Rightarrow> fpath \<Rightarrow> fs \<Rightarrow> string + unit" where
  "verify_copy env source target fs =
     rbind (file_hash env source fs) (\<lambda>source_hash.
     rbind (file_hash env target fs) (\<lambda>target_hash.
       if source_hash \<noteq> target_hash
       then Inl (''integrity check failed: source hash '' @ source_hash @ '' != target hash '' @ target_hash)
       else Inr ()))"

definition move_mismatch :: "string \<Rightarrow> string \<Rightarrow> string" where
  "move_mismatch source_hash target_hash =
     ''integrity check failed after move: source hash '' @ source_hash @ '' != target hash '' @ target_hash"

definition transfer_copy ::
    "fs_env \<Rightarrow> timestamp \<Rightarrow> job \<Rightarrow> fpath \<Rightarrow> fpath \<Rightarrow> fs \<Rightarrow> (string + fpath \<times> audit_status) \<times> fs" where
  "transfer_copy env now j source resolved fs =
     (case copy_file env now source resolved fs of
        Inl e \<Rightarrow> (Inl e, fs)
      | Inr fs1 \<Rightarrow>
          if verify_after_copy (options j)
          then (case verify_copy env source resolved fs1 of
                  Inl e \<Rightarrow> (Inl e, fs1) | Inr _ \<Rightarrow> (Inr (resolved, Copied), fs1))
          else (Inr (resolved, Copied), fs1))"

definition clear_target :: "job \<Rightarrow> fpath \<Rightarrow> fs \<Rightarrow> string + fs" where
  "clear_target j resolved fs =
     (if exists_at resolved fs \<and> conflict j = Overwrite
      then (if dir_at resolved fs then remove_dir_all resolved fs else remove_file resolved fs)
      else Inr fs)"

definition removed_or_same :: "fpath \<Rightarrow> fs \<Rightarrow> fs" where
  "removed_or_same p fs = (case remove_file p fs of Inl _ \<Rightarrow> fs | Inr fs' \<Rightarrow> fs')"

text \<open>\<open>source_hash\<close> is \<open>None\<close> when the move is not verified.\<close>

definition move_by_copy ::
    "fs_env \<Rightarrow> timestamp \<Rightarrow> fpath \<Rightarrow> fpath \<Rightarrow> string option \<Rightarrow> fs \<Rightarrow>
     (string + fpath \<times> audit_status) \<times> fs" where
  "move_by_copy env now source resolved source_hash fs =
     (case copy_file env now source resolved fs of
        Inl e \<Rightarrow> (Inl e, fs)
      | Inr fs1 \<Rightarrow>
          (let finish = (case remove_file source fs1 of
                 Inl e \<Rightarrow> (Inl e, fs1) | Inr fs2 \<Rightarrow> (Inr (resolved, Moved), fs2))
           in case source_hash of
                None \<Rightarrow> finish
              | Some expected \<Rightarrow>
                  (case file_hash env resolved fs1 of
                     Inl e \<Rightarrow> (Inl e, fs1)
                   | Inr target_hash \<Rightarrow>
                       if expected \<noteq> target_hash
                       then (Inl (move_mismatch expected target_hash), removed_or_same resolved fs1)
                       else finish)))"

definition transfer_move ::
    "fs_env \<Rightarrow> timestamp \<Rightarrow> job \<Rightarrow> fpath \<Rightarrow> fpath \<Rightarrow> fs \<Rightarrow> (string + fpath \<times> audit_status) \<times> fs" where
  "transfer_move env now j source resolved fs =
     (case (if verify_after_copy (options j) then map_sum id Some (file_hash env source fs) else Inr None) of
        Inl e \<Rightarrow> (Inl e, fs)
      | Inr source_hash \<Rightarrow>
          (case clear_target j resolved fs of
             Inl e \<Rightarrow> (Inl e, fs)
           | Inr fs1 \<Rightarrow>
               (case rename_path env source resolved fs1 of
                  Inl _ \<Rightarrow> move_by_copy env now source resolved source_hash fs1
                | Inr fs2 \<Rightarrow>
                    (case source_hash of
                       None \<Rightarrow> (Inr (resolved, Moved), fs2)
                     | Some expected \<Rightarrow>
                         (case file_hash env resolved fs2 of
                            Inl e \<Rightarrow> (Inl e, fs2)
                          | Inr target_hash \<Rightarrow>
                              if expected \<noteq> target_hash then (Inl (move_mismatch expected target_hash), fs2)
                              else (Inr (resolved, Moved), fs2))))))"

definition unchanged_target :: "fs_env \<Rightarrow> job \<Rightarrow> fpath \<Rightarrow> fpath \<Rightarrow> fs \<Rightarrow> string + bool" where
  "unchanged_target env j source planned fs =
     (if smart_sync (options j) \<and> exists_at planned fs
      then files_equal env source planned (strict_hash_sync (options j)) fs else Inr False)"

definition process_file ::
    "fs_env \<Rightarrow> timestamp \<Rightarrow> job \<Rightarrow> fpath \<Rightarrow> fpath \<Rightarrow> fpath \<Rightarrow> fs \<Rightarrow>
     (string + fpath \<times> audit_status) \<times> fs" where
  "process_file env now j source target_dir source_root fs =
     (if source = [] \<and> file_at source_root fs then (Inl ''invalid file name'', fs)
      else
        (let planned = target_in target_dir source_root source fs in
         case unchanged_target env j source planned fs of
           Inl e \<Rightarrow> (Inl e, fs)
         | Inr True \<Rightarrow> (Inr (planned, Ignored), fs)
         | Inr False \<Rightarrow>
             if source = [] then (Inl ''invalid file name'', fs)
             else
               (case resolve_target target_dir (last source) (conflict j) source_root source fs of
                  Inl e \<Rightarrow> (Inl e, fs)
                | Inr None \<Rightarrow> (Inr (planned, Ignored), fs)
                | Inr (Some resolved) \<Rightarrow>
                    (case (if resolved = [] then Inr fs else create_dir_all (butlast resolved) fs) of
                       Inl e \<Rightarrow> (Inl e, fs)
                     | Inr fs1 \<Rightarrow>
                         (case job_mode j of
                            Copy \<Rightarrow> transfer_copy env now j source resolved fs1
                          | Move \<Rightarrow> transfer_move env now j source resolved fs1)))))"

section \<open>The run\<close>

text \<open>
  \<open>rd_cancelled k\<close> is what the token says at moment \<open>k\<close>: of \<open>n\<close> files, moment \<open>i < n\<close> is before file \<open>i\<close>, \<open>n\<close> is
  before the package, \<open>n + 1\<close> at the success flag and \<open>n + 2\<close> at the detail. \<open>rd_append_error n\<close> is the error of the audit
  store when it holds \<open>n\<close> entries, \<open>rd_manifest_error\<close> that of the manifest store. \<open>rd_now\<close> is the clock
  of the start and of the files written, \<open>rd_end\<close> that of the end. The floating-point readings, progress
  and duration, are those of the host.
\<close>

record run_deps =
  rd_env :: fs_env
  rd_support :: support_env
  rd_store :: store_config
  rd_globs :: glob_lib
  rd_probe :: "fs \<Rightarrow> fs_probe"
  rd_data_dir :: fpath
  rd_now :: timestamp
  rd_end :: timestamp
  rd_cancelled :: "nat \<Rightarrow> bool"
  rd_append_error :: "nat \<Rightarrow> domain_error option"
  rd_keep_manifest :: bool
  rd_manifest_error :: "domain_error option"
  rd_manifest_id :: uuid
  rd_percent :: "nat \<Rightarrow> nat \<Rightarrow> f64"
  rd_duration :: "nat \<Rightarrow> f64"

text \<open>A manifest row of the SQLite store: the payload, the column \<open>rolled_back_at\<close> and \<open>created_at\<close>.\<close>

record manifest_row =
  mr_manifest :: rollback_manifest
  mr_rolled_back_at :: "timestamp option"
  mr_created_at :: timestamp

record world =
  w_fs :: fs
  w_jobs :: job_db
  w_audit :: "new_audit_entry list"
  w_manifests :: "manifest_row list"
  w_keyring :: keyring
  w_progress :: "execution_progress list"
  w_sent :: "notification list"
  w_completed :: "execution_completed list"

record run_state =
  rs_world :: world
  rs_recent_log :: "string list"
  rs_processed :: "32 word"
  rs_failed :: "32 word"
  rs_skipped :: "32 word"
  rs_aborted :: bool
  rs_rollback_items :: "rollback_item list"

fun status_label :: "audit_status \<Rightarrow> string" where
  "status_label Copied = ''COPIED''"
| "status_label Moved = ''MOVED''"
| "status_label Ignored = ''SKIPPED''"
| "status_label Failed = ''FAILED''"
| "status_label Organized = ''ORGANIZED''"
| "status_label RolledBack = ''ROLLED_BACK''"

definition audit_append :: "run_deps \<Rightarrow> new_audit_entry \<Rightarrow> world \<Rightarrow> (domain_error + unit) \<times> world" where
  "audit_append d entry w =
     (case rd_append_error d (length (w_audit w)) of
        Some e \<Rightarrow> (Inl e, w)
      | None \<Rightarrow> (Inr (), w\<lparr>w_audit := w_audit w @ [entry]\<rparr>))"

definition push_log :: "string \<Rightarrow> string list \<Rightarrow> string list" where
  "push_log line log = take 10 (line # log)"

datatype flow = Continue | Break | Abort domain_error

definition after_append :: "flow \<Rightarrow> run_deps \<Rightarrow> new_audit_entry \<Rightarrow> run_state \<Rightarrow> flow \<times> run_state" where
  "after_append next d entry st =
     (case audit_append d entry (rs_world st) of
        (Inl e, w) \<Rightarrow> (Abort e, st\<lparr>rs_world := w\<rparr>)
      | (Inr _, w) \<Rightarrow> (next, st\<lparr>rs_world := w\<rparr>))"

definition report_progress :: "run_deps \<Rightarrow> job \<Rightarrow> uuid \<Rightarrow> uuid \<Rightarrow> nat \<Rightarrow> nat \<Rightarrow> string \<Rightarrow> run_state \<Rightarrow> run_state" where
  "report_progress d j jid eid n_files index name st =
     st\<lparr>rs_world := rs_world st\<lparr>w_progress := w_progress (rs_world st) @
          [\<lparr>ep_execution_id = eid, ep_job_id = jid, ep_job_name = job_name j, ep_current_file = name,
            ep_percent = rd_percent d index n_files, ep_bytes_per_sec = 0,
            ep_recent_log = rs_recent_log st\<rparr>]\<rparr>\<rparr>"

definition count_failure :: "string \<Rightarrow> run_state \<Rightarrow> run_state" where
  "count_failure name st =
     st\<lparr>rs_failed := rs_failed st + 1, rs_recent_log := push_log (''FALHA '' @ name) (rs_recent_log st)\<rparr>"

definition item_of :: "fs_env \<Rightarrow> job_mode \<Rightarrow> fpath \<Rightarrow> fpath \<Rightarrow> audit_status \<Rightarrow> fs \<Rightarrow> rollback_item" where
  "item_of env m file target status fs =
     \<lparr>ri_source_path = file, ri_target_path = target, ri_mode = m, ri_status = status,
      ri_target_hash = (if status = Copied \<or> status = Moved
        then (case file_hash env target fs of Inl _ \<Rightarrow> None | Inr h \<Rightarrow> Some h) else None),
      ri_is_directory = dir_at file fs\<rparr>"

definition record_done ::
    "run_deps \<Rightarrow> job \<Rightarrow> uuid \<Rightarrow> fpath \<Rightarrow> string \<Rightarrow> nat \<Rightarrow> fpath \<Rightarrow> audit_status \<Rightarrow> run_state \<Rightarrow> flow \<times> run_state" where
  "record_done d j jid file name index target status st =
     (let fs = w_fs (rs_world st);
          item = item_of (rd_env d) (job_mode j) file target status fs;
          counted = (if status = Ignored then st\<lparr>rs_skipped := rs_skipped st + 1\<rparr>
                     else st\<lparr>rs_processed := rs_processed st + 1\<rparr>)
      in after_append Continue d
           \<lparr>ne_job_id = Some jid, ne_blueprint_id = None, ne_job_name = job_name j,
            ne_source_path = abs_path file, ne_target_path = abs_path target, ne_status = status,
            ne_file_size = (case metadata_len file fs of Inl _ \<Rightarrow> 0 | Inr n \<Rightarrow> int n),
            ne_duration_ms = rd_duration d index, ne_details = None\<rparr>
           (counted\<lparr>rs_rollback_items := rs_rollback_items st @ [item],
                    rs_recent_log := push_log (name @ '' -> '' @ status_label status) (rs_recent_log st)\<rparr>))"

definition record_failed ::
    "run_deps \<Rightarrow> job \<Rightarrow> uuid \<Rightarrow> fpath \<Rightarrow> string \<Rightarrow> nat \<Rightarrow> fpath \<Rightarrow> string \<Rightarrow> run_state \<Rightarrow> flow \<times> run_state" where
  "record_failed d j jid file name index target_dir details st =
     (case after_append Continue d
         \<lparr>ne_job_id = Some jid, ne_blueprint_id = None, ne_job_name = job_name j,
          ne_source_path = abs_path file, ne_target_path = abs_path target_dir, ne_status = Failed,
          ne_file_size = 0, ne_duration_ms = rd_duration d index, ne_details = Some details\<rparr>
         (count_failure name st) of
        (Continue, st') \<Rightarrow>
          if stop_on_integrity_error (options j) then (Break, st'\<lparr>rs_aborted := True\<rparr>) else (Continue, st')
      | other \<Rightarrow> other)"

definition display_name :: "fpath \<Rightarrow> string" where
  "display_name p = (if p = [] then ''file'' else last p)"

definition step_file ::
    "run_deps \<Rightarrow> job \<Rightarrow> uuid \<Rightarrow> uuid \<Rightarrow> fpath \<Rightarrow> nat \<Rightarrow> nat \<Rightarrow> fpath \<Rightarrow> run_state \<Rightarrow> flow \<times> run_state" where
  "step_file d j jid eid source n_files index file st =
     (if rd_cancelled d index then (Break, st)
      else
        (let name = display_name file;
             st1 = report_progress d j jid eid n_files index name st;
             target_dir = parse_path (target_path j)
         in if \<not> is_path_under_root (st_canon (rd_store d)) (abs_path file) (abs_path source)
            then (Continue, count_failure name st1)
            else
              (case process_file (rd_env d) (rd_now d) j file target_dir source (w_fs (rs_world st1)) of
                 (result, fs') \<Rightarrow>
                   (let st2 = st1\<lparr>rs_world := rs_world st1\<lparr>w_fs := fs'\<rparr>\<rparr> in
                    case result of
                      Inr (target, status) \<Rightarrow> record_done d j jid file name index target status st2
                    | Inl details \<Rightarrow> record_failed d j jid file name index target_dir details st2))))"

fun run_files ::
    "run_deps \<Rightarrow> job \<Rightarrow> uuid \<Rightarrow> uuid \<Rightarrow> fpath \<Rightarrow> nat \<Rightarrow> nat \<Rightarrow> fpath list \<Rightarrow> run_state \<Rightarrow>
     (domain_error + unit) \<times> run_state" where
  "run_files d j jid eid source n_files index [] st = (Inr (), st)"
| "run_files d j jid eid source n_files index (file # files) st =
     (case step_file d j jid eid source n_files index file st of
        (Continue, st') \<Rightarrow> run_files d j jid eid source n_files (Suc index) files st'
      | (Break, st') \<Rightarrow> (Inr (), st')
      | (Abort e, st') \<Rightarrow> (Inl e, st'))"

text \<open>The post-script's own failure is ignored; a bad exit is a warning in the log and the audit.\<close>

definition after_post_script :: "run_deps \<Rightarrow> job \<Rightarrow> uuid \<Rightarrow> run_state \<Rightarrow> (domain_error + unit) \<times> run_state" where
  "after_post_script d j jid st =
     (case run_post_script (rd_support d) (rd_data_dir d) j (w_fs (rs_world st)) of
        (result, fs') \<Rightarrow>
          (let st1 = st\<lparr>rs_world := rs_world st\<lparr>w_fs := fs'\<rparr>\<rparr> in
           case result of
             Inr (Some r) \<Rightarrow>
               if script_failed r
               then
                 (let warning = (if sr_timed_out r then sr_stderr r
                        else ''post-script exit '' @ debug_exit (sr_exit_code r) @ '': '' @ trim (sr_stderr r));
                      st2 = st1\<lparr>rs_recent_log := (''WARN post-script: '' @ warning) # rs_recent_log st1\<rparr>
                  in case audit_append d
                      \<lparr>ne_job_id = Some jid, ne_blueprint_id = None, ne_job_name = job_name j,
                       ne_source_path = source_path j, ne_target_path = target_path j, ne_status = Failed,
                       ne_file_size = 0, ne_duration_ms = 0, ne_details = Some warning\<rparr> (rs_world st2) of
                       (r', w) \<Rightarrow> (r', st2\<lparr>rs_world := w\<rparr>))
               else (Inr (), st1)
           | _ \<Rightarrow> (Inr (), st1)))"

definition encrypt_package :: "run_deps \<Rightarrow> job \<Rightarrow> world \<Rightarrow> (domain_error + unit) \<times> world" where
  "encrypt_package d j w =
     (case resolve_encrypt_password (job_id j) (encrypt_password (options j))
             (remember_encrypt_password (options j)) (w_keyring w) of
        (Inl e, ring) \<Rightarrow> (Inl e, w\<lparr>w_keyring := ring\<rparr>)
      | (Inr password, ring) \<Rightarrow>
          (let target_dir = parse_path (target_path j);
               pack_path = resolve_pack_path target_dir (pack_filename (options j))
           in case create_encrypted_package (rd_env d) (rd_support d) (rd_now d) target_dir pack_path password (w_fs w) of
                (Inl e, fs) \<Rightarrow> (Inl e, w\<lparr>w_keyring := ring, w_fs := fs\<rparr>)
              | (Inr _, fs) \<Rightarrow>
                  if remove_files_after_pack (options j)
                  then (case remove_files_in_dir_except (rd_env d) target_dir (Some pack_path) fs of
                          (r, fs') \<Rightarrow> (r, w\<lparr>w_keyring := ring, w_fs := fs'\<rparr>))
                  else (Inr (), w\<lparr>w_keyring := ring, w_fs := fs\<rparr>)))"

definition reschedule :: "tz_lib \<Rightarrow> timestamp \<Rightarrow> job \<Rightarrow> job" where
  "reschedule tz now j =
     (let j1 = j\<lparr>last_run := Some now\<rparr> in
      case schedule j1 of
        Some sc \<Rightarrow> if sc_enabled sc then j1\<lparr>next_run_at := compute_next_run tz now sc\<rparr> else j1
      | None \<Rightarrow> j1)"

definition manifest_save :: "run_deps \<Rightarrow> rollback_manifest \<Rightarrow> manifest_row list \<Rightarrow> domain_error + manifest_row list" where
  "manifest_save d m rows =
     (case rd_manifest_error d of
        Some e \<Rightarrow> Inl e
      | None \<Rightarrow>
          if list_ex (\<lambda>r. rm_id (mr_manifest r) = rm_id m) rows then Inl (DatabaseError ''UNIQUE constraint failed'')
          else Inr (rows @ [\<lparr>mr_manifest = m, mr_rolled_back_at = rm_rolled_back_at m, mr_created_at = rd_end d\<rparr>]))"

definition keep_manifest :: "run_deps \<Rightarrow> uuid \<Rightarrow> uuid \<Rightarrow> rollback_item list \<Rightarrow> world \<Rightarrow> world" where
  "keep_manifest d jid eid items w =
     (if rd_keep_manifest d \<and> items \<noteq> []
      then (case manifest_save d (manifest_new (rd_manifest_id d) (rd_end d) jid eid items) (w_manifests w) of
              Inl _ \<Rightarrow> w | Inr rows \<Rightarrow> w\<lparr>w_manifests := rows\<rparr>)
      else w)"

definition outcome_detail :: "bool \<Rightarrow> run_state \<Rightarrow> string option" where
  "outcome_detail stopped st =
     (if stopped then Some ''cancelled''
      else if rs_aborted st then Some ''aborted on integrity error''
      else if rs_failed st > 0
      then Some (show_nat (unat (rs_failed st)) @ '' file(s) failed, '' @
                 show_nat (unat (rs_skipped st)) @ '' skipped'')
      else if rs_skipped st > 0
      then Some (show_nat (unat (rs_processed st)) @ '' processed, '' @
                 show_nat (unat (rs_skipped st)) @ '' skipped'')
      else None)"

text \<open>What follows the package: the job is saved, the manifest kept, and the end reported.\<close>

definition finish_run :: "run_deps \<Rightarrow> job \<Rightarrow> uuid \<Rightarrow> uuid \<Rightarrow> nat \<Rightarrow> run_state \<Rightarrow> (domain_error + unit) \<times> world" where
  "finish_run d j jid eid n_files st =
     (let w = rs_world st; j' = reschedule (st_tz (rd_store d)) (rd_end d) j in
      case store_save (rd_store d) (rd_end d) j' (w_jobs w) of
        Inl e \<Rightarrow> (Inl e, w)
      | Inr db \<Rightarrow>
          (let w1 = keep_manifest d jid eid (rs_rollback_items st) (w\<lparr>w_jobs := db\<rparr>);
               success = (rs_failed st = 0 \<and> \<not> rd_cancelled d (n_files + 1) \<and> \<not> rs_aborted st);
               detail = outcome_detail (rd_cancelled d (n_files + 2)) st
           in (Inr (), w1\<lparr>
                w_sent := fire_notify_event j' (if success then CompletedEvent else FailedEvent) detail (w_sent w1),
                w_completed := w_completed w1 @
                  [\<lparr>ec_execution_id = eid, ec_job_id = jid, ec_success = success, ec_processed = rs_processed st,
                    ec_failed = rs_failed st, ec_error_message = detail\<rparr>]\<rparr>)))"

definition run_collected ::
    "run_deps \<Rightarrow> job \<Rightarrow> uuid \<Rightarrow> uuid \<Rightarrow> fpath list \<Rightarrow> world \<Rightarrow> (domain_error + unit) \<times> world" where
  "run_collected d j jid eid files w =
     (case run_files d j jid eid (parse_path (source_path j)) (max 1 (length files)) 0 files
          \<lparr>rs_world = w, rs_recent_log = [], rs_processed = 0, rs_failed = 0, rs_skipped = 0,
           rs_aborted = False, rs_rollback_items = []\<rparr> of
        (Inl e, st) \<Rightarrow> (Inl e, rs_world st)
      | (Inr _, st) \<Rightarrow>
          (case after_post_script d j jid st of
             (Inl e, st1) \<Rightarrow> (Inl e, rs_world st1)
           | (Inr _, st1) \<Rightarrow>
               if encrypt_output (options j) \<and> \<not> rd_cancelled d (length files) \<and> rs_failed st1 = 0
               then (case encrypt_package d j (rs_world st1) of
                       (Inl e, w') \<Rightarrow> (Inl e, w')
                     | (Inr _, w') \<Rightarrow> finish_run d j jid eid (length files) (st1\<lparr>rs_world := w'\<rparr>))
               else finish_run d j jid eid (length files) st1))"

definition run_job :: "run_deps \<Rightarrow> uuid \<Rightarrow> uuid \<Rightarrow> world \<Rightarrow> (domain_error + unit) \<times> world" where
  "run_job d jid eid w =
     (case store_get (rd_store d) (rd_now d) jid (w_jobs w) of
        Inl e \<Rightarrow> (Inl e, w)
      | Inr stored \<Rightarrow>
          (let j = normalize (st_tz (rd_store d)) (rd_now d) stored in
           if \<not> job_enabled j then (Inl JobDisabled, w)
           else if \<not> exists_at (parse_path (source_path j)) (w_fs w) then (Inl (SourceNotFound (source_path j)), w)
           else
             (case create_dir_all (parse_path (target_path j)) (w_fs w) of
                Inl e \<Rightarrow> (Inl (DatabaseError e), w)
              | Inr fs1 \<Rightarrow>
                  (let w1 = w\<lparr>w_fs := fs1, w_sent := fire_notify_event j Started None (w_sent w)\<rparr> in
                   case run_pre_script (rd_support d) (rd_data_dir d) j fs1 of
                     (Inl e, fs2) \<Rightarrow>
                       (Inl e, w1\<lparr>w_fs := fs2,
                                  w_sent := fire_notify_event j FailedEvent (Some (error_text e)) (w_sent w1)\<rparr>)
                   | (Inr _, fs2) \<Rightarrow>
                       (case collect_files (st_rx (rd_store d)) (rd_globs d) (rd_probe d fs2) (rd_now d) j of
                          Inl e \<Rightarrow> (Inl (DatabaseError e), w1\<lparr>w_fs := fs2\<rparr>)
                        | Inr files \<Rightarrow> run_collected d j jid eid (map parse_path files) (w1\<lparr>w_fs := fs2\<rparr>))))))"

section \<open>Lemmas: one file\<close>

text \<open>A device that copies faithfully and a tree on one device.\<close>

definition reliable :: "fs_env \<Rightarrow> bool" where
  "reliable env \<longleftrightarrow> (\<forall>a b c. fs_same_device env a b \<and> fs_copied env a b c = c)"

lemma first_free_Some:
  "first_free parent stem ext fs is = Some t \<Longrightarrow> fs t = None \<and> butlast t = parent \<and> t \<noteq> []"
  by (induction "is") (auto simp: Let_def exists_at_def split: if_splits)

lemma target_in_cases:
  assumes "source \<noteq> []"
  shows "(\<exists>rel. rel \<noteq> [] \<and> target_in target_dir source_root source fs = target_dir @ rel) \<or>
    target_in target_dir source_root source fs = target_dir \<and> source = source_root \<and> \<not> file_at source fs"
proof (cases "source = source_root")
  case True
  then show ?thesis using assms by (simp add: target_in_def)
next
  case False
  then show ?thesis using assms by (cases "prefix source_root source") (auto simp: target_in_def prefix_def)
qed

text \<open>Every directory above a resolved target is above the target directory, or below it.\<close>

lemma resolve_target_fresh:
  assumes "resolve_target target_dir name strategy source_root source fs = Inr (Some t)"
    and "strategy \<noteq> Overwrite" "source \<noteq> []" "tree_ok fs"
  shows "fs t = None" "t \<noteq> []"
    and "prefix q (butlast t) \<Longrightarrow> prefix q target_dir \<or> strict_prefix target_dir q"
    and "file_at source fs \<Longrightarrow> strict_prefix target_dir t"
proof -
  let ?c = "target_in target_dir source_root source fs"
  have fresh: "fs t = None \<and> (t = ?c \<or> butlast t = (if ?c = [] then target_dir else butlast ?c)) \<and> t \<noteq> []"
  proof (cases "exists_at ?c fs")
    case False
    moreover have "fs [] = Some Dir" using assms(4) by (simp add: tree_ok_def)
    ultimately show ?thesis using assms(1) by (auto simp: resolve_target_def exists_at_def)
  next
    case True
    with assms(1,2) show ?thesis
      by (cases strategy) (auto simp: resolve_target_def Let_def dest!: first_free_Some split: option.splits if_splits)
  qed
  then show "fs t = None" "t \<noteq> []" by auto
  have "butlast t = butlast ?c \<or> (?c = [] \<and> butlast t = target_dir)" using fresh by (auto split: if_splits)
  then have above: "prefix (butlast t) (butlast ?c) \<or> butlast t = target_dir" by auto
  from target_in_cases [OF assms(3)]
  consider (below) rel where "rel \<noteq> []" "?c = target_dir @ rel"
    | (same) "?c = target_dir" "\<not> file_at source fs" by blast
  note cand = this
  show "prefix q target_dir \<or> strict_prefix target_dir q" if q: "prefix q (butlast t)"
  proof (rule cand)
    fix rel
    assume "rel \<noteq> []" "?c = target_dir @ rel"
    then have "prefix q (target_dir @ rel)"
      using q above by (metis prefix_def prefix_order.trans prefixeq_butlast)
    then show ?thesis by (metis prefix_append prefix_order.le_less prefixI)
  next
    assume "?c = target_dir"
    then show ?thesis using q above by (metis prefix_order.trans prefixeq_butlast)
  qed
  show "strict_prefix target_dir t" if "file_at source fs"
  proof (rule cand)
    fix rel
    assume rel: "rel \<noteq> []" "?c = target_dir @ rel"
    then have "t = target_dir @ rel \<or> butlast t = target_dir @ butlast rel"
      using fresh by (auto simp: butlast_append)
    then have "\<exists>r. r \<noteq> [] \<and> t = target_dir @ r"
      using rel fresh by (metis append_butlast_last_id append_assoc snoc_eq_iff_butlast)
    then show ?thesis by (auto simp: strict_prefix_def)
  qed (use that in simp)
qed

lemma transfer_copy_eq:
  assumes "reliable env" "fs t = None" "parent_dir t fs" "source \<noteq> t"
  shows "fs source = Some (File c m) \<Longrightarrow> transfer_copy env now j source t fs = (Inr (t, Copied), fs(t \<mapsto> File c now))"
    and "\<not> file_at source fs \<Longrightarrow> \<exists>e. transfer_copy env now j source t fs = (Inl e, fs)"
  using assms
  by (auto simp: transfer_copy_def copy_file_def reliable_def dir_at_def verify_copy_def file_hash_def
      file_at_def Let_def split: option.splits node.splits)

lemma transfer_move_eq:
  assumes "reliable env" "fs t = None" "parent_dir t fs" "source \<noteq> t" "conflict j \<noteq> Overwrite"
  shows "fs source = Some (File c m) \<Longrightarrow>
      transfer_move env now j source t fs = (Inr (t, Moved), fs(source := None, t \<mapsto> File c m))"
    and "fs source = None \<Longrightarrow> \<exists>e. transfer_move env now j source t fs = (Inl e, fs)"
  using assms
  by (auto simp: transfer_move_def move_by_copy_def clear_target_def exists_at_def rename_path_def copy_file_def
      reliable_def dir_at_def file_hash_def split: option.splits node.splits)

text \<open>What a step may do to the directories: those that appear satisfy \<open>P\<close>.\<close>

definition dirs_grow :: "(fpath \<Rightarrow> bool) \<Rightarrow> fs \<Rightarrow> fs \<Rightarrow> bool" where
  "dirs_grow P fs fs' \<longleftrightarrow> tree_ok fs \<and> tree_ok fs' \<and>
     (\<forall>p. fs p = Some Dir \<longrightarrow> fs' p = Some Dir) \<and>
     (\<forall>p. fs' p = Some Dir \<longrightarrow> fs p = Some Dir \<or> P p)"

text \<open>What a step does to the files, by its result.\<close>

fun file_effect :: "fs_env \<Rightarrow> timestamp \<Rightarrow> fpath \<Rightarrow> fpath \<Rightarrow> string + fpath \<times> audit_status \<Rightarrow> fs \<Rightarrow> fs \<Rightarrow> bool" where
  "file_effect env now target_dir source (Inr (t, Copied)) fs fs' =
     (\<exists>c m. fs source = Some (File c m) \<and> strict_prefix target_dir t \<and> fs t = None \<and>
        fs' t = Some (File c now) \<and> file_view fs' = (file_view fs)(t \<mapsto> File c now))"
| "file_effect env now target_dir source (Inr (t, Moved)) fs fs' =
     (\<exists>c m. fs source = Some (File c m) \<and> strict_prefix target_dir t \<and> fs t = None \<and>
        fs' t = Some (File c m) \<and> file_view fs' = (file_view fs)(source := None, t \<mapsto> File c m))"
| "file_effect env now target_dir source (Inr (t, Ignored)) fs fs' = (fs' = fs)"
| "file_effect env now target_dir source (Inr (t, _)) fs fs' = False"
| "file_effect env now target_dir source (Inl e) fs fs' = (file_view fs' = file_view fs)"

lemma dirs_grow_refl: "tree_ok fs \<Longrightarrow> dirs_grow P fs fs"
  by (simp add: dirs_grow_def)

lemma dirs_grow_trans:
  "dirs_grow P fs fs' \<Longrightarrow> dirs_grow P fs' fs'' \<Longrightarrow> dirs_grow P fs fs''"
  unfolding dirs_grow_def by blast

lemma create_parent_grows:
  assumes "create_dir_all (butlast t) fs = Inr fs1" "tree_ok fs" "fs target_dir = Some Dir"
    and "\<And>q. prefix q (butlast t) \<Longrightarrow> prefix q target_dir \<or> strict_prefix target_dir q"
  shows "dirs_grow (strict_prefix target_dir) fs fs1"
proof -
  have above: "fs p = Some Dir \<or> strict_prefix target_dir p" if "prefix p (butlast t)" for p
    using assms(4) [OF that] tree_ok_prefix [OF assms(2), of p target_dir] assms(3) by auto
  have "fs1 p = (if prefix p (butlast t) then Some Dir else fs p)" for p
    by (simp add: create_dir_all_eq(1) [OF assms(1)])
  with above assms(2) create_dir_all_tree [OF assms(2,1)] show ?thesis
    unfolding dirs_grow_def by (metis (no_types))
qed

lemma transfer_without_source:
  assumes "reliable env" "conflict j \<noteq> Overwrite" "fs source = None"
  shows "\<exists>e. transfer_copy env now j source t fs = (Inl e, fs)"
    and "\<exists>e. transfer_move env now j source t fs = (Inl e, fs)"
  using assms
  by (simp_all add: transfer_copy_def copy_file_def transfer_move_def clear_target_def rename_path_def
      move_by_copy_def file_hash_def reliable_def)

lemma process_file_effect:
  assumes "process_file env now j source target_dir source_root fs = (r, fs')"
    and "reliable env" "conflict j \<noteq> Overwrite" "tree_ok fs" "fs target_dir = Some Dir"
    and src: "fs source \<noteq> Some Dir" "\<not> prefix target_dir source"
  shows "dirs_grow (strict_prefix target_dir) fs fs' \<and> file_effect env now target_dir source r fs fs'"
proof -
  have "source \<noteq> []" using src(1) assms(4) by (auto simp: tree_ok_def)
  let ?planned = "target_in target_dir source_root source fs"
  consider (untouched) "fs' = fs" "(\<exists>e. r = Inl e) \<or> r = Inr (?planned, Ignored)"
    | (blocked) t e where "create_dir_all (butlast t) fs = Inl e" "r = Inl e" "fs' = fs"
    | (transfer) t fs1 where
        "resolve_target target_dir (last source) (conflict j) source_root source fs = Inr (Some t)"
        "create_dir_all (butlast t) fs = Inr fs1"
        "(case job_mode j of Copy \<Rightarrow> transfer_copy env now j source t fs1
          | Move \<Rightarrow> transfer_move env now j source t fs1) = (r, fs')"
    using assms(1) \<open>source \<noteq> []\<close> resolve_target_fresh(2) [OF _ assms(3) \<open>source \<noteq> []\<close> assms(4)]
    by (auto simp: process_file_def Let_def split: sum.splits option.splits bool.splits if_splits)
  then show ?thesis
  proof cases
    case transfer
    note fresh = resolve_target_fresh [OF transfer(1) assms(3) \<open>source \<noteq> []\<close> assms(4)]
    have grow: "dirs_grow (strict_prefix target_dir) fs fs1"
      by (rule create_parent_grows [OF transfer(2) assms(4,5) fresh(3)])
    note view = create_dir_all_view [OF transfer(2)]
    have "\<not> prefix t (butlast t)"
      using fresh(2) by (metis append_butlast_last_id append_self_conv list.distinct(1) prefixI prefix_order.eq_iff)
    then have t1: "fs1 t = None" using fresh(1) by (simp add: create_dir_all_eq(1) [OF transfer(2)])
    have parent: "parent_dir t fs1"
      using create_dir_all_dir [OF transfer(2)] fresh(2) by (simp add: parent_dir_def dir_at_def)
    have tree: "tree_ok fs1" using grow by (simp add: dirs_grow_def)
    have "fs1 source \<noteq> Some Dir" using grow src by (auto simp: dirs_grow_def strict_prefix_def)
    with src(1) have same: "fs1 source = fs source"
      using view by (metis view_not_dir)
    show ?thesis
    proof (cases "fs source")
      case None
      then have "source \<noteq> t \<or> source = t" "fs1 source = None" using same by simp_all
      then have "fs' = fs1 \<and> (\<exists>e. r = Inl e)"
        using transfer(3) transfer_without_source [of env j fs1 source now t, OF assms(2,3) \<open>fs1 source = None\<close>]
        by (cases "job_mode j") auto
      with grow view show ?thesis by auto
    next
      case (Some node)
      then obtain c m where orig: "fs source = Some (File c m)" using src(1) by (cases node) auto
      then have "source \<noteq> t" using fresh(1) by auto
      have below: "strict_prefix target_dir t" using fresh(4) orig by (simp add: file_at_iff)
      have orig1: "fs1 source = Some (File c m)" using orig same by simp
      have added: "tree_ok (fs1(t \<mapsto> File c k))" for k using tree_ok_add [OF tree parent] t1 by simp
      show ?thesis
      proof (cases "job_mode j")
        case Copy
        with transfer(3) transfer_copy_eq(1) [OF assms(2) t1 parent \<open>source \<noteq> t\<close> orig1]
        have "r = Inr (t, Copied)" "fs' = fs1(t \<mapsto> File c now)" by auto
        moreover have "dirs_grow (strict_prefix target_dir) fs1 (fs1(t \<mapsto> File c now))"
          using tree added t1 by (auto simp: dirs_grow_def)
        ultimately show ?thesis
          using dirs_grow_trans [OF grow] orig below fresh(1) by (simp add: file_view_upd view)
      next
        case Move
        with transfer(3) transfer_move_eq(1) [OF assms(2) t1 parent \<open>source \<noteq> t\<close> assms(3) orig1]
        have r: "r = Inr (t, Moved)" "fs' = fs1(source := None, t \<mapsto> File c m)" by auto
        have "fs' = (fs1(t \<mapsto> File c m))(source := None)" using r(2) \<open>source \<noteq> t\<close> by (simp add: fun_upd_twist)
        moreover have "tree_ok ((fs1(t \<mapsto> File c m))(source := None))"
          using added orig1 \<open>source \<noteq> t\<close> by (intro tree_ok_remove) (simp_all add: file_at_iff)
        ultimately have "dirs_grow (strict_prefix target_dir) fs1 fs'"
          using tree t1 orig1 by (auto simp: dirs_grow_def)
        then show ?thesis
          using dirs_grow_trans [OF grow] r orig below fresh(1) by (simp add: file_view_upd view)
      qed
    qed
  qed (use assms(4) in \<open>auto simp: dirs_grow_refl\<close>)
qed

section \<open>Lemmas: the run\<close>

text \<open>
  The trace a manifest is of the run that wrote it: one step of the file system per item. \<open>places\<close> says
  where directories may appear, where targets may lie and which files may move.
\<close>

record places =
  new_dir :: "fpath \<Rightarrow> bool"
  target_ok :: "fpath \<Rightarrow> bool"
  source_ok :: "fpath \<Rightarrow> bool"

definition item_step :: "fs_env \<Rightarrow> places \<Rightarrow> rollback_item \<Rightarrow> fs \<Rightarrow> fs \<Rightarrow> bool" where
  "item_step env pl it fs fs' \<longleftrightarrow>
     dirs_grow (new_dir pl) fs fs' \<and>
     (let source = ri_source_path it; t = ri_target_path it in
      case ri_status it of
        Copied \<Rightarrow> \<exists>c m. target_ok pl t \<and> file_view fs t = None \<and> \<not> ri_is_directory it \<and>
          file_view fs' = (file_view fs)(t \<mapsto> File c m) \<and> ri_target_hash it = Some (fs_hash env c)
      | Moved \<Rightarrow> \<exists>c m. target_ok pl t \<and> file_view fs t = None \<and>
          source_ok pl source \<and> fs source = Some (File c m) \<and>
          file_view fs' = (file_view fs)(source := None, t \<mapsto> File c m) \<and>
          ri_target_hash it = Some (fs_hash env c)
      | Ignored \<Rightarrow> file_view fs' = file_view fs
      | _ \<Rightarrow> False)"

fun trail :: "fs_env \<Rightarrow> places \<Rightarrow> rollback_item list \<Rightarrow> fs \<Rightarrow> fs \<Rightarrow> bool" where
  "trail env pl [] fs fs' \<longleftrightarrow> dirs_grow (new_dir pl) fs fs' \<and> file_view fs' = file_view fs"
| "trail env pl (it # its) fs fs'' \<longleftrightarrow>
     (\<exists>fs'. item_step env pl it fs fs' \<and> trail env pl its fs' fs'')"

text \<open>A job's run: directories and targets below the target directory, files from outside it.\<close>

abbreviation job_places :: "fpath \<Rightarrow> places" where
  "job_places target_dir \<equiv>
     \<lparr>new_dir = strict_prefix target_dir, target_ok = strict_prefix target_dir,
      source_ok = (\<lambda>s. \<not> prefix target_dir s)\<rparr>"

lemma trail_prepend:
  assumes "dirs_grow (new_dir pl) fs fs1" "file_view fs1 = file_view fs" "trail env pl its fs1 fs'"
  shows "trail env pl its fs fs'"
proof (cases its)
  case Nil
  with assms show ?thesis by (auto intro: dirs_grow_trans)
next
  case (Cons it rest)
  with assms(3) obtain fs2 where it: "item_step env pl it fs1 fs2" and rest: "trail env pl rest fs2 fs'"
    by auto
  have "fs p = Some (File c m)" if "fs1 p = Some (File c m)" for p c m
    using that assms(2) by (metis file_view_File file_view_eq_Some)
  with it assms(1,2) have "item_step env pl it fs fs2"
    by (auto simp: item_step_def Let_def intro: dirs_grow_trans split: audit_status.splits)
  with rest Cons show ?thesis by auto
qed

lemma after_append_frame:
  "after_append f d e st = (f', st') \<Longrightarrow>
   w_fs (rs_world st') = w_fs (rs_world st) \<and> rs_rollback_items st' = rs_rollback_items st \<and>
   w_manifests (rs_world st') = w_manifests (rs_world st) \<and> w_jobs (rs_world st') = w_jobs (rs_world st)"
  by (auto simp: after_append_def audit_append_def split: option.splits)

lemma record_failed_frame:
  "record_failed d j jid p name index tdir details st = (f, st') \<Longrightarrow>
   w_fs (rs_world st') = w_fs (rs_world st) \<and> rs_rollback_items st' = rs_rollback_items st \<and>
   w_manifests (rs_world st') = w_manifests (rs_world st) \<and> w_jobs (rs_world st') = w_jobs (rs_world st)"
  by (auto simp: record_failed_def count_failure_def dest!: after_append_frame split: prod.splits flow.splits if_splits)

lemma record_done_frame:
  assumes "record_done d j jid p name index t status st = (f, st')"
  shows "w_fs (rs_world st') = w_fs (rs_world st) \<and> w_manifests (rs_world st') = w_manifests (rs_world st) \<and>
    w_jobs (rs_world st') = w_jobs (rs_world st) \<and>
    rs_rollback_items st' = rs_rollback_items st @
      [item_of (rd_env d) (job_mode j) p t status (w_fs (rs_world st))]"
  using assms by (auto simp: record_done_def Let_def dest!: after_append_frame split: if_splits)

lemma file_effect_item:
  assumes "file_effect env now target_dir p (Inr (t, status)) fs fs'" "dirs_grow (strict_prefix target_dir) fs fs'"
    and "fs p \<noteq> Some Dir" "\<not> prefix target_dir p"
  shows "item_step env (job_places target_dir) (item_of env m p t status fs') fs fs'"
proof -
  have "fs' p \<noteq> Some Dir" using assms(2-4) by (auto simp: dirs_grow_def strict_prefix_def)
  then have "\<not> dir_at p fs'" by (simp add: dir_at_def)
  with assms(1,2,4) show ?thesis
    by (cases status) (auto simp: item_step_def item_of_def file_hash_def file_view_None)
qed

text \<open>What the rollback lemmas assume of the files of a run.\<close>

definition outside :: "fpath \<Rightarrow> fs \<Rightarrow> fpath \<Rightarrow> bool" where
  "outside target_dir fs p \<longleftrightarrow> fs p \<noteq> Some Dir \<and> \<not> prefix target_dir p"

lemma outside_grows: "dirs_grow (strict_prefix target_dir) fs fs' \<Longrightarrow> outside target_dir fs p \<Longrightarrow> outside target_dir fs' p"
  by (auto simp: outside_def dirs_grow_def strict_prefix_def)

lemma step_file_effect:
  assumes "step_file d j jid eid root n_files index p st = (f, st')"
    and "reliable (rd_env d)" "conflict j \<noteq> Overwrite" "tree_ok (w_fs (rs_world st))"
    and "w_fs (rs_world st) (parse_path (target_path j)) = Some Dir"
    and "outside (parse_path (target_path j)) (w_fs (rs_world st)) p"
  shows "dirs_grow (strict_prefix (parse_path (target_path j))) (w_fs (rs_world st)) (w_fs (rs_world st')) \<and>
    w_manifests (rs_world st') = w_manifests (rs_world st) \<and> w_jobs (rs_world st') = w_jobs (rs_world st) \<and>
    (rs_rollback_items st' = rs_rollback_items st \<and> file_view (w_fs (rs_world st')) = file_view (w_fs (rs_world st)) \<or>
     (\<exists>it. rs_rollback_items st' = rs_rollback_items st @ [it] \<and>
        item_step (rd_env d) (job_places (parse_path (target_path j))) it (w_fs (rs_world st)) (w_fs (rs_world st'))))"
proof -
  let ?tdir = "parse_path (target_path j)"
  let ?fs = "w_fs (rs_world st)"
  obtain r fs' where p: "process_file (rd_env d) (rd_now d) j p ?tdir root ?fs = (r, fs')"
    by (cases "process_file (rd_env d) (rd_now d) j p ?tdir root ?fs") auto
  have out: "?fs p \<noteq> Some Dir" "\<not> prefix ?tdir p" using assms(6) by (simp_all add: outside_def)
  note effect = process_file_effect [OF p assms(2-5) out]
  define st1 where "st1 = (let st0 = report_progress d j jid eid n_files index (display_name p) st in
      st0\<lparr>rs_world := rs_world st0\<lparr>w_fs := fs'\<rparr>\<rparr>)"
  have st1: "w_fs (rs_world st1) = fs'" "rs_rollback_items st1 = rs_rollback_items st"
    "w_manifests (rs_world st1) = w_manifests (rs_world st)" "w_jobs (rs_world st1) = w_jobs (rs_world st)"
    by (simp_all add: st1_def report_progress_def Let_def)
  consider (same) "w_fs (rs_world st') = ?fs" "rs_rollback_items st' = rs_rollback_items st"
      "w_manifests (rs_world st') = w_manifests (rs_world st)" "w_jobs (rs_world st') = w_jobs (rs_world st)"
    | (failed) e where "r = Inl e" "record_failed d j jid p (display_name p) index ?tdir e st1 = (f, st')"
    | (ok) t status where "r = Inr (t, status)"
        "record_done d j jid p (display_name p) index t status st1 = (f, st')"
    using assms(1) p
    by (cases "rd_cancelled d index"; cases "is_path_under_root (st_canon (rd_store d)) (abs_path p) (abs_path root)"; cases r)
      (auto simp: step_file_def Let_def st1_def report_progress_def count_failure_def)
  then show ?thesis
  proof cases
    case same
    then show ?thesis using dirs_grow_refl [OF assms(4)] by simp
  next
    case failed
    then show ?thesis using effect record_failed_frame [OF failed(2)] st1 by simp
  next
    case ok
    have "file_effect (rd_env d) (rd_now d) ?tdir p (Inr (t, status)) ?fs fs'" "dirs_grow (strict_prefix ?tdir) ?fs fs'"
      using effect ok(1) by auto
    from file_effect_item [OF this out] show ?thesis
      using record_done_frame [OF ok(2)] st1 effect by simp
  qed
qed

lemma run_files_trail:
  assumes "run_files d j jid eid root n_files index ps st = (r, st')"
    and "reliable (rd_env d)" "conflict j \<noteq> Overwrite" "tree_ok (w_fs (rs_world st))"
    and "w_fs (rs_world st) (parse_path (target_path j)) = Some Dir"
    and "\<And>p. p \<in> set ps \<Longrightarrow> outside (parse_path (target_path j)) (w_fs (rs_world st)) p"
  shows "w_manifests (rs_world st') = w_manifests (rs_world st) \<and> w_jobs (rs_world st') = w_jobs (rs_world st) \<and>
    (\<exists>items. rs_rollback_items st' = rs_rollback_items st @ items \<and>
       trail (rd_env d) (job_places (parse_path (target_path j))) items (w_fs (rs_world st)) (w_fs (rs_world st')))"
  using assms
proof (induction ps arbitrary: st index)
  case Nil
  then show ?case by (auto simp: dirs_grow_refl)
next
  case (Cons p ps)
  let ?tdir = "parse_path (target_path j)"
  obtain f st1 where f: "step_file d j jid eid root n_files index p st = (f, st1)"
    by (cases "step_file d j jid eid root n_files index p st") auto
  have out: "outside ?tdir (w_fs (rs_world st)) p" by (rule Cons.prems(6)) simp
  note step = step_file_effect [OF f Cons.prems(2-5) out]
  have grow: "dirs_grow (strict_prefix ?tdir) (w_fs (rs_world st)) (w_fs (rs_world st1))" using step by blast
  then have grow': "dirs_grow (new_dir (job_places ?tdir)) (w_fs (rs_world st)) (w_fs (rs_world st1))" by simp
  have stop: ?case if "st' = st1"
  proof -
    have refl: "trail (rd_env d) (job_places ?tdir) [] (w_fs (rs_world st1)) (w_fs (rs_world st1))"
      using grow by (auto simp: dirs_grow_def)
    from step that show ?thesis
    proof (elim conjE disjE exE)
      assume "rs_rollback_items st1 = rs_rollback_items st"
        "file_view (w_fs (rs_world st1)) = file_view (w_fs (rs_world st))"
      then show ?thesis using that step trail_prepend [OF grow' _ refl] by auto
    next
      fix it
      assume "rs_rollback_items st1 = rs_rollback_items st @ [it]"
        "item_step (rd_env d) (job_places ?tdir) it (w_fs (rs_world st)) (w_fs (rs_world st1))"
      then show ?thesis using that step refl by (intro conjI exI [of _ "[it]"]) auto
    qed
  qed
  show ?case
  proof (cases f)
    case Continue
    then have rest: "run_files d j jid eid root n_files (Suc index) ps st1 = (r, st')"
      using Cons.prems(1) f by simp
    have "tree_ok (w_fs (rs_world st1))" "w_fs (rs_world st1) ?tdir = Some Dir"
      using grow Cons.prems(5) by (auto simp: dirs_grow_def)
    from Cons.IH [OF rest Cons.prems(2,3) this outside_grows [OF grow Cons.prems(6)]]
    obtain items where ih: "w_manifests (rs_world st') = w_manifests (rs_world st1)" "w_jobs (rs_world st') = w_jobs (rs_world st1)"
        "rs_rollback_items st' = rs_rollback_items st1 @ items"
        "trail (rd_env d) (job_places ?tdir) items (w_fs (rs_world st1)) (w_fs (rs_world st'))"
      by auto
    from step consider "rs_rollback_items st1 = rs_rollback_items st"
        "file_view (w_fs (rs_world st1)) = file_view (w_fs (rs_world st))"
      | it where "rs_rollback_items st1 = rs_rollback_items st @ [it]"
        "item_step (rd_env d) (job_places ?tdir) it (w_fs (rs_world st)) (w_fs (rs_world st1))"
      by blast
    then show ?thesis
    proof cases
      case 1
      with ih step trail_prepend [OF grow' 1(2) ih(4)] show ?thesis by auto
    next
      case 2
      with ih step show ?thesis by (intro conjI exI [of _ "it # items"]) auto
    qed
  qed (use Cons.prems(1) f stop in auto)
qed

section \<open>Lemmas: counting\<close>

definition tally :: "run_state \<Rightarrow> 32 word" where
  "tally st = rs_processed st + rs_failed st + rs_skipped st"

definition reports :: "run_state \<Rightarrow> nat" where
  "reports st = length (w_progress (rs_world st))"

lemma after_append_counts:
  "after_append f d e st = (f', st') \<Longrightarrow>
   tally st' = tally st \<and> reports st' = reports st \<and> rs_recent_log st' = rs_recent_log st"
  by (auto simp: after_append_def audit_append_def tally_def reports_def split: option.splits)

lemma count_failure_counts:
  "tally (count_failure name st) = tally st + 1 \<and> reports (count_failure name st) = reports st \<and>
   length (rs_recent_log (count_failure name st)) \<le> 10"
  by (simp add: count_failure_def push_log_def tally_def reports_def)

lemma record_failed_counts:
  "record_failed d j jid p name index tdir details st = (f, st') \<Longrightarrow>
   tally st' = tally st + 1 \<and> reports st' = reports st \<and> length (rs_recent_log st') \<le> 10"
  by (auto simp: record_failed_def count_failure_def push_log_def tally_def reports_def
      dest!: after_append_counts split: prod.splits flow.splits if_splits)

lemma record_done_counts:
  "record_done d j jid p name index t status st = (f, st') \<Longrightarrow>
   tally st' = tally st + 1 \<and> reports st' = reports st \<and> length (rs_recent_log st') \<le> 10"
  by (auto simp: record_done_def push_log_def tally_def reports_def Let_def
      dest!: after_append_counts split: if_splits)

lemma step_file_counts:
  assumes "step_file d j jid eid root n_files index p st = (f, st')" "length (rs_recent_log st) \<le> 10"
  shows "\<exists>k. reports st' = reports st + k \<and> tally st' = tally st + of_nat k \<and> length (rs_recent_log st') \<le> 10"
proof (cases "rd_cancelled d index")
  case True
  then show ?thesis using assms by (auto simp: step_file_def)
next
  case False
  define st1 where "st1 = report_progress d j jid eid n_files index (display_name p) st"
  have st1: "reports st1 = reports st + 1" "tally st1 = tally st"
    by (simp_all add: st1_def report_progress_def reports_def tally_def)
  obtain r fs' where p: "process_file (rd_env d) (rd_now d) j p (parse_path (target_path j)) root (w_fs (rs_world st1)) = (r, fs')"
    by (metis surj_pair)
  define st2 where "st2 = st1\<lparr>rs_world := rs_world st1\<lparr>w_fs := fs'\<rparr>\<rparr>"
  have st2: "reports st2 = reports st + 1" "tally st2 = tally st"
    using st1 by (simp_all add: st2_def reports_def tally_def)
  consider (apart) "st' = count_failure (display_name p) st1"
    | (failed) e where "record_failed d j jid p (display_name p) index (parse_path (target_path j)) e st2 = (f, st')"
    | (ok) t status where "record_done d j jid p (display_name p) index t status st2 = (f, st')"
    using assms(1) False p
    by (cases "is_path_under_root (st_canon (rd_store d)) (abs_path p) (abs_path root)"; cases r)
      (auto simp: step_file_def Let_def st1_def st2_def)
  then show ?thesis
  proof cases
    case apart
    then show ?thesis using st1 count_failure_counts by (intro exI [of _ 1]) simp
  next
    case failed
    then show ?thesis using st2 record_failed_counts [OF failed] by (intro exI [of _ 1]) simp
  next
    case ok
    then show ?thesis using st2 record_done_counts [OF ok] by (intro exI [of _ 1]) simp
  qed
qed

lemma run_files_counts:
  assumes "run_files d j jid eid root n_files index ps st = (r, st')" "length (rs_recent_log st) \<le> 10"
  shows "\<exists>k. reports st' = reports st + k \<and> tally st' = tally st + of_nat k \<and> length (rs_recent_log st') \<le> 10"
  using assms
proof (induction ps arbitrary: st index)
  case Nil
  then show ?case by auto
next
  case (Cons p ps)
  obtain f st1 where f: "step_file d j jid eid root n_files index p st = (f, st1)" by (metis surj_pair)
  from step_file_counts [OF f Cons.prems(2)] obtain k where
      k: "reports st1 = reports st + k" "tally st1 = tally st + of_nat k" "length (rs_recent_log st1) \<le> 10" by auto
  show ?case
  proof (cases f)
    case Continue
    with Cons.prems(1) f have "run_files d j jid eid root n_files (Suc index) ps st1 = (r, st')" by simp
    from Cons.IH [OF this k(3)] obtain m where
      "reports st' = reports st1 + m" "tally st' = tally st1 + of_nat m" "length (rs_recent_log st') \<le> 10" by auto
    with k show ?thesis by (intro exI [of _ "k + m"]) (simp add: add_ac)
  qed (use Cons.prems(1) f k in auto)
qed

section \<open>Properties\<close>

text \<open>
  C9. However the loop ends (all files, a cancellation, an integrity error, a failing audit store), the
  files processed, failed and skipped together are the files that were reported in progress, modulo
  the wrap-around of the 32-bit counters, and the recent log never has more than ten lines.
\<close>

theorem run_counts_every_file:
  "case run_files d j jid eid root n_files 0 ps
      \<lparr>rs_world = w, rs_recent_log = [], rs_processed = 0, rs_failed = 0, rs_skipped = 0,
       rs_aborted = False, rs_rollback_items = []\<rparr> of
     (_, st) \<Rightarrow>
       rs_processed st + rs_failed st + rs_skipped st =
         of_nat (length (w_progress (rs_world st)) - length (w_progress w)) \<and>
       length (rs_recent_log st) \<le> 10"
proof -
  let ?st0 = "\<lparr>rs_world = w, rs_recent_log = [], rs_processed = 0, rs_failed = 0, rs_skipped = 0,
       rs_aborted = False, rs_rollback_items = []\<rparr>"
  obtain r st where st: "run_files d j jid eid root n_files 0 ps ?st0 = (r, st)" by (metis surj_pair)
  from run_files_counts [OF this] show ?thesis by (auto simp: st reports_def tally_def)
qed

end
