(* ===== verification/Rollback.thy ===== *)
theory Rollback
  imports Execution
begin

text \<open>
  Undoing a run: the manifest store (\<open>crates/autoflow-infrastructure/src/rollback.rs\<close>), the manifests of
  \<open>crates/autoflow-domain/src/rollback.rs\<close> and the use cases of \<open>crates/autoflow-application/src/rollback.rs\<close>.
  The properties compose \<open>run_job\<close> with \<open>rollback_job\<close>: \<open>item_step\<close> and \<open>trail\<close> of \<open>Execution\<close> say what a
  manifest records, and the lemmas here walk it backwards.
\<close>

section \<open>Manifests and their store\<close>

definition manifest_new_for_blueprint ::
    "uuid \<Rightarrow> timestamp \<Rightarrow> uuid \<Rightarrow> uuid \<Rightarrow> rollback_item list \<Rightarrow> rollback_manifest" where
  "manifest_new_for_blueprint new_v4 now bid eid items =
     \<lparr>rm_id = new_v4, rm_job_id = bid, rm_blueprint_id = Some bid, rm_execution_id = eid,
      rm_created_at = now, rm_rolled_back_at = None, rm_items = items\<rparr>"

definition manifest_new_with_targets ::
    "uuid \<Rightarrow> timestamp \<Rightarrow> uuid option \<Rightarrow> uuid option \<Rightarrow> uuid \<Rightarrow> rollback_item list \<Rightarrow> rollback_manifest" where
  "manifest_new_with_targets new_v4 now jid bid eid items =
     \<lparr>rm_id = new_v4,
      rm_job_id = (case jid of Some i \<Rightarrow> i | None \<Rightarrow> (case bid of Some i \<Rightarrow> i | None \<Rightarrow> 0)),
      rm_blueprint_id = bid, rm_execution_id = eid, rm_created_at = now, rm_rolled_back_at = None,
      rm_items = items\<rparr>"

definition rollback_available :: "rollback_manifest \<Rightarrow> bool" where
  "rollback_available m \<longleftrightarrow> rm_rolled_back_at m = None \<and> rm_items m \<noteq> []"

text \<open>\<open>ORDER BY created_at DESC LIMIT 1\<close>; of rows of the same instant, the first.\<close>

definition newer :: "manifest_row option \<Rightarrow> manifest_row \<Rightarrow> manifest_row option" where
  "newer best r =
     (case best of
        None \<Rightarrow> Some r
      | Some b \<Rightarrow> if mr_created_at r > mr_created_at b then Some r else Some b)"

definition latest_row :: "(manifest_row \<Rightarrow> bool) \<Rightarrow> manifest_row list \<Rightarrow> manifest_row option" where
  "latest_row P rows = foldl newer None (filter P rows)"

definition latest_for_job :: "uuid \<Rightarrow> manifest_row list \<Rightarrow> rollback_manifest option" where
  "latest_for_job jid rows =
     map_option mr_manifest (latest_row (\<lambda>r.
       (rm_job_id (mr_manifest r) = jid \<or> rm_blueprint_id (mr_manifest r) = Some jid) \<and>
       mr_rolled_back_at r = None) rows)"

definition latest_for_blueprint :: "uuid \<Rightarrow> manifest_row list \<Rightarrow> rollback_manifest option" where
  "latest_for_blueprint bid rows =
     map_option mr_manifest (latest_row (\<lambda>r.
       (rm_blueprint_id (mr_manifest r) = Some bid \<or> rm_job_id (mr_manifest r) = bid) \<and>
       mr_rolled_back_at r = None) rows)"

definition mark_rolled_back :: "uuid \<Rightarrow> timestamp \<Rightarrow> manifest_row list \<Rightarrow> manifest_row list" where
  "mark_rolled_back mid at rows =
     map (\<lambda>r. if rm_id (mr_manifest r) = mid then r\<lparr>mr_rolled_back_at := Some at\<rparr> else r) rows"

section \<open>Reverting\<close>

record rollback_result =
  rr_success :: bool
  rr_reverted_count :: "32 word"
  rr_skipped_count :: "32 word"

definition hash_matches :: "fs_env \<Rightarrow> rollback_item \<Rightarrow> fs \<Rightarrow> bool" where
  "hash_matches env it fs =
     (case ri_target_hash it of
        None \<Rightarrow> True
      | Some expected \<Rightarrow> file_hash env (ri_target_path it) fs = Inr expected)"

text \<open>\<open>Some\<close> is a reverted item, \<open>None\<close> a skipped one.\<close>

definition revert_item :: "fs_env \<Rightarrow> rollback_item \<Rightarrow> fs \<Rightarrow> fs option" where
  "revert_item env it fs =
     (let source = ri_source_path it; target = ri_target_path it;
          done_or_skip = (\<lambda>r. case r of Inl _ \<Rightarrow> None | Inr fs' \<Rightarrow> Some fs')
      in case ri_status it of
           Moved \<Rightarrow>
             if exists_at target fs \<and> \<not> exists_at source fs \<and> hash_matches env it fs
             then done_or_skip (rename_path env target source fs) else None
         | Copied \<Rightarrow>
             if exists_at target fs \<and> hash_matches env it fs
             then done_or_skip (if ri_is_directory it then remove_dir_all target fs else remove_file target fs)
             else None
         | _ \<Rightarrow> None)"

definition revert_step :: "fs_env \<Rightarrow> rollback_item \<Rightarrow> fs \<times> 32 word \<times> 32 word \<Rightarrow> fs \<times> 32 word \<times> 32 word" where
  "revert_step env it s =
     (case s of (fs, reverted, skipped) \<Rightarrow>
        (case revert_item env it fs of
           Some fs' \<Rightarrow> (fs', reverted + 1, skipped)
         | None \<Rightarrow> (fs, reverted, skipped + 1)))"

definition revert_items :: "fs_env \<Rightarrow> rollback_item list \<Rightarrow> fs \<Rightarrow> fs \<times> 32 word \<times> 32 word" where
  "revert_items env items fs = fold (revert_step env) (rev items) (fs, 0, 0)"

definition rollback_entry ::
    "uuid option \<Rightarrow> uuid option \<Rightarrow> string \<Rightarrow> string \<Rightarrow> string \<Rightarrow> rollback_result \<Rightarrow> new_audit_entry" where
  "rollback_entry jid bid source target execution res =
     \<lparr>ne_job_id = jid, ne_blueprint_id = bid, ne_job_name = ''Rollback'', ne_source_path = source,
      ne_target_path = target, ne_status = RolledBack, ne_file_size = 0, ne_duration_ms = 0,
      ne_details = Some (''reverted='' @ show_nat (unat (rr_reverted_count res)) @ '', skipped='' @
        show_nat (unat (rr_skipped_count res)) @ '', execution='' @ execution)\<rparr>"

definition undo_manifest ::
    "fs_env \<Rightarrow> timestamp \<Rightarrow> rollback_manifest \<Rightarrow> world \<Rightarrow> rollback_result \<times> world" where
  "undo_manifest env now m w =
     (case revert_items env (rm_items m) (w_fs w) of
        (fs', reverted, skipped) \<Rightarrow>
          (\<lparr>rr_success = True, rr_reverted_count = reverted, rr_skipped_count = skipped\<rparr>,
           w\<lparr>w_fs := fs', w_manifests := mark_rolled_back (rm_id m) now (w_manifests w)\<rparr>))"

text \<open>\<open>uuid_text\<close> prints an identifier.\<close>

definition rollback_job ::
    "run_deps \<Rightarrow> (uuid \<Rightarrow> string) \<Rightarrow> timestamp \<Rightarrow> uuid \<Rightarrow> world \<Rightarrow> (domain_error + rollback_result) \<times> world" where
  "rollback_job d uuid_text now jid w =
     (case latest_for_job jid (w_manifests w) of
        None \<Rightarrow> (Inl (Validation ''no rollback manifest available''), w)
      | Some m \<Rightarrow>
          if rm_rolled_back_at m \<noteq> None then (Inl (Validation ''rollback already executed''), w)
          else
            (let (res, w1) = undo_manifest (rd_env d) now m w in
             (Inr res, snd (audit_append d
                (rollback_entry (Some jid) (rm_blueprint_id m) (''job://'' @ uuid_text jid)
                   (''execution://'' @ uuid_text (rm_execution_id m)) (uuid_text (rm_execution_id m)) res) w1))))"

definition rollback_blueprint ::
    "run_deps \<Rightarrow> (uuid \<Rightarrow> string) \<Rightarrow> timestamp \<Rightarrow> uuid \<Rightarrow> world \<Rightarrow> (domain_error + rollback_result) \<times> world" where
  "rollback_blueprint d uuid_text now bid w =
     (case latest_for_blueprint bid (w_manifests w) of
        None \<Rightarrow> (Inl (Validation ''no rollback manifest available''), w)
      | Some m \<Rightarrow>
          if rm_rolled_back_at m \<noteq> None then (Inl (Validation ''rollback already executed''), w)
          else
            (let (res, w1) = undo_manifest (rd_env d) now m w in
             (Inr res, snd (audit_append d
                (rollback_entry None (Some bid) (''blueprint://'' @ uuid_text bid)
                   (''execution://'' @ uuid_text (rm_execution_id m)) (uuid_text (rm_execution_id m)) res) w1))))"

section \<open>Lemmas: walking a manifest backwards\<close>

definition reverted_as :: "rollback_item \<Rightarrow> bool" where
  "reverted_as it \<longleftrightarrow> ri_status it = Copied \<or> ri_status it = Moved"

lemma trail_tree: "trail env pl items fs fs' \<Longrightarrow> tree_ok fs'"
  by (induction items arbitrary: fs) (auto simp: dirs_grow_def)

lemma dirs_grow_view:
  assumes "dirs_grow (new_dir pl) fs fs1" "dirs_grow (new_dir pl) fs1 cur" "tree_ok cur'"
    and "\<And>p. cur' p = Some Dir \<longleftrightarrow> cur p = Some Dir"
  shows "dirs_grow (new_dir pl) fs cur'"
  using assms(1) assms(3) assms(4) dirs_grow_trans [OF assms(1,2)] by (simp add: dirs_grow_def)

lemma revert_copied:
  assumes "item_step env pl it fs fs1" "ri_status it = Copied"
    and "dirs_grow (new_dir pl) fs1 cur" "file_view cur = file_view fs1"
  shows "\<exists>cur'. revert_item env it cur = Some cur' \<and> dirs_grow (new_dir pl) fs cur' \<and> file_view cur' = file_view fs"
proof -
  let ?t = "ri_target_path it"
  obtain c m where step: "file_view fs ?t = None" "\<not> ri_is_directory it"
      "file_view fs1 = (file_view fs)(?t \<mapsto> File c m)" "ri_target_hash it = Some (fs_hash env c)"
    and grow: "dirs_grow (new_dir pl) fs fs1"
    using assms(1,2) by (auto simp: item_step_def Let_def)
  have t: "cur ?t = Some (File c m)" by (rule file_view_eq_Some) (simp add: assms(4) step(3))
  have rm: "remove_file ?t cur = Inr (cur(?t := None))" using t by (simp add: remove_file_def file_at_iff)
  have "revert_item env it cur = Some (cur(?t := None))"
    using assms(2) t step(2,4) rm by (simp add: revert_item_def Let_def exists_at_def hash_matches_def file_hash_def)
  moreover have "dirs_grow (new_dir pl) fs (cur(?t := None))"
  proof (rule dirs_grow_view [OF grow assms(3)])
    show "tree_ok (cur(?t := None))"
      using assms(3) t by (intro tree_ok_remove) (auto simp: dirs_grow_def file_at_iff)
  qed (use t in auto)
  moreover have "file_view (cur(?t := None)) = file_view fs"
    using assms(4) step(1,3) by (simp add: file_view_upd fun_upd_idem)
  ultimately show ?thesis by blast
qed

lemma revert_moved:
  assumes "item_step env pl it fs fs1" "ri_status it = Moved" "reliable env"
    and "dirs_grow (new_dir pl) fs1 cur" "file_view cur = file_view fs1"
    and "\<And>s. source_ok pl s \<Longrightarrow> \<not> new_dir pl s"
  shows "\<exists>cur'. revert_item env it cur = Some cur' \<and> dirs_grow (new_dir pl) fs cur' \<and> file_view cur' = file_view fs"
proof -
  let ?t = "ri_target_path it" and ?s = "ri_source_path it"
  obtain c m where step: "target_ok pl ?t" "file_view fs ?t = None" "\<not> new_dir pl ?s"
      "fs ?s = Some (File c m)" "file_view fs1 = (file_view fs)(?s := None, ?t \<mapsto> File c m)"
      "ri_target_hash it = Some (fs_hash env c)"
    and grow: "dirs_grow (new_dir pl) fs fs1"
    using assms(1,2,6) by (auto simp: item_step_def Let_def)
  have ne: "?s \<noteq> ?t" using step(2,4) by auto
  have t: "cur ?t = Some (File c m)" by (rule file_view_eq_Some) (simp add: assms(5) step(5))
  have all: "dirs_grow (new_dir pl) fs cur" by (rule dirs_grow_trans [OF grow assms(4)])
  have tree: "tree_ok fs" "tree_ok cur" using all by (auto simp: dirs_grow_def)
  have "cur ?s \<noteq> Some Dir" using all step(3,4) by (auto simp: dirs_grow_def)
  moreover have "file_view cur ?s = None" using assms(5) step(5) ne by simp
  ultimately have s: "cur ?s = None" using view_not_dir by metis
  have "?s \<noteq> []" using tree(1) step(4) by (auto simp: tree_ok_def)
  moreover have "fs (butlast ?s) = Some Dir"
    using tree(1) step(4) \<open>?s \<noteq> []\<close> unfolding tree_ok_def by (metis append_butlast_last_id option.distinct(1))
  ultimately have parent: "parent_dir ?s cur" using all by (auto simp: parent_dir_def dir_at_def dirs_grow_def)
  let ?cur' = "cur(?t := None, ?s \<mapsto> File c m)"
  have mv: "rename_path env ?t ?s cur = Inr ?cur'"
    using t s ne parent assms(3) by (simp add: rename_path_def reliable_def dir_at_def)
  have "revert_item env it cur = Some ?cur'"
    using assms(2) t s step(6) mv by (simp add: revert_item_def Let_def exists_at_def hash_matches_def file_hash_def)
  moreover have "dirs_grow (new_dir pl) fs ?cur'"
  proof (rule dirs_grow_view [OF grow assms(4)])
    have "?cur' = (cur(?s \<mapsto> File c m))(?t := None)" using ne by (simp add: fun_upd_twist)
    moreover have "tree_ok (cur(?s \<mapsto> File c m))" using tree(2) parent s by (intro tree_ok_add) simp_all
    ultimately show "tree_ok ?cur'" using t ne by (simp add: tree_ok_remove file_at_iff)
  qed (use t s in auto)
  moreover have "file_view ?cur' = file_view fs"
    using assms(5) step(2,4,5) ne by (auto simp: file_view_upd fun_eq_iff)
  ultimately show ?thesis by blast
qed

lemma revert_step_simps:
  "revert_item env it fs = Some fs' \<Longrightarrow> revert_step env it (fs, r, k) = (fs', r + 1, k)"
  "revert_item env it fs = None \<Longrightarrow> revert_step env it (fs, r, k) = (fs, r, k + 1)"
  by (simp_all add: revert_step_def)

lemma revert_trail:
  assumes "trail env pl items fs fs'" "reliable env"
    and "dirs_grow (new_dir pl) fs' cur" "file_view cur = file_view fs'"
    and "\<And>s. source_ok pl s \<Longrightarrow> \<not> new_dir pl s"
  shows "\<exists>cur'. fold (revert_step env) (rev items) (cur, r, k) =
      (cur', r + of_nat (length (filter reverted_as items)),
       k + of_nat (length (filter (\<lambda>it. \<not> reverted_as it) items))) \<and>
    dirs_grow (new_dir pl) fs cur' \<and> file_view cur' = file_view fs"
  using assms
proof (induction items arbitrary: fs)
  case Nil
  then show ?case by (auto intro: dirs_grow_trans)
next
  case (Cons it items)
  then obtain fs1 where it: "item_step env pl it fs fs1" and rest: "trail env pl items fs1 fs'"
    by auto
  from Cons.IH [OF rest Cons.prems(2-5)] obtain cur1 where
      cur1: "fold (revert_step env) (rev items) (cur, r, k) =
        (cur1, r + of_nat (length (filter reverted_as items)),
         k + of_nat (length (filter (\<lambda>it. \<not> reverted_as it) items)))"
      "dirs_grow (new_dir pl) fs1 cur1" "file_view cur1 = file_view fs1" by auto
  have "ri_status it = Copied \<or> ri_status it = Moved \<or> ri_status it = Ignored"
    using it by (cases "ri_status it") (auto simp: item_step_def)
  then show ?case
  proof (elim disjE)
    assume copied: "ri_status it = Copied"
    then have "reverted_as it" by (simp add: reverted_as_def)
    with copied revert_copied [OF it copied cur1(2,3)] show ?thesis
      by (auto simp: cur1(1) revert_step_simps add_ac)
  next
    assume moved: "ri_status it = Moved"
    then have "reverted_as it" by (simp add: reverted_as_def)
    with moved revert_moved [OF it moved Cons.prems(2) cur1(2,3) Cons.prems(5)] show ?thesis
      by (auto simp: cur1(1) revert_step_simps add_ac)
  next
    assume ign: "ri_status it = Ignored"
    then have "dirs_grow (new_dir pl) fs fs1" "file_view fs1 = file_view fs"
      using it by (auto simp: item_step_def)
    moreover have "revert_item env it cur1 = None" using ign by (simp add: revert_item_def)
    moreover have "\<not> reverted_as it" using ign by (simp add: reverted_as_def)
    ultimately show ?thesis using cur1 dirs_grow_trans
      by (auto simp: revert_step_simps add_ac)
  qed
qed

text \<open>A trail keeps the files below the target, and every other one at its place or below the target.\<close>

lemma trail_keeps_below:
  assumes "trail env (job_places target_dir) items fs fs'" "prefix target_dir p" "file_view fs p = Some x"
  shows "file_view fs' p = Some x"
  using assms
proof (induction items arbitrary: fs)
  case (Cons it items)
  then obtain fs1 where it: "item_step env (job_places target_dir) it fs fs1" and rest: "trail env (job_places target_dir) items fs1 fs'"
    by auto
  have "file_view fs1 p = Some x"
    using it Cons.prems(2,3) by (auto simp: item_step_def Let_def split: audit_status.splits)
  with Cons.IH [OF rest Cons.prems(2)] show ?case by simp
qed simp

lemma trail_loses_no_file:
  assumes "trail env (job_places target_dir) items fs fs'" "file_view fs p = Some x"
  shows "file_view fs' p = Some x \<or>
    (\<not> prefix target_dir p \<and>
     (\<exists>t. strict_prefix target_dir t \<and> file_view fs t = None \<and> file_view fs' t = Some x))"
  using assms
proof (induction items arbitrary: fs)
  case (Cons it items)
  then obtain fs1 where it: "item_step env (job_places target_dir) it fs fs1" and rest: "trail env (job_places target_dir) items fs1 fs'"
    by auto
  let ?s = "ri_source_path it" and ?t = "ri_target_path it"
  have new: "file_view fs q = None" if "strict_prefix target_dir q" "file_view fs1 q = None" for q
  proof (rule ccontr)
    assume "file_view fs q \<noteq> None"
    moreover have "q \<noteq> ri_source_path it \<or> ri_status it \<noteq> Moved"
      using it that(1) by (auto simp: item_step_def Let_def strict_prefix_def)
    ultimately show False using it that(2)
      by (auto simp: item_step_def Let_def split: audit_status.splits if_splits)
  qed
  show ?case
  proof (cases "file_view fs1 p = Some x")
    case True
    from Cons.IH [OF rest True] show ?thesis using new by blast
  next
    case False
    then have mv: "ri_status it = Moved" "p = ?s" "\<not> prefix target_dir p" "strict_prefix target_dir ?t"
        "file_view fs ?t = None" "file_view fs1 ?t = Some x"
      using it Cons.prems(2) by (auto simp: item_step_def Let_def split: audit_status.splits if_splits)
    from mv(4) have "prefix target_dir ?t" by (simp add: strict_prefix_def)
    from trail_keeps_below [OF rest this mv(6)] mv show ?thesis by blast
  qed
qed simp

section \<open>Lemmas: a run and its manifest\<close>

text \<open>A job without scripts and package that never overwrites, as a run sees it.\<close>

definition plain_run :: "job \<Rightarrow> bool" where
  "plain_run j \<longleftrightarrow> pre_script (scripts j) = None \<and> post_script (scripts j) = None \<and>
     \<not> encrypt_output (options j) \<and> conflict j \<noteq> Overwrite"

definition job_at :: "run_deps \<Rightarrow> uuid \<Rightarrow> world \<Rightarrow> domain_error + job" where
  "job_at d jid w =
     map_sum id (normalize (st_tz (rd_store d)) (rd_now d)) (store_get (rd_store d) (rd_now d) jid (w_jobs w))"

text \<open>The listing gives files, and none of them below the target.\<close>

definition lists_outside :: "run_deps \<Rightarrow> job \<Rightarrow> fs \<Rightarrow> bool" where
  "lists_outside d j fs0 \<longleftrightarrow>
     (case create_dir_all (parse_path (target_path j)) fs0 of
        Inl _ \<Rightarrow> True
      | Inr fs \<Rightarrow>
          (case collect_files (st_rx (rd_store d)) (rd_globs d) (rd_probe d fs) (rd_now d) j of
             Inl _ \<Rightarrow> True
           | Inr ps \<Rightarrow> list_all (\<lambda>p. outside (parse_path (target_path j)) fs (parse_path p)) ps))"

lemma finish_run_frame:
  assumes "finish_run d j jid eid n st = (Inr (), w')"
  shows "w_fs w' = w_fs (rs_world st)"
    and "w_manifests w' = w_manifests (keep_manifest d jid eid (rs_rollback_items st) (rs_world st))"
proof -
  obtain db where "store_save (rd_store d) (rd_end d) (reschedule (st_tz (rd_store d)) (rd_end d) j)
      (w_jobs (rs_world st)) = Inr db"
    using assms by (auto simp: finish_run_def Let_def split: sum.splits)
  with assms show "w_fs w' = w_fs (rs_world st)"
    and "w_manifests w' = w_manifests (keep_manifest d jid eid (rs_rollback_items st) (rs_world st))"
    by (auto simp: finish_run_def Let_def keep_manifest_def split: sum.splits)
qed

lemma run_job_trail:
  assumes "run_job d jid eid w = (Inr (), w')" "job_at d jid w = Inr j" "plain_run j"
    and "reliable (rd_env d)" "tree_ok (w_fs w)" "lists_outside d j (w_fs w)"
  obtains fs1 items where "file_view fs1 = file_view (w_fs w)" "tree_ok fs1"
    "trail (rd_env d) (job_places (parse_path (target_path j))) items fs1 (w_fs w')"
    "w_manifests w' = w_manifests (keep_manifest d jid eid items w)"
proof -
  obtain stored where stored: "store_get (rd_store d) (rd_now d) jid (w_jobs w) = Inr stored"
    and j: "j = normalize (st_tz (rd_store d)) (rd_now d) stored"
    using assms(2) by (auto simp: job_at_def map_sum_def split: sum.splits)
  obtain fs1 where fs1: "create_dir_all (parse_path (target_path j)) (w_fs w) = Inr fs1"
    using assms(1) stored j by (auto simp: run_job_def Let_def split: sum.splits if_splits)
  have pre: "run_pre_script (rd_support d) (rd_data_dir d) j fs1 = (Inr None, fs1)"
    using assms(3) by (simp add: run_pre_script_def plain_run_def)
  obtain ps where ps: "collect_files (st_rx (rd_store d)) (rd_globs d) (rd_probe d fs1) (rd_now d) j = Inr ps"
    using assms(1) stored fs1 pre unfolding j
    by (auto simp: run_job_def Let_def split: sum.splits if_splits)
  have run: "run_collected d j jid eid (map parse_path ps)
        (w\<lparr>w_sent := fire_notify_event j Started None (w_sent w), w_fs := fs1\<rparr>) = (Inr (), w')"
    using assms(1) stored fs1 pre ps unfolding j
    by (simp add: run_job_def Let_def split: if_splits)
  let ?w1 = "w\<lparr>w_sent := fire_notify_event j Started None (w_sent w), w_fs := fs1\<rparr>"
  let ?st0 = "\<lparr>rs_world = ?w1, rs_recent_log = [], rs_processed = 0, rs_failed = 0, rs_skipped = 0,
      rs_aborted = False, rs_rollback_items = []\<rparr>"
  obtain r st where st: "run_files d j jid eid (parse_path (source_path j)) (max 1 (length (map parse_path ps))) 0
      (map parse_path ps) ?st0 = (r, st)" by (metis surj_pair)
  with run assms(3) have fin: "finish_run d j jid eid (length ps) st = (Inr (), w')"
    by (cases r) (auto simp: run_collected_def plain_run_def after_post_script_def run_post_script_def Let_def
      simp del: run_files.simps)
  have "tree_ok fs1" by (rule create_dir_all_tree [OF assms(5) fs1])
  moreover have "fs1 (parse_path (target_path j)) = Some Dir" by (rule create_dir_all_dir [OF fs1])
  moreover have "\<And>p. p \<in> set (map parse_path ps) \<Longrightarrow> outside (parse_path (target_path j)) fs1 p"
    using assms(6) ps fs1 by (auto simp: lists_outside_def list_all_iff)
  ultimately obtain items where t: "rs_rollback_items st = items"
      "trail (rd_env d) (job_places (parse_path (target_path j))) items fs1 (w_fs (rs_world st))"
      "w_manifests (rs_world st) = w_manifests w"
    using run_files_trail [OF st assms(4)] assms(3) by (auto simp: plain_run_def)
  show ?thesis
  proof (rule that)
    show "file_view fs1 = file_view (w_fs w)" by (rule create_dir_all_view [OF fs1])
    show "trail (rd_env d) (job_places (parse_path (target_path j))) items fs1 (w_fs w')"
      using t finish_run_frame(1) [OF fin] by simp
    show "w_manifests w' = w_manifests (keep_manifest d jid eid items w)"
      using t finish_run_frame(2) [OF fin] by (auto simp: keep_manifest_def split: sum.splits)
  qed (fact \<open>tree_ok fs1\<close>)
qed

lemma foldl_newer:
  "\<forall>r \<in> set rows. mr_created_at r \<le> mr_created_at b \<Longrightarrow> foldl newer (Some b) rows = Some b"
  by (induction rows) (auto simp: newer_def)

lemma foldl_newer_source: "foldl newer best rows = Some b \<Longrightarrow> b \<in> set rows \<or> best = Some b"
  by (induction rows arbitrary: best) (fastforce simp: newer_def split: option.splits if_splits)+

lemma latest_row_last:
  assumes "P r" "\<forall>q \<in> set rows. mr_created_at q < mr_created_at r"
  shows "latest_row P (rows @ [r]) = Some r"
proof -
  have "newer (foldl newer None (filter P rows)) r = Some r"
  proof (cases "foldl newer None (filter P rows)")
    case (Some b)
    from foldl_newer_source [OF this] assms(2) Some show ?thesis by (auto simp: newer_def)
  qed (simp add: newer_def)
  with assms(1) show ?thesis by (simp add: latest_row_def)
qed

section \<open>Properties\<close>

text \<open>
  C7. A run followed by a rollback gives back every file as it was: for a job that copies or moves
  without overwriting, without scripts and without a package, on one device that copies faithfully and with a
  source directory whose listing does not reach into the target, whatever the run did to files inside or
  outside the target (skipped, renamed or failed ones included) is undone, and the counts of the result
  are those of the manifest. The run must have saved its manifest, and no other one be newer.
\<close>

theorem rollback_restores_every_file:
  assumes "run_job d jid eid w = (Inr (), w')" "job_at d jid w = Inr j" "plain_run j"
    and "reliable (rd_env d)" "tree_ok (w_fs w)" "lists_outside d j (w_fs w)"
    and "w_manifests w' \<noteq> w_manifests w" "\<forall>r \<in> set (w_manifests w). mr_created_at r < rd_end d"
  shows "\<exists>items w''. rollback_job d uuid_text now jid w' =
      (Inr \<lparr>rr_success = True, rr_reverted_count = of_nat (length (filter reverted_as items)),
            rr_skipped_count = of_nat (length (filter (\<lambda>it. \<not> reverted_as it) items))\<rparr>, w'') \<and>
    file_view (w_fs w'') = file_view (w_fs w)"
proof -
  from assms(1-6) obtain fs1 items where
      view: "file_view fs1 = file_view (w_fs w)" and tree: "tree_ok fs1"
      and trail: "trail (rd_env d) (job_places (parse_path (target_path j))) items fs1 (w_fs w')"
      and kept: "w_manifests w' = w_manifests (keep_manifest d jid eid items w)"
    by (rule run_job_trail)
  let ?m = "manifest_new (rd_manifest_id d) (rd_end d) jid eid items"
  have rows: "w_manifests w' = w_manifests w @ [\<lparr>mr_manifest = ?m, mr_rolled_back_at = None, mr_created_at = rd_end d\<rparr>]"
    using kept assms(7)
    by (auto simp: keep_manifest_def manifest_save_def manifest_new_def split: if_splits option.splits sum.splits)
  have latest: "latest_for_job jid (w_manifests w') = Some ?m"
    unfolding rows latest_for_job_def using assms(8) by (subst latest_row_last) (simp_all add: manifest_new_def)
  have apart: "source_ok (job_places (parse_path (target_path j))) s \<Longrightarrow>
      \<not> new_dir (job_places (parse_path (target_path j))) s" for s
    by (auto simp: strict_prefix_def)
  have "tree_ok (w_fs w')" using trail_tree [OF trail] by simp
  from revert_trail [OF trail assms(4) dirs_grow_refl [OF this] refl apart, of 0 0] view
  obtain fs2 where "revert_items (rd_env d) items (w_fs w') =
      (fs2, of_nat (length (filter reverted_as items)), of_nat (length (filter (\<lambda>it. \<not> reverted_as it) items)))"
      "file_view fs2 = file_view (w_fs w)"
    by (auto simp: revert_items_def)
  then show ?thesis
    by (auto simp: rollback_job_def latest undo_manifest_def manifest_new_def audit_append_def split: option.splits)
qed

text \<open>A tree with two files to move, one of them to a name that is taken.\<close>

definition demo_tree :: fs where
  "demo_tree p =
     (if p \<in> {[], [''in''], [''out'']} then Some Dir
      else if p = [''in'', ''a.txt''] then Some (File ''alpha'' 1)
      else if p = [''in'', ''b.txt''] then Some (File ''beta'' 2)
      else if p = [''out'', ''a.txt''] then Some (File ''older'' 0) else None)"

definition demo_deps :: run_deps where
  "demo_deps = \<lparr>rd_env = \<lparr>fs_hash = id, fs_same_device = (\<lambda>_ _. True), fs_copied = (\<lambda>_ _ c. c), fs_walk = (\<lambda>_ p _. [p])\<rparr>,
     rd_support = \<lparr>su_process = (\<lambda>_ _ fs. (StillRunning, fs)), su_zip = (\<lambda>_ _. Inl ''none'')\<rparr>,
     rd_store = demo_store, rd_globs = \<lparr>gl_new = (\<lambda>_. Inr ()), gl_build = (\<lambda>_. Inr ()), gl_is_match = (\<lambda>_ _. False)\<rparr>,
     rd_probe = (\<lambda>_. demo_fs), rd_data_dir = [''data''], rd_now = 7, rd_end = 9, rd_cancelled = (\<lambda>_. False),
     rd_append_error = (\<lambda>_. None), rd_keep_manifest = True, rd_manifest_error = None, rd_manifest_id = 77,
     rd_percent = (\<lambda>_ _. 0), rd_duration = (\<lambda>_. 0)\<rparr>"

definition demo_world :: "job_mode \<Rightarrow> conflict_strategy \<Rightarrow> world" where
  "demo_world m strategy = \<lparr>w_fs = demo_tree,
     w_jobs = \<lparr>db_rows = [(1, \<lparr>jr_payload = (job_new 1 ''Backup'' ''/in'' ''/out'')\<lparr>job_mode := m, conflict := strategy\<rparr>,
                               jr_updated_at = 0\<rparr>)], db_draws = 0\<rparr>,
     w_audit = [], w_manifests = [], w_keyring = (\<lambda>_. None), w_progress = [], w_sent = [], w_completed = []\<rparr>"

lemma demo_run: "is_ok (fst (run_job demo_deps 1 5 (demo_world Move Rename))) \<and>
    length (w_manifests (snd (run_job demo_deps 1 5 (demo_world Move Rename)))) = 1"
  by code_simp

definition demo_move :: job where
  "demo_move = (job_new 1 ''Backup'' ''/in'' ''/out'')\<lparr>job_mode := Move, conflict := Rename\<rparr>"

lemma demo_facts:
  "job_at demo_deps 1 (demo_world Move Rename) = Inr demo_move" "plain_run demo_move"
  "reliable (rd_env demo_deps)" "tree_ok (w_fs (demo_world Move Rename))"
  "lists_outside demo_deps demo_move (w_fs (demo_world Move Rename))"
proof -
  show "job_at demo_deps 1 (demo_world Move Rename) = Inr demo_move" by code_simp
  show "plain_run demo_move" by code_simp
  show "reliable (rd_env demo_deps)" by (simp add: reliable_def demo_deps_def)
  show "tree_ok (w_fs (demo_world Move Rename))" by (auto simp: tree_ok_def demo_world_def demo_tree_def)
  show "lists_outside demo_deps demo_move (w_fs (demo_world Move Rename))" by code_simp
qed

theorem rollback_restores_every_file_witness:
  "\<exists>r w''. rollback_job demo_deps show_nat 20 1 (snd (run_job demo_deps 1 5 (demo_world Move Rename))) = (Inr r, w'') \<and>
     w_fs w'' [''in'', ''a.txt''] = Some (File ''alpha'' 1) \<and> w_fs w'' [''out'', ''a.txt''] = Some (File ''older'' 0)"
proof -
  obtain w' where w': "run_job demo_deps 1 5 (demo_world Move Rename) = (Inr (), w')" "length (w_manifests w') = 1"
    using demo_run by (cases "run_job demo_deps 1 5 (demo_world Move Rename)") (auto simp: is_ok_iff)
  have "w_manifests w' \<noteq> w_manifests (demo_world Move Rename)" using w'(2) by (auto simp: demo_world_def)
  moreover have "\<forall>r \<in> set (w_manifests (demo_world Move Rename)). mr_created_at r < rd_end demo_deps"
    by (simp add: demo_world_def)
  ultimately obtain r w'' where "rollback_job demo_deps show_nat 20 1 w' = (Inr r, w'')"
      "file_view (w_fs w'') = file_view (w_fs (demo_world Move Rename))"
    using rollback_restores_every_file [OF w'(1) demo_facts, of show_nat 20] by blast
  moreover from this(2) have "w_fs w'' [''in'', ''a.txt''] = Some (File ''alpha'' 1)"
      "w_fs w'' [''out'', ''a.txt''] = Some (File ''older'' 0)"
    by (auto intro!: file_view_eq_Some [of "w_fs w''"] simp: demo_world_def demo_tree_def)
  ultimately show ?thesis using w'(1) by auto
qed

text \<open>
  C8. No such run loses a file (it does not overwrite, runs no scripts and packs nothing, on one device that
  copies faithfully, its listing outside the target): every file there was before is afterwards unchanged at its
  place, or, moved from outside the target directory, unchanged at a new place below it where there was no file.
\<close>

theorem run_loses_no_file:
  assumes "run_job d jid eid w = (Inr (), w')" "job_at d jid w = Inr j" "plain_run j"
    and "reliable (rd_env d)" "tree_ok (w_fs w)" "lists_outside d j (w_fs w)"
    and "file_view (w_fs w) p = Some x"
  shows "file_view (w_fs w') p = Some x \<or>
    (\<not> prefix (parse_path (target_path j)) p \<and>
     (\<exists>t. strict_prefix (parse_path (target_path j)) t \<and> file_view (w_fs w) t = None \<and> file_view (w_fs w') t = Some x))"
proof -
  from assms(1-6) obtain fs1 items where "file_view fs1 = file_view (w_fs w)"
      "trail (rd_env d) (job_places (parse_path (target_path j))) items fs1 (w_fs w')"
    by (rule run_job_trail)
  with trail_loses_no_file [of "rd_env d" _ items fs1 "w_fs w'" p x] assms(7) show ?thesis by simp
qed

theorem run_loses_no_file_witness:
  "\<exists>w'. run_job demo_deps 1 5 (demo_world Move Rename) = (Inr (), w') \<and>
     file_view (w_fs w') [''out'', ''a.txt''] = Some (File ''older'' 0)"
proof -
  obtain w' where w': "run_job demo_deps 1 5 (demo_world Move Rename) = (Inr (), w')"
    using demo_run by (cases "run_job demo_deps 1 5 (demo_world Move Rename)") (auto simp: is_ok_iff)
  have f: "file_view (w_fs (demo_world Move Rename)) [''out'', ''a.txt''] = Some (File ''older'' 0)" by code_simp
  have "prefix (parse_path (target_path demo_move)) [''out'', ''a.txt'']" by code_simp
  with run_loses_no_file [OF w' demo_facts f] w' show ?thesis by blast
qed

section \<open>What a rollback does not undo\<close>

text \<open>The overwritten file is not kept anywhere: the rollback of the copy removes it for good.\<close>

lemma overwritten_file_is_gone:
  "w_fs (snd (rollback_job demo_deps show_nat 20 1 (snd (run_job demo_deps 1 5 (demo_world Copy Overwrite)))))
     [''out'', ''a.txt''] = None \<and> w_fs (demo_world Copy Overwrite) [''out'', ''a.txt''] = Some (File ''older'' 0)"
  by code_simp

text \<open>A job that is to be packed without a password has moved its files when it fails, and leaves no manifest.\<close>

definition unpacked_world :: world where
  "unpacked_world = (demo_world Move Rename)
     \<lparr>w_jobs := \<lparr>db_rows = [(1, \<lparr>jr_payload = demo_move\<lparr>options := transfer_default\<lparr>encrypt_output := True\<rparr>\<rparr>,
                                 jr_updated_at = 0\<rparr>)], db_draws = 0\<rparr>\<rparr>"

lemma failed_package_leaves_files_moved:
  "case run_job demo_deps 1 5 unpacked_world of (r, w) \<Rightarrow>
     r = Inl (Validation ''encrypt password is required for encrypted output'') \<and>
     w_fs w [''in'', ''b.txt''] = None \<and> w_fs w [''out'', ''b.txt''] = Some (File ''beta'' 2) \<and>
     w_manifests w = []"
  by code_simp

text \<open>An entry of the audit reads the size of a moved file where the file was.\<close>

lemma moved_files_have_no_size:
  "map (\<lambda>e. (ne_status e, ne_file_size e)) (w_audit (snd (run_job demo_deps 1 5 (demo_world Move Rename)))) =
     [(Moved, 0), (Moved, 0)] \<and>
   map (\<lambda>e. (ne_status e, ne_file_size e)) (w_audit (snd (run_job demo_deps 1 5 (demo_world Copy Rename)))) =
     [(Copied, 5), (Copied, 4)]"
  by code_simp

text \<open>A cross-device move cannot be rolled back: the rollback only renames.\<close>

definition split_deps :: run_deps where
  "split_deps = demo_deps\<lparr>rd_env := rd_env demo_deps\<lparr>fs_same_device := (\<lambda>_ _. False)\<rparr>\<rparr>"

lemma cross_device_move_stays:
  "case rollback_job split_deps show_nat 20 1 (snd (run_job split_deps 1 5 (demo_world Move Rename))) of
     (r, w) \<Rightarrow> r = Inr \<lparr>rr_success = True, rr_reverted_count = 0, rr_skipped_count = 2\<rparr> \<and>
       w_fs w [''out'', ''b.txt''] = Some (File ''beta'' 7) \<and> w_fs w [''in'', ''b.txt''] = None"
  by code_simp

end
