(* ===== verification/Admin_Domain.thy ===== *)
theory Admin_Domain
  imports Job_Config
begin

text \<open>
  The administration contract, \<open>crates/autoflow-domain/src/admin.rs\<close>: snapshots of instances, commands
  and their deliveries, groups, the central audit, and the signed envelopes agents and server exchange.
  \<open>crypto_lib\<close> is the blake3 crate, \<open>serde_json\<close> and the text of a timestamp and an identifier.
\<close>

section \<open>Instances\<close>

datatype instance_status = Online | Warning | Offline

datatype command_kind =
    StartJob | CancelExecution | PauseJob | ResumeJob | StopJob | CreateJob | UpdateJob | DeleteJob
  | ApplySettingsPolicy | RequestLogs

datatype command_support = Available | Planned

record command_capability =
  cc_kind :: command_kind
  cc_label :: string
  cc_support :: command_support
  cc_scope :: string
  cc_requires_confirmation :: bool

record hardware_profile =
  hp_host_name :: string
  hp_operating_system :: string
  hp_architecture :: string
  hp_cpu_threads :: "32 word"
  hp_total_memory_mb :: "64 word option"
  hp_app_version :: string

record network_interface =
  ni_name :: string
  ni_address :: "string option"
  ni_kind :: string

record network_profile =
  np_domain :: "string option"
  np_interfaces :: "network_interface list"

datatype agent_mode = LocalOnly | ManagedAgent

record management_profile =
  mp_enabled :: bool
  mp_mode :: agent_mode
  mp_server_url :: "string option"
  mp_allow_remote_commands :: bool
  mp_allow_batch_commands :: bool
  mp_heartbeat_interval_secs :: "32 word"
  mp_inventory_interval_secs :: "32 word"

datatype job_runtime_status = JobRunning | JobScheduled | JobIdle | JobDisabledState

record managed_job =
  mj_id :: uuid
  mj_name :: string
  mj_mode :: job_mode
  mj_enabled :: bool
  mj_source_path :: string
  mj_target_path :: string
  mj_last_run :: "timestamp option"
  mj_next_run :: "timestamp option"
  mj_status :: job_runtime_status

record instance_snapshot =
  is_instance_id :: string
  is_display_name :: string
  is_status :: instance_status
  is_last_seen_at :: timestamp
  is_hardware :: hardware_profile
  is_network :: network_profile
  is_management :: management_profile
  is_jobs :: "managed_job list"
  is_active_executions :: "active_execution list"
  is_capabilities :: "command_capability list"

record fleet_summary =
  fs_total_instances :: "32 word"
  fs_online_instances :: "32 word"
  fs_warning_instances :: "32 word"
  fs_offline_instances :: "32 word"
  fs_total_jobs :: "32 word"
  fs_running_jobs :: "32 word"

definition summarize_instance :: "instance_snapshot \<Rightarrow> fleet_summary \<Rightarrow> fleet_summary" where
  "summarize_instance i s =
     (let s1 = (case is_status i of
            Online \<Rightarrow> s\<lparr>fs_online_instances := fs_online_instances s + 1\<rparr>
          | Warning \<Rightarrow> s\<lparr>fs_warning_instances := fs_warning_instances s + 1\<rparr>
          | Offline \<Rightarrow> s\<lparr>fs_offline_instances := fs_offline_instances s + 1\<rparr>)
      in s1\<lparr>fs_total_jobs := fs_total_jobs s1 + of_nat (length (is_jobs i)),
            fs_running_jobs := fs_running_jobs s1 +
              of_nat (length (filter (\<lambda>j. mj_status j = JobRunning) (is_jobs i)))\<rparr>)"

definition fleet_from_instances :: "instance_snapshot list \<Rightarrow> fleet_summary" where
  "fleet_from_instances is =
     fold summarize_instance is
       \<lparr>fs_total_instances = of_nat (length is), fs_online_instances = 0, fs_warning_instances = 0,
        fs_offline_instances = 0, fs_total_jobs = 0, fs_running_jobs = 0\<rparr>"

record fleet_snapshot =
  fl_generated_at :: timestamp
  fl_summary :: fleet_summary
  fl_instances :: "instance_snapshot list"

record machine_group =
  mg_id :: uuid
  mg_name :: string
  mg_description :: "string option"
  mg_instance_ids :: "string list"
  mg_created_at :: timestamp
  mg_updated_at :: timestamp

record machine_group_request =
  gr_name :: string
  gr_description :: "string option"
  gr_instance_ids :: "string list"

section \<open>Commands\<close>

record job_payload =
  jp_job :: job
  jp_preview_only :: bool

record command_request =
  cr_kind :: command_kind
  cr_target_instance_ids :: "string list"
  cr_job_ids :: "uuid list"
  cr_execution_ids :: "uuid list"
  cr_reason :: "string option"
  cr_job_payloads :: "job_payload list"

datatype target_status = Accepted | TargetSkipped | TargetError

record target_result =
  tr_target_instance_id :: string
  tr_status :: target_status
  tr_message :: string

record command_result =
  res_accepted :: bool
  res_command :: command_kind
  res_results :: "target_result list"

datatype command_status = Pending | Running | Completed | Failed | Skipped

record queued_command =
  qc_id :: uuid
  qc_source :: string
  qc_request :: command_request
  qc_status :: command_status
  qc_result :: "command_result option"
  qc_created_at :: timestamp
  qc_updated_at :: timestamp

record command_queue_summary =
  qs_pending :: "32 word"
  qs_running :: "32 word"
  qs_completed :: "32 word"
  qs_failed :: "32 word"
  qs_skipped :: "32 word"

definition summarize_command :: "queued_command \<Rightarrow> command_queue_summary \<Rightarrow> command_queue_summary" where
  "summarize_command c s =
     (case qc_status c of
        Pending \<Rightarrow> s\<lparr>qs_pending := qs_pending s + 1\<rparr>
      | Running \<Rightarrow> s\<lparr>qs_running := qs_running s + 1\<rparr>
      | Completed \<Rightarrow> s\<lparr>qs_completed := qs_completed s + 1\<rparr>
      | Failed \<Rightarrow> s\<lparr>qs_failed := qs_failed s + 1\<rparr>
      | Skipped \<Rightarrow> s\<lparr>qs_skipped := qs_skipped s + 1\<rparr>)"

definition summary_from_commands :: "queued_command list \<Rightarrow> command_queue_summary" where
  "summary_from_commands cs =
     fold summarize_command cs
       \<lparr>qs_pending = 0, qs_running = 0, qs_completed = 0, qs_failed = 0, qs_skipped = 0\<rparr>"

record batch_command_request =
  bc_request :: command_request
  bc_group_ids :: "uuid list"
  bc_source :: "string option"

record batch_command_accepted =
  ba_accepted :: bool
  ba_resolved_target_instance_ids :: "string list"
  ba_command :: queued_command
  ba_result :: command_result

record command_assignment =
  as_command_id :: uuid
  as_target_instance_id :: string
  as_request :: command_request
  as_assigned_at :: timestamp

datatype completion_status = DoneCompleted | DoneFailed | DoneSkipped

record completion_request =
  co_command_id :: uuid
  co_target_instance_id :: string
  co_status :: completion_status
  co_message :: string
  co_completed_at :: timestamp

record completion_accepted =
  ca_accepted :: bool
  ca_command :: queued_command
  ca_recorded_at :: timestamp

section \<open>The central audit\<close>

datatype operator_role = Viewer | Operator | Admin

datatype central_audit_status = AuditAccepted | AuditRejected | AuditFailed

record central_audit_entry =
  ce_id :: uuid
  ce_actor :: string
  ce_role :: "operator_role option"
  ce_action :: string
  ce_target :: string
  ce_status :: central_audit_status
  ce_message :: string
  ce_details :: "string option"
  ce_created_at :: timestamp

record central_audit_query =
  cq_search :: "string option"
  cq_actor :: "string option"
  cq_action :: "string option"
  cq_status :: "central_audit_status option"
  cq_limit :: int
  cq_offset :: int

record central_audit_page =
  cp_entries :: "central_audit_entry list"
  cp_total :: int
  cp_limit :: int
  cp_offset :: int

definition normalize_optional_text :: "string option \<Rightarrow> string option" where
  "normalize_optional_text value =
     (case value of None \<Rightarrow> None | Some v \<Rightarrow> if trim v = [] then None else Some (trim v))"

definition clamp :: "int \<Rightarrow> int \<Rightarrow> int \<Rightarrow> int" where
  "clamp lo hi x = (if x < lo then lo else if hi < x then hi else x)"

definition audit_query_normalized :: "central_audit_query \<Rightarrow> central_audit_query" where
  "audit_query_normalized q =
     q\<lparr>cq_search := normalize_optional_text (cq_search q), cq_actor := normalize_optional_text (cq_actor q),
       cq_action := normalize_optional_text (cq_action q), cq_limit := clamp 1 1000 (cq_limit q),
       cq_offset := max 0 (cq_offset q)\<rparr>"

section \<open>Signed envelopes\<close>

datatype envelope_kind = Enrollment | Heartbeat | Command | SecretRotation

fun kind_wire_name :: "envelope_kind \<Rightarrow> string" where
  "kind_wire_name Enrollment = ''enrollment''"
| "kind_wire_name Heartbeat = ''heartbeat''"
| "kind_wire_name Command = ''command''"
| "kind_wire_name SecretRotation = ''secretRotation''"

record 'p envelope =
  en_schema_version :: string
  en_kind :: envelope_kind
  en_instance_id :: string
  en_issued_at :: timestamp
  en_expires_at :: timestamp
  en_nonce :: uuid
  en_payload_hash :: string
  en_signature :: string
  en_payload :: 'p

text \<open>\<open>cl_keyed\<close> is \<open>keyed_hash\<close> under the key derived from a secret, in hexadecimal.\<close>

record crypto_lib =
  cl_hash :: "string \<Rightarrow> string"
  cl_keyed :: "string \<Rightarrow> string \<Rightarrow> string"
  cl_time_text :: "timestamp \<Rightarrow> string"
  cl_uuid_text :: "uuid \<Rightarrow> string"

type_synonym 'p to_json = "'p \<Rightarrow> string + string"

definition schema_version :: string where
  "schema_version = ''admin.transport.v1''"

definition hash_admin_payload :: "crypto_lib \<Rightarrow> 'p to_json \<Rightarrow> 'p \<Rightarrow> domain_error + string" where
  "hash_admin_payload cl json payload =
     rbind (map_err Validation (json payload)) (\<lambda>bytes. Inr (cl_hash cl bytes))"

definition admin_signature_input ::
    "crypto_lib \<Rightarrow> envelope_kind \<Rightarrow> string \<Rightarrow> timestamp \<Rightarrow> timestamp \<Rightarrow> uuid \<Rightarrow> string \<Rightarrow> string" where
  "admin_signature_input cl k inst issued expires nonce payload_hash =
     join_with ''|'' [schema_version, kind_wire_name k, inst, cl_time_text cl issued,
                      cl_time_text cl expires, cl_uuid_text cl nonce, payload_hash]"

definition sign_admin_payload :: "crypto_lib \<Rightarrow> string \<Rightarrow> string \<Rightarrow> string" where
  "sign_admin_payload cl secret input = ''blake3:'' @ cl_keyed cl (trim secret) input"

definition envelope_sign ::
    "crypto_lib \<Rightarrow> 'p to_json \<Rightarrow> timestamp \<Rightarrow> uuid \<Rightarrow> envelope_kind \<Rightarrow> string \<Rightarrow> 'p \<Rightarrow> string \<Rightarrow> 32 word \<Rightarrow>
     domain_error + 'p envelope" where
  "envelope_sign cl json now new_v4 k inst payload secret ttl =
     (if trim secret = [] then Inl (Validation ''admin signing secret is required'')
      else if ttl = 0 \<or> ttl > 86400
      then Inl (Validation ''admin signed envelope ttl must be between 1 and 86400 seconds'')
      else
        rbind (hash_admin_payload cl json payload) (\<lambda>payload_hash.
          (let expires = now + secs (uint ttl);
               input = admin_signature_input cl k inst now expires new_v4 payload_hash
           in Inr \<lparr>en_schema_version = schema_version, en_kind = k, en_instance_id = inst,
                   en_issued_at = now, en_expires_at = expires, en_nonce = new_v4,
                   en_payload_hash = payload_hash, en_signature = sign_admin_payload cl secret input,
                   en_payload = payload\<rparr>)))"

definition envelope_verify :: "crypto_lib \<Rightarrow> 'p to_json \<Rightarrow> 'p envelope \<Rightarrow> string \<Rightarrow> domain_error + bool" where
  "envelope_verify cl json e secret =
     (if en_schema_version e \<noteq> schema_version then Inr False
      else
        rbind (hash_admin_payload cl json (en_payload e)) (\<lambda>current.
          if current \<noteq> en_payload_hash e then Inr False
          else Inr (sign_admin_payload cl secret
                 (admin_signature_input cl (en_kind e) (en_instance_id e) (en_issued_at e)
                    (en_expires_at e) (en_nonce e) (en_payload_hash e)) = en_signature e)))"

section \<open>Requests and responses of agents\<close>

record poll_request =
  pr_requested_at :: timestamp

record poll_response =
  po_assignment :: "command_assignment envelope option"
  po_pending_count :: "32 word"
  po_polled_at :: timestamp

record enrollment_token_request =
  et_token :: string
  et_instance :: instance_snapshot
  et_agent_secret :: string
  et_requested_at :: timestamp

record enrollment_response =
  er_accepted :: bool
  er_instance_id :: string
  er_issued_at :: timestamp
  er_message :: string

record heartbeat_payload =
  hb_instance :: instance_snapshot
  hb_generated_at :: timestamp
  hb_pending_command_count :: "32 word"

record heartbeat_accepted =
  ha_accepted :: bool
  ha_instance_id :: string
  ha_received_at :: timestamp
  ha_message :: string

record rotation_request =
  rr_new_agent_secret :: string
  rr_requested_at :: timestamp

record rotation_accepted =
  ra_accepted :: bool
  ra_instance_id :: string
  ra_rotated_at :: timestamp
  ra_message :: string

section \<open>Lemmas: the signed text\<close>

text \<open>
  What the envelopes rely on: no two texts with one hash or one code under one key, and printed times,
  identifiers and hashes without the separator.
\<close>

definition crypto_ok :: "crypto_lib \<Rightarrow> bool" where
  "crypto_ok cl \<longleftrightarrow>
     inj (cl_hash cl) \<and> (\<forall>k. inj (cl_keyed cl k)) \<and> inj (cl_time_text cl) \<and> inj (cl_uuid_text cl) \<and>
     (\<forall>s. CHR ''|'' \<notin> set (cl_hash cl s)) \<and> (\<forall>t. CHR ''|'' \<notin> set (cl_time_text cl t)) \<and>
     (\<forall>u. CHR ''|'' \<notin> set (cl_uuid_text cl u))"

lemma sep_left:
  "c \<notin> set a \<Longrightarrow> c \<notin> set b \<Longrightarrow> a @ c # r = b @ c # q \<longleftrightarrow> a = b \<and> r = q"
  by (metis append_same_eq list.inject same_append_eq split_on_append takeWhile_up_to)

lemma sep_right:
  assumes "c \<notin> set a" "c \<notin> set b"
  shows "r @ c # a = q @ c # b \<longleftrightarrow> r = q \<and> a = b"
proof -
  have "rev a @ c # rev r = rev b @ c # rev q \<longleftrightarrow> rev a = rev b \<and> rev r = rev q"
    using assms by (intro sep_left) simp_all
  then show ?thesis by (metis rev.simps(2) rev_append append.assoc append_Cons append_Nil rev_is_rev_conv)
qed

lemma kind_wire_name_inj: "kind_wire_name k = kind_wire_name k' \<longleftrightarrow> k = k'"
  by (cases k; cases k') simp_all

lemma kind_wire_name_sep: "CHR ''|'' \<notin> set (kind_wire_name k)"
  by (cases k) simp_all

text \<open>An instance identifier may contain the separator; the other fields around it do not.\<close>

lemma signature_input_inj:
  assumes "crypto_ok cl" "CHR ''|'' \<notin> set h" "CHR ''|'' \<notin> set h'"
  shows "admin_signature_input cl k i t u n h = admin_signature_input cl k' i' t' u' n' h' \<longleftrightarrow>
    k = k' \<and> i = i' \<and> t = t' \<and> u = u' \<and> n = n' \<and> h = h'"
proof
  let ?c = "CHR ''|''"
  have no: "?c \<notin> set (cl_time_text cl x)" "?c \<notin> set (cl_uuid_text cl m)" for x m
    using assms(1) by (auto simp: crypto_ok_def)
  have spelled: "admin_signature_input cl k i t u n h =
      schema_version @ ?c # kind_wire_name k @ ?c # (((i @ ?c # cl_time_text cl t) @ ?c # cl_time_text cl u)
        @ ?c # cl_uuid_text cl n) @ ?c # h" for k i t u n h
    by (simp add: admin_signature_input_def)
  assume "admin_signature_input cl k i t u n h = admin_signature_input cl k' i' t' u' n' h'"
  then have "kind_wire_name k @ ?c # (((i @ ?c # cl_time_text cl t) @ ?c # cl_time_text cl u) @ ?c # cl_uuid_text cl n) @ ?c # h
      = kind_wire_name k' @ ?c # (((i' @ ?c # cl_time_text cl t') @ ?c # cl_time_text cl u') @ ?c # cl_uuid_text cl n') @ ?c # h'"
    unfolding spelled by simp
  then have "kind_wire_name k = kind_wire_name k' \<and>
      (((i @ ?c # cl_time_text cl t) @ ?c # cl_time_text cl u) @ ?c # cl_uuid_text cl n) @ ?c # h =
      (((i' @ ?c # cl_time_text cl t') @ ?c # cl_time_text cl u') @ ?c # cl_uuid_text cl n') @ ?c # h'"
    by (simp only: sep_left [OF kind_wire_name_sep kind_wire_name_sep])
  then have "k = k'" "i = i'" "cl_time_text cl t = cl_time_text cl t'" "cl_time_text cl u = cl_time_text cl u'"
      "cl_uuid_text cl n = cl_uuid_text cl n'" "h = h'"
    by (simp_all only: sep_right [OF assms(2,3)] sep_right [OF no(1) no(1)] sep_right [OF no(2) no(2)] kind_wire_name_inj)
  with assms(1) show "k = k' \<and> i = i' \<and> t = t' \<and> u = u' \<and> n = n' \<and> h = h'"
    by (auto simp: crypto_ok_def inj_eq)
qed simp

lemma verified_iff:
  "envelope_verify cl json e secret = Inr True \<longleftrightarrow>
     en_schema_version e = schema_version \<and> (\<exists>bytes. json (en_payload e) = Inr bytes \<and> en_payload_hash e = cl_hash cl bytes) \<and>
     en_signature e = sign_admin_payload cl secret
       (admin_signature_input cl (en_kind e) (en_instance_id e) (en_issued_at e) (en_expires_at e) (en_nonce e) (en_payload_hash e))"
  by (auto simp: envelope_verify_def hash_admin_payload_def result_simps)

text \<open>What two envelopes have in common when one signature verifies both.\<close>

definition says_the_same :: "'p to_json \<Rightarrow> 'p envelope \<Rightarrow> 'p envelope \<Rightarrow> bool" where
  "says_the_same json e' e \<longleftrightarrow>
     en_schema_version e' = en_schema_version e \<and> en_kind e' = en_kind e \<and> en_instance_id e' = en_instance_id e \<and>
     en_issued_at e' = en_issued_at e \<and> en_expires_at e' = en_expires_at e \<and> en_nonce e' = en_nonce e \<and>
     en_payload_hash e' = en_payload_hash e \<and> json (en_payload e') = json (en_payload e)"

lemma same_signature_says_the_same:
  assumes "crypto_ok cl" "envelope_verify cl json e secret = Inr True" "envelope_verify cl json e' secret = Inr True"
    and "en_signature e' = en_signature e"
  shows "says_the_same json e' e"
proof -
  have h: "CHR ''|'' \<notin> set (en_payload_hash e)" "CHR ''|'' \<notin> set (en_payload_hash e')"
    using assms(1-3) by (auto simp: verified_iff crypto_ok_def)
  have inj: "inj (cl_keyed cl (trim secret))" using assms(1) by (simp add: crypto_ok_def)
  have "admin_signature_input cl (en_kind e') (en_instance_id e') (en_issued_at e') (en_expires_at e') (en_nonce e') (en_payload_hash e') =
      admin_signature_input cl (en_kind e) (en_instance_id e) (en_issued_at e) (en_expires_at e) (en_nonce e) (en_payload_hash e)"
    using assms(2-4) inj by (auto simp: verified_iff sign_admin_payload_def inj_eq)
  then have same: "en_kind e' = en_kind e" "en_instance_id e' = en_instance_id e" "en_issued_at e' = en_issued_at e"
      "en_expires_at e' = en_expires_at e" "en_nonce e' = en_nonce e" "en_payload_hash e' = en_payload_hash e"
    by (simp_all add: signature_input_inj [OF assms(1) h(2,1)])
  moreover have "json (en_payload e') = json (en_payload e)"
    using assms(1-3) same(6) by (auto simp: verified_iff crypto_ok_def inj_eq)
  ultimately show ?thesis using assms(2,3) by (simp add: says_the_same_def verified_iff)
qed

text \<open>Conversely a payload that is serialized to the same text is as good as the one that was signed.\<close>

lemma verify_reads_only_the_text:
  "json p = json (en_payload e) \<Longrightarrow> envelope_verify cl json (e\<lparr>en_payload := p\<rparr>) secret = envelope_verify cl json e secret"
  by (simp add: envelope_verify_def hash_admin_payload_def cong: if_cong)

lemma ttl_bounds:
  fixes ttl :: "32 word"
  assumes "ttl \<noteq> 0" "\<not> ttl > 86400"
  shows "0 < uint ttl" "uint ttl \<le> 86400"
proof -
  show "0 < uint ttl" using assms(1) by (simp add: uint_0_iff order_less_le)
  show "uint ttl \<le> 86400" using assms(2) by (simp add: not_less word_le_def)
qed

lemma signed_envelope_verifies:
  assumes "envelope_sign cl json now n k inst payload secret ttl = Inr e"
  shows "envelope_verify cl json e secret = Inr True \<and> en_payload e = payload \<and> en_kind e = k \<and>
    en_instance_id e = inst \<and> en_issued_at e = now \<and> now < en_expires_at e \<and> en_expires_at e \<le> now + secs 86400"
proof -
  have ttl: "ttl \<noteq> 0" "\<not> ttl > 86400" and e: "en_expires_at e = now + secs (uint ttl)"
    and ver: "envelope_verify cl json e secret = Inr True" "en_payload e = payload" "en_kind e = k"
      "en_instance_id e = inst" "en_issued_at e = now"
    using assms
    by (auto simp: envelope_sign_def verified_iff hash_admin_payload_def result_simps Let_def
      simp del: not_less split: if_splits)
  show ?thesis using ver e ttl_bounds [OF ttl] by (simp add: secs_def)
qed

section \<open>Properties\<close>

text \<open>
  C16. A signed envelope verifies under the signing secret, lives at most a day, and its signature is good for
  nothing else: an envelope that verifies under the same signature has the same kind, instance (which may
  contain the separator of the signed text), dates and nonce, and its payload is serialized to the same text.
  Fields of a payload that are not serialized are not protected (\<open>legacy_fields_are_not_signed\<close>). Assumed of the
  hash: no two texts have one hash or, under one key, one code.
\<close>

theorem signature_binds_the_signed_text:
  assumes "crypto_ok cl" "envelope_sign cl json now n k inst payload secret ttl = Inr e"
  shows "envelope_verify cl json e secret = Inr True \<and> now < en_expires_at e \<and> en_expires_at e \<le> now + secs 86400 \<and>
    (envelope_verify cl json e' secret = Inr True \<and> en_signature e' = en_signature e \<longrightarrow> says_the_same json e' e)"
  using signed_envelope_verifies [OF assms(2)] same_signature_says_the_same [OF assms(1), of json e secret e'] by simp

text \<open>
  A job's legacy fields are read from JSON but never written: an assignment with other values in them verifies
  under the same signature, and \<open>normalize\<close> puts them into the job's filters.
\<close>

definition serialized_job :: "job \<Rightarrow> job" where
  "serialized_job j = j\<lparr>legacy_include_extensions := [], legacy_recursive := None\<rparr>"

definition serialized_assignment :: "command_assignment \<Rightarrow> command_assignment" where
  "serialized_assignment a =
     a\<lparr>as_request := (as_request a)\<lparr>cr_job_payloads :=
       map (\<lambda>p. p\<lparr>jp_job := serialized_job (jp_job p)\<rparr>) (cr_job_payloads (as_request a))\<rparr>\<rparr>"

lemma legacy_fields_are_not_signed:
  assumes "\<And>a. json (serialized_assignment a) = json a" "envelope_verify cl json e secret = Inr True"
    and "serialized_assignment a = serialized_assignment (en_payload e)"
  shows "envelope_verify cl json (e\<lparr>en_payload := a\<rparr>) secret = Inr True"
  using verify_reads_only_the_text [of json a e cl secret] assms by metis

lemma legacy_field_changes_job:
  "serialized_job (j\<lparr>legacy_recursive := Some r\<rparr>) = serialized_job j \<and>
   recursive (filters (normalize tz now (j\<lparr>legacy_recursive := Some r\<rparr>))) = r"
  by (simp add: serialized_job_def normalize_def normalize_legacy_def Let_def split: option.split)

text \<open>The character codes stand for the hash, the key in front of them for the keyed hash.\<close>

definition demo_code :: "string \<Rightarrow> string" where
  "demo_code s = join_with ''.'' (''h'' # map (\<lambda>c. show_nat (code c)) s)"

definition demo_crypto :: crypto_lib where
  "demo_crypto = \<lparr>cl_hash = demo_code, cl_keyed = (\<lambda>k s. k @ demo_code s),
     cl_time_text = (\<lambda>t. show_nat (if t < 0 then 2 * nat (- t) + 1 else 2 * nat t)),
     cl_uuid_text = show_nat\<rparr>"

lemma show_nat_chars: "c \<in> set (show_nat n) \<Longrightarrow> is_digit c"
  using show_nat_digits by blast

lemma demo_code_split: "split_on (CHR ''.'') (demo_code s) = ''h'' # map (\<lambda>c. show_nat (code c)) s"
  unfolding demo_code_def
proof (rule split_on_join)
  show "\<forall>w \<in> set (''h'' # map (\<lambda>c. show_nat (code c)) s). CHR ''.'' \<notin> set w"
    by (auto dest!: show_nat_chars simp: is_digit_def code_def)
qed simp

lemma demo_code_inj: "demo_code s = demo_code t \<longleftrightarrow> s = t"
proof
  assume "demo_code s = demo_code t"
  then have "map (\<lambda>c. show_nat (code c)) s = map (\<lambda>c. show_nat (code c)) t"
    using demo_code_split [of s] demo_code_split [of t] by simp
  then show "s = t" by (rule map_injective) (simp add: inj_def code_eq_iff)
qed simp

lemma set_join_with: "set (join_with sep ws) \<subseteq> set sep \<union> \<Union> (set ` set ws)"
  by (induction sep ws rule: join_with.induct) auto

lemma demo_code_chars: "CHR ''|'' \<notin> set (demo_code s)"
  using set_join_with [of "''.''" "''h'' # map (\<lambda>c. show_nat (code c)) s"]
  by (auto simp: demo_code_def dest!: subsetD show_nat_chars simp: is_digit_def code_def)

lemma demo_crypto_ok: "crypto_ok demo_crypto"
proof -
  have bar: "CHR ''|'' \<notin> set (show_nat n)" for n
    by (auto dest!: show_nat_chars simp: is_digit_def code_def)
  have "inj (\<lambda>t :: int. show_nat (if t < 0 then 2 * nat (- t) + 1 else 2 * nat t))"
  proof (rule injI)
    fix t u :: int
    assume "show_nat (if t < 0 then 2 * nat (- t) + 1 else 2 * nat t) =
      show_nat (if u < 0 then 2 * nat (- u) + 1 else 2 * nat u)"
    then have "(if t < 0 then 2 * nat (- t) + 1 else 2 * nat t) = (if u < 0 then 2 * nat (- u) + 1 else 2 * nat u)"
      by (simp only: show_nat_inj)
    then show "t = u" by (cases "t < 0"; cases "u < 0"; simp add: Suc_double_not_eq_double double_not_eq_Suc_double)
  qed
  then show ?thesis
    using bar by (simp add: crypto_ok_def demo_crypto_def inj_def demo_code_inj demo_code_chars)
qed

theorem signature_binds_the_signed_text_witness:
  "\<exists>e. envelope_sign demo_crypto Inr 5 1 Command ''agent|1'' ''payload'' ''key'' 300 = Inr e \<and>
     envelope_verify demo_crypto Inr e ''key'' = Inr True \<and>
     envelope_verify demo_crypto Inr (e\<lparr>en_expires_at := 0\<rparr>) ''key'' \<noteq> Inr True"
proof -
  have "is_ok (envelope_sign demo_crypto Inr 5 1 Command ''agent|1'' ''payload'' ''key'' 300)"
    by (simp add: envelope_sign_def hash_admin_payload_def Let_def trim_eq_Nil is_ws_def code_def)
  then obtain e where e: "envelope_sign demo_crypto Inr 5 1 Command ''agent|1'' ''payload'' ''key'' 300 = Inr e"
    by (auto simp: is_ok_iff)
  have ver: "envelope_verify demo_crypto Inr e ''key'' = Inr True"
    using signature_binds_the_signed_text [OF demo_crypto_ok e] by blast
  have "en_expires_at e \<noteq> 0" using signature_binds_the_signed_text [OF demo_crypto_ok e] by fastforce
  then have "\<not> says_the_same Inr (e\<lparr>en_expires_at := 0\<rparr>) e" by (simp add: says_the_same_def)
  then have "envelope_verify demo_crypto Inr (e\<lparr>en_expires_at := 0\<rparr>) ''key'' \<noteq> Inr True"
    using signature_binds_the_signed_text [OF demo_crypto_ok e, of "e\<lparr>en_expires_at := 0\<rparr>"] by fastforce
  with e ver show ?thesis by blast
qed

end
