(* ===== verification/Admin_Commands.thy ===== *)
theory Admin_Commands
  imports Admin_Domain File_Selection Hash_Map
begin

text \<open>
  What the two stores of the admin server share (\<open>crates/autoflow-admin-server/src/lib.rs\<close>): the errors
  with their HTTP status and code, the normalization of input, the texts stored for statuses, paging of
  the central audit, and how the deliveries of a command give its status and result. The locale
  \<open>command_store\<close> states what the server needs of a store of commands and their deliveries; the
  theories \<open>Admin_Memory\<close> and \<open>Admin_Sqlite\<close> interpret it.
\<close>

section \<open>Errors\<close>

datatype admin_server_error =
    MissingInstanceId
  | MissingAgentSecret
  | MissingEnrollmentToken
  | MissingOperatorToken
  | EnrollmentNotConfigured
  | InvalidEnrollmentToken
  | OperatorAuthRequired
  | OperatorForbidden
  | AgentNotRegistered string
  | MissingMachineGroupName
  | MachineGroupNotFound uuid
  | NoBatchTargets
  | CommandNotFound uuid
  | CommandPayloadMismatch
  | CommandTargetMismatch
  | CommandTargetNotFound uuid string
  | CommandNotRunning uuid string
  | InvalidEnvelopeKind
  | EnvelopeInstanceMismatch
  | PayloadInstanceMismatch
  | ExpiredEnvelope
  | InvalidSignature
  | EnvelopeValidation string
  | ServerDatabase string
  | StateUnavailable

definition from_domain_error :: "domain_error \<Rightarrow> admin_server_error" where
  "from_domain_error e = EnvelopeValidation (error_text e)"

fun error_status_code :: "admin_server_error \<Rightarrow> nat" where
  "error_status_code MissingInstanceId = 400"
| "error_status_code MissingAgentSecret = 400"
| "error_status_code MissingEnrollmentToken = 400"
| "error_status_code MissingOperatorToken = 400"
| "error_status_code MissingMachineGroupName = 400"
| "error_status_code NoBatchTargets = 400"
| "error_status_code CommandPayloadMismatch = 400"
| "error_status_code CommandTargetMismatch = 400"
| "error_status_code InvalidEnvelopeKind = 400"
| "error_status_code EnvelopeInstanceMismatch = 400"
| "error_status_code PayloadInstanceMismatch = 400"
| "error_status_code ExpiredEnvelope = 400"
| "error_status_code (EnvelopeValidation _) = 400"
| "error_status_code (AgentNotRegistered _) = 404"
| "error_status_code (CommandNotFound _) = 404"
| "error_status_code (CommandTargetNotFound _ _) = 404"
| "error_status_code (MachineGroupNotFound _) = 404"
| "error_status_code (CommandNotRunning _ _) = 409"
| "error_status_code EnrollmentNotConfigured = 401"
| "error_status_code InvalidEnrollmentToken = 401"
| "error_status_code OperatorAuthRequired = 401"
| "error_status_code InvalidSignature = 401"
| "error_status_code OperatorForbidden = 403"
| "error_status_code (ServerDatabase _) = 500"
| "error_status_code StateUnavailable = 500"

fun error_code :: "admin_server_error \<Rightarrow> string" where
  "error_code MissingInstanceId = ''missingInstanceId''"
| "error_code MissingAgentSecret = ''missingAgentSecret''"
| "error_code MissingEnrollmentToken = ''missingEnrollmentToken''"
| "error_code MissingOperatorToken = ''missingOperatorToken''"
| "error_code EnrollmentNotConfigured = ''enrollmentNotConfigured''"
| "error_code InvalidEnrollmentToken = ''invalidEnrollmentToken''"
| "error_code OperatorAuthRequired = ''operatorAuthRequired''"
| "error_code OperatorForbidden = ''operatorForbidden''"
| "error_code (AgentNotRegistered _) = ''agentNotRegistered''"
| "error_code MissingMachineGroupName = ''missingMachineGroupName''"
| "error_code (MachineGroupNotFound _) = ''machineGroupNotFound''"
| "error_code NoBatchTargets = ''noBatchTargets''"
| "error_code (CommandNotFound _) = ''commandNotFound''"
| "error_code CommandPayloadMismatch = ''commandPayloadMismatch''"
| "error_code CommandTargetMismatch = ''commandTargetMismatch''"
| "error_code (CommandTargetNotFound _ _) = ''commandTargetNotFound''"
| "error_code (CommandNotRunning _ _) = ''commandNotRunning''"
| "error_code InvalidEnvelopeKind = ''invalidEnvelopeKind''"
| "error_code EnvelopeInstanceMismatch = ''envelopeInstanceMismatch''"
| "error_code PayloadInstanceMismatch = ''payloadInstanceMismatch''"
| "error_code ExpiredEnvelope = ''expiredEnvelope''"
| "error_code InvalidSignature = ''invalidSignature''"
| "error_code (EnvelopeValidation _) = ''envelopeValidation''"
| "error_code (ServerDatabase _) = ''database''"
| "error_code StateUnavailable = ''stateUnavailable''"

section \<open>Normalization of input\<close>

definition normalize_instance_id :: "string \<Rightarrow> admin_server_error + string" where
  "normalize_instance_id s = (if trim s = [] then Inl MissingInstanceId else Inr (trim s))"

definition normalize_required_secret :: "string \<Rightarrow> admin_server_error \<Rightarrow> admin_server_error + string" where
  "normalize_required_secret s missing = (if trim s = [] then Inl missing else Inr (trim s))"

definition normalize_agent_secret :: "string \<Rightarrow> string \<Rightarrow> admin_server_error + string \<times> string" where
  "normalize_agent_secret inst secret =
     rbind (normalize_instance_id inst) (\<lambda>inst'.
     rbind (normalize_required_secret secret MissingAgentSecret) (\<lambda>secret'. Inr (inst', secret')))"

definition normalize_group_name :: "string \<Rightarrow> admin_server_error + string" where
  "normalize_group_name s = (if trim s = [] then Inl MissingMachineGroupName else Inr (trim s))"

definition push_instance_id :: "string list \<Rightarrow> string \<Rightarrow> string list" where
  "push_instance_id normalized s =
     (let inst = trim s in if inst = [] \<or> inst \<in> set normalized then normalized else normalized @ [inst])"

definition normalize_instance_ids :: "string list \<Rightarrow> string list" where
  "normalize_instance_ids ids = foldl push_instance_id [] ids"

section \<open>Stored texts\<close>

fun operator_role_to_wire :: "operator_role \<Rightarrow> string" where
  "operator_role_to_wire Viewer = ''viewer''"
| "operator_role_to_wire Operator = ''operator''"
| "operator_role_to_wire Admin = ''admin''"

definition operator_role_from_wire :: "string \<Rightarrow> admin_server_error + operator_role" where
  "operator_role_from_wire s =
     (if s = ''viewer'' then Inr Viewer else if s = ''operator'' then Inr Operator
      else if s = ''admin'' then Inr Admin
      else Inl (ServerDatabase (''unknown admin operator role: '' @ s)))"

fun central_audit_status_to_wire :: "central_audit_status \<Rightarrow> string" where
  "central_audit_status_to_wire AuditAccepted = ''accepted''"
| "central_audit_status_to_wire AuditRejected = ''rejected''"
| "central_audit_status_to_wire AuditFailed = ''failed''"

definition central_audit_status_from_wire :: "string \<Rightarrow> admin_server_error + central_audit_status" where
  "central_audit_status_from_wire s =
     (if s = ''accepted'' then Inr AuditAccepted else if s = ''rejected'' then Inr AuditRejected
      else if s = ''failed'' then Inr AuditFailed
      else Inl (ServerDatabase (''unknown admin central audit status: '' @ s)))"

fun command_status_to_wire :: "command_status \<Rightarrow> string" where
  "command_status_to_wire Pending = ''pending''"
| "command_status_to_wire Running = ''running''"
| "command_status_to_wire Completed = ''completed''"
| "command_status_to_wire Failed = ''failed''"
| "command_status_to_wire Skipped = ''skipped''"

definition command_status_from_wire :: "string \<Rightarrow> admin_server_error + command_status" where
  "command_status_from_wire s =
     (if s = ''pending'' then Inr Pending else if s = ''running'' then Inr Running
      else if s = ''completed'' then Inr Completed else if s = ''failed'' then Inr Failed
      else if s = ''skipped'' then Inr Skipped
      else Inl (ServerDatabase (''unknown admin command status: '' @ s)))"

section \<open>The central audit\<close>

definition central_audit_entry_matches :: "central_audit_entry \<Rightarrow> central_audit_query \<Rightarrow> bool" where
  "central_audit_entry_matches e q \<longleftrightarrow>
     (case cq_actor q of None \<Rightarrow> True | Some a \<Rightarrow> lowercase (ce_actor e) = lowercase a) \<and>
     (case cq_action q of None \<Rightarrow> True | Some a \<Rightarrow> lowercase (ce_action e) = lowercase a) \<and>
     (case cq_status q of None \<Rightarrow> True | Some s \<Rightarrow> ce_status e = s) \<and>
     (case cq_search q of
        None \<Rightarrow> True
      | Some s \<Rightarrow>
          contains (lowercase (join_with '' '' [ce_actor e, ce_action e, ce_target e, ce_message e,
              case ce_details e of Some d \<Rightarrow> d | None \<Rightarrow> []])) (lowercase s))"

definition filter_central_audit_entries ::
    "central_audit_entry list \<Rightarrow> central_audit_query \<Rightarrow> central_audit_entry list" where
  "filter_central_audit_entries es q = filter (\<lambda>e. central_audit_entry_matches e q) es"

definition page_central_audit_entries ::
    "central_audit_entry list \<Rightarrow> central_audit_query \<Rightarrow> central_audit_page" where
  "page_central_audit_entries es q =
     \<lparr>cp_entries = take (nat (cq_limit q)) (drop (nat (cq_offset q)) es), cp_total = int (length es),
      cp_limit = cq_limit q, cp_offset = cq_offset q\<rparr>"

section \<open>Deliveries\<close>

record delivery_state =
  ds_target_instance_id :: string
  ds_status :: command_status
  ds_message :: "string option"

fun completion_status_to_command_status :: "completion_status \<Rightarrow> command_status" where
  "completion_status_to_command_status DoneCompleted = Completed"
| "completion_status_to_command_status DoneFailed = Failed"
| "completion_status_to_command_status DoneSkipped = Skipped"

definition completion_message :: "completion_status \<Rightarrow> string \<Rightarrow> string" where
  "completion_message s message =
     (if trim message \<noteq> [] then trim message
      else (case s of DoneCompleted \<Rightarrow> ''Comando concluido'' | DoneFailed \<Rightarrow> ''Comando falhou''
            | DoneSkipped \<Rightarrow> ''Comando ignorado''))"

definition aggregate_command_status :: "delivery_state list \<Rightarrow> command_status" where
  "aggregate_command_status states =
     (if list_ex (\<lambda>s. ds_status s = Pending \<or> ds_status s = Running) states then Running
      else if list_ex (\<lambda>s. ds_status s = Failed) states then Failed
      else if list_all (\<lambda>s. ds_status s = Skipped) states then Skipped
      else Completed)"

definition target_result_from_delivery :: "delivery_state \<Rightarrow> target_result option" where
  "target_result_from_delivery d =
     (let result = (\<lambda>s. Some \<lparr>tr_target_instance_id = ds_target_instance_id d, tr_status = s,
            tr_message = (case ds_message d of Some m \<Rightarrow> m | None \<Rightarrow> ''Comando finalizado'')\<rparr>)
      in case ds_status d of
           Completed \<Rightarrow> result Accepted
         | Failed \<Rightarrow> result TargetError
         | Skipped \<Rightarrow> result TargetSkipped
         | _ \<Rightarrow> None)"

definition command_result_from_deliveries :: "command_kind \<Rightarrow> delivery_state list \<Rightarrow> command_result option" where
  "command_result_from_deliveries k states =
     (let results = List.map_filter target_result_from_delivery states in
      if results = [] then None
      else Some \<lparr>res_accepted = \<not> list_ex (\<lambda>r. tr_status r = TargetError) results, res_command = k,
                 res_results = results\<rparr>)"

definition queued_batch_result :: "command_request \<Rightarrow> string list \<Rightarrow> command_result" where
  "queued_batch_result request targets =
     \<lparr>res_accepted = True, res_command = cr_kind request,
      res_results = map (\<lambda>t. \<lparr>tr_target_instance_id = t, tr_status = Accepted,
        tr_message = ''Comando enfileirado no servidor admin''\<rparr>) targets\<rparr>"

definition command_assignment_for :: "queued_command \<Rightarrow> string \<Rightarrow> timestamp \<Rightarrow> command_assignment" where
  "command_assignment_for c inst assigned_at =
     \<lparr>as_command_id = qc_id c, as_target_instance_id = inst,
      as_request = (qc_request c)\<lparr>cr_target_instance_ids := [inst]\<rparr>, as_assigned_at = assigned_at\<rparr>"

section \<open>Lemmas\<close>

lemma push_instance_id_simps:
  "push_instance_id ns s = (if trim s = [] \<or> trim s \<in> set ns then ns else ns @ [trim s])"
  by (simp add: push_instance_id_def Let_def)

lemma push_instance_ids:
  assumes "distinct ns" "list_all (\<lambda>n. n \<noteq> [] \<and> trim n = n) ns"
  shows "distinct (foldl push_instance_id ns ids) \<and>
    list_all (\<lambda>n. n \<noteq> [] \<and> trim n = n) (foldl push_instance_id ns ids) \<and>
    set (foldl push_instance_id ns ids) = set ns \<union> (trim ` set ids - {[]})"
  using assms by (induction ids arbitrary: ns) (auto simp: push_instance_id_simps)

lemma push_instance_ids_id:
  "distinct (ns @ ids) \<Longrightarrow> list_all (\<lambda>n. n \<noteq> [] \<and> trim n = n) ids \<Longrightarrow> foldl push_instance_id ns ids = ns @ ids"
  by (induction ids arbitrary: ns) (auto simp: push_instance_id_simps)

lemma command_status_wire [simp]:
  "command_status_from_wire (command_status_to_wire s) = Inr s"
  by (cases s) (simp_all add: command_status_from_wire_def)

lemma command_status_to_wire_inj [simp]: "command_status_to_wire s = command_status_to_wire t \<longleftrightarrow> s = t"
  by (cases s; cases t) simp_all

lemma central_audit_status_wire [simp]:
  "central_audit_status_from_wire (central_audit_status_to_wire s) = Inr s"
  by (cases s) (simp_all add: central_audit_status_from_wire_def)

lemma operator_role_wire [simp]: "operator_role_from_wire (operator_role_to_wire r) = Inr r"
  by (cases r) (simp_all add: operator_role_from_wire_def)

text \<open>The status of a command, from the set of the statuses of its deliveries.\<close>

definition status_of_set :: "command_status set \<Rightarrow> command_status" where
  "status_of_set S =
     (if Pending \<in> S \<or> Running \<in> S then Running else if Failed \<in> S then Failed
      else if S \<subseteq> {Skipped} then Skipped else Completed)"

lemma aggregate_is_status_of_set: "aggregate_command_status states = status_of_set (ds_status ` set states)"
proof -
  have "list_ex (\<lambda>s. ds_status s = x) states \<longleftrightarrow> x \<in> ds_status ` set states" for x
    by (auto simp: list_ex_iff)
  moreover have "list_ex (\<lambda>s. P s \<or> Q s) states \<longleftrightarrow> list_ex P states \<or> list_ex Q states" for P Q :: "delivery_state \<Rightarrow> bool"
    by (auto simp: list_ex_iff)
  moreover have "list_all (\<lambda>s. ds_status s = Skipped) states \<longleftrightarrow> ds_status ` set states \<subseteq> {Skipped}"
    by (auto simp: list_all_iff)
  ultimately show ?thesis by (simp add: aggregate_command_status_def status_of_set_def)
qed

definition terminal :: "command_status \<Rightarrow> bool" where
  "terminal s \<longleftrightarrow> s = Completed \<or> s = Failed \<or> s = Skipped"

lemma terminal_completion: "terminal (completion_status_to_command_status s)"
  by (cases s) (simp_all add: terminal_def)

section \<open>The store of commands\<close>

text \<open>
  \<open>status s c t\<close> is the status of the delivery of command \<open>c\<close> to the instance \<open>t\<close>, \<open>None\<close> when there is
  none; \<open>command s c\<close> is the command. A store is saved new commands, gives an agent its next pending
  command, and records what an agent reports.
\<close>

locale command_store =
  fixes status :: "'s \<Rightarrow> uuid \<Rightarrow> string \<Rightarrow> command_status option"
    and command :: "'s \<Rightarrow> uuid \<Rightarrow> queued_command option"
    and save :: "queued_command \<Rightarrow> string list \<Rightarrow> 's \<Rightarrow> admin_server_error + 's"
    and assign :: "string \<Rightarrow> timestamp \<Rightarrow> 's \<Rightarrow> (admin_server_error + command_assignment option) \<times> 's"
    and complete :: "string \<Rightarrow> uuid \<Rightarrow> completion_request \<Rightarrow> timestamp \<Rightarrow> 's \<Rightarrow> (admin_server_error + queued_command) \<times> 's"
    and invar :: "'s \<Rightarrow> bool"
  assumes save_new: "invar s \<Longrightarrow> command s (qc_id new) = None \<Longrightarrow> distinct targets \<Longrightarrow>
      \<exists>s'. save new targets s = Inr s' \<and> invar s' \<and> command s' = (command s)(qc_id new \<mapsto> new) \<and>
        status s' = (status s)(qc_id new := (\<lambda>t. if t \<in> set targets then Some Pending else None))"
    and assign_none: "invar s \<Longrightarrow> assign inst now s = (Inr None, s') \<Longrightarrow>
      s' = s \<and> (\<forall>c. status s c inst \<noteq> Some Pending)"
    and assign_some: "invar s \<Longrightarrow> assign inst now s = (Inr (Some a), s') \<Longrightarrow>
      as_target_instance_id a = inst \<and> status s (as_command_id a) inst = Some Pending \<and> invar s' \<and>
      status s' = (status s)(as_command_id a := (status s (as_command_id a))(inst \<mapsto> Running)) \<and>
      (\<exists>c. command s (as_command_id a) = Some c \<and>
        command s' = (command s)(as_command_id a \<mapsto> c\<lparr>qc_status := Running, qc_updated_at := now\<rparr>))"
    and assign_ok: "invar s \<Longrightarrow> is_ok (fst (assign inst now s))"
    and complete_ok: "invar s \<Longrightarrow> complete inst c req now s = (Inr qc, s') \<Longrightarrow>
      status s c inst = Some Running \<and> invar s' \<and>
      status s' = (status s)(c := (status s c)(inst \<mapsto> completion_status_to_command_status (co_status req))) \<and>
      command s' = (command s)(c \<mapsto> qc) \<and> qc_status qc = status_of_set {st. \<exists>t. status s' c t = Some st}"
    and complete_error: "invar s \<Longrightarrow> complete inst c req now s = (Inl e, s') \<Longrightarrow>
      s' = s \<and> status s c inst \<noteq> Some Running"
    and status_command: "invar s \<Longrightarrow> status s c t = Some st \<Longrightarrow> command s c \<noteq> None"
begin

text \<open>What the server asks of the store, as steps. A command is saved under a fresh identifier, pending.\<close>

inductive step :: "'s \<Rightarrow> 's \<Rightarrow> bool" where
  step_save: "command s (qc_id c) = None \<Longrightarrow> qc_status c = Pending \<Longrightarrow> targets \<noteq> [] \<Longrightarrow> distinct targets \<Longrightarrow>
    save c targets s = Inr s' \<Longrightarrow> step s s'"
| step_assign: "assign inst now s = (r, s') \<Longrightarrow> step s s'"
| step_complete: "complete inst c req now s = (r', s') \<Longrightarrow> step s s'"

inductive_cases stepE: "step s s'"

text \<open>The command's status is that of its deliveries, until the first of them is taken.\<close>

definition consistent :: "'s \<Rightarrow> bool" where
  "consistent s \<longleftrightarrow>
     (\<forall>c qc. command s c = Some qc \<longrightarrow>
        (\<exists>t. status s c t \<noteq> None) \<and>
        qc_status qc = (if \<forall>t st. status s c t = Some st \<longrightarrow> st = Pending then Pending
                        else status_of_set {st. \<exists>t. status s c t = Some st}))"

lemma step_kinds:
  assumes "invar s" "step s s'"
  obtains (unchanged) "s' = s"
  | (saved) c targets where "command s (qc_id c) = None" "qc_status c = Pending" "targets \<noteq> []" "invar s'"
      "command s' = (command s)(qc_id c \<mapsto> c)"
      "status s' = (status s)(qc_id c := (\<lambda>t. if t \<in> set targets then Some Pending else None))"
  | (moved) c inst old new qc qc' where "status s c inst = Some old" "command s c = Some qc" "invar s'"
      "old = Pending \<and> new = Running \<and> qc_status qc' = Running \<or>
       old = Running \<and> terminal new \<and> qc_status qc' = status_of_set {st. \<exists>t. status s' c t = Some st}"
      "status s' = (status s)(c := (status s c)(inst \<mapsto> new))" "command s' = (command s)(c \<mapsto> qc')"
  using assms(2)
proof cases
  case (step_save c targets)
  with save_new [OF assms(1) step_save(1,4)] saved show thesis by auto
next
  case (step_assign inst now r)
  then obtain ao where r: "r = Inr ao" using assign_ok [OF assms(1), of inst now] by (auto simp: is_ok_iff)
  show thesis
  proof (cases ao)
    case None
    with assign_none [OF assms(1)] step_assign r unchanged show thesis by blast
  next
    case (Some a)
    with assign_some [OF assms(1), of inst now a s'] step_assign r obtain c where
        a: "status s (as_command_id a) inst = Some Pending" "invar s'"
          "status s' = (status s)(as_command_id a := (status s (as_command_id a))(inst \<mapsto> Running))"
          "command s (as_command_id a) = Some c"
          "command s' = (command s)(as_command_id a \<mapsto> c\<lparr>qc_status := Running, qc_updated_at := now\<rparr>)" by auto
    show thesis by (rule moved [OF a(1,4,2) _ a(3,5)]) simp
  qed
next
  case (step_complete inst c req now r)
  show thesis
  proof (cases r)
    case (Inl e)
    with complete_error [OF assms(1)] step_complete unchanged show thesis by blast
  next
    case (Inr qc)
    with complete_ok [OF assms(1), of inst c req now qc s'] step_complete have
        a: "status s c inst = Some Running" "invar s'"
          "status s' = (status s)(c := (status s c)(inst \<mapsto> completion_status_to_command_status (co_status req)))"
          "command s' = (command s)(c \<mapsto> qc)" "qc_status qc = status_of_set {st. \<exists>t. status s' c t = Some st}" by auto
    obtain old where "command s c = Some old" using status_command [OF assms(1) a(1)] by auto
    then show thesis by (rule moved [OF a(1) _ a(2) _ a(3,4)]) (simp add: a(5) terminal_completion)
  qed
qed

lemma step_invar:
  assumes "invar s" "step s s'"
  shows "invar s'"
  using assms by (cases rule: step_kinds) (use assms(1) in auto)

lemma step_consistent:
  assumes "invar s" "consistent s" "step s s'"
  shows "consistent s'"
  using assms(1,3)
proof (cases rule: step_kinds)
  case unchanged
  with assms(2) show ?thesis by simp
next
  case (saved c targets)
  have "\<exists>t. t \<in> set targets" using saved(3) by (cases targets) auto
  with assms(2) saved show ?thesis unfolding consistent_def by (auto split: if_splits)
next
  case (moved c inst old new qc qc')
  have here: "status s' c inst = Some new" using moved(5) by simp
  have "qc_status qc' = status_of_set {st. \<exists>t. status s' c t = Some st}"
  proof (cases "new = Running")
    case True
    with here have "status_of_set {st. \<exists>t. status s' c t = Some st} = Running" by (auto simp: status_of_set_def)
    with True moved(4) show ?thesis by (auto simp: terminal_def)
  qed (use moved(4) in auto)
  moreover have "new \<noteq> Pending" using moved(4) by (auto simp: terminal_def)
  ultimately have this_one: "(\<exists>t. status s' c t \<noteq> None) \<and>
      qc_status qc' = (if \<forall>t st. status s' c t = Some st \<longrightarrow> st = Pending then Pending
                       else status_of_set {st. \<exists>t. status s' c t = Some st})"
    using here by auto
  show ?thesis
    unfolding consistent_def
  proof (intro allI impI)
    fix d q
    assume d: "command s' d = Some q"
    show "(\<exists>t. status s' d t \<noteq> None) \<and>
      qc_status q = (if \<forall>t st. status s' d t = Some st \<longrightarrow> st = Pending then Pending
                     else status_of_set {st. \<exists>t. status s' d t = Some st})"
    proof (cases "d = c")
      case True
      then have "q = qc'" using d moved(6) by simp
      with this_one True show ?thesis by (simp only:)
    next
      case False
      then have "command s d = Some q" and same: "status s' d = status s d" using d moved(5,6) by simp_all
      with assms(2) show ?thesis unfolding consistent_def same by blast
    qed
  qed
qed

text \<open>A delivery only moves forward: what is reported of it stays.\<close>

lemma step_forward:
  assumes "invar s" "step s s'" "status s c t = Some st"
  shows "\<exists>st'. status s' c t = Some st' \<and> (st' = st \<or> st = Pending \<and> st' = Running \<or> st = Running \<and> terminal st')"
  using assms(1,2)
proof (cases rule: step_kinds)
  case (saved k targets)
  then have "c \<noteq> qc_id k" using status_command [OF assms(1,3)] by auto
  with saved assms(3) show ?thesis by simp
qed (use assms(3) in \<open>auto split: if_splits\<close>)

lemma steps_forward:
  assumes "step\<^sup>*\<^sup>* s s'" "invar s" "status s c t = Some st" "terminal st"
  shows "invar s' \<and> status s' c t = Some st"
  using assms
proof (induction rule: rtranclp_induct)
  case (step y z)
  then have y: "invar y" "status y c t = Some st" by auto
  from step_forward [OF y(1) step.hyps(2) y(2)] assms(4) step_invar [OF y(1) step.hyps(2)] show ?case
    by (auto simp: terminal_def)
qed simp

lemma completed_once:
  assumes "invar s" "complete inst c req now s = (Inr qc, s1)" "step\<^sup>*\<^sup>* s1 s2"
  shows "\<exists>e. complete inst c req' now' s2 = (Inl e, s2)"
proof -
  from complete_ok [OF assms(1,2)] have s1: "invar s1"
      "status s1 c inst = Some (completion_status_to_command_status (co_status req))" by auto
  from steps_forward [OF assms(3) s1 terminal_completion] have s2: "invar s2"
      "status s2 c inst = Some (completion_status_to_command_status (co_status req))" by auto
  obtain r s3 where r: "complete inst c req' now' s2 = (r, s3)" by (metis surj_pair)
  show ?thesis
  proof (cases r)
    case (Inl e)
    with r complete_error [OF s2(1), of inst c req' now' e s3] show ?thesis by auto
  next
    case (Inr q)
    with r complete_ok [OF s2(1), of inst c req' now' q s3] s2(2) terminal_completion [of "co_status req"]
    show ?thesis by (auto simp: terminal_def)
  qed
qed

lemma reachable_consistent: "step\<^sup>*\<^sup>* s s' \<Longrightarrow> invar s \<Longrightarrow> consistent s \<Longrightarrow> invar s' \<and> consistent s'"
  by (induction rule: rtranclp_induct) (auto intro: step_invar step_consistent)

end

section \<open>Properties\<close>

text \<open>
  The targets of a command, and the members of a group, are the trimmed, non-empty identifiers
  of the request, each once: an agent is never given one command twice through two spellings. Normalizing
  again changes nothing.
\<close>

lemma instance_ids_are_normal:
  "distinct (normalize_instance_ids ids) \<and> set (normalize_instance_ids ids) = trim ` set ids - {[]} \<and>
   normalize_instance_ids (normalize_instance_ids ids) = normalize_instance_ids ids"
proof -
  have all: "distinct (normalize_instance_ids ids) \<and>
      list_all (\<lambda>n. n \<noteq> [] \<and> trim n = n) (normalize_instance_ids ids) \<and>
      set (normalize_instance_ids ids) = trim ` set ids - {[]}"
    unfolding normalize_instance_ids_def using push_instance_ids [of "[]" ids] by simp
  then have "normalize_instance_ids (normalize_instance_ids ids) = normalize_instance_ids ids"
    using push_instance_ids_id [of "[]" "normalize_instance_ids ids"]
    by (simp add: normalize_instance_ids_def [of "normalize_instance_ids ids"])
  with all show ?thesis by simp
qed

end
