(* ===== verification/Admin_Memory.thy ===== *)
theory Admin_Memory
  imports Admin_Commands
begin

text \<open>
  \<open>MemoryAdminServerStore\<close> of \<open>crates/autoflow-admin-server/src/lib.rs\<close>, with \<open>command_store\<close>
  interpreted on it. Its locks are taken for a whole operation, so an operation is atomic; a poisoned
  lock is not modelled.
\<close>

record command_delivery =
  dl_command_id :: uuid
  dl_target_instance_id :: string
  dl_status :: command_status
  dl_assigned_at :: "timestamp option"
  dl_completed_at :: "timestamp option"
  dl_message :: "string option"

record memory_store =
  am_instances :: "(string, instance_snapshot) hash_map"
  am_agent_secrets :: "(string, string) hash_map"
  am_machine_groups :: "(uuid, machine_group) hash_map"
  am_command_queue :: "(uuid, queued_command) hash_map"
  am_command_deliveries :: "command_delivery list"
  am_central_audit :: "central_audit_entry list"

definition memory_empty :: memory_store where
  "memory_empty = \<lparr>am_instances = [], am_agent_secrets = [], am_machine_groups = [], am_command_queue = [],
     am_command_deliveries = [], am_central_audit = []\<rparr>"

fun update_first :: "('a \<Rightarrow> bool) \<Rightarrow> ('a \<Rightarrow> 'a) \<Rightarrow> 'a list \<Rightarrow> 'a list" where
  "update_first P f [] = []"
| "update_first P f (x # xs) = (if P x then f x # xs else x # update_first P f xs)"

section \<open>Operations\<close>

definition mem_register_agent_secret :: "string \<Rightarrow> string \<Rightarrow> memory_store \<Rightarrow> memory_store" where
  "mem_register_agent_secret inst secret m =
     m\<lparr>am_agent_secrets := hm_insert inst secret (am_agent_secrets m)\<rparr>"

definition mem_list_instances :: "memory_store \<Rightarrow> instance_snapshot list" where
  "mem_list_instances m = hm_values (am_instances m)"

definition mem_save_instance :: "instance_snapshot \<Rightarrow> memory_store \<Rightarrow> memory_store" where
  "mem_save_instance i m = m\<lparr>am_instances := hm_insert (is_instance_id i) i (am_instances m)\<rparr>"

definition mem_agent_secret :: "string \<Rightarrow> memory_store \<Rightarrow> admin_server_error + string" where
  "mem_agent_secret inst m =
     (case hm_get inst (am_agent_secrets m) of Some s \<Rightarrow> Inr s | None \<Rightarrow> Inl (AgentNotRegistered inst))"

definition mem_save_machine_group :: "machine_group \<Rightarrow> memory_store \<Rightarrow> memory_store" where
  "mem_save_machine_group g m = m\<lparr>am_machine_groups := hm_insert (mg_id g) g (am_machine_groups m)\<rparr>"

definition mem_list_machine_groups :: "memory_store \<Rightarrow> machine_group list" where
  "mem_list_machine_groups m = hm_values (am_machine_groups m)"

definition pending_delivery :: "uuid \<Rightarrow> string \<Rightarrow> command_delivery" where
  "pending_delivery cid t =
     \<lparr>dl_command_id = cid, dl_target_instance_id = t, dl_status = Pending, dl_assigned_at = None,
      dl_completed_at = None, dl_message = None\<rparr>"

definition mem_save_batch_command :: "queued_command \<Rightarrow> string list \<Rightarrow> memory_store \<Rightarrow> admin_server_error + memory_store" where
  "mem_save_batch_command c targets m =
     Inr (m\<lparr>am_command_queue := hm_insert (qc_id c) c (am_command_queue m),
            am_command_deliveries := am_command_deliveries m @ map (pending_delivery (qc_id c)) targets\<rparr>)"

definition mem_list_queued_commands :: "memory_store \<Rightarrow> queued_command list" where
  "mem_list_queued_commands m = hm_values (am_command_queue m)"

definition waits_for :: "string \<Rightarrow> command_delivery \<Rightarrow> bool" where
  "waits_for inst d \<longleftrightarrow> dl_target_instance_id d = inst \<and> dl_status d = Pending"

definition mem_assign_next_command ::
    "string \<Rightarrow> timestamp \<Rightarrow> memory_store \<Rightarrow> (admin_server_error + command_assignment option) \<times> memory_store" where
  "mem_assign_next_command inst assigned_at m =
     (case find (waits_for inst) (am_command_deliveries m) of
        None \<Rightarrow> (Inr None, m)
      | Some d \<Rightarrow>
          (let m1 = m\<lparr>am_command_deliveries := update_first (waits_for inst)
                  (\<lambda>d. d\<lparr>dl_status := Running, dl_assigned_at := Some assigned_at\<rparr>) (am_command_deliveries m)\<rparr>
           in case hm_get (dl_command_id d) (am_command_queue m1) of
                None \<Rightarrow> (Inl (CommandNotFound (dl_command_id d)), m1)
              | Some c \<Rightarrow>
                  (let c' = c\<lparr>qc_status := Running, qc_updated_at := assigned_at\<rparr> in
                   (Inr (Some (command_assignment_for c' inst assigned_at)),
                    m1\<lparr>am_command_queue := hm_insert (dl_command_id d) c' (am_command_queue m1)\<rparr>))))"

definition mem_pending_command_count :: "string \<Rightarrow> memory_store \<Rightarrow> 32 word" where
  "mem_pending_command_count inst m = of_nat (length (filter (waits_for inst) (am_command_deliveries m)))"

definition delivery_for :: "uuid \<Rightarrow> string \<Rightarrow> command_delivery \<Rightarrow> bool" where
  "delivery_for cid inst d \<longleftrightarrow> dl_command_id d = cid \<and> dl_target_instance_id d = inst"

definition command_delivery_states :: "command_delivery list \<Rightarrow> uuid \<Rightarrow> admin_server_error + delivery_state list" where
  "command_delivery_states ds cid =
     (let states = map (\<lambda>d. \<lparr>ds_target_instance_id = dl_target_instance_id d, ds_status = dl_status d,
                             ds_message = dl_message d\<rparr>) (filter (\<lambda>d. dl_command_id d = cid) ds)
      in if states = [] then Inl (CommandNotFound cid) else Inr states)"

definition mem_record_command_completion ::
    "string \<Rightarrow> uuid \<Rightarrow> completion_request \<Rightarrow> timestamp \<Rightarrow> memory_store \<Rightarrow>
     (admin_server_error + queued_command) \<times> memory_store" where
  "mem_record_command_completion inst cid completion recorded_at m =
     (case find (delivery_for cid inst) (am_command_deliveries m) of
        None \<Rightarrow> (Inl (CommandTargetNotFound cid inst), m)
      | Some d \<Rightarrow>
          if dl_status d \<noteq> Running then (Inl (CommandNotRunning cid inst), m)
          else
            (let m1 = m\<lparr>am_command_deliveries := update_first (delivery_for cid inst)
                   (\<lambda>d. d\<lparr>dl_status := completion_status_to_command_status (co_status completion),
                          dl_completed_at := Some (co_completed_at completion),
                          dl_message := Some (completion_message (co_status completion) (co_message completion))\<rparr>)
                   (am_command_deliveries m)\<rparr>
             in case command_delivery_states (am_command_deliveries m1) cid of
                  Inl e \<Rightarrow> (Inl e, m1)
                | Inr states \<Rightarrow>
                    (case hm_get cid (am_command_queue m1) of
                       None \<Rightarrow> (Inl (CommandNotFound cid), m1)
                     | Some c \<Rightarrow>
                         (let c' = c\<lparr>qc_status := aggregate_command_status states,
                                     qc_result := command_result_from_deliveries (cr_kind (qc_request c)) states,
                                     qc_updated_at := recorded_at\<rparr>
                          in (Inr c', m1\<lparr>am_command_queue := hm_insert cid c' (am_command_queue m1)\<rparr>)))))"

definition mem_append_central_audit :: "central_audit_entry \<Rightarrow> memory_store \<Rightarrow> memory_store" where
  "mem_append_central_audit e m = m\<lparr>am_central_audit := am_central_audit m @ [e]\<rparr>"

definition mem_query_central_audit :: "central_audit_query \<Rightarrow> memory_store \<Rightarrow> central_audit_page" where
  "mem_query_central_audit query m =
     (let q = audit_query_normalized query;
          filtered = filter_central_audit_entries (am_central_audit m) q
      in page_central_audit_entries (sort_key (\<lambda>e. - ce_created_at e) filtered) q)"

section \<open>The store is a command store\<close>

definition mem_status :: "memory_store \<Rightarrow> uuid \<Rightarrow> string \<Rightarrow> command_status option" where
  "mem_status m cid t = map_option dl_status (find (delivery_for cid t) (am_command_deliveries m))"

definition mem_command :: "memory_store \<Rightarrow> uuid \<Rightarrow> queued_command option" where
  "mem_command m cid = hm_get cid (am_command_queue m)"

definition delivery_key :: "command_delivery \<Rightarrow> uuid \<times> string" where
  "delivery_key d = (dl_command_id d, dl_target_instance_id d)"

definition mem_ok :: "memory_store \<Rightarrow> bool" where
  "mem_ok m \<longleftrightarrow> distinct (map delivery_key (am_command_deliveries m)) \<and>
     (\<forall>d \<in> set (am_command_deliveries m). mem_command m (dl_command_id d) \<noteq> None) \<and>
     (\<forall>cid c. mem_command m cid = Some c \<longrightarrow> qc_id c = cid)"

lemma find_delivery: "find (delivery_for cid t) ds = key_map delivery_key ds (cid, t)"
  using find_is_key_map [of delivery_key "(cid, t)" ds]
  by (simp add: delivery_for_def [abs_def] delivery_key_def)

lemma mem_status_eq: "mem_status m cid t = map_option dl_status (key_map delivery_key (am_command_deliveries m) (cid, t))"
  by (simp add: mem_status_def find_delivery)

lemma update_first_keys:
  "(\<And>x. P x \<Longrightarrow> key (f x) = key x) \<Longrightarrow> map key (update_first P f xs) = map key xs"
  by (induction xs) auto

lemma update_first_in: "find P xs = Some x \<Longrightarrow> f x \<in> set (update_first P f xs)"
  by (induction xs) (auto split: if_splits)

lemma key_map_update_first:
  assumes "find P ds = Some d" "\<And>x. P x \<Longrightarrow> delivery_key (f x) = delivery_key x"
    and "distinct (map delivery_key ds)"
  shows "key_map delivery_key (update_first P f ds) = (key_map delivery_key ds)(delivery_key d \<mapsto> f d)"
  using assms
proof (induction ds)
  case (Cons x ds)
  show ?case
  proof (cases "P x")
    case True
    with Cons.prems show ?thesis by (auto simp: key_map_def fun_eq_iff)
  next
    case False
    have IH: "key_map delivery_key (update_first P f ds) = (key_map delivery_key ds)(delivery_key d \<mapsto> f d)"
      by (rule Cons.IH) (use False Cons.prems in auto)
    have ne: "delivery_key d \<noteq> delivery_key x"
      using False Cons.prems find_Some [of P ds d] by (auto simp: rev_image_eqI)
    have "key_map delivery_key (update_first P f (x # ds)) = ((key_map delivery_key ds)(delivery_key d \<mapsto> f d))(delivery_key x \<mapsto> x)"
      using False by (simp only: update_first.simps if_False key_map_Cons IH)
    also have "\<dots> = ((key_map delivery_key ds)(delivery_key x \<mapsto> x))(delivery_key d \<mapsto> f d)"
      using ne by (simp only: fun_upd_twist not_False_eq_True)
    finally show ?thesis by (simp only: key_map_Cons)
  qed
qed simp

lemma set_update_first: "set (update_first P f xs) \<subseteq> set xs \<union> f ` {x \<in> set xs. P x}"
  by (induction xs) auto

lemma key_map_pending:
  "distinct targets \<Longrightarrow> key_map delivery_key (map (pending_delivery cid) targets) (c, t) =
     (if c = cid \<and> t \<in> set targets then Some (pending_delivery cid t) else None)"
  by (induction targets) (auto simp: key_map_def delivery_key_def pending_delivery_def)

lemma command_statuses:
  assumes "distinct (map delivery_key ds)"
  shows "{st. \<exists>t. map_option dl_status (key_map delivery_key ds (c, t)) = Some st} =
    dl_status ` {d \<in> set ds. dl_command_id d = c}"
  by (auto simp: key_map_Some [OF assms] delivery_key_def image_iff)

lemma mem_save_new:
  assumes "mem_ok m" "mem_command m (qc_id c) = None" "distinct targets"
  shows "\<exists>m'. mem_save_batch_command c targets m = Inr m' \<and> mem_ok m' \<and> mem_command m' = (mem_command m)(qc_id c \<mapsto> c) \<and>
    mem_status m' = (mem_status m)(qc_id c := (\<lambda>t. if t \<in> set targets then Some Pending else None))"
proof -
  let ?ds = "am_command_deliveries m" and ?new = "map (pending_delivery (qc_id c)) targets"
  let ?m = "m\<lparr>am_command_queue := hm_insert (qc_id c) c (am_command_queue m), am_command_deliveries := ?ds @ ?new\<rparr>"
  have com: "mem_command ?m = (mem_command m)(qc_id c \<mapsto> c)" by (auto simp: mem_command_def hm_get_insert)
  have old: "dl_command_id d \<noteq> qc_id c" if "d \<in> set ?ds" for d
    using assms(1,2) that unfolding mem_ok_def by metis
  have dist: "distinct (map delivery_key ?ds)" using assms(1) by (simp add: mem_ok_def)
  moreover have "distinct (map delivery_key ?new)" using assms(3)
    by (simp add: distinct_map inj_on_def delivery_key_def pending_delivery_def comp_def)
  moreover have "set (map delivery_key ?ds) \<inter> set (map delivery_key ?new) = {}"
    using old by (auto simp: delivery_key_def pending_delivery_def)
  ultimately have all: "distinct (map delivery_key (?ds @ ?new))" by simp
  have none: "key_map delivery_key ?ds (qc_id c, t) = None" for t
  proof (rule ccontr)
    assume "key_map delivery_key ?ds (qc_id c, t) \<noteq> None"
    then obtain d where "d \<in> set ?ds" "delivery_key d = (qc_id c, t)" by (auto simp: key_map_Some [OF dist])
    with old show False by (auto simp: delivery_key_def)
  qed
  have status: "mem_status ?m k t = ((mem_status m)(qc_id c := (\<lambda>t. if t \<in> set targets then Some Pending else None))) k t" for k t
    using none [of t] assms(3)
    by (cases "k = qc_id c")
      (auto simp: mem_status_eq key_map_append map_add_def key_map_pending pending_delivery_def split: option.splits)
  have "mem_ok ?m"
    unfolding mem_ok_def
  proof (intro conjI ballI allI impI)
    show "distinct (map delivery_key (am_command_deliveries ?m))" using all by simp
    show "mem_command ?m (dl_command_id d) \<noteq> None" if "d \<in> set (am_command_deliveries ?m)" for d
      using that assms(1) by (auto simp: com mem_ok_def pending_delivery_def)
    show "qc_id x = k" if "mem_command ?m k = Some x" for k x
      using that assms(1) by (auto simp: com mem_ok_def split: if_splits)
  qed
  with com status show ?thesis by (simp add: mem_save_batch_command_def fun_eq_iff)
qed

lemma find_status:
  assumes "mem_ok m" "find P (am_command_deliveries m) = Some d"
  shows "mem_status m (dl_command_id d) (dl_target_instance_id d) = Some (dl_status d)" "P d"
    and "\<exists>c. mem_command m (dl_command_id d) = Some c"
proof -
  have dist: "distinct (map delivery_key (am_command_deliveries m))" using assms(1) by (simp add: mem_ok_def)
  from find_Some [OF assms(2)] have d: "P d" "d \<in> set (am_command_deliveries m)" by auto
  then have "key_map delivery_key (am_command_deliveries m) (delivery_key d) = Some d" by (simp add: key_map_Some [OF dist])
  then show "mem_status m (dl_command_id d) (dl_target_instance_id d) = Some (dl_status d)"
    by (simp add: mem_status_eq delivery_key_def)
  show "P d" by (rule d(1))
  show "\<exists>c. mem_command m (dl_command_id d) = Some c" using assms(1) d(2) by (auto simp: mem_ok_def)
qed

text \<open>One delivery changes its status and its command is written back.\<close>

lemma mem_update:
  assumes "mem_ok m" "find P (am_command_deliveries m) = Some d"
    and f: "\<And>x. delivery_key (f x) = delivery_key x" "\<And>x. dl_status (f x) = st"
    and "qc_id c = dl_command_id d"
    and m': "m' = m\<lparr>am_command_deliveries := update_first P f (am_command_deliveries m),
                   am_command_queue := hm_insert (dl_command_id d) c (am_command_queue m)\<rparr>"
  shows "mem_ok m'" "mem_command m' = (mem_command m)(dl_command_id d \<mapsto> c)"
    and "mem_status m' = (mem_status m)(dl_command_id d := (mem_status m (dl_command_id d))(dl_target_instance_id d \<mapsto> st))"
proof -
  have dist: "distinct (map delivery_key (am_command_deliveries m))" using assms(1) by (simp add: mem_ok_def)
  have com: "mem_command m' = (mem_command m)(dl_command_id d \<mapsto> c)"
    by (auto simp: mem_command_def m' hm_get_insert)
  then show "mem_command m' = (mem_command m)(dl_command_id d \<mapsto> c)" .
  have upd: "key_map delivery_key (update_first P f (am_command_deliveries m)) =
      (key_map delivery_key (am_command_deliveries m))(delivery_key d \<mapsto> f d)"
    by (rule key_map_update_first [OF assms(2) f(1) dist])
  show "mem_status m' = (mem_status m)(dl_command_id d := (mem_status m (dl_command_id d))(dl_target_instance_id d \<mapsto> st))"
    by (auto simp: fun_eq_iff mem_status_eq m' upd f(2) delivery_key_def)
  have same: "dl_command_id (f x) = dl_command_id x" for x using f(1) [of x] by (simp add: delivery_key_def)
  show "mem_ok m'"
    unfolding mem_ok_def
  proof (intro conjI ballI allI impI)
    show "distinct (map delivery_key (am_command_deliveries m'))"
      using dist by (simp add: m' update_first_keys [of P delivery_key f] f(1))
    show "mem_command m' (dl_command_id x) \<noteq> None" if "x \<in> set (am_command_deliveries m')" for x
    proof -
      from that obtain y where "y \<in> set (am_command_deliveries m)" "dl_command_id x = dl_command_id y"
        using set_update_first [of P f "am_command_deliveries m"] by (fastforce simp: m' same)
      with assms(1) show ?thesis by (auto simp: com mem_ok_def)
    qed
    show "qc_id x = k" if "mem_command m' k = Some x" for k x
      using that assms(1,5) by (auto simp: com mem_ok_def split: if_splits)
  qed
qed

lemma mem_assign_some:
  assumes "mem_ok m" "mem_assign_next_command inst now m = (Inr (Some a), m')"
  shows "as_target_instance_id a = inst \<and> mem_status m (as_command_id a) inst = Some Pending \<and> mem_ok m' \<and>
      mem_status m' = (mem_status m)(as_command_id a := (mem_status m (as_command_id a))(inst \<mapsto> Running)) \<and>
      (\<exists>c. mem_command m (as_command_id a) = Some c \<and>
        mem_command m' = (mem_command m)(as_command_id a \<mapsto> c\<lparr>qc_status := Running, qc_updated_at := now\<rparr>))"
proof -
  let ?f = "\<lambda>d. d\<lparr>dl_status := Running, dl_assigned_at := Some now\<rparr>"
  from assms(2) obtain d where d: "find (waits_for inst) (am_command_deliveries m) = Some d"
    by (auto simp: mem_assign_next_command_def split: option.splits)
  note st = find_status [OF assms(1) d]
  from st(3) obtain c where c: "mem_command m (dl_command_id d) = Some c" by auto
  have id: "qc_id c = dl_command_id d" using assms(1) c by (simp add: mem_ok_def)
  let ?c = "c\<lparr>qc_status := Running, qc_updated_at := now\<rparr>"
  have a: "a = command_assignment_for ?c inst now"
    and m': "m' = m\<lparr>am_command_deliveries := update_first (waits_for inst) ?f (am_command_deliveries m),
                    am_command_queue := hm_insert (dl_command_id d) ?c (am_command_queue m)\<rparr>"
    using assms(2) d c by (simp_all add: mem_assign_next_command_def Let_def mem_command_def)
  have inst: "dl_target_instance_id d = inst" "dl_status d = Pending" using st(2) by (auto simp: waits_for_def)
  have "mem_ok m'" "mem_command m' = (mem_command m)(dl_command_id d \<mapsto> ?c)"
    "mem_status m' = (mem_status m)(dl_command_id d := (mem_status m (dl_command_id d))(inst \<mapsto> Running))"
    using mem_update [OF assms(1) d _ _ _ m'] id inst(1) by (simp_all add: delivery_key_def)
  moreover have "as_command_id a = dl_command_id d" "as_target_instance_id a = inst"
    by (simp_all add: a command_assignment_for_def id)
  ultimately show ?thesis using st(1) inst c by auto
qed

lemma mem_assign_none:
  assumes "mem_ok m" "mem_assign_next_command inst now m = (Inr None, m')"
  shows "m' = m \<and> (\<forall>c. mem_status m c inst \<noteq> Some Pending)"
proof -
  have dist: "distinct (map delivery_key (am_command_deliveries m))" using assms(1) by (simp add: mem_ok_def)
  have "find (waits_for inst) (am_command_deliveries m) = None" "m' = m"
    using assms(2) by (auto simp: mem_assign_next_command_def Let_def split: option.splits)
  then show ?thesis
    by (auto simp: find_None_iff waits_for_def mem_status_eq key_map_Some [OF dist] delivery_key_def)
qed

lemma mem_assign_ok: "mem_ok m \<Longrightarrow> is_ok (fst (mem_assign_next_command inst now m))"
proof -
  assume ok: "mem_ok m"
  show ?thesis
  proof (cases "find (waits_for inst) (am_command_deliveries m)")
    case (Some d)
    from find_status(3) [OF ok Some] show ?thesis
      using Some by (auto simp: mem_assign_next_command_def mem_command_def Let_def)
  qed (simp add: mem_assign_next_command_def)
qed

lemma delivery_states_statuses:
  "command_delivery_states ds cid = Inr states \<Longrightarrow> ds_status ` set states = dl_status ` {d \<in> set ds. dl_command_id d = cid}"
  by (auto simp: command_delivery_states_def Let_def image_image split: if_splits)

lemma mem_complete_ok:
  assumes "mem_ok m" "mem_record_command_completion inst cid req now m = (Inr qc, m')"
  shows "mem_status m cid inst = Some Running \<and> mem_ok m' \<and>
      mem_status m' = (mem_status m)(cid := (mem_status m cid)(inst \<mapsto> completion_status_to_command_status (co_status req))) \<and>
      mem_command m' = (mem_command m)(cid \<mapsto> qc) \<and> qc_status qc = status_of_set {st. \<exists>t. mem_status m' cid t = Some st}"
proof -
  let ?st = "completion_status_to_command_status (co_status req)"
  let ?f = "\<lambda>d. d\<lparr>dl_status := ?st, dl_completed_at := Some (co_completed_at req),
      dl_message := Some (completion_message (co_status req) (co_message req))\<rparr>"
  let ?ds = "update_first (delivery_for cid inst) ?f (am_command_deliveries m)"
  from assms(2) obtain d where d: "find (delivery_for cid inst) (am_command_deliveries m) = Some d"
    and run: "dl_status d = Running"
    by (auto simp: mem_record_command_completion_def split: option.splits if_splits)
  note st = find_status [OF assms(1) d]
  have ids: "dl_command_id d = cid" "dl_target_instance_id d = inst" using st(2) by (auto simp: delivery_for_def)
  from st(3) obtain c where c: "mem_command m cid = Some c" using ids by auto
  obtain states where states: "command_delivery_states ?ds cid = Inr states"
    using assms(2) d run by (auto simp: mem_record_command_completion_def Let_def split: sum.splits)
  let ?c = "c\<lparr>qc_status := aggregate_command_status states,
      qc_result := command_result_from_deliveries (cr_kind (qc_request c)) states, qc_updated_at := now\<rparr>"
  have qc: "qc = ?c"
    and m': "m' = m\<lparr>am_command_deliveries := ?ds, am_command_queue := hm_insert (dl_command_id d) ?c (am_command_queue m)\<rparr>"
    using assms(2) d run states c ids by (auto simp: mem_record_command_completion_def Let_def mem_command_def)
  have "qc_id c = cid" using assms(1) c by (simp add: mem_ok_def)
  then have eqs: "mem_ok m'" "mem_command m' = (mem_command m)(cid \<mapsto> ?c)"
    "mem_status m' = (mem_status m)(cid := (mem_status m cid)(inst \<mapsto> ?st))"
    using mem_update [OF assms(1) d _ _ _ m', of ?st] ids by (simp_all add: delivery_key_def)
  have "distinct (map delivery_key (am_command_deliveries m'))" using eqs(1) by (simp add: mem_ok_def)
  from command_statuses [OF this, of cid]
  have "{st. \<exists>t. mem_status m' cid t = Some st} = dl_status ` {d \<in> set ?ds. dl_command_id d = cid}"
    unfolding mem_status_eq by (simp add: m')
  then have "qc_status qc = status_of_set {st. \<exists>t. mem_status m' cid t = Some st}"
    by (simp add: qc aggregate_is_status_of_set delivery_states_statuses [OF states])
  with eqs st(1) ids run qc show ?thesis by simp
qed

lemma mem_complete_error:
  assumes "mem_ok m" "mem_record_command_completion inst cid req now m = (Inl e, m')"
  shows "m' = m \<and> mem_status m cid inst \<noteq> Some Running"
proof (cases "find (delivery_for cid inst) (am_command_deliveries m)")
  case None
  then show ?thesis using assms(2) by (auto simp: mem_record_command_completion_def mem_status_def)
next
  case (Some d)
  note st = find_status [OF assms(1) Some]
  have ids: "dl_command_id d = cid" using st(2) by (simp add: delivery_for_def)
  show ?thesis
  proof (cases "dl_status d = Running")
    case False
    then show ?thesis using Some assms(2) by (auto simp: mem_record_command_completion_def mem_status_def)
  next
    case True
    let ?f = "\<lambda>d. d\<lparr>dl_status := completion_status_to_command_status (co_status req),
        dl_completed_at := Some (co_completed_at req),
        dl_message := Some (completion_message (co_status req) (co_message req))\<rparr>"
    let ?ds = "update_first (delivery_for cid inst) ?f (am_command_deliveries m)"
    obtain x where "x \<in> set ?ds" "dl_command_id x = cid"
      using update_first_in [OF Some, of ?f] ids by fastforce
    then have "filter (\<lambda>d. dl_command_id d = cid) ?ds \<noteq> []" unfolding filter_empty_conv by blast
    then obtain states where "command_delivery_states ?ds cid = Inr states"
      by (auto simp: command_delivery_states_def Let_def)
    with Some True st(3) ids assms(2) show ?thesis
      by (auto simp: mem_record_command_completion_def Let_def mem_command_def)
  qed
qed

interpretation memory: command_store mem_status mem_command mem_save_batch_command mem_assign_next_command
    mem_record_command_completion mem_ok
proof (unfold_locales, goal_cases)
  case (1 s new targets)
  then show ?case by (rule mem_save_new)
next
  case (2 s inst now s')
  then show ?case by (rule mem_assign_none)
next
  case (3 s inst now a s')
  then show ?case by (rule mem_assign_some)
next
  case (4 s inst now)
  then show ?case by (rule mem_assign_ok)
next
  case (5 s inst c req now qc s')
  then show ?case by (rule mem_complete_ok)
next
  case (6 s inst c req now e s')
  then show ?case by (rule mem_complete_error)
next
  case (7 s c t st)
  then show ?case
    by (auto simp: mem_ok_def mem_status_def dest!: find_Some simp: delivery_for_def)
qed

end
