(* ===== verification/Admin_Sqlite.thy ===== *)
theory Admin_Sqlite
  imports Admin_Commands
begin

text \<open>
  \<open>SqliteAdminServerStore\<close> of \<open>crates/autoflow-admin-server/src/lib.rs\<close>, with \<open>command_store\<close>
  interpreted on it. A table is the list of its rows in the order of insertion; statuses and roles are
  the stored texts, while JSON payloads, identifiers and dates, which are read back as they were
  written, keep their types. An operation is here what it does when no other request comes between its
  statements; the code has no transaction around them, and \<open>Admin_Statements\<close> splits the operations into their statements,
  proves that a request alone is the operation of this theory, and says what overlapping requests keep.
\<close>

section \<open>Tables\<close>

record agent_row =
  ag_instance_id :: string
  ag_agent_secret :: string
  ag_snapshot :: "instance_snapshot option"
  ag_first_seen_at :: timestamp
  ag_last_seen_at :: "timestamp option"

record command_row =
  rw_id :: uuid
  rw_source :: string
  rw_request :: command_request
  rw_status :: string
  rw_result :: "command_result option"
  rw_created_at :: timestamp
  rw_updated_at :: timestamp

record delivery_row =
  dr_command_id :: uuid
  dr_target_instance_id :: string
  dr_status :: string
  dr_assigned_at :: "timestamp option"
  dr_completed_at :: "timestamp option"
  dr_message :: "string option"

record central_audit_row =
  cr_audit_id :: uuid
  cr_audit_actor :: string
  cr_audit_role :: "string option"
  cr_audit_action :: string
  cr_audit_target :: string
  cr_audit_status :: string
  cr_audit_message :: string
  cr_audit_details :: "string option"
  cr_audit_created_at :: timestamp

record admin_db =
  db_agents :: "agent_row list"
  db_groups :: "machine_group list"
  db_commands :: "command_row list"
  db_deliveries :: "delivery_row list"
  db_audit :: "central_audit_row list"

definition db_empty :: admin_db where
  "db_empty = \<lparr>db_agents = [], db_groups = [], db_commands = [], db_deliveries = [], db_audit = []\<rparr>"

definition command_of_row :: "command_row \<Rightarrow> admin_server_error + queued_command" where
  "command_of_row r =
     rbind (command_status_from_wire (rw_status r)) (\<lambda>s.
       Inr \<lparr>qc_id = rw_id r, qc_source = rw_source r, qc_request = rw_request r, qc_status = s,
            qc_result = rw_result r, qc_created_at = rw_created_at r, qc_updated_at = rw_updated_at r\<rparr>)"

definition row_of_command :: "queued_command \<Rightarrow> command_row" where
  "row_of_command c =
     \<lparr>rw_id = qc_id c, rw_source = qc_source c, rw_request = qc_request c,
      rw_status = command_status_to_wire (qc_status c), rw_result = qc_result c,
      rw_created_at = qc_created_at c, rw_updated_at = qc_updated_at c\<rparr>"

definition delivery_state_of_row :: "delivery_row \<Rightarrow> admin_server_error + delivery_state" where
  "delivery_state_of_row r =
     rbind (command_status_from_wire (dr_status r)) (\<lambda>s.
       Inr \<lparr>ds_target_instance_id = dr_target_instance_id r, ds_status = s, ds_message = dr_message r\<rparr>)"

definition audit_entry_of_row :: "central_audit_row \<Rightarrow> admin_server_error + central_audit_entry" where
  "audit_entry_of_row r =
     rbind (case cr_audit_role r of None \<Rightarrow> Inr None | Some s \<Rightarrow> map_sum id Some (operator_role_from_wire s)) (\<lambda>role.
     rbind (central_audit_status_from_wire (cr_audit_status r)) (\<lambda>s.
       Inr \<lparr>ce_id = cr_audit_id r, ce_actor = cr_audit_actor r, ce_role = role, ce_action = cr_audit_action r,
            ce_target = cr_audit_target r, ce_status = s, ce_message = cr_audit_message r,
            ce_details = cr_audit_details r, ce_created_at = cr_audit_created_at r\<rparr>))"

definition row_of_audit_entry :: "central_audit_entry \<Rightarrow> central_audit_row" where
  "row_of_audit_entry e =
     \<lparr>cr_audit_id = ce_id e, cr_audit_actor = ce_actor e,
      cr_audit_role = map_option operator_role_to_wire (ce_role e), cr_audit_action = ce_action e,
      cr_audit_target = ce_target e, cr_audit_status = central_audit_status_to_wire (ce_status e),
      cr_audit_message = ce_message e, cr_audit_details = ce_details e, cr_audit_created_at = ce_created_at e\<rparr>"

section \<open>Operations\<close>

definition sql_register_agent_secret :: "timestamp \<Rightarrow> string \<Rightarrow> string \<Rightarrow> admin_db \<Rightarrow> admin_db" where
  "sql_register_agent_secret now inst secret db =
     (if list_ex (\<lambda>r. ag_instance_id r = inst) (db_agents db)
      then db\<lparr>db_agents := map (\<lambda>r. if ag_instance_id r = inst then r\<lparr>ag_agent_secret := secret\<rparr> else r) (db_agents db)\<rparr>
      else db\<lparr>db_agents := db_agents db @
             [\<lparr>ag_instance_id = inst, ag_agent_secret = secret, ag_snapshot = None,
               ag_first_seen_at = now, ag_last_seen_at = None\<rparr>]\<rparr>)"

definition sql_agent_secret :: "string \<Rightarrow> admin_db \<Rightarrow> admin_server_error + string" where
  "sql_agent_secret inst db =
     (case find (\<lambda>r. ag_instance_id r = inst) (db_agents db) of
        Some r \<Rightarrow> Inr (ag_agent_secret r) | None \<Rightarrow> Inl (AgentNotRegistered inst))"

definition sql_save_instance :: "instance_snapshot \<Rightarrow> admin_db \<Rightarrow> admin_server_error + admin_db" where
  "sql_save_instance i db =
     (if \<not> list_ex (\<lambda>r. ag_instance_id r = is_instance_id i) (db_agents db)
      then Inl (AgentNotRegistered (is_instance_id i))
      else Inr (db\<lparr>db_agents := map (\<lambda>r. if ag_instance_id r = is_instance_id i
                then r\<lparr>ag_snapshot := Some i, ag_last_seen_at := Some (is_last_seen_at i)\<rparr> else r) (db_agents db)\<rparr>))"

definition sql_list_instances :: "admin_db \<Rightarrow> instance_snapshot list" where
  "sql_list_instances db = List.map_filter ag_snapshot (sort_key ag_instance_id (db_agents db))"

definition sql_save_machine_group :: "machine_group \<Rightarrow> admin_db \<Rightarrow> admin_db" where
  "sql_save_machine_group g db =
     (if list_ex (\<lambda>r. mg_id r = mg_id g) (db_groups db)
      then db\<lparr>db_groups := map (\<lambda>r. if mg_id r = mg_id g then g else r) (db_groups db)\<rparr>
      else db\<lparr>db_groups := db_groups db @ [g]\<rparr>)"

definition sql_list_machine_groups :: "admin_db \<Rightarrow> machine_group list" where
  "sql_list_machine_groups db = sort_key (\<lambda>g. - mg_updated_at g) (db_groups db)"

definition pending_row :: "uuid \<Rightarrow> string \<Rightarrow> delivery_row" where
  "pending_row cid t =
     \<lparr>dr_command_id = cid, dr_target_instance_id = t, dr_status = ''pending'', dr_assigned_at = None,
      dr_completed_at = None, dr_message = None\<rparr>"

definition delivery_row_key :: "delivery_row \<Rightarrow> uuid \<times> string" where
  "delivery_row_key r = (dr_command_id r, dr_target_instance_id r)"

definition insert_delivery :: "uuid \<Rightarrow> delivery_row list \<Rightarrow> string \<Rightarrow> delivery_row list" where
  "insert_delivery cid rows t =
     (if list_ex (\<lambda>r. delivery_row_key r = (cid, t)) rows then rows else rows @ [pending_row cid t])"

definition sql_save_batch_command :: "queued_command \<Rightarrow> string list \<Rightarrow> admin_db \<Rightarrow> admin_server_error + admin_db" where
  "sql_save_batch_command c targets db =
     (if list_ex (\<lambda>r. rw_id r = qc_id c) (db_commands db)
      then Inl (ServerDatabase ''UNIQUE constraint failed'')
      else Inr (db\<lparr>db_commands := db_commands db @ [row_of_command c],
                  db_deliveries := foldl (insert_delivery (qc_id c)) (db_deliveries db) targets\<rparr>))"

definition sql_list_queued_commands :: "admin_db \<Rightarrow> admin_server_error + queued_command list" where
  "sql_list_queued_commands db =
     collect_rows command_of_row (take 500 (sort_key (\<lambda>r. - rw_created_at r) (db_commands db)))"

definition row_waits_for :: "string \<Rightarrow> delivery_row \<Rightarrow> bool" where
  "row_waits_for inst r \<longleftrightarrow> dr_target_instance_id r = inst \<and> dr_status r = ''pending''"

definition sql_select_next :: "string \<Rightarrow> admin_db \<Rightarrow> command_row option" where
  "sql_select_next inst db =
     (case sort_key rw_created_at
         (filter (\<lambda>c. list_ex (\<lambda>d. dr_command_id d = rw_id c \<and> row_waits_for inst d) (db_deliveries db)) (db_commands db)) of
        [] \<Rightarrow> None | r # _ \<Rightarrow> Some r)"

definition sql_mark_running :: "uuid \<Rightarrow> string \<Rightarrow> timestamp \<Rightarrow> admin_db \<Rightarrow> admin_db" where
  "sql_mark_running cid inst assigned_at db =
     db\<lparr>db_deliveries := map (\<lambda>d. if delivery_row_key d = (cid, inst)
            then d\<lparr>dr_status := ''running'', dr_assigned_at := Some assigned_at\<rparr> else d) (db_deliveries db),
        db_commands := map (\<lambda>c. if rw_id c = cid
            then c\<lparr>rw_status := ''running'', rw_updated_at := assigned_at\<rparr> else c) (db_commands db)\<rparr>"

definition sql_assign_next_command ::
    "string \<Rightarrow> timestamp \<Rightarrow> admin_db \<Rightarrow> (admin_server_error + command_assignment option) \<times> admin_db" where
  "sql_assign_next_command inst assigned_at db =
     (case sql_select_next inst db of
        None \<Rightarrow> (Inr None, db)
      | Some row \<Rightarrow>
          (case command_of_row row of
             Inl e \<Rightarrow> (Inl e, db)
           | Inr c \<Rightarrow>
               (let c' = c\<lparr>qc_status := Running, qc_updated_at := assigned_at\<rparr> in
                (Inr (Some (command_assignment_for c' inst assigned_at)),
                 sql_mark_running (qc_id c) inst assigned_at db))))"

definition sql_pending_command_count :: "string \<Rightarrow> admin_db \<Rightarrow> 32 word" where
  "sql_pending_command_count inst db = of_nat (length (filter (row_waits_for inst) (db_deliveries db)))"

definition sql_ensure_command_exists :: "uuid \<Rightarrow> admin_db \<Rightarrow> admin_server_error + unit" where
  "sql_ensure_command_exists cid db =
     (if list_ex (\<lambda>r. rw_id r = cid) (db_commands db) then Inr () else Inl (CommandNotFound cid))"

definition sql_fetch_command :: "uuid \<Rightarrow> admin_db \<Rightarrow> admin_server_error + queued_command" where
  "sql_fetch_command cid db =
     (case find (\<lambda>r. rw_id r = cid) (db_commands db) of
        None \<Rightarrow> Inl (CommandNotFound cid) | Some r \<Rightarrow> command_of_row r)"

definition sql_fetch_delivery_states :: "uuid \<Rightarrow> admin_db \<Rightarrow> admin_server_error + delivery_state list" where
  "sql_fetch_delivery_states cid db =
     (let rows = sort_key dr_target_instance_id (filter (\<lambda>d. dr_command_id d = cid) (db_deliveries db)) in
      if rows = [] then Inl (CommandNotFound cid) else collect_rows delivery_state_of_row rows)"

definition sql_record_command_completion ::
    "string \<Rightarrow> uuid \<Rightarrow> completion_request \<Rightarrow> timestamp \<Rightarrow> admin_db \<Rightarrow>
     (admin_server_error + queued_command) \<times> admin_db" where
  "sql_record_command_completion inst cid completion recorded_at db =
     (case find (\<lambda>d. delivery_row_key d = (cid, inst)) (db_deliveries db) of
        None \<Rightarrow>
          (rbind (sql_ensure_command_exists cid db) (\<lambda>_. Inl (CommandTargetNotFound cid inst)), db)
      | Some row \<Rightarrow>
          (case command_status_from_wire (dr_status row) of
             Inl e \<Rightarrow> (Inl e, db)
           | Inr current \<Rightarrow>
               if current \<noteq> Running then (Inl (CommandNotRunning cid inst), db)
               else
                 (let message = completion_message (co_status completion) (co_message completion);
                      st = completion_status_to_command_status (co_status completion);
                      db1 = db\<lparr>db_deliveries := map (\<lambda>d. if delivery_row_key d = (cid, inst)
                              then d\<lparr>dr_status := command_status_to_wire st,
                                     dr_completed_at := Some (co_completed_at completion),
                                     dr_message := Some message\<rparr> else d) (db_deliveries db)\<rparr>
                  in case rbind (sql_fetch_command cid db1) (\<lambda>c.
                            rbind (sql_fetch_delivery_states cid db1) (\<lambda>states.
                              Inr (c\<lparr>qc_status := aggregate_command_status states,
                                    qc_result := command_result_from_deliveries (cr_kind (qc_request c)) states,
                                    qc_updated_at := recorded_at\<rparr>))) of
                       Inl e \<Rightarrow> (Inl e, db1)
                     | Inr c \<Rightarrow>
                         (Inr c, db1\<lparr>db_commands := map (\<lambda>r. if rw_id r = cid
                            then r\<lparr>rw_status := command_status_to_wire (qc_status c), rw_result := qc_result c,
                                   rw_updated_at := qc_updated_at c\<rparr> else r) (db_commands db1)\<rparr>))))"

definition sql_append_central_audit :: "central_audit_entry \<Rightarrow> admin_db \<Rightarrow> admin_server_error + admin_db" where
  "sql_append_central_audit e db =
     (if list_ex (\<lambda>r. cr_audit_id r = ce_id e) (db_audit db)
      then Inl (ServerDatabase ''UNIQUE constraint failed'')
      else Inr (db\<lparr>db_audit := db_audit db @ [row_of_audit_entry e]\<rparr>))"

definition sql_query_central_audit :: "central_audit_query \<Rightarrow> admin_db \<Rightarrow> admin_server_error + central_audit_page" where
  "sql_query_central_audit query db =
     (let q = audit_query_normalized query in
      rbind (collect_rows audit_entry_of_row (take 5000 (sort_key (\<lambda>r. - cr_audit_created_at r) (db_audit db))))
        (\<lambda>entries. Inr (page_central_audit_entries (filter_central_audit_entries entries q) q)))"

section \<open>The store is a command store\<close>

definition wire_status :: "string \<Rightarrow> command_status option" where
  "wire_status s = (case command_status_from_wire s of Inr st \<Rightarrow> Some st | Inl _ \<Rightarrow> None)"

definition sql_status :: "admin_db \<Rightarrow> uuid \<Rightarrow> string \<Rightarrow> command_status option" where
  "sql_status db cid t =
     Option.bind (key_map delivery_row_key (db_deliveries db) (cid, t)) (\<lambda>r. wire_status (dr_status r))"

definition sql_command :: "admin_db \<Rightarrow> uuid \<Rightarrow> queued_command option" where
  "sql_command db cid =
     Option.bind (key_map rw_id (db_commands db) cid) (\<lambda>r. case command_of_row r of Inr c \<Rightarrow> Some c | Inl _ \<Rightarrow> None)"

definition sql_ok :: "admin_db \<Rightarrow> bool" where
  "sql_ok db \<longleftrightarrow> distinct (map delivery_row_key (db_deliveries db)) \<and>
     (\<forall>d \<in> set (db_deliveries db). wire_status (dr_status d) \<noteq> None \<and> dr_command_id d \<in> rw_id ` set (db_commands db)) \<and>
     (\<forall>c \<in> set (db_commands db). wire_status (rw_status c) \<noteq> None) \<and> distinct (map rw_id (db_commands db))"

lemma wire_status_wire [simp]: "wire_status (command_status_to_wire s) = Some s"
  by (simp add: wire_status_def)

lemma wire_status_texts [simp]: "wire_status ''pending'' = Some Pending" "wire_status ''running'' = Some Running"
  using wire_status_wire [of Pending] wire_status_wire [of Running] by simp_all

lemma wire_status_Some: "wire_status s = Some st \<longleftrightarrow> command_status_from_wire s = Inr st"
  by (simp add: wire_status_def split: sum.splits)

lemma wire_status_pending: "wire_status s = Some Pending \<longleftrightarrow> s = ''pending''"
  by (auto simp: wire_status_def command_status_from_wire_def split: if_splits)

lemma command_of_row_ok:
  "wire_status (rw_status r) = Some s \<Longrightarrow> command_of_row r = Inr
     \<lparr>qc_id = rw_id r, qc_source = rw_source r, qc_request = rw_request r, qc_status = s,
      qc_result = rw_result r, qc_created_at = rw_created_at r, qc_updated_at = rw_updated_at r\<rparr>"
  by (simp add: wire_status_Some command_of_row_def)

lemma command_of_row_of_command [simp]: "command_of_row (row_of_command c) = Inr c"
  by (simp add: command_of_row_def row_of_command_def)

lemma sql_command_row:
  assumes "sql_ok db" "key_map rw_id (db_commands db) cid = Some r"
  obtains s where "wire_status (rw_status r) = Some s" "rw_id r = cid" "r \<in> set (db_commands db)"
    "command_of_row r = Inr \<lparr>qc_id = cid, qc_source = rw_source r, qc_request = rw_request r, qc_status = s,
      qc_result = rw_result r, qc_created_at = rw_created_at r, qc_updated_at = rw_updated_at r\<rparr>"
proof -
  from key_map_key [OF assms(2)] have r: "r \<in> set (db_commands db)" "rw_id r = cid" by auto
  with assms(1) obtain s where "wire_status (rw_status r) = Some s" by (auto simp: sql_ok_def)
  with r command_of_row_ok [OF this] that show thesis by simp
qed

lemma foldl_insert_delivery:
  assumes "distinct targets" "\<forall>t \<in> set targets. (cid, t) \<notin> delivery_row_key ` set rows"
  shows "foldl (insert_delivery cid) rows targets = rows @ map (pending_row cid) targets"
  using assms
proof (induction targets arbitrary: rows)
  case (Cons t targets)
  have "insert_delivery cid rows t = rows @ [pending_row cid t]"
    using Cons.prems(2) by (force simp: insert_delivery_def list_ex_iff image_iff)
  moreover have "\<forall>u \<in> set targets. (cid, u) \<notin> delivery_row_key ` set (rows @ [pending_row cid t])"
    using Cons.prems by (auto simp: delivery_row_key_def pending_row_def)
  ultimately show ?case using Cons by simp
qed simp

lemma key_map_pending_rows:
  "distinct targets \<Longrightarrow> key_map delivery_row_key (map (pending_row cid) targets) (c, t) =
     (if c = cid \<and> t \<in> set targets then Some (pending_row cid t) else None)"
  by (induction targets) (auto simp: key_map_Cons delivery_row_key_def pending_row_def)

lemma sql_save_new:
  assumes "sql_ok db" "sql_command db (qc_id c) = None" "distinct targets"
  shows "\<exists>db'. sql_save_batch_command c targets db = Inr db' \<and> sql_ok db' \<and>
    sql_command db' = (sql_command db)(qc_id c \<mapsto> c) \<and>
    sql_status db' = (sql_status db)(qc_id c := (\<lambda>t. if t \<in> set targets then Some Pending else None))"
proof -
  have fresh: "key_map rw_id (db_commands db) (qc_id c) = None"
  proof (rule ccontr)
    assume "key_map rw_id (db_commands db) (qc_id c) \<noteq> None"
    then obtain r where "key_map rw_id (db_commands db) (qc_id c) = Some r" by auto
    then obtain x where "command_of_row r = Inr x" by (rule sql_command_row [OF assms(1)])
    with \<open>key_map _ _ _ = Some r\<close> assms(2) show False by (simp add: sql_command_def)
  qed
  then have new: "qc_id c \<notin> rw_id ` set (db_commands db)" by (simp add: key_map_None)
  then have old: "dr_command_id d \<noteq> qc_id c" if "d \<in> set (db_deliveries db)" for d
  proof -
    have "dr_command_id d \<in> rw_id ` set (db_commands db)" using assms(1) that by (simp add: sql_ok_def)
    with new show ?thesis by metis
  qed
  let ?ds = "db_deliveries db @ map (pending_row (qc_id c)) targets"
  let ?db = "db\<lparr>db_commands := db_commands db @ [row_of_command c], db_deliveries := ?ds\<rparr>"
  have none: "key_map delivery_row_key (db_deliveries db) (qc_id c, t) = None" for t
    unfolding key_map_None
  proof
    assume "(qc_id c, t) \<in> delivery_row_key ` set (db_deliveries db)"
    then obtain d where "d \<in> set (db_deliveries db)" "delivery_row_key d = (qc_id c, t)" by auto
    then show False using old [of d] by (simp add: delivery_row_key_def)
  qed
  have "foldl (insert_delivery (qc_id c)) (db_deliveries db) targets = ?ds"
    using assms(3) none by (intro foldl_insert_delivery) (auto simp: key_map_None)
  moreover have "\<not> list_ex (\<lambda>r. rw_id r = qc_id c) (db_commands db)"
    unfolding list_ex_iff using new by (metis rev_image_eqI)
  ultimately have save: "sql_save_batch_command c targets db = Inr ?db"
    by (simp add: sql_save_batch_command_def)
  have com: "sql_command ?db = (sql_command db)(qc_id c \<mapsto> c)"
  proof
    fix k
    show "sql_command ?db k = ((sql_command db)(qc_id c \<mapsto> c)) k"
      using fresh by (cases "k = qc_id c")
        (auto simp: sql_command_def key_map_append key_map_Cons map_add_def row_of_command_def
          command_of_row_of_command [unfolded row_of_command_def] split: option.splits)
  qed
  have status: "sql_status ?db k t = ((sql_status db)(qc_id c := (\<lambda>t. if t \<in> set targets then Some Pending else None))) k t" for k t
    using none [of t] assms(3)
    by (cases "k = qc_id c")
      (auto simp: sql_status_def key_map_append map_add_def key_map_pending_rows pending_row_def split: option.splits)
  have "sql_ok ?db"
    unfolding sql_ok_def
  proof (intro conjI ballI)
    have "distinct (map delivery_row_key (map (pending_row (qc_id c)) targets))" using assms(3)
      by (simp add: distinct_map inj_on_def delivery_row_key_def pending_row_def comp_def)
    moreover have "set (map delivery_row_key (db_deliveries db)) \<inter> set (map delivery_row_key (map (pending_row (qc_id c)) targets)) = {}"
      using old by (auto simp: delivery_row_key_def pending_row_def)
    ultimately show "distinct (map delivery_row_key (db_deliveries ?db))"
      using assms(1) by (simp add: sql_ok_def)
    show "wire_status (dr_status d) \<noteq> None" "dr_command_id d \<in> rw_id ` set (db_commands ?db)"
      if "d \<in> set (db_deliveries ?db)" for d
      using that assms(1) by (auto simp: sql_ok_def pending_row_def row_of_command_def)
    show "wire_status (rw_status r) \<noteq> None" if "r \<in> set (db_commands ?db)" for r
      using that assms(1) by (auto simp: sql_ok_def row_of_command_def)
    show "distinct (map rw_id (db_commands ?db))"
      using assms(1) new by (simp add: sql_ok_def row_of_command_def)
  qed
  with save com status show ?thesis by (simp add: fun_eq_iff)
qed

lemma sql_ok_deliveries:
  assumes "sql_ok db" "\<And>x. delivery_row_key (f x) = delivery_row_key x" "\<And>x. dr_status (f x) = command_status_to_wire st"
  shows "sql_ok (db\<lparr>db_deliveries := map (\<lambda>x. if delivery_row_key x = k then f x else x) (db_deliveries db)\<rparr>)"
proof -
  let ?ds = "map (\<lambda>x. if delivery_row_key x = k then f x else x) (db_deliveries db)"
  have "delivery_row_key (if delivery_row_key x = k then f x else x) = delivery_row_key x" for x
    by (simp add: assms(2))
  then have "map delivery_row_key ?ds = map delivery_row_key (db_deliveries db)" by simp
  then have "distinct (map delivery_row_key ?ds)" using assms(1) by (simp only: sql_ok_def)
  moreover have "wire_status (dr_status x) \<noteq> None \<and> dr_command_id x \<in> rw_id ` set (db_commands db)"
    if "x \<in> set ?ds" for x
  proof -
    from that obtain y where y: "y \<in> set (db_deliveries db)" "x = (if delivery_row_key y = k then f y else y)" by auto
    have "dr_command_id (f y) = dr_command_id y" using assms(2) [of y] by (simp add: delivery_row_key_def)
    with y assms(1) show ?thesis by (auto simp: sql_ok_def assms(3))
  qed
  ultimately show ?thesis using assms(1) unfolding sql_ok_def by simp
qed

lemma sql_ok_commands:
  assumes "sql_ok db" "\<And>x. rw_id (g x) = rw_id x" "\<And>x. rw_status (g x) = command_status_to_wire st"
  shows "sql_ok (db\<lparr>db_commands := map (\<lambda>x. if rw_id x = k then g x else x) (db_commands db)\<rparr>)"
proof -
  define cs where "cs = map (\<lambda>x. if rw_id x = k then g x else x) (db_commands db)"
  have "rw_id (if rw_id x = k then g x else x) = rw_id x" for x by (simp add: assms(2))
  then have ids: "map rw_id cs = map rw_id (db_commands db)" by (simp add: cs_def)
  then have "rw_id ` set cs = rw_id ` set (db_commands db)" by (metis set_map)
  moreover have "wire_status (rw_status x) \<noteq> None" if "x \<in> set cs" for x
    using that assms(1) by (auto simp: cs_def sql_ok_def assms(3))
  ultimately have "sql_ok (db\<lparr>db_commands := cs\<rparr>)" using assms(1) ids unfolding sql_ok_def by simp
  then show ?thesis by (simp only: cs_def)
qed

text \<open>The two updates of an operation: one delivery row and its command row.\<close>

lemma sql_update:
  assumes "sql_ok db" "key_map delivery_row_key (db_deliveries db) (cid, inst) = Some d"
    and f: "\<And>x. delivery_row_key (f x) = delivery_row_key x" "\<And>x. dr_status (f x) = command_status_to_wire st"
    and g: "\<And>x. rw_id (g x) = rw_id x" "\<And>x. rw_status (g x) = command_status_to_wire cst"
    and row: "key_map rw_id (db_commands db) cid = Some r" "command_of_row (g r) = Inr c"
    and db': "db' = db\<lparr>db_deliveries := map (\<lambda>x. if delivery_row_key x = (cid, inst) then f x else x) (db_deliveries db),
                     db_commands := map (\<lambda>x. if rw_id x = cid then g x else x) (db_commands db)\<rparr>"
  shows "sql_ok db'" "sql_command db' = (sql_command db)(cid \<mapsto> c)"
    and "sql_status db' = (sql_status db)(cid := (sql_status db cid)(inst \<mapsto> st))"
proof -
  have deliveries: "key_map delivery_row_key (db_deliveries db') k =
      (if k = (cid, inst) then Some (f d) else key_map delivery_row_key (db_deliveries db) k)" for k
    using key_map_update_all [of delivery_row_key f "(cid, inst)" "db_deliveries db" k, OF f(1)] assms(2)
    by (simp add: db')
  have commands: "key_map rw_id (db_commands db') k = (if k = cid then Some (g r) else key_map rw_id (db_commands db) k)" for k
    using key_map_update_all [of rw_id g cid "db_commands db" k, OF g(1)] row(1) by (simp add: db')
  show "sql_command db' = (sql_command db)(cid \<mapsto> c)"
    by (auto simp: fun_eq_iff sql_command_def commands row(2))
  show "sql_status db' = (sql_status db)(cid := (sql_status db cid)(inst \<mapsto> st))"
    by (auto simp: fun_eq_iff sql_status_def deliveries f(2))
  have "sql_ok (db\<lparr>db_deliveries := map (\<lambda>x. if delivery_row_key x = (cid, inst) then f x else x) (db_deliveries db)\<rparr>)"
    by (rule sql_ok_deliveries [OF assms(1) f])
  from sql_ok_commands [OF this g, of cid] show "sql_ok db'" by (simp add: db')
qed

lemma sql_status_row:
  assumes "sql_ok db" "d \<in> set (db_deliveries db)"
  shows "key_map delivery_row_key (db_deliveries db) (delivery_row_key d) = Some d"
  using assms by (simp add: sql_ok_def key_map_Some)

lemma sort_key_Nil [simp]: "sort_key f xs = [] \<longleftrightarrow> xs = []"
  using length_sort [of f xs] by (simp flip: length_0_conv)

lemma sort_key_Cons: "sort_key f xs = y # ys \<Longrightarrow> y \<in> set xs"
  by (metis list.set_intros(1) set_sort)

definition row_is_next :: "string \<Rightarrow> admin_db \<Rightarrow> command_row \<Rightarrow> bool" where
  "row_is_next inst db c \<longleftrightarrow>
     (\<exists>d \<in> set (db_deliveries db). dr_command_id d = rw_id c \<and> row_waits_for inst d)"

lemma sql_select_next_rows:
  "sql_select_next inst db =
     (case sort_key rw_created_at (filter (row_is_next inst db) (db_commands db)) of [] \<Rightarrow> None | r # _ \<Rightarrow> Some r)"
  by (simp add: sql_select_next_def list_ex_iff row_is_next_def [abs_def])

lemma sql_select_next_None:
  assumes "sql_ok db" "sql_select_next inst db = None"
  shows "sql_status db c inst \<noteq> Some Pending"
proof
  assume "sql_status db c inst = Some Pending"
  then obtain d where d: "key_map delivery_row_key (db_deliveries db) (c, inst) = Some d" "dr_status d = ''pending''"
    by (auto simp: sql_status_def wire_status_pending split: bind_splits)
  from key_map_key [OF d(1)] have "d \<in> set (db_deliveries db)" "dr_command_id d = c" "dr_target_instance_id d = inst"
    by (auto simp: delivery_row_key_def)
  moreover from this assms(1) obtain r where r: "r \<in> set (db_commands db)" "rw_id r = c" by (auto simp: sql_ok_def)
  ultimately have "row_is_next inst db r"
    using d(2) by (auto simp: row_is_next_def row_waits_for_def intro!: bexI [of _ d])
  with r(1) have "filter (row_is_next inst db) (db_commands db) \<noteq> []" unfolding filter_empty_conv by blast
  with assms(2) show False by (simp add: sql_select_next_rows split: list.splits)
qed

lemma sql_select_next_Some:
  assumes "sql_ok db" "sql_select_next inst db = Some r"
  obtains d where "key_map rw_id (db_commands db) (rw_id r) = Some r"
    "key_map delivery_row_key (db_deliveries db) (rw_id r, inst) = Some d" "dr_status d = ''pending''"
proof -
  from assms(2) obtain rs where "sort_key rw_created_at (filter (row_is_next inst db) (db_commands db)) = r # rs"
    by (auto simp: sql_select_next_rows split: list.splits)
  then have "r \<in> set (filter (row_is_next inst db) (db_commands db))" by (rule sort_key_Cons)
  then obtain d where r: "r \<in> set (db_commands db)" and d: "d \<in> set (db_deliveries db)" "dr_command_id d = rw_id r"
      "dr_target_instance_id d = inst" "dr_status d = ''pending''"
    by (auto simp: row_is_next_def row_waits_for_def)
  have "key_map rw_id (db_commands db) (rw_id r) = Some r" using assms(1) r by (simp add: sql_ok_def key_map_Some)
  moreover have "key_map delivery_row_key (db_deliveries db) (rw_id r, inst) = Some d"
    using sql_status_row [OF assms(1) d(1)] d(2,3) by (simp add: delivery_row_key_def)
  ultimately show thesis using that d(4) by blast
qed

lemma sql_assign_some:
  assumes "sql_ok db" "sql_assign_next_command inst now db = (Inr (Some a), db')"
  shows "as_target_instance_id a = inst \<and> sql_status db (as_command_id a) inst = Some Pending \<and> sql_ok db' \<and>
      sql_status db' = (sql_status db)(as_command_id a := (sql_status db (as_command_id a))(inst \<mapsto> Running)) \<and>
      (\<exists>c. sql_command db (as_command_id a) = Some c \<and>
        sql_command db' = (sql_command db)(as_command_id a \<mapsto> c\<lparr>qc_status := Running, qc_updated_at := now\<rparr>))"
proof -
  obtain r where r: "sql_select_next inst db = Some r"
    using assms(2) by (auto simp: sql_assign_next_command_def split: option.splits)
  then obtain d where row: "key_map rw_id (db_commands db) (rw_id r) = Some r"
      and d: "key_map delivery_row_key (db_deliveries db) (rw_id r, inst) = Some d" "dr_status d = ''pending''"
    by (rule sql_select_next_Some [OF assms(1)])
  from sql_command_row [OF assms(1) row] obtain c where c: "command_of_row r = Inr c" "qc_id c = rw_id r"
    by (metis queued_command.select_convs(1))
  let ?c = "c\<lparr>qc_status := Running, qc_updated_at := now\<rparr>"
  let ?f = "\<lambda>d. d\<lparr>dr_status := ''running'', dr_assigned_at := Some now\<rparr>"
  let ?g = "\<lambda>r. r\<lparr>rw_status := ''running'', rw_updated_at := now\<rparr>"
  have a: "a = command_assignment_for ?c inst now" and db': "db' = sql_mark_running (rw_id r) inst now db"
    using assms(2) r c by (simp_all add: sql_assign_next_command_def Let_def)
  have "command_of_row (?g r) = Inr ?c"
    using c command_of_row_ok [of "?g r" Running] by (auto simp: command_of_row_def result_simps)
  then have "sql_ok db'" "sql_command db' = (sql_command db)(rw_id r \<mapsto> ?c)"
      "sql_status db' = (sql_status db)(rw_id r := (sql_status db (rw_id r))(inst \<mapsto> Running))"
    using sql_update [OF assms(1) d(1), of ?f Running ?g Running r ?c db'] row
    by (simp_all add: delivery_row_key_def db' sql_mark_running_def)
  moreover have "sql_command db (rw_id r) = Some c" using row c(1) by (simp add: sql_command_def)
  moreover have "sql_status db (rw_id r) inst = Some Pending" using d by (simp add: sql_status_def)
  ultimately show ?thesis using c(2) by (auto simp: a command_assignment_for_def)
qed

lemma sql_assign_none:
  assumes "sql_ok db" "sql_assign_next_command inst now db = (Inr None, db')"
  shows "db' = db \<and> (\<forall>c. sql_status db c inst \<noteq> Some Pending)"
proof -
  have "sql_select_next inst db = None" "db' = db"
    using assms(2) by (auto simp: sql_assign_next_command_def Let_def split: option.splits sum.splits)
  with sql_select_next_None [OF assms(1)] show ?thesis by simp
qed

lemma sql_assign_ok: "sql_ok db \<Longrightarrow> is_ok (fst (sql_assign_next_command inst now db))"
proof -
  assume ok: "sql_ok db"
  show ?thesis
  proof (cases "sql_select_next inst db")
    case (Some r)
    then have "key_map rw_id (db_commands db) (rw_id r) = Some r" by (rule sql_select_next_Some [OF ok])
    then obtain c where "command_of_row r = Inr c" by (rule sql_command_row [OF ok])
    with Some show ?thesis by (simp add: sql_assign_next_command_def Let_def)
  qed (simp add: sql_assign_next_command_def)
qed

lemma delivery_state_of_row_ok:
  "wire_status (dr_status d) = Some st \<Longrightarrow> delivery_state_of_row d =
     Inr \<lparr>ds_target_instance_id = dr_target_instance_id d, ds_status = st, ds_message = dr_message d\<rparr>"
  by (simp add: wire_status_Some delivery_state_of_row_def)

lemma sql_delivery_states:
  assumes "sql_ok db" "d \<in> set (db_deliveries db)" "dr_command_id d = cid"
  obtains states where "sql_fetch_delivery_states cid db = Inr states"
    "ds_status ` set states = {st. \<exists>t. sql_status db cid t = Some st}"
proof -
  let ?rows = "sort_key dr_target_instance_id (filter (\<lambda>d. dr_command_id d = cid) (db_deliveries db))"
  let ?P = "\<lambda>d s. wire_status (dr_status d) = Some (ds_status s)"
  have "d \<in> set ?rows" using assms by simp
  then have "?rows \<noteq> []" by (metis empty_iff empty_set)
  have "\<forall>r \<in> set ?rows. \<exists>x. delivery_state_of_row r = Inr x \<and> ?P r x"
  proof
    fix r
    assume "r \<in> set ?rows"
    then have "wire_status (dr_status r) \<noteq> None" using assms(1) by (simp add: sql_ok_def)
    then obtain st where "wire_status (dr_status r) = Some st" by auto
    with delivery_state_of_row_ok [OF this] show "\<exists>x. delivery_state_of_row r = Inr x \<and> ?P r x" by simp
  qed
  from collect_rows_ok [OF this] obtain states where states: "collect_rows delivery_state_of_row ?rows = Inr states"
    and all: "list_all2 ?P ?rows states" by blast
  have "map (\<lambda>d. wire_status (dr_status d)) ?rows = map (\<lambda>s. Some (ds_status s)) states"
    using all by (simp add: list_all2_conv_all_nth list_eq_iff_nth_eq)
  from arg_cong [OF this, of set] have set_eq: "(\<lambda>d. wire_status (dr_status d)) ` set ?rows = Some ` ds_status ` set states"
    by (simp only: set_map image_image)
  have "x \<in> ds_status ` set states \<longleftrightarrow> (\<exists>t. sql_status db cid t = Some x)" for x
  proof -
    have "x \<in> ds_status ` set states \<longleftrightarrow> Some x \<in> (\<lambda>d. wire_status (dr_status d)) ` set ?rows"
      unfolding set_eq by (simp only: inj_image_mem_iff [OF inj_Some])
    also have "\<dots> \<longleftrightarrow> (\<exists>d \<in> set (db_deliveries db). dr_command_id d = cid \<and> wire_status (dr_status d) = Some x)"
      by (auto simp: image_iff)
    also have "\<dots> \<longleftrightarrow> (\<exists>t d. key_map delivery_row_key (db_deliveries db) (cid, t) = Some d \<and> wire_status (dr_status d) = Some x)"
      using assms(1) by (auto simp: sql_ok_def key_map_Some delivery_row_key_def)
    finally show ?thesis by (auto simp: sql_status_def bind_eq_Some_conv)
  qed
  then have "ds_status ` set states = {st. \<exists>t. sql_status db cid t = Some st}" by blast
  moreover have "sql_fetch_delivery_states cid db = Inr states"
    using \<open>?rows \<noteq> []\<close> states by (simp add: sql_fetch_delivery_states_def)
  ultimately show thesis using that by blast
qed

lemma sql_complete_ok:
  assumes "sql_ok db" "sql_record_command_completion inst cid req now db = (Inr qc, db')"
  shows "sql_status db cid inst = Some Running \<and> sql_ok db' \<and>
      sql_status db' = (sql_status db)(cid := (sql_status db cid)(inst \<mapsto> completion_status_to_command_status (co_status req))) \<and>
      sql_command db' = (sql_command db)(cid \<mapsto> qc) \<and> qc_status qc = status_of_set {st. \<exists>t. sql_status db' cid t = Some st}"
proof -
  let ?st = "completion_status_to_command_status (co_status req)"
  let ?f = "\<lambda>d. d\<lparr>dr_status := command_status_to_wire ?st, dr_completed_at := Some (co_completed_at req),
      dr_message := Some (completion_message (co_status req) (co_message req))\<rparr>"
  let ?db1 = "db\<lparr>db_deliveries := map (\<lambda>d. if delivery_row_key d = (cid, inst) then ?f d else d) (db_deliveries db)\<rparr>"
  let ?g = "\<lambda>r. r\<lparr>rw_status := command_status_to_wire (qc_status qc), rw_result := qc_result qc,
      rw_updated_at := qc_updated_at qc\<rparr>"
  note find = find_is_key_map [of delivery_row_key "(cid, inst)" "db_deliveries db"]
  from assms(2) obtain d where d: "key_map delivery_row_key (db_deliveries db) (cid, inst) = Some d"
    and run: "command_status_from_wire (dr_status d) = Inr Running"
    by (auto simp: sql_record_command_completion_def find result_simps split: option.splits sum.splits if_splits)
  obtain c states where c: "sql_fetch_command cid ?db1 = Inr c"
    and states: "sql_fetch_delivery_states cid ?db1 = Inr states"
    and qc: "qc = c\<lparr>qc_status := aggregate_command_status states,
      qc_result := command_result_from_deliveries (cr_kind (qc_request c)) states, qc_updated_at := now\<rparr>"
    and db': "db' = ?db1\<lparr>db_commands := map (\<lambda>r. if rw_id r = cid then ?g r else r) (db_commands ?db1)\<rparr>"
    using assms(2) d run
    by (auto simp: sql_record_command_completion_def find Let_def result_simps split: sum.splits)
  from c obtain r where r: "key_map rw_id (db_commands db) cid = Some r" "command_of_row r = Inr c"
    by (auto simp: sql_fetch_command_def find_is_key_map split: option.splits)
  have "command_of_row (?g r) = Inr qc"
    using r(2) command_of_row_ok [of "?g r" "qc_status qc"] by (auto simp: command_of_row_def qc result_simps)
  then have eqs: "sql_ok db'" "sql_command db' = (sql_command db)(cid \<mapsto> qc)"
      "sql_status db' = (sql_status db)(cid := (sql_status db cid)(inst \<mapsto> ?st))"
    using sql_update [OF assms(1) d, of ?f ?st ?g "qc_status qc" r qc db'] r(1)
    by (simp_all add: delivery_row_key_def db')
  have "key_map delivery_row_key (db_deliveries db') (cid, inst) = Some (?f d)"
    using key_map_update_all [of delivery_row_key ?f "(cid, inst)" "db_deliveries db" "(cid, inst)"] d
    by (simp add: db' delivery_row_key_def)
  from key_map_key [OF this] have "?f d \<in> set (db_deliveries db')" "dr_command_id (?f d) = cid"
    by (simp_all add: delivery_row_key_def)
  then obtain states' where "sql_fetch_delivery_states cid db' = Inr states'"
      "ds_status ` set states' = {st. \<exists>t. sql_status db' cid t = Some st}"
    by (rule sql_delivery_states [OF eqs(1)])
  moreover have "sql_fetch_delivery_states cid db' = sql_fetch_delivery_states cid ?db1"
    by (simp add: sql_fetch_delivery_states_def db')
  ultimately have "ds_status ` set states = {st. \<exists>t. sql_status db' cid t = Some st}" using states by simp
  then have "qc_status qc = status_of_set {st. \<exists>t. sql_status db' cid t = Some st}"
    by (simp add: qc aggregate_is_status_of_set)
  moreover have "sql_status db cid inst = Some Running" using d run by (simp add: sql_status_def wire_status_Some)
  ultimately show ?thesis using eqs by simp
qed

lemma sql_complete_error:
  assumes "sql_ok db" "sql_record_command_completion inst cid req now db = (Inl e, db')"
  shows "db' = db \<and> sql_status db cid inst \<noteq> Some Running"
proof (cases "key_map delivery_row_key (db_deliveries db) (cid, inst)")
  case None
  then show ?thesis using assms(2)
    by (auto simp: sql_record_command_completion_def find_is_key_map sql_status_def)
next
  case (Some d)
  from key_map_key [OF Some] have d: "d \<in> set (db_deliveries db)" "delivery_row_key d = (cid, inst)" by auto
  then obtain st where st: "wire_status (dr_status d) = Some st" using assms(1) by (auto simp: sql_ok_def)
  show ?thesis
  proof (cases "st = Running")
    case False
    then show ?thesis using Some st assms(2)
      by (auto simp: sql_record_command_completion_def find_is_key_map sql_status_def wire_status_Some)
  next
    case True
    let ?f = "\<lambda>d. d\<lparr>dr_status := command_status_to_wire (completion_status_to_command_status (co_status req)),
        dr_completed_at := Some (co_completed_at req),
        dr_message := Some (completion_message (co_status req) (co_message req))\<rparr>"
    let ?db1 = "db\<lparr>db_deliveries := map (\<lambda>d. if delivery_row_key d = (cid, inst) then ?f d else d) (db_deliveries db)\<rparr>"
    have "dr_command_id d = cid" using d(2) by (simp add: delivery_row_key_def)
    then obtain r where r: "key_map rw_id (db_commands db) cid = Some r"
      using assms(1) d(1) key_map_None [of rw_id "db_commands db" cid] by (cases "key_map rw_id (db_commands db) cid") (auto simp: sql_ok_def)
    obtain c where c: "command_of_row r = Inr c" by (rule sql_command_row [OF assms(1) r]) blast
    have ok: "sql_ok ?db1" by (rule sql_ok_deliveries [OF assms(1)]) (simp_all add: delivery_row_key_def)
    have "?f d \<in> set (db_deliveries ?db1)" using d by (auto intro: rev_image_eqI)
    moreover have "dr_command_id (?f d) = cid" by (simp add: \<open>dr_command_id d = cid\<close>)
    ultimately obtain states where "sql_fetch_delivery_states cid ?db1 = Inr states"
      by (rule sql_delivery_states [OF ok])
    moreover have "sql_fetch_command cid ?db1 = Inr c" using r c by (simp add: sql_fetch_command_def find_is_key_map)
    ultimately show ?thesis using assms(2) Some st True
      by (simp add: sql_record_command_completion_def find_is_key_map wire_status_Some Let_def)
  qed
qed

interpretation sqlite_admin: command_store sql_status sql_command sql_save_batch_command sql_assign_next_command
    sql_record_command_completion sql_ok
proof (unfold_locales, goal_cases)
  case (1 s new targets)
  then show ?case by (rule sql_save_new)
next
  case (2 s inst now s')
  then show ?case by (rule sql_assign_none)
next
  case (3 s inst now a s')
  then show ?case by (rule sql_assign_some)
next
  case (4 s inst now)
  then show ?case by (rule sql_assign_ok)
next
  case (5 s inst c req now qc s')
  then show ?case by (rule sql_complete_ok)
next
  case (6 s inst c req now e s')
  then show ?case by (rule sql_complete_error)
next
  case (7 s c t st)
  then obtain d where d: "key_map delivery_row_key (db_deliveries s) (c, t) = Some d"
    by (auto simp: sql_status_def bind_eq_Some_conv)
  from key_map_key [OF this] 7(1) have "c \<in> rw_id ` set (db_commands s)"
    by (auto simp: sql_ok_def delivery_row_key_def)
  then obtain r where "key_map rw_id (db_commands s) c = Some r"
    using key_map_None [of rw_id "db_commands s" c] by fastforce
  then show ?case by (auto simp: sql_command_def elim: sql_command_row [OF 7(1)])
qed

end
