(* ===== verification/Admin_Server.thy ===== *)
theory Admin_Server
  imports Admin_Memory Admin_Sqlite
begin

text \<open>
  The admin server of \<open>crates/autoflow-admin-server/src/lib.rs\<close>: the state with its two kinds of storage,
  the operations on it, and the HTTP handlers that authorize an operator or verify an agent's envelope
  before them. \<open>server_lib\<close> is what the server calls of other crates (\<open>crypto_lib\<close>, and \<open>serde_json\<close> on
  the payload types); \<open>server_call\<close> is what one request draws from the clock and from \<open>Uuid::new_v4\<close>. \<open>serve\<close> is a
  request that no other disturbs. The server has its requests side by side; for the SQLite store \<open>Admin_Statements\<close>
  has the statements of concurrent polls, completions and saves.
\<close>

section \<open>State\<close>

datatype admin_storage = Memory memory_store | Sqlite admin_db

record admin_state =
  sv_storage :: admin_storage
  sv_enrollment_tokens :: "string set"
  sv_operator_tokens :: "(string, operator_role) hash_map"

datatype admin_permission = View | Operate | Administer

record operator_context =
  oc_actor :: string
  oc_role :: "operator_role option"

datatype audit_details =
    GroupDetails string "string list"
  | BatchDetails string command_kind "string list"
  | CompletionDetails string command_status "command_result option"

record server_lib =
  sl_crypto :: crypto_lib
  sl_poll_json :: "poll_request to_json"
  sl_completion_json :: "completion_request to_json"
  sl_heartbeat_json :: "heartbeat_payload to_json"
  sl_rotation_json :: "rotation_request to_json"
  sl_assignment_json :: "command_assignment to_json"
  sl_details :: "audit_details \<Rightarrow> string"

record server_call =
  sc_now :: timestamp
  sc_new_id :: uuid
  sc_nonce :: uuid
  sc_signed_at :: timestamp
  sc_audit_id :: uuid
  sc_audit_at :: timestamp

definition admin_new :: admin_state where
  "admin_new = \<lparr>sv_storage = Memory memory_empty, sv_enrollment_tokens = {}, sv_operator_tokens = []\<rparr>"

definition admin_with_sqlite :: "admin_db \<Rightarrow> admin_state" where
  "admin_with_sqlite db = \<lparr>sv_storage = Sqlite db, sv_enrollment_tokens = {}, sv_operator_tokens = []\<rparr>"

definition register_enrollment_token :: "string \<Rightarrow> admin_state \<Rightarrow> admin_server_error + admin_state" where
  "register_enrollment_token token st =
     rbind (normalize_required_secret token MissingEnrollmentToken) (\<lambda>t.
       Inr (st\<lparr>sv_enrollment_tokens := insert t (sv_enrollment_tokens st)\<rparr>))"

definition register_operator_token :: "string \<Rightarrow> operator_role \<Rightarrow> admin_state \<Rightarrow> admin_server_error + admin_state" where
  "register_operator_token token role st =
     rbind (normalize_required_secret token MissingOperatorToken) (\<lambda>t.
       Inr (st\<lparr>sv_operator_tokens := hm_insert t role (sv_operator_tokens st)\<rparr>))"

section \<open>Storage\<close>

fun st_register_agent_secret :: "timestamp \<Rightarrow> string \<Rightarrow> string \<Rightarrow> admin_storage \<Rightarrow> admin_storage" where
  "st_register_agent_secret now inst secret (Memory m) = Memory (mem_register_agent_secret inst secret m)"
| "st_register_agent_secret now inst secret (Sqlite db) = Sqlite (sql_register_agent_secret now inst secret db)"

fun st_agent_secret :: "string \<Rightarrow> admin_storage \<Rightarrow> admin_server_error + string" where
  "st_agent_secret inst (Memory m) = mem_agent_secret inst m"
| "st_agent_secret inst (Sqlite db) = sql_agent_secret inst db"

fun st_save_instance :: "instance_snapshot \<Rightarrow> admin_storage \<Rightarrow> admin_server_error + admin_storage" where
  "st_save_instance i (Memory m) = Inr (Memory (mem_save_instance i m))"
| "st_save_instance i (Sqlite db) = rbind (sql_save_instance i db) (\<lambda>db'. Inr (Sqlite db'))"

fun st_list_instances :: "admin_storage \<Rightarrow> instance_snapshot list" where
  "st_list_instances (Memory m) = mem_list_instances m"
| "st_list_instances (Sqlite db) = sql_list_instances db"

fun st_save_machine_group :: "machine_group \<Rightarrow> admin_storage \<Rightarrow> admin_storage" where
  "st_save_machine_group g (Memory m) = Memory (mem_save_machine_group g m)"
| "st_save_machine_group g (Sqlite db) = Sqlite (sql_save_machine_group g db)"

fun st_list_machine_groups :: "admin_storage \<Rightarrow> machine_group list" where
  "st_list_machine_groups (Memory m) = mem_list_machine_groups m"
| "st_list_machine_groups (Sqlite db) = sql_list_machine_groups db"

fun st_save_batch_command :: "queued_command \<Rightarrow> string list \<Rightarrow> admin_storage \<Rightarrow> admin_server_error + admin_storage" where
  "st_save_batch_command c targets (Memory m) = rbind (mem_save_batch_command c targets m) (\<lambda>m'. Inr (Memory m'))"
| "st_save_batch_command c targets (Sqlite db) = rbind (sql_save_batch_command c targets db) (\<lambda>db'. Inr (Sqlite db'))"

fun st_list_queued_commands :: "admin_storage \<Rightarrow> admin_server_error + queued_command list" where
  "st_list_queued_commands (Memory m) = Inr (mem_list_queued_commands m)"
| "st_list_queued_commands (Sqlite db) = sql_list_queued_commands db"

fun st_assign_next_command ::
    "string \<Rightarrow> timestamp \<Rightarrow> admin_storage \<Rightarrow> (admin_server_error + command_assignment option) \<times> admin_storage" where
  "st_assign_next_command inst now (Memory m) = map_prod id Memory (mem_assign_next_command inst now m)"
| "st_assign_next_command inst now (Sqlite db) = map_prod id Sqlite (sql_assign_next_command inst now db)"

fun st_pending_command_count :: "string \<Rightarrow> admin_storage \<Rightarrow> 32 word" where
  "st_pending_command_count inst (Memory m) = mem_pending_command_count inst m"
| "st_pending_command_count inst (Sqlite db) = sql_pending_command_count inst db"

fun st_record_command_completion ::
    "string \<Rightarrow> uuid \<Rightarrow> completion_request \<Rightarrow> timestamp \<Rightarrow> admin_storage \<Rightarrow>
     (admin_server_error + queued_command) \<times> admin_storage" where
  "st_record_command_completion inst cid completion now (Memory m) =
     map_prod id Memory (mem_record_command_completion inst cid completion now m)"
| "st_record_command_completion inst cid completion now (Sqlite db) =
     map_prod id Sqlite (sql_record_command_completion inst cid completion now db)"

fun st_append_central_audit :: "central_audit_entry \<Rightarrow> admin_storage \<Rightarrow> admin_server_error + admin_storage" where
  "st_append_central_audit e (Memory m) = Inr (Memory (mem_append_central_audit e m))"
| "st_append_central_audit e (Sqlite db) = rbind (sql_append_central_audit e db) (\<lambda>db'. Inr (Sqlite db'))"

fun st_query_central_audit :: "central_audit_query \<Rightarrow> admin_storage \<Rightarrow> admin_server_error + central_audit_page" where
  "st_query_central_audit q (Memory m) = Inr (mem_query_central_audit q m)"
| "st_query_central_audit q (Sqlite db) = sql_query_central_audit q db"

text \<open>A result with the storage after it: the \<open>?\<close> operator of an operation that changes state.\<close>

fun andthen :: "('e + 'a) \<times> 's \<Rightarrow> ('a \<Rightarrow> 's \<Rightarrow> ('e + 'b) \<times> 's) \<Rightarrow> ('e + 'b) \<times> 's" where
  "andthen (Inl e, s) f = (Inl e, s)"
| "andthen (Inr x, s) f = f x s"

definition guard_err :: "'e + 'a \<Rightarrow> 's \<Rightarrow> ('e + 'a) \<times> 's" where
  "guard_err r s = (r, s)"

text \<open>An operation whose storage is unchanged when it fails.\<close>

fun or_unchanged :: "'e + 's \<Rightarrow> 's \<Rightarrow> ('e + unit) \<times> 's" where
  "or_unchanged (Inl e) s = (Inl e, s)"
| "or_unchanged (Inr s') s = (Inr (), s')"

section \<open>Operations\<close>

definition register_agent_secret ::
    "timestamp \<Rightarrow> string \<Rightarrow> string \<Rightarrow> admin_storage \<Rightarrow> (admin_server_error + unit) \<times> admin_storage" where
  "register_agent_secret now inst secret s =
     andthen (guard_err (normalize_agent_secret inst secret) s) (\<lambda>(inst', secret') s.
       (Inr (), st_register_agent_secret now inst' secret' s))"

definition ensure_enrollment_token :: "string \<Rightarrow> admin_state \<Rightarrow> admin_server_error + unit" where
  "ensure_enrollment_token token st =
     (if sv_enrollment_tokens st = {} then Inl EnrollmentNotConfigured
      else if token \<notin> sv_enrollment_tokens st then Inl InvalidEnrollmentToken
      else Inr ())"

definition enroll_agent ::
    "server_call \<Rightarrow> enrollment_token_request \<Rightarrow> admin_state \<Rightarrow> admin_storage \<Rightarrow>
     (admin_server_error + enrollment_response) \<times> admin_storage" where
  "enroll_agent call request st s =
     andthen (guard_err
       (rbind (normalize_required_secret (et_token request) MissingEnrollmentToken) (\<lambda>token.
        rbind (ensure_enrollment_token token st) (\<lambda>_.
        rbind (normalize_instance_id (is_instance_id (et_instance request))) (\<lambda>inst.
        rbind (normalize_required_secret (et_agent_secret request) MissingAgentSecret) (\<lambda>secret.
          Inr (inst, secret)))))) s) (\<lambda>(inst, secret) s.
     andthen (register_agent_secret (sc_now call) inst secret s) (\<lambda>_ s.
     andthen (or_unchanged (st_save_instance
         ((et_instance request)\<lparr>is_instance_id := inst, is_last_seen_at := sc_now call\<rparr>) s) s) (\<lambda>_ s.
       (Inr \<lparr>er_accepted = True, er_instance_id = inst, er_issued_at = sc_now call,
             er_message = ''Agent matriculado''\<rparr>, s))))"

definition fleet_snapshot_of :: "timestamp \<Rightarrow> admin_storage \<Rightarrow> fleet_snapshot" where
  "fleet_snapshot_of now s =
     (let instances = sort_key is_display_name (st_list_instances s) in
      \<lparr>fl_generated_at = now, fl_summary = fleet_from_instances instances, fl_instances = instances\<rparr>)"

definition create_machine_group ::
    "server_call \<Rightarrow> machine_group_request \<Rightarrow> admin_storage \<Rightarrow> (admin_server_error + machine_group) \<times> admin_storage" where
  "create_machine_group call request s =
     andthen (guard_err (normalize_group_name (gr_name request)) s) (\<lambda>name s.
       (let group = \<lparr>mg_id = sc_new_id call, mg_name = name,
              mg_description = normalize_optional_text (gr_description request),
              mg_instance_ids = normalize_instance_ids (gr_instance_ids request),
              mg_created_at = sc_now call, mg_updated_at = sc_now call\<rparr>
        in (Inr group, st_save_machine_group group s)))"

definition list_machine_groups :: "admin_storage \<Rightarrow> machine_group list" where
  "list_machine_groups s = sort_key mg_name (st_list_machine_groups s)"

fun extend_with_groups :: "machine_group list \<Rightarrow> uuid list \<Rightarrow> string list \<Rightarrow> admin_server_error + string list" where
  "extend_with_groups groups [] targets = Inr targets"
| "extend_with_groups groups (gid # gids) targets =
     (case find (\<lambda>g. mg_id g = gid) groups of
        None \<Rightarrow> Inl (MachineGroupNotFound gid)
      | Some g \<Rightarrow> extend_with_groups groups gids (targets @ mg_instance_ids g))"

definition resolve_batch_targets :: "batch_command_request \<Rightarrow> admin_storage \<Rightarrow> admin_server_error + string list" where
  "resolve_batch_targets request s =
     rbind (extend_with_groups (list_machine_groups s) (bc_group_ids request)
              (normalize_instance_ids (cr_target_instance_ids (bc_request request))))
       (\<lambda>targets. Inr (normalize_instance_ids targets))"

definition batch_command :: "server_call \<Rightarrow> batch_command_request \<Rightarrow> string list \<Rightarrow> queued_command" where
  "batch_command call request targets =
     \<lparr>qc_id = sc_new_id call,
      qc_source = (case normalize_optional_text (bc_source request) of Some v \<Rightarrow> v | None \<Rightarrow> ''admin-server''),
      qc_request = (bc_request request)\<lparr>cr_target_instance_ids := targets\<rparr>, qc_status = Pending,
      qc_result = None, qc_created_at = sc_now call, qc_updated_at = sc_now call\<rparr>"

definition enqueue_batch_command ::
    "server_call \<Rightarrow> batch_command_request \<Rightarrow> admin_storage \<Rightarrow>
     (admin_server_error + batch_command_accepted) \<times> admin_storage" where
  "enqueue_batch_command call request s =
     andthen (guard_err (resolve_batch_targets request s) s) (\<lambda>targets s.
       if targets = [] then (Inl NoBatchTargets, s)
       else
         (let c = batch_command call request targets;
              result = queued_batch_result (qc_request c) targets
          in andthen (or_unchanged (st_save_batch_command c targets s) s) (\<lambda>_ s.
               (Inr \<lparr>ba_accepted = True, ba_resolved_target_instance_ids = targets, ba_command = c,
                     ba_result = result\<rparr>, s))))"

definition list_queued_commands :: "admin_storage \<Rightarrow> admin_server_error + queued_command list" where
  "list_queued_commands s =
     rbind (st_list_queued_commands s) (\<lambda>cs. Inr (sort_key (\<lambda>c. - qc_created_at c) cs))"

text \<open>The checks of an agent's envelope; heartbeat and rotation make them in the same order inline.\<close>

definition verify_agent_envelope ::
    "crypto_lib \<Rightarrow> 'p to_json \<Rightarrow> envelope_kind \<Rightarrow> string \<Rightarrow> 'p envelope \<Rightarrow> timestamp \<Rightarrow> admin_storage \<Rightarrow>
     admin_server_error + string" where
  "verify_agent_envelope cl json k inst e now s =
     (if inst = [] then Inl MissingInstanceId
      else if en_kind e \<noteq> k then Inl InvalidEnvelopeKind
      else if en_instance_id e \<noteq> inst then Inl EnvelopeInstanceMismatch
      else if en_expires_at e < now then Inl ExpiredEnvelope
      else
        rbind (st_agent_secret inst s) (\<lambda>secret.
        rbind (map_err from_domain_error (envelope_verify cl json e secret)) (\<lambda>valid.
          if valid then Inr secret else Inl InvalidSignature)))"

definition poll_next_command ::
    "server_lib \<Rightarrow> server_call \<Rightarrow> string \<Rightarrow> poll_request envelope \<Rightarrow> admin_storage \<Rightarrow>
     (admin_server_error + poll_response) \<times> admin_storage" where
  "poll_next_command lib call path e s =
     (let inst = trim path; now = sc_now call in
      andthen (guard_err (verify_agent_envelope (sl_crypto lib) (sl_poll_json lib) Command inst e now s) s)
        (\<lambda>secret s.
      andthen (st_assign_next_command inst now s) (\<lambda>assignment s.
      andthen (guard_err
          (case assignment of
             None \<Rightarrow> Inr None
           | Some a \<Rightarrow> map_err from_domain_error
               (rbind (envelope_sign (sl_crypto lib) (sl_assignment_json lib) (sc_signed_at call) (sc_nonce call)
                         Command inst a secret 300) (\<lambda>signed. Inr (Some signed)))) s) (\<lambda>signed s.
        (Inr \<lparr>po_assignment = signed, po_pending_count = st_pending_command_count inst s, po_polled_at = now\<rparr>, s)))))"

definition complete_command ::
    "server_lib \<Rightarrow> server_call \<Rightarrow> string \<Rightarrow> uuid \<Rightarrow> completion_request envelope \<Rightarrow> admin_storage \<Rightarrow>
     (admin_server_error + completion_accepted) \<times> admin_storage" where
  "complete_command lib call path cid e s =
     (let inst = trim path; now = sc_now call in
      andthen (guard_err (verify_agent_envelope (sl_crypto lib) (sl_completion_json lib) Command inst e now s) s)
        (\<lambda>_ s.
          if co_command_id (en_payload e) \<noteq> cid then (Inl CommandPayloadMismatch, s)
          else if co_target_instance_id (en_payload e) \<noteq> inst then (Inl CommandTargetMismatch, s)
          else andthen (st_record_command_completion inst cid (en_payload e) now s) (\<lambda>c s.
            (Inr \<lparr>ca_accepted = True, ca_command = c, ca_recorded_at = now\<rparr>, s))))"

definition receive_heartbeat ::
    "server_lib \<Rightarrow> server_call \<Rightarrow> string \<Rightarrow> heartbeat_payload envelope \<Rightarrow> admin_storage \<Rightarrow>
     (admin_server_error + heartbeat_accepted) \<times> admin_storage" where
  "receive_heartbeat lib call path e s =
     (let inst = trim path; now = sc_now call in
      andthen (guard_err (verify_agent_envelope (sl_crypto lib) (sl_heartbeat_json lib) Heartbeat inst e now s) s)
        (\<lambda>_ s.
          if is_instance_id (hb_instance (en_payload e)) \<noteq> inst then (Inl PayloadInstanceMismatch, s)
          else andthen (or_unchanged (st_save_instance ((hb_instance (en_payload e))\<lparr>is_last_seen_at := now\<rparr>) s) s) (\<lambda>_ s.
            (Inr \<lparr>ha_accepted = True, ha_instance_id = inst, ha_received_at = now,
                  ha_message = ''Heartbeat aceito''\<rparr>, s))))"

definition rotate_agent_secret ::
    "server_lib \<Rightarrow> server_call \<Rightarrow> string \<Rightarrow> rotation_request envelope \<Rightarrow> admin_storage \<Rightarrow>
     (admin_server_error + rotation_accepted) \<times> admin_storage" where
  "rotate_agent_secret lib call path e s =
     (let inst = trim path; now = sc_now call in
      andthen (guard_err (verify_agent_envelope (sl_crypto lib) (sl_rotation_json lib) SecretRotation inst e now s) s)
        (\<lambda>_ s.
      andthen (guard_err (normalize_required_secret (rr_new_agent_secret (en_payload e)) MissingAgentSecret) s)
        (\<lambda>new_secret s.
      andthen (register_agent_secret now inst new_secret s) (\<lambda>_ s.
        (Inr \<lparr>ra_accepted = True, ra_instance_id = inst, ra_rotated_at = now,
              ra_message = ''Segredo do agent rotacionado''\<rparr>, s)))))"

section \<open>Operators\<close>

fun operator_role_allows :: "operator_role \<Rightarrow> admin_permission \<Rightarrow> bool" where
  "operator_role_allows Admin _ = True"
| "operator_role_allows Operator View = True"
| "operator_role_allows Operator Operate = True"
| "operator_role_allows Viewer View = True"
| "operator_role_allows _ _ = False"

definition operator_actor :: "string \<Rightarrow> string" where
  "operator_actor token = ''operator:'' @ rev (take 6 (rev token))"

text \<open>\<open>headers\<close> is the value of \<open>x-autoflow-admin-token\<close>, when there is one that is visible text.\<close>

definition authorize_operator ::
    "string option \<Rightarrow> admin_permission \<Rightarrow> admin_state \<Rightarrow> admin_server_error + operator_context" where
  "authorize_operator headers permission st =
     (if sv_operator_tokens st = [] then Inr \<lparr>oc_actor = ''dev-admin'', oc_role = Some Admin\<rparr>
      else
        (case normalize_optional_text headers of
           None \<Rightarrow> Inl OperatorAuthRequired
         | Some token \<Rightarrow>
             (case hm_get token (sv_operator_tokens st) of
                None \<Rightarrow> Inl OperatorAuthRequired
              | Some role \<Rightarrow>
                  if \<not> operator_role_allows role permission then Inl OperatorForbidden
                  else Inr \<lparr>oc_actor = operator_actor token, oc_role = Some role\<rparr>)))"

definition agent_audit_context :: "string \<Rightarrow> operator_context" where
  "agent_audit_context inst = \<lparr>oc_actor = ''agent:'' @ inst, oc_role = None\<rparr>"

definition new_central_audit_entry ::
    "server_lib \<Rightarrow> server_call \<Rightarrow> operator_context \<Rightarrow> string \<Rightarrow> string \<Rightarrow> central_audit_status \<Rightarrow> string \<Rightarrow>
     audit_details option \<Rightarrow> central_audit_entry" where
  "new_central_audit_entry lib call operator action target s message details =
     \<lparr>ce_id = sc_audit_id call, ce_actor = oc_actor operator, ce_role = oc_role operator, ce_action = action,
      ce_target = target, ce_status = s, ce_message = message,
      ce_details = map_option (sl_details lib) details, ce_created_at = sc_audit_at call\<rparr>"

section \<open>Handlers\<close>

datatype http_request =
    GetHealth
  | GetFleet "string option"
  | GetAudit "string option" central_audit_query
  | GetGroups "string option"
  | PostGroup "string option" machine_group_request
  | GetCommands "string option"
  | PostBatch "string option" batch_command_request
  | PostEnrollment enrollment_token_request
  | PostPoll string "poll_request envelope"
  | PostCompletion string uuid "completion_request envelope"
  | PostHeartbeat string "heartbeat_payload envelope"
  | PostRotation string "rotation_request envelope"

datatype http_body =
    HealthBody
  | FleetBody fleet_snapshot
  | AuditBody central_audit_page
  | GroupsBody "machine_group list"
  | GroupBody machine_group
  | CommandsBody "queued_command list"
  | BatchBody batch_command_accepted
  | EnrollmentBody enrollment_response
  | PollBody poll_response
  | CompletionBody completion_accepted
  | HeartbeatBody heartbeat_accepted
  | RotationBody rotation_accepted

type_synonym handler = "admin_storage \<Rightarrow> (admin_server_error + http_body) \<times> admin_storage"

text \<open>\<open>append_central_audit\<close> of an accepted request, then the response.\<close>

definition audited ::
    "server_lib \<Rightarrow> server_call \<Rightarrow> operator_context \<Rightarrow> string \<Rightarrow> string \<Rightarrow> string \<Rightarrow> audit_details option \<Rightarrow>
     http_body \<Rightarrow> handler" where
  "audited lib call operator action target message details body s =
     andthen (or_unchanged (st_append_central_audit
         (new_central_audit_entry lib call operator action target AuditAccepted message details) s) s)
       (\<lambda>_ s. (Inr body, s))"

definition handle_fleet :: "server_call \<Rightarrow> string option \<Rightarrow> admin_state \<Rightarrow> handler" where
  "handle_fleet call headers st s =
     andthen (guard_err (authorize_operator headers View st) s) (\<lambda>_ s.
       (Inr (FleetBody (fleet_snapshot_of (sc_now call) s)), s))"

definition handle_list_groups :: "string option \<Rightarrow> admin_state \<Rightarrow> handler" where
  "handle_list_groups headers st s =
     andthen (guard_err (authorize_operator headers View st) s) (\<lambda>_ s.
       (Inr (GroupsBody (list_machine_groups s)), s))"

definition handle_create_group ::
    "server_lib \<Rightarrow> server_call \<Rightarrow> string option \<Rightarrow> machine_group_request \<Rightarrow> admin_state \<Rightarrow> handler" where
  "handle_create_group lib call headers request st s =
     andthen (guard_err (authorize_operator headers Operate st) s) (\<lambda>operator s.
     andthen (create_machine_group call request s) (\<lambda>group s.
       audited lib call operator ''machineGroup.create'' (cl_uuid_text (sl_crypto lib) (mg_id group))
         ''Grupo de maquinas criado'' (Some (GroupDetails (mg_name group) (mg_instance_ids group)))
         (GroupBody group) s))"

definition handle_enqueue ::
    "server_lib \<Rightarrow> server_call \<Rightarrow> string option \<Rightarrow> batch_command_request \<Rightarrow> admin_state \<Rightarrow> handler" where
  "handle_enqueue lib call headers request st s =
     andthen (guard_err (authorize_operator headers Operate st) s) (\<lambda>operator s.
     andthen (enqueue_batch_command call request s) (\<lambda>accepted s.
       audited lib call operator ''command.batch.enqueue''
         (cl_uuid_text (sl_crypto lib) (qc_id (ba_command accepted))) ''Comando em lote enfileirado''
         (Some (BatchDetails (qc_source (ba_command accepted)) (cr_kind (qc_request (ba_command accepted)))
                  (ba_resolved_target_instance_ids accepted)))
         (BatchBody accepted) s))"

definition handle_list_commands :: "string option \<Rightarrow> admin_state \<Rightarrow> handler" where
  "handle_list_commands headers st s =
     andthen (guard_err (authorize_operator headers View st) s) (\<lambda>_ s.
     andthen (guard_err (list_queued_commands s) s) (\<lambda>cs s. (Inr (CommandsBody cs), s)))"

definition handle_query_audit :: "string option \<Rightarrow> central_audit_query \<Rightarrow> admin_state \<Rightarrow> handler" where
  "handle_query_audit headers query st s =
     andthen (guard_err (authorize_operator headers Administer st) s) (\<lambda>_ s.
     andthen (guard_err (st_query_central_audit query s) s) (\<lambda>page s. (Inr (AuditBody page), s)))"

definition handle_poll :: "server_lib \<Rightarrow> server_call \<Rightarrow> string \<Rightarrow> poll_request envelope \<Rightarrow> handler" where
  "handle_poll lib call path e s =
     andthen (poll_next_command lib call path e s) (\<lambda>response s. (Inr (PollBody response), s))"

definition handle_complete ::
    "server_lib \<Rightarrow> server_call \<Rightarrow> string \<Rightarrow> uuid \<Rightarrow> completion_request envelope \<Rightarrow> handler" where
  "handle_complete lib call path cid e s =
     andthen (complete_command lib call path cid e s) (\<lambda>accepted s.
       audited lib call (agent_audit_context path) ''command.complete'' (cl_uuid_text (sl_crypto lib) cid)
         ''Agent registrou resultado de comando''
         (Some (CompletionDetails path (qc_status (ca_command accepted)) (qc_result (ca_command accepted))))
         (CompletionBody accepted) s)"

definition handle_enroll ::
    "server_lib \<Rightarrow> server_call \<Rightarrow> enrollment_token_request \<Rightarrow> admin_state \<Rightarrow> handler" where
  "handle_enroll lib call request st s =
     andthen (enroll_agent call request st s) (\<lambda>response s.
       audited lib call (agent_audit_context (er_instance_id response)) ''agent.enroll''
         (er_instance_id response) ''Agent matriculado por token'' None (EnrollmentBody response) s)"

definition handle_heartbeat :: "server_lib \<Rightarrow> server_call \<Rightarrow> string \<Rightarrow> heartbeat_payload envelope \<Rightarrow> handler" where
  "handle_heartbeat lib call path e s =
     andthen (receive_heartbeat lib call path e s) (\<lambda>accepted s. (Inr (HeartbeatBody accepted), s))"

definition handle_rotation :: "server_lib \<Rightarrow> server_call \<Rightarrow> string \<Rightarrow> rotation_request envelope \<Rightarrow> handler" where
  "handle_rotation lib call path e s =
     andthen (rotate_agent_secret lib call path e s) (\<lambda>accepted s.
       audited lib call (agent_audit_context path) ''agent.secret.rotate'' path
         ''Segredo do agent rotacionado'' None (RotationBody accepted) s)"

fun route :: "server_lib \<Rightarrow> server_call \<Rightarrow> http_request \<Rightarrow> admin_state \<Rightarrow> handler" where
  "route lib call GetHealth st = (\<lambda>s. (Inr HealthBody, s))"
| "route lib call (GetFleet headers) st = handle_fleet call headers st"
| "route lib call (GetAudit headers query) st = handle_query_audit headers query st"
| "route lib call (GetGroups headers) st = handle_list_groups headers st"
| "route lib call (PostGroup headers request) st = handle_create_group lib call headers request st"
| "route lib call (GetCommands headers) st = handle_list_commands headers st"
| "route lib call (PostBatch headers request) st = handle_enqueue lib call headers request st"
| "route lib call (PostEnrollment request) st = handle_enroll lib call request st"
| "route lib call (PostPoll path e) st = handle_poll lib call path e"
| "route lib call (PostCompletion path cid e) st = handle_complete lib call path cid e"
| "route lib call (PostHeartbeat path e) st = handle_heartbeat lib call path e"
| "route lib call (PostRotation path e) st = handle_rotation lib call path e"

definition serve ::
    "server_lib \<Rightarrow> server_call \<Rightarrow> http_request \<Rightarrow> admin_state \<Rightarrow> (admin_server_error + http_body) \<times> admin_state" where
  "serve lib call request st =
     map_prod id (\<lambda>s. st\<lparr>sv_storage := s\<rparr>) (route lib call request st (sv_storage st))"

fun accepted_status :: "http_request \<Rightarrow> nat" where
  "accepted_status (PostGroup _ _) = 201"
| "accepted_status (PostBatch _ _) = 202"
| "accepted_status (PostEnrollment _) = 201"
| "accepted_status (PostCompletion _ _ _) = 202"
| "accepted_status (PostHeartbeat _ _) = 202"
| "accepted_status _ = 200"

definition response_status :: "http_request \<Rightarrow> admin_server_error + http_body \<Rightarrow> nat" where
  "response_status request r = (case r of Inl e \<Rightarrow> error_status_code e | Inr _ \<Rightarrow> accepted_status request)"

end
