(* ===== verification/Admin_Safety.thy ===== *)
theory Admin_Safety
  imports Admin_Server
begin

text \<open>
  What holds of the admin server across its components: the storage, whichever kind it is, is a
  \<open>command_store\<close>, every request that no other disturbs is at most one step of it, and so the invariants of the store are
  invariants of a server that is asked one thing after the other; who may ask for what; and what the envelopes do
  not prevent.
\<close>

section \<open>The storage is a command store\<close>

fun st_status :: "admin_storage \<Rightarrow> uuid \<Rightarrow> string \<Rightarrow> command_status option" where
  "st_status (Memory m) = mem_status m"
| "st_status (Sqlite db) = sql_status db"

fun st_command :: "admin_storage \<Rightarrow> uuid \<Rightarrow> queued_command option" where
  "st_command (Memory m) = mem_command m"
| "st_command (Sqlite db) = sql_command db"

fun st_ok :: "admin_storage \<Rightarrow> bool" where
  "st_ok (Memory m) = mem_ok m"
| "st_ok (Sqlite db) = sql_ok db"

lemma storage_cases:
  obtains (mem) m where "s = Memory m" | (sql) db where "s = Sqlite db"
  by (cases s) auto

lemma map_prod_eq: "map_prod id f p = (r, s) \<longleftrightarrow> (\<exists>t. p = (r, t) \<and> s = f t)"
  by (cases p) auto

interpretation server_store: command_store st_status st_command st_save_batch_command st_assign_next_command
    st_record_command_completion st_ok
proof (unfold_locales, goal_cases)
  case (1 s new targets)
  show ?case
  proof (cases s)
    case (Memory m)
    with 1 memory.save_new [of m new targets] show ?thesis by fastforce
  next
    case (Sqlite db)
    with 1 sqlite_admin.save_new [of db new targets] show ?thesis by fastforce
  qed
next
  case (2 s inst now s')
  then show ?case
    by (cases s) (auto simp: map_prod_eq dest: memory.assign_none sqlite_admin.assign_none)
next
  case (3 s inst now a s')
  show ?case
  proof (cases s)
    case (Memory m)
    with 3 memory.assign_some [of m inst now a] show ?thesis by (auto simp: map_prod_eq)
  next
    case (Sqlite db)
    with 3 sqlite_admin.assign_some [of db inst now a] show ?thesis by (auto simp: map_prod_eq)
  qed
next
  case (4 s inst now)
  then show ?case by (cases s) (simp_all add: memory.assign_ok sqlite_admin.assign_ok)
next
  case (5 s inst c req now qc s')
  show ?case
  proof (cases s)
    case (Memory m)
    with 5 memory.complete_ok [of m inst c req now qc] show ?thesis by (auto simp: map_prod_eq)
  next
    case (Sqlite db)
    with 5 sqlite_admin.complete_ok [of db inst c req now qc] show ?thesis by (auto simp: map_prod_eq)
  qed
next
  case (6 s inst c req now e s')
  then show ?case
    by (cases s) (auto simp: map_prod_eq dest: memory.complete_error sqlite_admin.complete_error)
next
  case (7 s c t st)
  then show ?case by (cases s) (auto dest: memory.status_command sqlite_admin.status_command)
qed

section \<open>Requests are steps of the store\<close>

definition keeps :: "admin_storage \<Rightarrow> admin_storage \<Rightarrow> bool" where
  "keeps s s' \<longleftrightarrow> st_status s' = st_status s \<and> st_command s' = st_command s \<and> (st_ok s \<longrightarrow> st_ok s')"

lemma keeps_refl [simp]: "keeps s s"
  by (simp add: keeps_def)

lemma keeps_trans: "keeps s t \<Longrightarrow> keeps t u \<Longrightarrow> keeps s u"
  by (simp add: keeps_def)

lemma keeps_memory: "am_command_queue m' = am_command_queue m \<Longrightarrow> am_command_deliveries m' = am_command_deliveries m \<Longrightarrow>
    keeps (Memory m) (Memory m')"
  by (simp add: keeps_def fun_eq_iff mem_status_def mem_command_def mem_ok_def)

lemma keeps_sqlite: "db_commands db' = db_commands db \<Longrightarrow> db_deliveries db' = db_deliveries db \<Longrightarrow>
    keeps (Sqlite db) (Sqlite db')"
  by (simp add: keeps_def fun_eq_iff sql_status_def sql_command_def sql_ok_def)

lemma keeps_secret [simp]: "keeps s (st_register_agent_secret now inst secret s)"
  by (cases s) (auto intro!: keeps_memory keeps_sqlite simp: mem_register_agent_secret_def sql_register_agent_secret_def)

lemma keeps_group [simp]: "keeps s (st_save_machine_group g s)"
  by (cases s) (auto intro!: keeps_memory keeps_sqlite simp: mem_save_machine_group_def sql_save_machine_group_def)

lemma keeps_instance: "st_save_instance i s = Inr s' \<Longrightarrow> keeps s s'"
  by (cases s) (auto intro!: keeps_memory keeps_sqlite simp: mem_save_instance_def sql_save_instance_def result_simps split: if_splits)

lemma keeps_audit: "st_append_central_audit e s = Inr s' \<Longrightarrow> keeps s s'"
  by (cases s) (auto intro!: keeps_memory keeps_sqlite
    simp: mem_append_central_audit_def sql_append_central_audit_def result_simps split: if_splits)

lemma andthen_eq:
  "andthen p f = (r, s') \<longleftrightarrow>
     (\<exists>e s1. p = (Inl e, s1) \<and> r = Inl e \<and> s' = s1) \<or> (\<exists>x s1. p = (Inr x, s1) \<and> f x s1 = (r, s'))"
  by (cases "(p, f)" rule: andthen.cases) auto

lemma guard_err_eq [simp]: "guard_err x s = (r, s') \<longleftrightarrow> x = r \<and> s' = s"
  by (auto simp: guard_err_def)

lemma or_unchanged_eq:
  "or_unchanged x s = (r, s') \<longleftrightarrow> (\<exists>e. x = Inl e \<and> r = Inl e \<and> s' = s) \<or> (x = Inr s' \<and> r = Inr ())"
  by (cases x) auto

lemmas run_simps = andthen_eq or_unchanged_eq

lemma audited_keeps: "audited lib call operator action target message details body s = (r, s') \<Longrightarrow> keeps s s'"
  by (auto simp: audited_def run_simps dest: keeps_audit)

lemma andthen_keeps:
  assumes "andthen p f = (r, s')" "\<And>r1 s1. p = (r1, s1) \<Longrightarrow> keeps s s1" "\<And>x s1. f x s1 = (r, s') \<Longrightarrow> keeps s1 s'"
  shows "keeps s s'"
  using assms by (auto simp: andthen_eq intro: keeps_trans)

lemma register_keeps: "register_agent_secret now inst secret s = (r, s') \<Longrightarrow> keeps s s'"
  by (auto simp: register_agent_secret_def run_simps)

lemma enroll_keeps: "enroll_agent call request st s = (r, s') \<Longrightarrow> keeps s s'"
  by (auto simp: enroll_agent_def run_simps dest!: register_keeps keeps_instance intro: keeps_trans)

lemma heartbeat_keeps: "receive_heartbeat lib call path e s = (r, s') \<Longrightarrow> keeps s s'"
  by (auto simp: receive_heartbeat_def run_simps Let_def split: if_splits dest!: keeps_instance)

lemma rotate_keeps: "rotate_agent_secret lib call path e s = (r, s') \<Longrightarrow> keeps s s'"
  by (auto simp: rotate_agent_secret_def run_simps Let_def dest!: register_keeps)

lemma group_keeps: "create_machine_group call request s = (r, s') \<Longrightarrow> keeps s s'"
  by (auto simp: create_machine_group_def run_simps Let_def)

lemma enqueue_step:
  assumes "enqueue_batch_command call request s = (r, s')" "st_command s (sc_new_id call) = None"
  shows "s' = s \<or> server_store.step s s'"
proof -
  have "s' = s" if "r = Inl e" for e
    using assms(1) that by (auto simp: enqueue_batch_command_def run_simps Let_def split: if_splits)
  moreover have "server_store.step s s'" if r: "r = Inr b" for b
  proof -
    from assms(1) r obtain targets where t: "resolve_batch_targets request s = Inr targets" "targets \<noteq> []"
        "st_save_batch_command (batch_command call request targets) targets s = Inr s'"
      by (auto simp: enqueue_batch_command_def run_simps Let_def split: if_splits)
    have dist: "distinct targets"
      using t(1) push_instance_ids [of "[]"] by (auto simp: resolve_batch_targets_def result_simps normalize_instance_ids_def)
    show ?thesis
      by (rule server_store.step_save [OF _ _ t(2) dist t(3)]) (simp_all add: batch_command_def assms(2))
  qed
  ultimately show ?thesis by (cases r) auto
qed

lemma poll_step: "poll_next_command lib call path e s = (r, s') \<Longrightarrow> s' = s \<or> server_store.step s s'"
  by (auto simp: poll_next_command_def run_simps Let_def intro: server_store.step_assign)

lemma complete_step: "complete_command lib call path cid e s = (r, s') \<Longrightarrow> s' = s \<or> server_store.step s s'"
  by (auto simp: complete_command_def run_simps Let_def split: if_splits intro: server_store.step_complete)

lemma keeps_after:
  assumes "s1 = s \<or> server_store.step s s1" "keeps s1 s2"
  shows "\<exists>s1. (s1 = s \<or> server_store.step s s1) \<and> keeps s1 s2"
  using assms by blast

lemma route_step:
  assumes "route lib call request st s = (r, s')" "st_command s (sc_new_id call) = None"
  shows "\<exists>s1. (s1 = s \<or> server_store.step s s1) \<and> keeps s1 s'"
proof (cases request)
  case (PostBatch headers batch)
  with assms(1) consider (same) "s' = s"
    | (run) r1 s1 where "enqueue_batch_command call batch s = (r1, s1)" "keeps s1 s'"
    by (auto simp: handle_enqueue_def run_simps dest: audited_keeps)
  then show ?thesis
  proof cases
    case same
    then show ?thesis using keeps_refl by blast
  next
    case run
    from keeps_after [OF enqueue_step [OF run(1) assms(2)] run(2)] show ?thesis .
  qed
next
  case (PostPoll path e)
  with assms(1) obtain r1 where "poll_next_command lib call path e s = (r1, s')"
    by (auto simp: handle_poll_def run_simps)
  from keeps_after [OF poll_step [OF this] keeps_refl] show ?thesis .
next
  case (PostCompletion path cid e)
  with assms(1) obtain r1 s1 where "complete_command lib call path cid e s = (r1, s1)" "keeps s1 s'"
    by (auto simp: handle_complete_def run_simps dest: audited_keeps)
  from keeps_after [OF complete_step [OF this(1)] this(2)] show ?thesis .
next
  case (PostGroup headers group)
  with assms(1) have "keeps s s'"
    by (auto simp: handle_create_group_def elim!: andthen_keeps intro: group_keeps audited_keeps)
  then show ?thesis by blast
next
  case (PostEnrollment e)
  with assms(1) have "keeps s s'"
    by (auto simp: handle_enroll_def elim!: andthen_keeps intro: enroll_keeps audited_keeps)
  then show ?thesis by blast
next
  case (PostHeartbeat path e)
  with assms(1) have "keeps s s'" by (auto simp: handle_heartbeat_def run_simps dest!: heartbeat_keeps)
  then show ?thesis by blast
next
  case (PostRotation path e)
  with assms(1) have "keeps s s'"
    by (auto simp: handle_rotation_def elim!: andthen_keeps intro: rotate_keeps audited_keeps)
  then show ?thesis by blast
qed (use assms(1) in \<open>auto simp: handle_fleet_def handle_list_groups_def handle_list_commands_def handle_query_audit_def run_simps\<close>)

text \<open>\<open>Uuid::new_v4\<close> is taken to draw an identifier no command has.\<close>

inductive server_step :: "server_lib \<Rightarrow> admin_state \<Rightarrow> admin_state \<Rightarrow> bool" for lib where
  served: "serve lib call request st = (r, st') \<Longrightarrow> st_command (sv_storage st) (sc_new_id call) = None \<Longrightarrow>
    server_step lib st st'"

inductive_cases server_stepE: "server_step lib st st'"

lemma serve_eq:
  "serve lib call request st = (r, st') \<longleftrightarrow>
     (\<exists>s. route lib call request st (sv_storage st) = (r, s) \<and> st' = st\<lparr>sv_storage := s\<rparr>)"
  by (simp add: serve_def map_prod_eq)

lemma server_step_store:
  assumes "server_step lib st st'"
  obtains s1 where "s1 = sv_storage st \<or> server_store.step (sv_storage st) s1" "keeps s1 (sv_storage st')"
  using assms
proof cases
  case (served call request r)
  then obtain s where s: "route lib call request st (sv_storage st) = (r, s)" "st' = st\<lparr>sv_storage := s\<rparr>"
    by (auto simp: serve_eq)
  from route_step [OF s(1) served(2)] s(2) that show thesis by auto
qed

lemma server_step_ok:
  assumes "server_step lib st st'" "st_ok (sv_storage st)"
  shows "st_ok (sv_storage st')"
  using assms(1)
proof (rule server_step_store)
  fix s1
  assume s1: "s1 = sv_storage st \<or> server_store.step (sv_storage st) s1" "keeps s1 (sv_storage st')"
  then have "st_ok s1" using assms(2) server_store.step_invar by blast
  with s1(2) show ?thesis by (simp add: keeps_def)
qed

lemma server_step_consistent:
  assumes "server_step lib st st'" "st_ok (sv_storage st)" "server_store.consistent (sv_storage st)"
  shows "server_store.consistent (sv_storage st')"
  using assms(1)
proof (rule server_step_store)
  fix s1
  assume s1: "s1 = sv_storage st \<or> server_store.step (sv_storage st) s1" "keeps s1 (sv_storage st')"
  then have "server_store.consistent s1" using assms(2,3) server_store.step_consistent by blast
  moreover have "st_status (sv_storage st') = st_status s1" "st_command (sv_storage st') = st_command s1"
    using s1(2) by (simp_all add: keeps_def)
  ultimately show ?thesis unfolding server_store.consistent_def by (simp only:)
qed

lemma server_step_forward:
  assumes "server_step lib st st'" "st_ok (sv_storage st)" "st_status (sv_storage st) c t = Some x"
  shows "\<exists>y. st_status (sv_storage st') c t = Some y \<and> (y = x \<or> x = Pending \<and> y = Running \<or> x = Running \<and> terminal y)"
  using assms(1)
proof (rule server_step_store)
  fix s1
  assume s1: "s1 = sv_storage st \<or> server_store.step (sv_storage st) s1" "keeps s1 (sv_storage st')"
  have "\<exists>y. st_status s1 c t = Some y \<and> (y = x \<or> x = Pending \<and> y = Running \<or> x = Running \<and> terminal y)"
    using s1(1) assms(3) server_store.step_forward [OF assms(2) _ assms(3)] by blast
  with s1(2) show ?thesis by (simp add: keeps_def)
qed

lemma server_steps_ok: "(server_step lib)\<^sup>*\<^sup>* st st' \<Longrightarrow> st_ok (sv_storage st) \<Longrightarrow> st_ok (sv_storage st')"
  by (induction rule: rtranclp_induct) (auto intro: server_step_ok)

text \<open>Once taken, a delivery is never pending again; once reported, its status is final.\<close>

lemma server_steps_forward:
  assumes "(server_step lib)\<^sup>*\<^sup>* st st'" "st_ok (sv_storage st)" "st_status (sv_storage st) c t = Some x" "x \<noteq> Pending"
  shows "\<exists>y. st_status (sv_storage st') c t = Some y \<and> y \<noteq> Pending \<and> (terminal x \<longrightarrow> y = x)"
  using assms
proof (induction rule: rtranclp_induct)
  case (step u v)
  then obtain y where y: "st_status (sv_storage u) c t = Some y" "y \<noteq> Pending" "terminal x \<longrightarrow> y = x" by blast
  have "st_ok (sv_storage u)" using server_steps_ok [OF step.hyps(1) step.prems(1)] .
  from server_step_forward [OF step.hyps(2) this y(1)] y show ?case by (auto simp: terminal_def)
qed simp

lemma empty_storage:
  assumes "s = Memory memory_empty \<or> s = Sqlite db_empty"
  shows "st_ok s" "server_store.consistent s"
  using assms
  by (auto simp: mem_ok_def sql_ok_def memory_empty_def db_empty_def mem_command_def sql_command_def hm_simps
    server_store.consistent_def)

lemma completion_of_serve:
  assumes "serve lib call (PostCompletion path cid e) st = (Inr b, st')"
  obtains c s1 where "st_record_command_completion (trim path) cid (en_payload e) (sc_now call) (sv_storage st) = (Inr c, s1)"
    "keeps s1 (sv_storage st')"
  using assms
  by (auto simp: serve_eq handle_complete_def complete_command_def run_simps Let_def split: if_splits dest!: audited_keeps)

lemma assignment_of_serve:
  assumes "serve lib call (PostPoll path e) st = (Inr (PollBody p), st')" "po_assignment p = Some a"
  shows "st_assign_next_command (trim path) (sc_now call) (sv_storage st) = (Inr (Some (en_payload a)), sv_storage st')"
proof -
  from assms obtain x where "st_assign_next_command (trim path) (sc_now call) (sv_storage st) = (Inr (Some x), sv_storage st')"
      "en_payload a = x"
    by (auto simp: serve_eq handle_poll_def poll_next_command_def run_simps Let_def result_simps
      split: option.splits dest!: signed_envelope_verifies)
  then show ?thesis by simp
qed

lemma assign_secret: "st_assign_next_command inst now s = (r, s') \<Longrightarrow> st_agent_secret k s' = st_agent_secret k s"
  by (cases s)
    (auto simp: map_prod_eq mem_assign_next_command_def sql_assign_next_command_def sql_mark_running_def Let_def
      mem_agent_secret_def sql_agent_secret_def split: option.splits sum.splits)

lemma sign_ok:
  assumes "trim secret \<noteq> []" "is_ok (json payload)"
  obtains e where "envelope_sign cl json now n k inst payload secret 300 = Inr e"
proof -
  from assms(2) obtain bytes where "json payload = Inr bytes" by (auto simp: is_ok_iff)
  then have "is_ok (envelope_sign cl json now n k inst payload secret 300)"
    using assms(1) by (simp add: envelope_sign_def hash_admin_payload_def Let_def)
  with that show thesis by (auto simp: is_ok_iff)
qed

lemma poll_served:
  assumes "verify_agent_envelope (sl_crypto lib) (sl_poll_json lib) Command (trim path) e (sc_now call) (sv_storage st) = Inr secret"
    and "st_assign_next_command (trim path) (sc_now call) (sv_storage st) = (Inr a, s1)"
    and "trim secret \<noteq> []" "\<forall>x. is_ok (sl_assignment_json lib x)"
  obtains p where "serve lib call (PostPoll path e) st = (Inr (PollBody p), st\<lparr>sv_storage := s1\<rparr>)"
    "map_option en_payload (po_assignment p) = a"
proof (cases a)
  case None
  with assms(1,2) that show thesis by (simp add: serve_eq handle_poll_def poll_next_command_def guard_err_def Let_def)
next
  case (Some x)
  obtain signed where signed: "envelope_sign (sl_crypto lib) (sl_assignment_json lib) (sc_signed_at call) (sc_nonce call)
      Command (trim path) x secret 300 = Inr signed"
    using sign_ok [OF assms(3), of "sl_assignment_json lib" x] assms(4) by blast
  then have "en_payload signed = x" by (simp add: signed_envelope_verifies)
  with assms(1,2) Some signed that show thesis
    by (simp add: serve_eq handle_poll_def poll_next_command_def guard_err_def Let_def)
qed

text \<open>What a request needs, and which tokens allow it.\<close>

fun operator_request :: "http_request \<Rightarrow> (string option \<times> admin_permission) option" where
  "operator_request (GetFleet h) = Some (h, View)"
| "operator_request (GetGroups h) = Some (h, View)"
| "operator_request (GetCommands h) = Some (h, View)"
| "operator_request (PostGroup h _) = Some (h, Operate)"
| "operator_request (PostBatch h _) = Some (h, Operate)"
| "operator_request (GetAudit h _) = Some (h, Administer)"
| "operator_request _ = None"

definition token_allows :: "admin_state \<Rightarrow> string option \<Rightarrow> admin_permission \<Rightarrow> bool" where
  "token_allows st h permission \<longleftrightarrow>
     (\<exists>t role. h = Some t \<and> trim t \<noteq> [] \<and> hm_get (trim t) (sv_operator_tokens st) = Some role \<and>
        (permission = View \<or> permission = Operate \<and> role \<noteq> Viewer \<or> role = Admin))"

lemma role_allows_iff:
  "operator_role_allows role permission \<longleftrightarrow> permission = View \<or> permission = Operate \<and> role \<noteq> Viewer \<or> role = Admin"
  by (cases role; cases permission) simp_all

lemma authorize_iff:
  assumes "sv_operator_tokens st \<noteq> []"
  shows "(\<exists>x. authorize_operator h permission st = Inr x) \<longleftrightarrow> token_allows st h permission"
    and "authorize_operator h permission st = Inl e \<Longrightarrow> error_status_code e = 401 \<or> error_status_code e = 403"
  using assms
  by (auto simp: authorize_operator_def token_allows_def normalize_optional_text_def role_allows_iff
    split: option.splits if_splits)

definition signed_by ::
    "crypto_lib \<Rightarrow> 'p to_json \<Rightarrow> envelope_kind \<Rightarrow> string \<Rightarrow> 'p envelope \<Rightarrow> timestamp \<Rightarrow> admin_storage \<Rightarrow> bool" where
  "signed_by cl json k path e now s \<longleftrightarrow>
     (\<exists>secret. st_agent_secret (trim path) s = Inr secret \<and> envelope_verify cl json e secret = Inr True) \<and>
     trim path \<noteq> [] \<and> en_kind e = k \<and> en_instance_id e = trim path \<and> now \<le> en_expires_at e"

fun request_signed :: "server_lib \<Rightarrow> timestamp \<Rightarrow> admin_storage \<Rightarrow> http_request \<Rightarrow> bool" where
  "request_signed lib now s (PostPoll path e) = signed_by (sl_crypto lib) (sl_poll_json lib) Command path e now s"
| "request_signed lib now s (PostCompletion path cid e) =
     (signed_by (sl_crypto lib) (sl_completion_json lib) Command path e now s \<and>
      co_command_id (en_payload e) = cid \<and> co_target_instance_id (en_payload e) = trim path)"
| "request_signed lib now s (PostHeartbeat path e) =
     (signed_by (sl_crypto lib) (sl_heartbeat_json lib) Heartbeat path e now s \<and>
      is_instance_id (hb_instance (en_payload e)) = trim path)"
| "request_signed lib now s (PostRotation path e) = signed_by (sl_crypto lib) (sl_rotation_json lib) SecretRotation path e now s"
| "request_signed lib now s _ = True"

lemma verify_iff:
  "(\<exists>secret. verify_agent_envelope cl json k (trim path) e now s = Inr secret) \<longleftrightarrow> signed_by cl json k path e now s"
  by (auto simp: verify_agent_envelope_def signed_by_def result_simps not_less)

lemma not_verified:
  assumes "\<not> signed_by cl json k path e now s"
  obtains err where "verify_agent_envelope cl json k (trim path) e now s = Inl err"
  using assms verify_iff [of cl json k path e now s] by (cases "verify_agent_envelope cl json k (trim path) e now s") auto

lemma unsigned_refused:
  assumes "\<not> request_signed lib (sc_now call) s request"
  shows "\<exists>e. route lib call request st s = (Inl e, s)"
proof (cases request)
  case (PostPoll path e)
  with assms have "\<not> signed_by (sl_crypto lib) (sl_poll_json lib) Command path e (sc_now call) s" by simp
  then obtain err where "verify_agent_envelope (sl_crypto lib) (sl_poll_json lib) Command (trim path) e (sc_now call) s = Inl err"
    by (rule not_verified)
  with PostPoll show ?thesis by (simp add: handle_poll_def poll_next_command_def guard_err_def Let_def)
next
  case (PostCompletion path cid e)
  show ?thesis
  proof (cases "verify_agent_envelope (sl_crypto lib) (sl_completion_json lib) Command (trim path) e (sc_now call) s")
    case (Inr secret)
    then have "signed_by (sl_crypto lib) (sl_completion_json lib) Command path e (sc_now call) s" using verify_iff by blast
    with assms PostCompletion Inr show ?thesis
      by (auto simp: handle_complete_def complete_command_def guard_err_def Let_def)
  qed (simp add: PostCompletion handle_complete_def complete_command_def guard_err_def Let_def)
next
  case (PostHeartbeat path e)
  show ?thesis
  proof (cases "verify_agent_envelope (sl_crypto lib) (sl_heartbeat_json lib) Heartbeat (trim path) e (sc_now call) s")
    case (Inr secret)
    then have "signed_by (sl_crypto lib) (sl_heartbeat_json lib) Heartbeat path e (sc_now call) s" using verify_iff by blast
    with assms PostHeartbeat Inr show ?thesis
      by (auto simp: handle_heartbeat_def receive_heartbeat_def guard_err_def Let_def)
  qed (simp add: PostHeartbeat handle_heartbeat_def receive_heartbeat_def guard_err_def Let_def)
next
  case (PostRotation path e)
  with assms have "\<not> signed_by (sl_crypto lib) (sl_rotation_json lib) SecretRotation path e (sc_now call) s" by simp
  then obtain err where "verify_agent_envelope (sl_crypto lib) (sl_rotation_json lib) SecretRotation (trim path) e (sc_now call) s = Inl err"
    by (rule not_verified)
  with PostRotation show ?thesis by (simp add: handle_rotation_def rotate_agent_secret_def guard_err_def Let_def)
qed (use assms in simp_all)

lemma sorted_newest:
  "sorted (map (\<lambda>e. - ce_created_at e) es) \<Longrightarrow> sorted_wrt (\<lambda>a b. ce_created_at b \<le> ce_created_at a) es"
  by (simp add: sorted_map)

lemma audit_row_created: "audit_entry_of_row r = Inr e \<Longrightarrow> ce_created_at e = cr_audit_created_at r"
  by (auto simp: audit_entry_of_row_def result_simps)

text \<open>Both storages page a list of matching entries, the newest first.\<close>

lemma queried_page:
  assumes "st_query_central_audit query s = Inr p"
  obtains es where "p = page_central_audit_entries (filter_central_audit_entries es (audit_query_normalized query)) (audit_query_normalized query)"
    "sorted_wrt (\<lambda>a b. ce_created_at b \<le> ce_created_at a) es"
proof (cases s)
  case (Memory m)
  let ?q = "audit_query_normalized query"
  let ?es = "sort_key (\<lambda>e. - ce_created_at e) (filter_central_audit_entries (am_central_audit m) ?q)"
  have "filter_central_audit_entries ?es ?q = ?es"
    by (simp add: filter_central_audit_entries_def filter_sort)
  with assms Memory that [of ?es] show thesis
    by (simp add: mem_query_central_audit_def Let_def sorted_newest)
next
  case (Sqlite db)
  let ?rows = "take 5000 (sort_key (\<lambda>r. - cr_audit_created_at r) (db_audit db))"
  from assms Sqlite obtain es where es: "collect_rows audit_entry_of_row ?rows = Inr es"
      "p = page_central_audit_entries (filter_central_audit_entries es (audit_query_normalized query)) (audit_query_normalized query)"
    by (auto simp: sql_query_central_audit_def Let_def result_simps)
  have "map (\<lambda>e. - ce_created_at e) es = map (\<lambda>r. - cr_audit_created_at r) ?rows"
    by (rule collect_rows_map [OF es(1)]) (simp add: audit_row_created)
  moreover have "sorted (map (\<lambda>r. - cr_audit_created_at r) ?rows)"
    by (simp add: sorted_wrt_take flip: take_map)
  ultimately have "sorted (map (\<lambda>e. - ce_created_at e) es)" by simp
  from sorted_newest [OF this] es(2) that show thesis by blast
qed

lemma query_bounds: "1 \<le> cq_limit (audit_query_normalized q)" "cq_limit (audit_query_normalized q) \<le> 1000"
    "0 \<le> cq_offset (audit_query_normalized q)"
  by (simp_all add: audit_query_normalized_def clamp_def)

section \<open>Properties\<close>

text \<open>
  The next three say it of requests that are served one after the other, which is how \<open>serve\<close> has them; which
  of it requests of the SQLite server keep that overlap is the matter of \<open>Admin_Statements\<close>. In every state
  such a server can reach from an empty store, a queued command has a target, and its status
  is \<open>Pending\<close> while no agent has taken it and afterwards what its deliveries add up to: \<open>Running\<close> while
  one is open, else \<open>Failed\<close> if one failed, \<open>Skipped\<close> if all were skipped, \<open>Completed\<close> otherwise.
\<close>

lemma command_status_follows_deliveries:
  assumes "sv_storage st = Memory memory_empty \<or> sv_storage st = Sqlite db_empty"
    and "(server_step lib)\<^sup>*\<^sup>* st st'" "st_command (sv_storage st') cid = Some c"
  shows "(\<exists>t. st_status (sv_storage st') cid t \<noteq> None) \<and>
    qc_status c =
      (if \<forall>t x. st_status (sv_storage st') cid t = Some x \<longrightarrow> x = Pending then Pending
       else status_of_set {x. \<exists>t. st_status (sv_storage st') cid t = Some x})"
proof -
  have "st_ok (sv_storage st') \<and> server_store.consistent (sv_storage st')"
    using assms(2) empty_storage [OF assms(1)]
    by (induction rule: rtranclp_induct) (auto intro: server_step_ok server_step_consistent)
  with assms(3) show ?thesis unfolding server_store.consistent_def by blast
qed

text \<open>
  Of requests one after the other, an agent's report of a command is recorded at most once: after a completion
  was accepted, every later completion of the command by that agent is refused, whatever was served in between.
\<close>

lemma completion_recorded_once:
  assumes "st_ok (sv_storage st)" "serve lib call (PostCompletion path cid e) st = (Inr b, st1)"
    and "(server_step lib)\<^sup>*\<^sup>* st1 st2" "trim path' = trim path"
    and "serve lib call' (PostCompletion path' cid e') st2 = (r, st3)"
  shows "\<exists>err. r = Inl err"
proof (rule ccontr)
  assume "\<nexists>err. r = Inl err"
  then obtain b' where r: "r = Inr b'" by (cases r) auto
  obtain c s1 where one: "st_record_command_completion (trim path) cid (en_payload e) (sc_now call) (sv_storage st) = (Inr c, s1)"
      "keeps s1 (sv_storage st1)" by (rule completion_of_serve [OF assms(2)])
  obtain c2 s2 where two: "st_record_command_completion (trim path') cid (en_payload e') (sc_now call') (sv_storage st2) = (Inr c2, s2)"
    by (rule completion_of_serve [OF assms(5) [unfolded r]])
  let ?x = "completion_status_to_command_status (co_status (en_payload e))"
  from server_store.complete_ok [OF assms(1) one(1)] one(2) have "st_ok (sv_storage st1)"
      "st_status (sv_storage st1) cid (trim path) = Some ?x" by (auto simp: keeps_def)
  moreover have "terminal ?x" "?x \<noteq> Pending" using terminal_completion [of "co_status (en_payload e)"] by (auto simp: terminal_def)
  ultimately have "st_ok (sv_storage st2)" "st_status (sv_storage st2) cid (trim path) = Some ?x"
    using server_steps_ok [OF assms(3)] server_steps_forward [OF assms(3)] by auto
  with server_store.complete_ok [OF _ two] assms(4) \<open>terminal ?x\<close> show False by (auto simp: terminal_def)
qed

text \<open>
  Of requests one after the other, a command is handed to an agent at most once, and only while its delivery is
  pending: a later poll of that agent never returns the same command. (So a response that is lost on the way is not repeated,
  and its delivery stays \<open>Running\<close>.)
\<close>

lemma command_handed_out_once:
  assumes "st_ok (sv_storage st)" "serve lib call (PostPoll path e) st = (Inr (PollBody p), st1)" "po_assignment p = Some a"
    and "(server_step lib)\<^sup>*\<^sup>* st1 st2" "trim path' = trim path"
    and "serve lib call' (PostPoll path' e') st2 = (Inr (PollBody p'), st3)" "po_assignment p' = Some a'"
  shows "as_command_id (en_payload a') \<noteq> as_command_id (en_payload a)"
proof
  assume same: "as_command_id (en_payload a') = as_command_id (en_payload a)"
  from server_store.assign_some [OF assms(1) assignment_of_serve [OF assms(2,3)]]
  have "st_ok (sv_storage st1)" "st_status (sv_storage st1) (as_command_id (en_payload a)) (trim path) = Some Running" by auto
  with server_steps_ok [OF assms(4)] server_steps_forward [OF assms(4), of _ _ Running]
  have "st_ok (sv_storage st2)" "st_status (sv_storage st2) (as_command_id (en_payload a)) (trim path) \<noteq> Some Pending" by fastforce+
  with server_store.assign_some [OF _ assignment_of_serve [OF assms(6,7)]] same assms(5) show False by auto
qed

text \<open>
  The nonce of an envelope is signed but never remembered: while it has not expired, an intercepted
  poll is answered again, each time taking the agent's next command.
\<close>

lemma poll_envelope_replays:
  assumes "st_ok (sv_storage st)" "serve lib call (PostPoll path e) st = (Inr b, st1)"
    and "sc_now call' \<le> en_expires_at e" "st_agent_secret (trim path) (sv_storage st) = Inr secret" "trim secret \<noteq> []"
    and "\<forall>a. is_ok (sl_assignment_json lib a)"
  shows "is_ok (fst (serve lib call' (PostPoll path e) st1))"
proof -
  from assms(2) obtain x where ver: "verify_agent_envelope (sl_crypto lib) (sl_poll_json lib) Command (trim path) e (sc_now call) (sv_storage st) = Inr x"
    and a: "\<exists>a. st_assign_next_command (trim path) (sc_now call) (sv_storage st) = (Inr a, sv_storage st1)"
    by (auto simp: serve_eq handle_poll_def poll_next_command_def run_simps Let_def)
  from a obtain a where a: "st_assign_next_command (trim path) (sc_now call) (sv_storage st) = (Inr a, sv_storage st1)" ..
  have ok1: "st_ok (sv_storage st1)" by (rule server_store.step_invar [OF assms(1) server_store.step_assign [OF a]])
  from ver assms(3,4) assign_secret [OF a, of "trim path"]
  have ver1: "verify_agent_envelope (sl_crypto lib) (sl_poll_json lib) Command (trim path) e (sc_now call') (sv_storage st1) = Inr secret"
    by (auto simp: verify_agent_envelope_def result_simps split: if_splits)
  obtain a1 s2 where a1: "st_assign_next_command (trim path) (sc_now call') (sv_storage st1) = (Inr a1, s2)"
    using server_store.assign_ok [OF ok1, of "trim path" "sc_now call'"]
    by (cases "st_assign_next_command (trim path) (sc_now call') (sv_storage st1)") (auto simp: is_ok_iff)
  obtain p where "serve lib call' (PostPoll path e) st1 = (Inr (PollBody p), st1\<lparr>sv_storage := s2\<rparr>)"
    by (rule poll_served [OF ver1 a1 assms(5,6)])
  then show ?thesis by simp
qed

lemma refused_operator_request:
  assumes "sv_operator_tokens st \<noteq> []" "operator_request request = Some (h, permission)"
    and "\<not> token_allows st h permission" "serve lib call request st = (r, st')"
  shows "st' = st \<and> (response_status request r = 401 \<or> response_status request r = 403)"
proof -
  from authorize_iff(1) [OF assms(1)] assms(3) obtain e where e: "authorize_operator h permission st = Inl e"
    by (cases "authorize_operator h permission st") auto
  have "route lib call request st (sv_storage st) = (Inl e, sv_storage st)"
    using assms(2) e
    by (cases request) (auto simp: handle_fleet_def handle_list_groups_def handle_list_commands_def handle_query_audit_def
      handle_create_group_def handle_enqueue_def guard_err_def)
  with assms(4) have "r = Inl e" "st' = st" by (auto simp: serve_eq)
  with authorize_iff(2) [OF assms(1) e] show ?thesis by (simp add: response_status_def)
qed

text \<open>
  C15. Once an operator token is registered, an operator request succeeds, or changes anything, only with
  a registered token whose role allows it: to read for every role, to create groups and queue commands
  for operators and administrators, to read the audit for administrators. A refused request is answered
  with 401 or 403.
\<close>

theorem operator_request_needs_role:
  assumes "sv_operator_tokens st \<noteq> []" "operator_request request = Some (h, permission)"
    and "\<not> token_allows st h permission" "serve lib call request st = (r, st')"
  shows "st' = st \<and> (response_status request r = 401 \<or> response_status request r = 403)"
  by (rule refused_operator_request [OF assms])

text \<open>
  C14. A request on behalf of an agent is refused, and changes nothing, unless its envelope verifies under
  the secret registered for the instance of the path, is of the kind of the route, names that instance
  and has not expired; a completion must also name the command of the path, a heartbeat the instance.
\<close>

theorem agent_request_needs_signature:
  assumes "\<not> request_signed lib (sc_now call) (sv_storage st) request" "serve lib call request st = (r, st')"
  shows "st' = st \<and> \<not> is_ok r"
proof -
  from unsigned_refused [OF assms(1)] obtain e where "route lib call request st (sv_storage st) = (Inl e, sv_storage st)" ..
  with assms(2) show ?thesis by (auto simp: serve_eq)
qed

text \<open>
  A query of the central audit changes nothing and returns a page of entries that match it, the newest
  first: at most 1000, and as many as the page size, the offset and the number of matches allow.
\<close>

lemma audit_page_bounds:
  assumes "serve lib call (GetAudit h query) st = (Inr (AuditBody p), st')"
  shows "st' = st \<and> 1 \<le> cp_limit p \<and> cp_limit p \<le> 1000 \<and>
    int (length (cp_entries p)) = min (cp_limit p) (max 0 (cp_total p - cp_offset p)) \<and>
    list_all (\<lambda>e. central_audit_entry_matches e (audit_query_normalized query)) (cp_entries p) \<and>
    sorted_wrt (\<lambda>a b. ce_created_at b \<le> ce_created_at a) (cp_entries p)"
proof -
  let ?q = "audit_query_normalized query"
  from assms have st: "st_query_central_audit query (sv_storage st) = Inr p" "st' = st"
    by (auto simp: serve_eq handle_query_audit_def run_simps)
  from st(1) obtain es where es: "p = page_central_audit_entries (filter_central_audit_entries es ?q) ?q"
      "sorted_wrt (\<lambda>a b. ce_created_at b \<le> ce_created_at a) es" by (rule queried_page)
  have "sorted_wrt (\<lambda>a b. ce_created_at b \<le> ce_created_at a) (cp_entries p)"
    using es(2) by (simp add: es(1) page_central_audit_entries_def filter_central_audit_entries_def sorted_wrt_take
        sorted_wrt_drop sorted_wrt_filter)
  moreover have "list_all (\<lambda>e. central_audit_entry_matches e ?q) (cp_entries p)"
    by (auto simp: es(1) page_central_audit_entries_def filter_central_audit_entries_def list_all_iff dest!: in_set_takeD in_set_dropD)
  moreover have "int (length (cp_entries p)) = min (cp_limit p) (max 0 (cp_total p - cp_offset p))"
    using query_bounds [of query] by (simp add: es(1) page_central_audit_entries_def)
  ultimately show ?thesis using st(2) query_bounds [of query] by (simp add: es(1) page_central_audit_entries_def)
qed

section \<open>Example\<close>

text \<open>A hash that keeps its text; payloads print as constants.\<close>

definition demo_lib :: server_lib where
  "demo_lib =
     \<lparr>sl_crypto = \<lparr>cl_hash = (\<lambda>s. s), cl_keyed = (\<lambda>k s. k @ s), cl_time_text = (\<lambda>t. show_nat (nat t)),
        cl_uuid_text = show_nat\<rparr>,
      sl_poll_json = (\<lambda>_. Inr ''poll''), sl_completion_json = (\<lambda>_. Inr ''done''),
      sl_heartbeat_json = (\<lambda>_. Inr ''beat''), sl_rotation_json = (\<lambda>_. Inr ''rotate''),
      sl_assignment_json = (\<lambda>_. Inr ''assignment''), sl_details = (\<lambda>_. ''{}'')\<rparr>"

definition demo_call :: "nat \<Rightarrow> server_call" where
  "demo_call n =
     \<lparr>sc_now = int n, sc_new_id = n, sc_nonce = n, sc_signed_at = int n, sc_audit_id = n, sc_audit_at = int n\<rparr>"

definition demo_envelope :: "'p to_json \<Rightarrow> 'p \<Rightarrow> 'p envelope" where
  "demo_envelope json payload =
     (let h = (case json payload of Inr bytes \<Rightarrow> cl_hash (sl_crypto demo_lib) bytes | Inl _ \<Rightarrow> []) in
      \<lparr>en_schema_version = schema_version, en_kind = Command, en_instance_id = ''a'', en_issued_at = 0,
       en_expires_at = 300, en_nonce = 7, en_payload_hash = h,
       en_signature = sign_admin_payload (sl_crypto demo_lib) ''key''
         (admin_signature_input (sl_crypto demo_lib) Command ''a'' 0 300 7 h),
       en_payload = payload\<rparr>)"

definition demo_targets :: batch_command_request where
  "demo_targets =
     \<lparr>bc_request = \<lparr>cr_kind = PauseJob, cr_target_instance_ids = ['' a''], cr_job_ids = [], cr_execution_ids = [],
        cr_reason = None, cr_job_payloads = []\<rparr>, bc_group_ids = [], bc_source = None\<rparr>"

definition demo_batch :: http_request where
  "demo_batch = PostBatch None demo_targets"

definition demo_poll :: "poll_request envelope" where
  "demo_poll = demo_envelope (sl_poll_json demo_lib) \<lparr>pr_requested_at = 0\<rparr>"

definition demo_completion :: "completion_request envelope" where
  "demo_completion = demo_envelope (sl_completion_json demo_lib)
     \<lparr>co_command_id = 1, co_target_instance_id = ''a'', co_status = DoneCompleted, co_message = [], co_completed_at = 9\<rparr>"

definition demo_server :: admin_state where
  "demo_server = admin_new\<lparr>sv_storage := Memory (memory_empty\<lparr>am_agent_secrets := [(''a'', ''key'')]\<rparr>)\<rparr>"

text \<open>Two commands are queued; the agent takes them one after the other and completes the first.\<close>

definition demo_queued :: admin_state where
  "demo_queued = snd (serve demo_lib (demo_call 2) demo_batch (snd (serve demo_lib (demo_call 1) demo_batch demo_server)))"

definition demo_taken :: "nat \<Rightarrow> admin_state \<Rightarrow> admin_state" where
  "demo_taken n st = st\<lparr>sv_storage := snd (st_assign_next_command ''a'' (int n) (sv_storage st))\<rparr>"

definition demo_done :: admin_state where
  "demo_done = snd (serve demo_lib (demo_call 4) (PostCompletion ''a'' 1 demo_completion) (demo_taken 3 demo_queued))"

lemma served_step:
  "st_command (sv_storage st) (sc_new_id call) = None \<Longrightarrow> server_step lib st (snd (serve lib call request st))"
  by (rule served [of lib call request st "fst (serve lib call request st)"]) simp_all

lemma serve_ok:
  assumes "is_ok (fst (serve lib call request st))"
  obtains b where "serve lib call request st = (Inr b, snd (serve lib call request st))"
  using assms by (cases "serve lib call request st") (auto simp: is_ok_iff)

definition no_command :: "uuid \<Rightarrow> admin_state \<Rightarrow> bool" where
  "no_command cid st \<longleftrightarrow> Option.is_none (st_command (sv_storage st) cid)"

lemma demo_step: "no_command n st \<Longrightarrow> server_step lib st (snd (serve lib (demo_call n) request st))"
  by (rule served_step) (simp add: no_command_def Option.is_none_def demo_call_def)

lemma demo_trim: "trim ''a'' = ''a''" "trim ''key'' = ''key''"
  by code_simp+

lemma demo_verified:
  "verify_agent_envelope (sl_crypto demo_lib) (sl_poll_json demo_lib) Command ''a'' demo_poll 3 (sv_storage demo_queued) = Inr ''key''"
  "verify_agent_envelope (sl_crypto demo_lib) (sl_poll_json demo_lib) Command ''a'' demo_poll 5
     (sv_storage (demo_taken 3 demo_queued)) = Inr ''key''"
  by code_simp+

definition took :: "nat \<Rightarrow> nat \<Rightarrow> admin_state \<Rightarrow> bool" where
  "took cid n st \<longleftrightarrow>
     (case fst (st_assign_next_command ''a'' (int n) (sv_storage st)) of
        Inr (Some a) \<Rightarrow> as_command_id a = cid | _ \<Rightarrow> False)"

lemma demo_took: "took 1 3 demo_queued" "took 2 5 (demo_taken 3 demo_queued)"
  by code_simp+

lemma demo_fresh: "no_command 1 demo_server" "no_command 2 (snd (serve demo_lib (demo_call 1) demo_batch demo_server))"
  "no_command 3 demo_queued" "no_command 4 (demo_taken 3 demo_queued)"
  by code_simp+

lemma demo_completes: "is_ok (fst (serve demo_lib (demo_call 4) (PostCompletion ''a'' 1 demo_completion) (demo_taken 3 demo_queued)))"
  by code_simp

lemma demo_polls:
  assumes "verify_agent_envelope (sl_crypto demo_lib) (sl_poll_json demo_lib) Command ''a'' demo_poll (int n) (sv_storage st) = Inr ''key''"
    and "took cid n st"
  obtains p a where "serve demo_lib (demo_call n) (PostPoll ''a'' demo_poll) st = (Inr (PollBody p), demo_taken n st)"
    "po_assignment p = Some a" "as_command_id (en_payload a) = cid"
proof -
  from assms(2) obtain x where x: "st_assign_next_command ''a'' (int n) (sv_storage st) =
      (Inr (Some x), snd (st_assign_next_command ''a'' (int n) (sv_storage st)))" "as_command_id x = cid"
    by (cases "st_assign_next_command ''a'' (int n) (sv_storage st)") (auto simp: took_def split: sum.splits option.splits)
  have json: "\<forall>x. is_ok (sl_assignment_json demo_lib x)" by (simp add: demo_lib_def)
  have now: "sc_now (demo_call n) = int n" by (simp add: demo_call_def)
  obtain p where "serve demo_lib (demo_call n) (PostPoll ''a'' demo_poll) st =
      (Inr (PollBody p), st\<lparr>sv_storage := snd (st_assign_next_command ''a'' (int n) (sv_storage st))\<rparr>)"
    "map_option en_payload (po_assignment p) = Some x"
    by (rule poll_served [of demo_lib "''a''" demo_poll "demo_call n" st "''key''", unfolded demo_trim now, OF assms(1) x(1) _ json])
      simp_all
  with x(2) that show thesis by (auto simp: demo_taken_def)
qed

lemma demo_ok: "st_ok (sv_storage demo_queued)" "st_ok (sv_storage (demo_taken 3 demo_queued))"
proof -
  have "st_ok (sv_storage demo_server)" by (simp add: demo_server_def mem_ok_def memory_empty_def mem_command_def hm_simps)
  then show ok: "st_ok (sv_storage demo_queued)"
    unfolding demo_queued_def by (intro server_step_ok [OF demo_step] demo_fresh)
  obtain p a where "serve demo_lib (demo_call 3) (PostPoll ''a'' demo_poll) demo_queued = (Inr (PollBody p), demo_taken 3 demo_queued)"
    by (rule demo_polls [OF _ demo_took(1)]) (use demo_verified(1) in simp_all)
  with server_step_ok [OF demo_step [OF demo_fresh(3), of demo_lib "PostPoll ''a'' demo_poll"] ok]
  show "st_ok (sv_storage (demo_taken 3 demo_queued))" by simp
qed

lemma command_status_follows_deliveries_witness:
  "\<exists>st' c. (server_step demo_lib)\<^sup>*\<^sup>* admin_new st' \<and> st_command (sv_storage st') 1 = Some c \<and>
     (\<exists>t. st_status (sv_storage st') 1 t \<noteq> None)"
proof -
  let ?st = "snd (serve demo_lib (demo_call 1) demo_batch admin_new)"
  have "no_command 1 admin_new" by (simp add: no_command_def admin_new_def memory_empty_def mem_command_def hm_simps)
  then have step: "(server_step demo_lib)\<^sup>*\<^sup>* admin_new ?st" by (intro r_into_rtranclp demo_step)
  have "\<not> no_command 1 ?st" by code_simp
  then obtain c where c: "st_command (sv_storage ?st) 1 = Some c" by (auto simp: no_command_def Option.is_none_def)
  have "sv_storage admin_new = Memory memory_empty \<or> sv_storage admin_new = Sqlite db_empty" by (simp add: admin_new_def)
  from command_status_follows_deliveries [OF this step c] c step show ?thesis by blast
qed

lemma completion_recorded_once_witness:
  "is_ok (fst (serve demo_lib (demo_call 4) (PostCompletion ''a'' 1 demo_completion) (demo_taken 3 demo_queued))) \<and>
   \<not> is_ok (fst (serve demo_lib (demo_call 5) (PostCompletion ''a'' 1 demo_completion) demo_done))"
proof -
  obtain b where b: "serve demo_lib (demo_call 4) (PostCompletion ''a'' 1 demo_completion) (demo_taken 3 demo_queued) = (Inr b, demo_done)"
    unfolding demo_done_def by (rule serve_ok [OF demo_completes])
  obtain r s where r: "serve demo_lib (demo_call 5) (PostCompletion ''a'' 1 demo_completion) demo_done = (r, s)" by (metis surj_pair)
  from completion_recorded_once [OF demo_ok(2) b rtranclp.rtrancl_refl refl r] demo_completes r show ?thesis by auto
qed

lemma command_handed_out_once_witness:
  "\<exists>p a p' a'. serve demo_lib (demo_call 3) (PostPoll ''a'' demo_poll) demo_queued = (Inr (PollBody p), demo_taken 3 demo_queued) \<and>
     po_assignment p = Some a \<and>
     serve demo_lib (demo_call 5) (PostPoll ''a'' demo_poll) (demo_taken 3 demo_queued) =
       (Inr (PollBody p'), demo_taken 5 (demo_taken 3 demo_queued)) \<and>
     po_assignment p' = Some a' \<and> as_command_id (en_payload a') \<noteq> as_command_id (en_payload a)"
proof -
  obtain p a where p: "serve demo_lib (demo_call 3) (PostPoll ''a'' demo_poll) demo_queued = (Inr (PollBody p), demo_taken 3 demo_queued)"
      "po_assignment p = Some a"
    by (rule demo_polls [OF _ demo_took(1)]) (use demo_verified(1) in simp_all)
  obtain p' a' where p': "serve demo_lib (demo_call 5) (PostPoll ''a'' demo_poll) (demo_taken 3 demo_queued) =
       (Inr (PollBody p'), demo_taken 5 (demo_taken 3 demo_queued))" "po_assignment p' = Some a'"
    by (rule demo_polls [OF _ demo_took(2)]) (use demo_verified(2) in simp_all)
  from command_handed_out_once [OF demo_ok(1) p rtranclp.rtrancl_refl refl p'] p p' show ?thesis by blast
qed

lemma poll_envelope_replays_witness:
  "is_ok (fst (serve demo_lib (demo_call 5) (PostPoll ''a'' demo_poll) (demo_taken 3 demo_queued)))"
proof -
  obtain p a where p: "serve demo_lib (demo_call 3) (PostPoll ''a'' demo_poll) demo_queued = (Inr (PollBody p), demo_taken 3 demo_queued)"
    by (rule demo_polls [OF _ demo_took(1)]) (use demo_verified(1) in simp_all)
  have "sc_now (demo_call 5) \<le> en_expires_at demo_poll" by (simp add: demo_call_def demo_poll_def demo_envelope_def Let_def)
  moreover have "st_agent_secret (trim ''a'') (sv_storage demo_queued) = Inr ''key''"
    using demo_verified(1) by (auto simp: verify_agent_envelope_def demo_trim result_simps split: if_splits)
  moreover have "\<forall>a. is_ok (sl_assignment_json demo_lib a)" by (simp add: demo_lib_def)
  ultimately show ?thesis using poll_envelope_replays [OF demo_ok(1) p] by (simp add: demo_trim)
qed

text \<open>A viewer may not queue a command; an envelope is of no use for another instance.\<close>

definition demo_guarded :: admin_state where
  "demo_guarded = demo_server\<lparr>sv_operator_tokens := [(''t'', Viewer)]\<rparr>"

theorem operator_request_needs_role_witness:
  "snd (serve demo_lib (demo_call 1) (PostBatch (Some ''t'') demo_targets) demo_guarded) = demo_guarded"
proof -
  have "trim ''t'' = ''t''" by code_simp
  then have "\<not> token_allows demo_guarded (Some ''t'') Operate"
    by (simp add: token_allows_def demo_guarded_def hm_get_def)
  moreover have "sv_operator_tokens demo_guarded \<noteq> []" by (simp add: demo_guarded_def)
  ultimately show ?thesis
    using operator_request_needs_role [of demo_guarded "PostBatch (Some ''t'') demo_targets" "Some ''t''" Operate demo_lib "demo_call 1"]
    by (metis operator_request.simps(5) surj_pair snd_conv)
qed

theorem agent_request_needs_signature_witness:
  "snd (serve demo_lib (demo_call 1) (PostPoll ''b'' demo_poll) demo_server) = demo_server"
proof -
  have "trim ''b'' = ''b''" by code_simp
  then have "\<not> request_signed demo_lib (sc_now (demo_call 1)) (sv_storage demo_server) (PostPoll ''b'' demo_poll)"
    by (simp add: signed_by_def demo_poll_def demo_envelope_def Let_def)
  from agent_request_needs_signature [OF this] show ?thesis by (metis surj_pair snd_conv)
qed

definition demo_query :: central_audit_query where
  "demo_query = \<lparr>cq_search = None, cq_actor = Some ''dev-admin'', cq_action = None, cq_status = None, cq_limit = 5000,
     cq_offset = 0\<rparr>"

lemma audit_page_bounds_witness:
  "\<exists>p. serve demo_lib (demo_call 3) (GetAudit None demo_query) demo_queued = (Inr (AuditBody p), demo_queued) \<and>
     length (cp_entries p) \<le> 1000"
proof -
  have "is_ok (fst (serve demo_lib (demo_call 3) (GetAudit None demo_query) demo_queued))" by code_simp
  then obtain b where b: "serve demo_lib (demo_call 3) (GetAudit None demo_query) demo_queued =
      (Inr b, snd (serve demo_lib (demo_call 3) (GetAudit None demo_query) demo_queued))" by (rule serve_ok)
  then obtain p where "b = AuditBody p" by (auto simp: serve_eq handle_query_audit_def run_simps)
  with b have p: "serve demo_lib (demo_call 3) (GetAudit None demo_query) demo_queued =
      (Inr (AuditBody p), snd (serve demo_lib (demo_call 3) (GetAudit None demo_query) demo_queued))" by simp
  from audit_page_bounds [OF p] have "snd (serve demo_lib (demo_call 3) (GetAudit None demo_query) demo_queued) = demo_queued"
      "length (cp_entries p) \<le> 1000" by auto
  with p show ?thesis by metis
qed

end
