(* ===== verification/Admin_Equivalence.thy ===== *)
theory Admin_Equivalence
  imports Admin_Memory Admin_Sqlite "HOL-Library.Multiset"
begin

text \<open>
  The two stores of the admin server answer alike. \<open>same_queue\<close> relates their states: the same rows in
  the same order, where a command's result may list its targets in another order (SQLite sorts them).
  A sequence of requests is played on both from empty stores; every request keeps the relation and is
  given the same answer, but for that order and for the error that tells a command that does not exist
  from one that was not sent to the instance.
\<close>

section \<open>Requests and answers\<close>

datatype store_request =
    SaveCommand queued_command "string list"
  | AssignNext string timestamp
  | RecordCompletion string uuid completion_request timestamp

datatype store_answer =
    Saved
  | Assigned "command_assignment option"
  | Recorded queued_command
  | Refused admin_server_error

fun answer_of :: "('a \<Rightarrow> store_answer) \<Rightarrow> admin_server_error + 'a \<Rightarrow> store_answer" where
  "answer_of f (Inl e) = Refused e"
| "answer_of f (Inr x) = f x"

fun mem_perform :: "store_request \<Rightarrow> memory_store \<Rightarrow> store_answer \<times> memory_store" where
  "mem_perform (SaveCommand c targets) m =
     (case mem_save_batch_command c targets m of Inl e \<Rightarrow> (Refused e, m) | Inr m' \<Rightarrow> (Saved, m'))"
| "mem_perform (AssignNext inst now) m = map_prod (answer_of Assigned) id (mem_assign_next_command inst now m)"
| "mem_perform (RecordCompletion inst cid req now) m =
     map_prod (answer_of Recorded) id (mem_record_command_completion inst cid req now m)"

fun sql_perform :: "store_request \<Rightarrow> admin_db \<Rightarrow> store_answer \<times> admin_db" where
  "sql_perform (SaveCommand c targets) db =
     (case sql_save_batch_command c targets db of Inl e \<Rightarrow> (Refused e, db) | Inr db' \<Rightarrow> (Saved, db'))"
| "sql_perform (AssignNext inst now) db = map_prod (answer_of Assigned) id (sql_assign_next_command inst now db)"
| "sql_perform (RecordCompletion inst cid req now) db =
     map_prod (answer_of Recorded) id (sql_record_command_completion inst cid req now db)"

fun answers :: "('q \<Rightarrow> 's \<Rightarrow> 'a \<times> 's) \<Rightarrow> 'q list \<Rightarrow> 's \<Rightarrow> 'a list" where
  "answers perform [] s = []"
| "answers perform (q # qs) s = (let (a, s') = perform q s in a # answers perform qs s')"

text \<open>Commands equal up to the order of the targets in the result.\<close>

definition same_result :: "command_result \<Rightarrow> command_result \<Rightarrow> bool" where
  "same_result r r' \<longleftrightarrow> res_accepted r = res_accepted r' \<and> res_command r = res_command r' \<and>
     mset (res_results r) = mset (res_results r')"

definition same_command :: "queued_command \<Rightarrow> queued_command \<Rightarrow> bool" where
  "same_command c c' \<longleftrightarrow> c' = c\<lparr>qc_result := qc_result c'\<rparr> \<and> rel_option same_result (qc_result c) (qc_result c')"

fun same_answer :: "store_answer \<Rightarrow> store_answer \<Rightarrow> bool" where
  "same_answer (Recorded c) (Recorded c') = same_command c c'"
| "same_answer (Refused e) (Refused e') =
     (e = e' \<or> (\<exists>c t. e = CommandTargetNotFound c t \<and> e' = CommandNotFound c))"
| "same_answer a a' = (a = a')"

text \<open>Commands are saved under new identifiers, in the order of their creation.\<close>

fun saves_in_order :: "uuid set \<Rightarrow> timestamp \<Rightarrow> store_request list \<Rightarrow> bool" where
  "saves_in_order used t [] = True"
| "saves_in_order used t (SaveCommand c targets # qs) =
     (qc_id c \<notin> used \<and> t \<le> qc_created_at c \<and> distinct targets \<and>
      saves_in_order (insert (qc_id c) used) (qc_created_at c) qs)"
| "saves_in_order used t (_ # qs) = saves_in_order used t qs"

section \<open>The relation of the states\<close>

definition row_of_delivery :: "command_delivery \<Rightarrow> delivery_row" where
  "row_of_delivery d =
     \<lparr>dr_command_id = dl_command_id d, dr_target_instance_id = dl_target_instance_id d,
      dr_status = command_status_to_wire (dl_status d), dr_assigned_at = dl_assigned_at d,
      dr_completed_at = dl_completed_at d, dr_message = dl_message d\<rparr>"

definition same_row :: "uuid \<times> queued_command \<Rightarrow> command_row \<Rightarrow> bool" where
  "same_row p r \<longleftrightarrow> fst p = qc_id (snd p) \<and> (\<exists>c'. same_command (snd p) c' \<and> r = row_of_command c')"

definition grouped :: "uuid list \<Rightarrow> delivery_row list \<Rightarrow> bool" where
  "grouped cids ds \<longleftrightarrow> ds = concat (map (\<lambda>c. filter (\<lambda>d. dr_command_id d = c) ds) cids)"

definition same_rows ::
    "(uuid, queued_command) hash_map \<Rightarrow> command_delivery list \<Rightarrow> command_row list \<Rightarrow> delivery_row list \<Rightarrow> bool" where
  "same_rows queue deliveries cs ds \<longleftrightarrow>
     ds = map row_of_delivery deliveries \<and> list_all2 same_row queue cs \<and>
     distinct (map rw_id cs) \<and> distinct (map delivery_row_key ds) \<and>
     sorted (map rw_created_at cs) \<and> grouped (map rw_id cs) ds"

definition same_queue :: "memory_store \<Rightarrow> admin_db \<Rightarrow> bool" where
  "same_queue m db \<longleftrightarrow>
     same_rows (am_command_queue m) (am_command_deliveries m) (db_commands db) (db_deliveries db)"

section \<open>Lists\<close>

lemma find_map: "find P (map g xs) = map_option g (find (P \<circ> g) xs)"
  by (induction xs) auto

lemma find_concat:
  "find P (concat (map seg cs)) =
     (case find (\<lambda>c. \<exists>d \<in> set (seg c). P d) cs of None \<Rightarrow> None | Some c \<Rightarrow> find P (seg c))"
proof (induction cs)
  case (Cons c cs)
  have "find P (xs @ ys) = (if \<exists>d \<in> set xs. P d then find P xs else find P ys)" for xs ys
    by (induction xs) auto
  with Cons show ?case by simp
qed simp

lemma insort_key_map: "insort_key f (g x) (map g xs) = map g (insort_key (\<lambda>x. f (g x)) x xs)"
  by (induction xs) auto

lemma sort_key_map: "sort_key f (map g xs) = map g (sort_key (\<lambda>x. f (g x)) xs)"
  by (induction xs) (simp_all add: insort_key_map)

lemma update_first_is_map:
  assumes "find P xs = Some x" "distinct (map key xs)"
  shows "update_first P f xs = map (\<lambda>y. if key y = key x then f y else y) xs"
  using assms
proof (induction xs)
  case (Cons y ys)
  show ?case
  proof (cases "P y")
    case True
    with Cons.prems have "y = x" "\<forall>z \<in> set ys. key z \<noteq> key x" by (auto simp: image_iff)
    with True show ?thesis by (simp add: map_idI)
  next
    case False
    with Cons.prems have x: "find P ys = Some x" by simp
    from find_Some [OF this] Cons.prems(2) have "key y \<noteq> key x" by (metis distinct.simps(2) image_eqI list.map(2) set_map)
    with False Cons.IH [OF x] Cons.prems(2) show ?thesis by simp
  qed
qed simp

lemma hm_insert_is_map:
  "hm_ok m \<Longrightarrow> hm_contains k m \<Longrightarrow> hm_insert k v m = map (\<lambda>p. if fst p = k then (k, v) else p) m"
proof (induction m)
  case (Cons p m)
  show ?case
  proof (cases "fst p = k")
    case True
    with Cons.prems have "\<forall>q \<in> set m. fst q \<noteq> k" by (auto simp: hm_ok_def image_iff)
    with True show ?thesis by (simp add: map_idI)
  next
    case False
    with Cons show ?thesis by (simp add: hm_ok_def hm_contains_def)
  qed
qed (simp add: hm_contains_def)

lemma grouped_map:
  assumes "grouped cids ds" "\<And>d. dr_command_id (f d) = dr_command_id d"
  shows "grouped cids (map f ds)"
proof -
  have "map f ds = map f (concat (map (\<lambda>c. filter (\<lambda>d. dr_command_id d = c) ds) cids))"
    using assms(1) by (simp add: grouped_def)
  also have "\<dots> = concat (map (\<lambda>c. filter (\<lambda>d. dr_command_id d = c) (map f ds)) cids)"
    by (simp add: map_concat comp_def filter_map assms(2))
  finally show ?thesis by (simp only: grouped_def)
qed

lemma grouped_ids: "grouped cids ds \<Longrightarrow> d \<in> set ds \<Longrightarrow> dr_command_id d \<in> set cids"
proof -
  assume "grouped cids ds" "d \<in> set ds"
  then have "d \<in> set (concat (map (\<lambda>c. filter (\<lambda>d. dr_command_id d = c) ds) cids))" by (simp add: grouped_def)
  then show ?thesis by auto
qed

lemma grouped_append:
  assumes "grouped cids ds" "c \<notin> set cids" "\<forall>d \<in> set new. dr_command_id d = c"
  shows "grouped (cids @ [c]) (ds @ new)"
proof -
  have "filter (\<lambda>d. dr_command_id d = c) ds = []"
    using grouped_ids [OF assms(1)] assms(2) by (auto simp: filter_empty_conv)
  moreover have "filter (\<lambda>d. dr_command_id d = c) new = new" using assms(3) by simp
  moreover have "filter (\<lambda>d. dr_command_id d = k) new = []" if "k \<in> set cids" for k
    using assms(2,3) that by (auto simp: filter_empty_conv)
  then have keep: "map (\<lambda>c. filter (\<lambda>d. dr_command_id d = c) (ds @ new)) cids = map (\<lambda>c. filter (\<lambda>d. dr_command_id d = c) ds) cids"
    by simp
  ultimately show ?thesis
    unfolding grouped_def map_append concat_append keep using assms(1) [unfolded grouped_def, symmetric] by simp
qed

section \<open>The operations keep the relation\<close>

lemma row_key [simp]: "delivery_row_key (row_of_delivery d) = delivery_key d"
  by (simp add: delivery_row_key_def row_of_delivery_def delivery_key_def)

lemma row_waits [simp]: "row_waits_for inst (row_of_delivery d) = waits_for inst d"
  using command_status_to_wire_inj [of "dl_status d" Pending]
  by (simp add: row_waits_for_def row_of_delivery_def waits_for_def del: command_status_to_wire_inj)

lemma row_command_id [simp]: "dr_command_id (row_of_delivery d) = dl_command_id d"
  by (simp add: row_of_delivery_def)

lemma same_row_id: "same_row p r \<Longrightarrow> rw_id r = fst p \<and> rw_created_at r = qc_created_at (snd p)"
  by (auto simp: same_row_def same_command_def row_of_command_def) (metis queued_command.select_convs queued_command.surjective queued_command.update_convs(5))+

lemma same_queueD:
  assumes "same_queue m db"
  shows "db_deliveries db = map row_of_delivery (am_command_deliveries m)"
    "list_all2 same_row (am_command_queue m) (db_commands db)" "distinct (map rw_id (db_commands db))"
    "distinct (map delivery_row_key (db_deliveries db))" "sorted (map rw_created_at (db_commands db))"
    "grouped (map rw_id (db_commands db)) (db_deliveries db)"
  using assms unfolding same_queue_def same_rows_def by blast+

lemma same_rows_ids: "list_all2 same_row ps rs \<Longrightarrow> map fst ps = map rw_id rs"
  by (induction rule: list_all2_induct) (simp_all add: same_row_id)

lemma same_queue_ids: "same_queue m db \<Longrightarrow> map fst (am_command_queue m) = map rw_id (db_commands db)"
  by (rule same_rows_ids [OF same_queueD(2)])

lemma same_queue_ok: "same_queue m db \<Longrightarrow> hm_ok (am_command_queue m)"
  using same_queueD(3) [of m db] by (simp add: hm_ok_def same_queue_ids)

lemma same_queue_keys: "same_queue m db \<Longrightarrow> distinct (map delivery_key (am_command_deliveries m))"
  using same_queueD(1,4) [of m db] by (simp add: comp_def)

lemma same_queue_command:
  assumes "same_queue m db" "cid \<in> rw_id ` set (db_commands db)"
  obtains c c' where "hm_get cid (am_command_queue m) = Some c" "key_map rw_id (db_commands db) cid = Some (row_of_command c')"
    "qc_id c = cid" "same_command c c'"
proof -
  from assms(2) obtain r where r: "r \<in> set (db_commands db)" "rw_id r = cid" by auto
  then obtain i where i: "i < length (db_commands db)" "db_commands db ! i = r" by (auto simp: in_set_conv_nth)
  have rel: "list_all2 same_row (am_command_queue m) (db_commands db)" by (rule same_queueD(2) [OF assms(1)])
  then have same: "same_row (am_command_queue m ! i) r" "am_command_queue m ! i \<in> set (am_command_queue m)"
    using i by (auto simp: list_all2_conv_all_nth)
  obtain c where pair: "am_command_queue m ! i = (cid, c)"
    using same_row_id [OF same(1)] r(2) by (cases "am_command_queue m ! i") simp
  with same(1) obtain c' where c: "qc_id c = cid" "same_command c c'" "r = row_of_command c'" by (auto simp: same_row_def)
  have "hm_get cid (am_command_queue m) = Some c" using same(2) pair same_queue_ok [OF assms(1)] by (simp add: hm_get_Some_iff)
  moreover have "key_map rw_id (db_commands db) cid = Some r"
    using same_queueD(3) [OF assms(1)] r by (simp add: key_map_Some)
  ultimately show thesis using that c by simp
qed

lemma same_queue_delivery:
  assumes "same_queue m db" "d \<in> set (am_command_deliveries m)"
  shows "dl_command_id d \<in> rw_id ` set (db_commands db)"
proof -
  have "row_of_delivery d \<in> set (db_deliveries db)" "grouped (map rw_id (db_commands db)) (db_deliveries db)"
    using assms(2) same_queueD(1,6) [OF assms(1)] by simp_all
  from grouped_ids [OF this(2,1)] show ?thesis by simp
qed

lemma save_same:
  assumes "same_queue m db" "qc_id c \<notin> rw_id ` set (db_commands db)" "distinct targets"
    and "\<forall>r \<in> set (db_commands db). rw_created_at r \<le> qc_created_at c"
  obtains m' db' where "mem_save_batch_command c targets m = Inr m'" "sql_save_batch_command c targets db = Inr db'"
    "same_queue m' db'" "db_commands db' = db_commands db @ [row_of_command c]"
proof -
  let ?new = "map (pending_row (qc_id c)) targets"
  let ?m = "m\<lparr>am_command_queue := hm_insert (qc_id c) c (am_command_queue m),
             am_command_deliveries := am_command_deliveries m @ map (pending_delivery (qc_id c)) targets\<rparr>"
  let ?db = "db\<lparr>db_commands := db_commands db @ [row_of_command c], db_deliveries := db_deliveries db @ ?new\<rparr>"
  have grp: "grouped (map rw_id (db_commands db)) (db_deliveries db)" by (rule same_queueD(6) [OF assms(1)])
  have old: "dr_command_id d \<noteq> qc_id c" if "d \<in> set (db_deliveries db)" for d
    using grouped_ids [OF grp that] assms(2) by auto
  have "qc_id c \<notin> set (map fst (am_command_queue m))" using assms(2) by (simp add: same_queue_ids [OF assms(1)])
  then have queue: "hm_insert (qc_id c) c (am_command_queue m) = am_command_queue m @ [(qc_id c, c)]"
    by (intro hm_insert_new) (simp add: hm_contains_def)
  have rows: "map row_of_delivery (map (pending_delivery (qc_id c)) targets) = ?new"
    by (simp add: row_of_delivery_def pending_delivery_def pending_row_def)
  have "foldl (insert_delivery (qc_id c)) (db_deliveries db) targets = db_deliveries db @ ?new"
    by (rule foldl_insert_delivery [OF assms(3)]) (auto simp: delivery_row_key_def dest: old)
  moreover have "\<not> list_ex (\<lambda>r. rw_id r = qc_id c) (db_commands db)"
    unfolding list_ex_iff using assms(2) by (metis rev_image_eqI)
  ultimately have "sql_save_batch_command c targets db = Inr ?db" by (simp add: sql_save_batch_command_def)
  moreover have "mem_save_batch_command c targets m = Inr ?m" by (simp add: mem_save_batch_command_def)
  moreover have "same_queue ?m ?db"
    unfolding same_queue_def same_rows_def
  proof (intro conjI)
    show "db_deliveries ?db = map row_of_delivery (am_command_deliveries ?m)"
      using same_queueD(1) [OF assms(1)] rows by simp
    have "same_row (qc_id c, c) (row_of_command c)"
      by (auto simp: same_row_def same_command_def same_result_def option.rel_refl intro!: exI [of _ c])
    then show "list_all2 same_row (am_command_queue ?m) (db_commands ?db)"
      using same_queueD(2) [OF assms(1)] queue by (simp add: list_all2_appendI)
    show "distinct (map rw_id (db_commands ?db))" using same_queueD(3) [OF assms(1)] assms(2) by (simp add: row_of_command_def)
    have "distinct (map delivery_row_key ?new)" using assms(3)
      by (simp add: distinct_map inj_on_def delivery_row_key_def pending_row_def comp_def)
    then show "distinct (map delivery_row_key (db_deliveries ?db))"
      using same_queueD(4) [OF assms(1)] old by (auto simp: delivery_row_key_def pending_row_def)
    show "sorted (map rw_created_at (db_commands ?db))"
      using same_queueD(5) [OF assms(1)] assms(4) by (simp add: sorted_append row_of_command_def)
    have "grouped (map rw_id (db_commands db) @ [qc_id c]) (db_deliveries db @ ?new)"
      by (rule grouped_append [OF grp]) (use assms(2) in \<open>auto simp: pending_row_def\<close>)
    then show "grouped (map rw_id (db_commands ?db)) (db_deliveries ?db)" by (simp add: row_of_command_def)
  qed
  ultimately show thesis using that by simp
qed

text \<open>One delivery changes on both sides in the same way, and its command is written back.\<close>

lemma update_same:
  assumes same: "same_queue m db" and d: "find P (am_command_deliveries m) = Some d"
    and f: "\<And>x. row_of_delivery (f x) = f' (row_of_delivery x)" "\<And>x. delivery_row_key (f' x) = delivery_row_key x"
    and c: "qc_id c = dl_command_id d"
    and g: "\<And>r. rw_id (g r) = rw_id r" "\<And>r. rw_created_at (g r) = rw_created_at r"
    and row: "\<And>p r. same_row p r \<Longrightarrow> p \<in> set (am_command_queue m) \<Longrightarrow> fst p = dl_command_id d \<Longrightarrow> same_row (dl_command_id d, c) (g r)"
    and key: "k = delivery_key d"
  shows "same_queue
    (m\<lparr>am_command_deliveries := update_first P f (am_command_deliveries m),
       am_command_queue := hm_insert (dl_command_id d) c (am_command_queue m)\<rparr>)
    (db\<lparr>db_deliveries := map (\<lambda>x. if delivery_row_key x = k then f' x else x) (db_deliveries db),
        db_commands := map (\<lambda>r. if rw_id r = dl_command_id d then g r else r) (db_commands db)\<rparr>)"
proof -
  let ?cid = "dl_command_id d"
  let ?ds = "map (\<lambda>x. if delivery_row_key x = k then f' x else x) (db_deliveries db)"
  let ?cs = "map (\<lambda>r. if rw_id r = ?cid then g r else r) (db_commands db)"
  have "d \<in> set (am_command_deliveries m)" using find_Some [OF d] by simp
  then have "?cid \<in> set (map fst (am_command_queue m))"
    using same_queue_delivery [OF same] by (simp add: same_queue_ids [OF same])
  then have queue: "hm_insert ?cid c (am_command_queue m) = map (\<lambda>p. if fst p = ?cid then (?cid, c) else p) (am_command_queue m)"
    by (intro hm_insert_is_map same_queue_ok [OF same]) (simp add: hm_contains_def)
  have "update_first P f (am_command_deliveries m) = map (\<lambda>x. if delivery_key x = k then f x else x) (am_command_deliveries m)"
    using update_first_is_map [OF d same_queue_keys [OF same], of f] by (simp only: key)
  then have rows: "?ds = map row_of_delivery (update_first P f (am_command_deliveries m))"
    by (simp add: same_queueD(1) [OF same] f(1))
  have ids: "map rw_id ?cs = map rw_id (db_commands db)" and times: "map rw_created_at ?cs = map rw_created_at (db_commands db)"
    using g by simp_all
  have "map delivery_row_key ?ds = map delivery_row_key (db_deliveries db)" using f(2) by simp
  then have "distinct (map delivery_row_key ?ds)" using same_queueD(4) [OF same] by (simp only:)
  moreover have "dr_command_id (f' x) = dr_command_id x" for x using f(2) [of x] by (simp add: delivery_row_key_def)
  then have "grouped (map rw_id (db_commands db)) ?ds" by (intro grouped_map [OF same_queueD(6) [OF same]]) simp
  moreover have "list_all2 same_row (hm_insert ?cid c (am_command_queue m)) ?cs"
    unfolding queue list.rel_map
  proof (rule list.rel_mono_strong [OF same_queueD(2) [OF same]])
    fix p r
    assume "p \<in> set (am_command_queue m)" "r \<in> set (db_commands db)" "same_row p r"
    then show "same_row (if fst p = ?cid then (?cid, c) else p) (if rw_id r = ?cid then g r else r)"
      using row [of p r] same_row_id [of p r] by simp
  qed
  ultimately have "same_rows (hm_insert ?cid c (am_command_queue m)) (update_first P f (am_command_deliveries m)) ?cs ?ds"
    using same_queueD(3,5) [OF same] rows unfolding same_rows_def ids times by blast
  then show ?thesis by (simp add: same_queue_def)
qed

lemma find_filter: "find P xs = (case filter P xs of [] \<Rightarrow> None | x # _ \<Rightarrow> Some x)"
  by (induction xs) auto

lemma same_command_fields:
  "same_command c c' \<Longrightarrow> qc_id c' = qc_id c \<and> qc_source c' = qc_source c \<and> qc_request c' = qc_request c \<and>
     qc_status c' = qc_status c \<and> qc_created_at c' = qc_created_at c \<and> qc_updated_at c' = qc_updated_at c"
  unfolding same_command_def by (metis queued_command.select_convs queued_command.surjective queued_command.update_convs(5))

lemma same_command_iff:
  "same_command c c' \<longleftrightarrow> qc_id c' = qc_id c \<and> qc_source c' = qc_source c \<and> qc_request c' = qc_request c \<and>
     qc_status c' = qc_status c \<and> qc_created_at c' = qc_created_at c \<and> qc_updated_at c' = qc_updated_at c \<and>
     rel_option same_result (qc_result c) (qc_result c')"
  using same_command_fields [of c c'] by (cases c; cases c') (auto simp: same_command_def)

text \<open>Both stores take the same delivery: the first of the oldest command that waits for the instance.\<close>

lemma select_same:
  assumes "same_queue m db"
  shows "find (waits_for inst) (am_command_deliveries m) = None \<and> sql_select_next inst db = None \<or>
    (\<exists>d r. find (waits_for inst) (am_command_deliveries m) = Some d \<and> sql_select_next inst db = Some r \<and>
       rw_id r = dl_command_id d \<and> r \<in> set (db_commands db))"
proof -
  let ?seg = "\<lambda>r. filter (\<lambda>d. dr_command_id d = rw_id r) (db_deliveries db)"
  have "sql_select_next inst db = find (row_is_next inst db) (db_commands db)"
    using same_queueD(5) [OF assms] by (simp add: sql_select_next_rows find_filter sort_key_id_if_sorted sorted_filter)
  moreover have "row_is_next inst db = (\<lambda>r. \<exists>d \<in> set (?seg r). row_waits_for inst d)"
    by (auto simp: row_is_next_def fun_eq_iff)
  moreover have "find (row_waits_for inst) (concat (map ?seg (db_commands db))) = map_option row_of_delivery (find (waits_for inst) (am_command_deliveries m))"
  proof -
    have "concat (map ?seg (db_commands db)) = db_deliveries db"
      using same_queueD(6) [OF assms] by (simp add: grouped_def comp_def)
    also have "\<dots> = map row_of_delivery (am_command_deliveries m)" by (rule same_queueD(1) [OF assms])
    finally show ?thesis by (simp add: find_map comp_def)
  qed
  ultimately have both: "map_option row_of_delivery (find (waits_for inst) (am_command_deliveries m)) =
      (case sql_select_next inst db of None \<Rightarrow> None | Some r \<Rightarrow> find (row_waits_for inst) (?seg r))"
    and sel: "sql_select_next inst db = find (\<lambda>r. \<exists>d \<in> set (?seg r). row_waits_for inst d) (db_commands db)"
    by (simp_all add: find_concat)
  show ?thesis
  proof (cases "sql_select_next inst db")
    case None
    with both show ?thesis by simp
  next
    case (Some r)
    with sel have r: "r \<in> set (db_commands db)" "\<exists>d \<in> set (?seg r). row_waits_for inst d"
      using find_Some [of "\<lambda>r. \<exists>d \<in> set (?seg r). row_waits_for inst d" "db_commands db" r] by auto
    then obtain row where row: "find (row_waits_for inst) (?seg r) = Some row"
      by (cases "find (row_waits_for inst) (?seg r)") (auto simp: find_None_iff)
    from find_Some [OF this] have "dr_command_id row = rw_id r" by simp
    moreover from both Some row obtain d where "find (waits_for inst) (am_command_deliveries m) = Some d" "row_of_delivery d = row" by auto
    ultimately show ?thesis using Some r(1) by auto
  qed
qed

lemma assign_same:
  assumes "same_queue m db"
  obtains a m' db' where "mem_assign_next_command inst now m = (Inr a, m')" "sql_assign_next_command inst now db = (Inr a, db')"
    "same_queue m' db'" "map rw_id (db_commands db') = map rw_id (db_commands db)"
    "map rw_created_at (db_commands db') = map rw_created_at (db_commands db)"
  using select_same [OF assms, of inst]
proof (elim disjE exE conjE)
  assume "find (waits_for inst) (am_command_deliveries m) = None" "sql_select_next inst db = None"
  then show thesis using that [of None m db] assms by (simp add: mem_assign_next_command_def sql_assign_next_command_def)
next
  fix d r
  assume d: "find (waits_for inst) (am_command_deliveries m) = Some d" and r: "sql_select_next inst db = Some r"
    and id: "rw_id r = dl_command_id d" and mem: "r \<in> set (db_commands db)"
  have inst: "dl_target_instance_id d = inst" using find_Some [OF d] by (simp add: waits_for_def)
  have "dl_command_id d \<in> rw_id ` set (db_commands db)" using id mem by (metis rev_image_eqI)
  then obtain c c' where c: "hm_get (dl_command_id d) (am_command_queue m) = Some c"
      "key_map rw_id (db_commands db) (dl_command_id d) = Some (row_of_command c')" "qc_id c = dl_command_id d" "same_command c c'"
    by (rule same_queue_command [OF assms])
  have "key_map rw_id (db_commands db) (dl_command_id d) = Some r"
    using same_queueD(3) [OF assms] mem id by (simp add: key_map_Some)
  with c(2) have row: "r = row_of_command c'" by simp
  let ?c = "c\<lparr>qc_status := Running, qc_updated_at := now\<rparr>"
  let ?m = "m\<lparr>am_command_deliveries := update_first (waits_for inst)
      (\<lambda>d. d\<lparr>dl_status := Running, dl_assigned_at := Some now\<rparr>) (am_command_deliveries m),
    am_command_queue := hm_insert (dl_command_id d) ?c (am_command_queue m)\<rparr>"
  let ?db = "sql_mark_running (dl_command_id d) inst now db"
  have "mem_assign_next_command inst now m = (Inr (Some (command_assignment_for ?c inst now)), ?m)"
    using d c(1) by (simp add: mem_assign_next_command_def Let_def)
  moreover have "sql_assign_next_command inst now db = (Inr (Some (command_assignment_for ?c inst now)), ?db)"
    using r row c(3,4) by (simp add: sql_assign_next_command_def Let_def command_assignment_for_def same_command_iff)
  moreover have "same_queue ?m ?db"
    unfolding sql_mark_running_def
  proof (rule update_same [OF assms d])
    show "row_of_delivery (x\<lparr>dl_status := Running, dl_assigned_at := Some now\<rparr>) =
        (row_of_delivery x)\<lparr>dr_status := ''running'', dr_assigned_at := Some now\<rparr>" for x
      by (simp add: row_of_delivery_def)
    fix p r
    assume p: "same_row p r" "p \<in> set (am_command_queue m)" "fst p = dl_command_id d"
    then have "snd p = c" using c(1) by (cases p) (auto simp: hm_get_Some_iff [OF same_queue_ok [OF assms]] dest: same_queue_ok [OF assms, unfolded hm_ok_def, THEN eq_key_imp_eq_value])
    with p(1) obtain c'' where "same_command c c''" "r = row_of_command c''" by (auto simp: same_row_def)
    then show "same_row (dl_command_id d, ?c) (r\<lparr>rw_status := ''running'', rw_updated_at := now\<rparr>)"
      using c(3) by (auto simp: same_row_def same_command_iff row_of_command_def
        intro!: exI [of _ "c''\<lparr>qc_status := Running, qc_updated_at := now\<rparr>"])
  qed (simp_all add: c(3) delivery_row_key_def delivery_key_def inst)
  ultimately show thesis using that by (simp add: sql_mark_running_def comp_def if_distrib cong: if_cong)
qed

text \<open>SQLite reads the deliveries of a command sorted by their target.\<close>

definition state_of_delivery :: "command_delivery \<Rightarrow> delivery_state" where
  "state_of_delivery d =
     \<lparr>ds_target_instance_id = dl_target_instance_id d, ds_status = dl_status d, ds_message = dl_message d\<rparr>"

lemma state_of_row: "delivery_state_of_row (row_of_delivery d) = Inr (state_of_delivery d)"
  by (simp add: delivery_state_of_row_def row_of_delivery_def state_of_delivery_def)

lemma collect_states: "collect_rows delivery_state_of_row (map row_of_delivery ds) = Inr (map state_of_delivery ds)"
  by (induction ds) (simp_all add: state_of_row)

lemma same_states:
  assumes "db_deliveries db = map row_of_delivery ds" "d \<in> set ds" "dl_command_id d = cid"
  obtains states states' where "command_delivery_states ds cid = Inr states" "sql_fetch_delivery_states cid db = Inr states'"
    "mset states = mset states'"
proof -
  let ?ds = "filter (\<lambda>d. dl_command_id d = cid) ds"
  have some: "?ds \<noteq> []" using assms(2,3) unfolding filter_empty_conv by blast
  then have "command_delivery_states ds cid = Inr (map state_of_delivery ?ds)"
    by (simp add: command_delivery_states_def state_of_delivery_def [abs_def] Let_def)
  moreover have "filter (\<lambda>d. dr_command_id d = cid) (db_deliveries db) = map row_of_delivery ?ds"
    by (simp add: assms(1) filter_map comp_def)
  then have "sort_key dr_target_instance_id (filter (\<lambda>d. dr_command_id d = cid) (db_deliveries db)) =
      map row_of_delivery (sort_key (\<lambda>d. dr_target_instance_id (row_of_delivery d)) ?ds)"
    by (simp only: sort_key_map)
  then have "sql_fetch_delivery_states cid db =
      Inr (map state_of_delivery (sort_key (\<lambda>d. dr_target_instance_id (row_of_delivery d)) ?ds))"
    using some by (simp add: sql_fetch_delivery_states_def collect_states)
  moreover have "mset (map state_of_delivery ?ds) =
      mset (map state_of_delivery (sort_key (\<lambda>d. dr_target_instance_id (row_of_delivery d)) ?ds))" by simp
  ultimately show thesis by (rule that)
qed

lemma map_filter_mset: "mset xs = mset ys \<Longrightarrow> mset (List.map_filter f xs) = mset (List.map_filter f ys)"
  by (simp add: List.map_filter_def mset_filter)

lemma same_states_result:
  assumes "mset states = mset states'"
  shows "aggregate_command_status states' = aggregate_command_status states"
    "rel_option same_result (command_result_from_deliveries k states) (command_result_from_deliveries k states')"
proof -
  show "aggregate_command_status states' = aggregate_command_status states"
    using mset_eq_setD [OF assms] by (simp add: aggregate_is_status_of_set)
  let ?r = "List.map_filter target_result_from_delivery states" and ?r' = "List.map_filter target_result_from_delivery states'"
  have eq: "mset ?r = mset ?r'" by (rule map_filter_mset [OF assms])
  then have "?r = [] \<longleftrightarrow> ?r' = []" by (metis mset_zero_iff)
  moreover have "list_ex P ?r = list_ex P ?r'" for P using mset_eq_setD [OF eq] by (simp add: list_ex_iff)
  ultimately show "rel_option same_result (command_result_from_deliveries k states) (command_result_from_deliveries k states')"
    using eq by (simp add: command_result_from_deliveries_def Let_def same_result_def)
qed

lemma complete_same:
  assumes "same_queue m db"
  obtains r r' m' db' where "mem_record_command_completion inst cid req now m = (r, m')"
    "sql_record_command_completion inst cid req now db = (r', db')" "same_answer (answer_of Recorded r) (answer_of Recorded r')"
    "same_queue m' db'" "map rw_id (db_commands db') = map rw_id (db_commands db)"
    "map rw_created_at (db_commands db') = map rw_created_at (db_commands db)"
proof -
  let ?row = "find (\<lambda>d. delivery_row_key d = (cid, inst)) (db_deliveries db)"
  have find: "?row = map_option row_of_delivery (find (delivery_for cid inst) (am_command_deliveries m))"
    by (simp add: same_queueD(1) [OF assms] find_map comp_def delivery_for_def [abs_def] delivery_key_def)
  show thesis
  proof (cases "find (delivery_for cid inst) (am_command_deliveries m)")
    case None
    then show thesis using that [of "Inl (CommandTargetNotFound cid inst)" m] assms find
      by (auto simp: mem_record_command_completion_def sql_record_command_completion_def sql_ensure_command_exists_def)
  next
    case (Some d)
    from find_Some [OF this] have d: "d \<in> set (am_command_deliveries m)" "dl_command_id d = cid" "dl_target_instance_id d = inst"
      by (auto simp: delivery_for_def)
    have row: "?row = Some (row_of_delivery d)" by (simp add: find Some)
    have wire: "command_status_from_wire (dr_status (row_of_delivery d)) = Inr (dl_status d)" by (simp add: row_of_delivery_def)
    show thesis
    proof (cases "dl_status d = Running")
      case False
      then show thesis using that [of "Inl (CommandNotRunning cid inst)" m "Inl (CommandNotRunning cid inst)" db] assms Some row wire
        by (simp add: mem_record_command_completion_def sql_record_command_completion_def)
    next
      case True
      let ?st = "completion_status_to_command_status (co_status req)"
      let ?f = "\<lambda>d. d\<lparr>dl_status := ?st, dl_completed_at := Some (co_completed_at req),
        dl_message := Some (completion_message (co_status req) (co_message req))\<rparr>"
      let ?f' = "\<lambda>d. d\<lparr>dr_status := command_status_to_wire ?st, dr_completed_at := Some (co_completed_at req),
        dr_message := Some (completion_message (co_status req) (co_message req))\<rparr>"
      let ?ds = "update_first (delivery_for cid inst) ?f (am_command_deliveries m)"
      let ?rows = "map (\<lambda>d. if delivery_row_key d = (cid, inst) then ?f' d else d) (db_deliveries db)"
      have f: "row_of_delivery (?f x) = ?f' (row_of_delivery x)" for x by (simp add: row_of_delivery_def)
      have "?ds = map (\<lambda>x. if delivery_key x = (cid, inst) then ?f x else x) (am_command_deliveries m)"
        using update_first_is_map [OF Some same_queue_keys [OF assms], of ?f] d by (simp add: delivery_key_def)
      then have rows: "?rows = map row_of_delivery ?ds"
        by (simp add: same_queueD(1) [OF assms] f)
      have "cid \<in> rw_id ` set (db_commands db)" using same_queue_delivery [OF assms d(1)] d(2) by simp
      then obtain c c' where c: "hm_get cid (am_command_queue m) = Some c"
          "key_map rw_id (db_commands db) cid = Some (row_of_command c')" "qc_id c = cid" "same_command c c'"
        by (rule same_queue_command [OF assms])
      have db_rows: "db_deliveries (db\<lparr>db_deliveries := ?rows\<rparr>) = map row_of_delivery ?ds"
        unfolding rows [symmetric] by simp
      have moved: "?f d \<in> set ?ds" "dl_command_id (?f d) = cid" using update_first_in [OF Some, of ?f] d(2) by simp_all
      obtain states states' where st: "command_delivery_states ?ds cid = Inr states"
          "sql_fetch_delivery_states cid (db\<lparr>db_deliveries := ?rows\<rparr>) = Inr states'" "mset states = mset states'"
        by (rule same_states [OF db_rows moved])
      let ?c = "c\<lparr>qc_status := aggregate_command_status states,
        qc_result := command_result_from_deliveries (cr_kind (qc_request c)) states, qc_updated_at := now\<rparr>"
      let ?c' = "c'\<lparr>qc_status := aggregate_command_status states',
        qc_result := command_result_from_deliveries (cr_kind (qc_request c')) states', qc_updated_at := now\<rparr>"
      let ?g = "\<lambda>r. r\<lparr>rw_status := command_status_to_wire (qc_status ?c'), rw_result := qc_result ?c', rw_updated_at := qc_updated_at ?c'\<rparr>"
      have same: "same_command ?c ?c'" using c(4) same_states_result [OF st(3)] by (simp add: same_command_iff)
      let ?m = "m\<lparr>am_command_deliveries := ?ds, am_command_queue := hm_insert cid ?c (am_command_queue m)\<rparr>"
      let ?db = "db\<lparr>db_deliveries := ?rows, db_commands := map (\<lambda>r. if rw_id r = cid then ?g r else r) (db_commands db)\<rparr>"
      have "mem_record_command_completion inst cid req now m = (Inr ?c, ?m)"
        using Some True st(1) c(1) by (simp add: mem_record_command_completion_def Let_def)
      moreover have "sql_record_command_completion inst cid req now db = (Inr ?c', ?db)"
        using row wire True st(2) c(2) by (simp add: sql_record_command_completion_def Let_def sql_fetch_command_def find_is_key_map)
      moreover have "same_queue ?m ?db"
      proof -
        have "same_queue
          (m\<lparr>am_command_deliveries := update_first (delivery_for cid inst) ?f (am_command_deliveries m),
             am_command_queue := hm_insert (dl_command_id d) ?c (am_command_queue m)\<rparr>)
          (db\<lparr>db_deliveries := map (\<lambda>x. if delivery_row_key x = (cid, inst) then ?f' x else x) (db_deliveries db),
              db_commands := map (\<lambda>r. if rw_id r = dl_command_id d then ?g r else r) (db_commands db)\<rparr>)"
        proof (rule update_same [OF assms Some])
          fix p r
          assume p: "same_row p r" "p \<in> set (am_command_queue m)" "fst p = dl_command_id d"
          then have "snd p = c" using c(1) d(2) by (cases p) (auto simp: hm_get_Some_iff [OF same_queue_ok [OF assms]] dest: same_queue_ok [OF assms, unfolded hm_ok_def, THEN eq_key_imp_eq_value])
          with p(1) obtain c'' where c'': "same_command c c''" "r = row_of_command c''" by (auto simp: same_row_def)
          let ?c'' = "c''\<lparr>qc_status := qc_status ?c', qc_result := qc_result ?c', qc_updated_at := now\<rparr>"
          have "?g r = row_of_command ?c''" by (simp add: c''(2) row_of_command_def)
          moreover have "same_command ?c ?c''" using same c''(1) by (auto simp: same_command_iff)
          ultimately show "same_row (dl_command_id d, ?c) (?g r)" using c(3) d(2) by (auto simp: same_row_def)
        qed (simp_all add: f c(3) d delivery_row_key_def delivery_key_def)
        then show ?thesis by (simp add: d(2))
      qed
      ultimately show thesis using that same by (simp add: comp_def if_distrib cong: if_cong)
    qed
  qed
qed

lemma answers_same:
  assumes "same_queue m db" "saves_in_order (rw_id ` set (db_commands db)) t qs"
    and "\<forall>x \<in> set (map rw_created_at (db_commands db)). x \<le> t"
  shows "list_all2 same_answer (answers mem_perform qs m) (answers sql_perform qs db)"
  using assms
proof (induction qs arbitrary: m db t)
  case (Cons q qs)
  show ?case
  proof (cases q)
    case (SaveCommand c targets)
    with Cons.prems have new: "qc_id c \<notin> rw_id ` set (db_commands db)" "t \<le> qc_created_at c" "distinct targets"
        "saves_in_order (insert (qc_id c) (rw_id ` set (db_commands db))) (qc_created_at c) qs" by simp_all
    have "\<forall>r \<in> set (db_commands db). rw_created_at r \<le> qc_created_at c" using Cons.prems(3) new(2) by fastforce
    then obtain m' db' where step: "mem_save_batch_command c targets m = Inr m'" "sql_save_batch_command c targets db = Inr db'"
        "same_queue m' db'" "db_commands db' = db_commands db @ [row_of_command c]"
      by (rule save_same [OF Cons.prems(1) new(1,3)])
    have "list_all2 same_answer (answers mem_perform qs m') (answers sql_perform qs db')"
    proof (rule Cons.IH [OF step(3)])
      show "saves_in_order (rw_id ` set (db_commands db')) (qc_created_at c) qs"
        using new(4) by (simp add: step(4) row_of_command_def)
      show "\<forall>x \<in> set (map rw_created_at (db_commands db')). x \<le> qc_created_at c"
        using Cons.prems(3) new(2) by (auto simp: step(4) row_of_command_def)
    qed
    with step SaveCommand show ?thesis by simp
  next
    case (AssignNext inst now)
    obtain a m' db' where step: "mem_assign_next_command inst now m = (Inr a, m')" "sql_assign_next_command inst now db = (Inr a, db')"
        "same_queue m' db'" and ids: "map rw_id (db_commands db') = map rw_id (db_commands db)"
        "map rw_created_at (db_commands db') = map rw_created_at (db_commands db)"
      by (rule assign_same [OF Cons.prems(1)])
    have "list_all2 same_answer (answers mem_perform qs m') (answers sql_perform qs db')"
      by (rule Cons.IH [OF step(3), of t]) (use Cons.prems(2,3) AssignNext ids in \<open>simp_all flip: set_map\<close>)
    with step AssignNext show ?thesis by simp
  next
    case (RecordCompletion inst cid req now)
    obtain r r' m' db' where step: "mem_record_command_completion inst cid req now m = (r, m')"
        "sql_record_command_completion inst cid req now db = (r', db')" "same_answer (answer_of Recorded r) (answer_of Recorded r')"
        "same_queue m' db'" and ids: "map rw_id (db_commands db') = map rw_id (db_commands db)"
        "map rw_created_at (db_commands db') = map rw_created_at (db_commands db)"
      by (rule complete_same [OF Cons.prems(1)])
    have "list_all2 same_answer (answers mem_perform qs m') (answers sql_perform qs db')"
      by (rule Cons.IH [OF step(4), of t]) (use Cons.prems(2,3) RecordCompletion ids in \<open>simp_all flip: set_map\<close>)
    with step RecordCompletion show ?thesis by simp
  qed
qed simp

section \<open>Properties\<close>


definition demo_save :: "nat \<Rightarrow> int \<Rightarrow> store_request" where
  "demo_save n t = SaveCommand
     \<lparr>qc_id = n, qc_source = ''admin-server'',
      qc_request = \<lparr>cr_kind = PauseJob, cr_target_instance_ids = [''b'', ''a''], cr_job_ids = [], cr_execution_ids = [],
        cr_reason = None, cr_job_payloads = []\<rparr>,
      qc_status = Pending, qc_result = None, qc_created_at = t, qc_updated_at = t\<rparr> [''b'', ''a'']"

definition demo_report :: "string \<Rightarrow> store_request" where
  "demo_report t = RecordCompletion t 1
     \<lparr>co_command_id = 1, co_target_instance_id = t, co_status = DoneFailed, co_message = [], co_completed_at = 9\<rparr> 9"

definition demo_requests :: "store_request list" where
  "demo_requests = [demo_save 1 1, AssignNext ''a'' 2, AssignNext ''b'' 2, demo_save 2 3, demo_report ''a'', demo_report ''b'',
     demo_report ''b'', AssignNext ''a'' 4]"


end
