(* ===== verification/Admin_Statements.thy ===== *)
theory Admin_Statements
  imports Machine Admin_Equivalence
begin

text \<open>
  The requests of the admin server side by side. The operations of \<open>SqliteAdminServerStore\<close> are several SQL
  statements without a transaction, with an \<open>await\<close> at each, and the server answers its requests
  concurrently over a pool of connections (\<open>crates/autoflow-admin-server/src/lib.rs\<close>, \<open>main.rs\<close>). A request
  is here a \<open>sql_task\<close>: what it has still to do and what it remembers. A step carries out one statement of
  one task; a statement may also fail, and a client may go away, which drops its task. The
  operations of \<open>Admin_Sqlite\<close> are what a task does when it runs undisturbed. Which promises survive
  the interleaving, and under which condition on the clients, is proved here; what does not
  survive it is shown by concrete runs. The store in memory keeps its locks to the end of an operation, so its
  steps are whole operations.
\<close>

section \<open>Statements\<close>

definition sql_mark_delivery :: "uuid \<Rightarrow> string \<Rightarrow> timestamp \<Rightarrow> admin_db \<Rightarrow> admin_db" where
  "sql_mark_delivery cid inst assigned_at db =
     db\<lparr>db_deliveries := map (\<lambda>d. if delivery_row_key d = (cid, inst)
            then d\<lparr>dr_status := ''running'', dr_assigned_at := Some assigned_at\<rparr> else d) (db_deliveries db)\<rparr>"

definition sql_mark_command :: "uuid \<Rightarrow> timestamp \<Rightarrow> admin_db \<Rightarrow> admin_db" where
  "sql_mark_command cid assigned_at db =
     db\<lparr>db_commands := map (\<lambda>c. if rw_id c = cid
            then c\<lparr>rw_status := ''running'', rw_updated_at := assigned_at\<rparr> else c) (db_commands db)\<rparr>"

definition sql_close_delivery :: "uuid \<Rightarrow> string \<Rightarrow> completion_request \<Rightarrow> admin_db \<Rightarrow> admin_db" where
  "sql_close_delivery cid inst completion db =
     db\<lparr>db_deliveries := map (\<lambda>d. if delivery_row_key d = (cid, inst)
            then d\<lparr>dr_status := command_status_to_wire (completion_status_to_command_status (co_status completion)),
                   dr_completed_at := Some (co_completed_at completion),
                   dr_message := Some (completion_message (co_status completion) (co_message completion))\<rparr>
            else d) (db_deliveries db)\<rparr>"

definition sql_write_command :: "uuid \<Rightarrow> queued_command \<Rightarrow> admin_db \<Rightarrow> admin_db" where
  "sql_write_command cid c db =
     db\<lparr>db_commands := map (\<lambda>r. if rw_id r = cid
            then r\<lparr>rw_status := command_status_to_wire (qc_status c), rw_result := qc_result c,
                   rw_updated_at := qc_updated_at c\<rparr> else r) (db_commands db)\<rparr>"

section \<open>Tasks\<close>

datatype sql_answer =
    PollAnswer string "admin_server_error + command_assignment option"
  | CompletionAnswer string uuid "admin_server_error + queued_command"
  | SaveAnswer uuid "admin_server_error + unit"
  | NoAnswer

text \<open>A task stands before the statement that its constructor names, or is answered.\<close>

datatype sql_task =
    PollSelect string timestamp
  | PollMark string timestamp queued_command
  | PollMarkCommand string timestamp queued_command
  | DoneCheck string uuid completion_request timestamp
  | DoneMissing string uuid
  | DoneUpdate string uuid completion_request timestamp
  | DoneFetch string uuid timestamp
  | DoneStates string uuid timestamp queued_command
  | DoneWrite string uuid queued_command
  | SaveInsert queued_command "string list"
  | SaveTargets uuid "string list"
  | Answered sql_answer

fun sql_task_step :: "sql_task \<Rightarrow> admin_db \<Rightarrow> sql_task \<times> admin_db" where
  "sql_task_step (PollSelect inst now) db =
     (case sql_select_next inst db of
        None \<Rightarrow> (Answered (PollAnswer inst (Inr None)), db)
      | Some row \<Rightarrow>
          (case command_of_row row of
             Inl e \<Rightarrow> (Answered (PollAnswer inst (Inl e)), db)
           | Inr c \<Rightarrow> (PollMark inst now (c\<lparr>qc_status := Running, qc_updated_at := now\<rparr>), db)))"
| "sql_task_step (PollMark inst now c) db = (PollMarkCommand inst now c, sql_mark_delivery (qc_id c) inst now db)"
| "sql_task_step (PollMarkCommand inst now c) db =
     (Answered (PollAnswer inst (Inr (Some (command_assignment_for c inst now)))), sql_mark_command (qc_id c) now db)"
| "sql_task_step (DoneCheck inst cid completion now) db =
     (case find (\<lambda>d. delivery_row_key d = (cid, inst)) (db_deliveries db) of
        None \<Rightarrow> (DoneMissing inst cid, db)
      | Some row \<Rightarrow>
          (case command_status_from_wire (dr_status row) of
             Inl e \<Rightarrow> (Answered (CompletionAnswer inst cid (Inl e)), db)
           | Inr current \<Rightarrow>
               if current \<noteq> Running then (Answered (CompletionAnswer inst cid (Inl (CommandNotRunning cid inst))), db)
               else (DoneUpdate inst cid completion now, db)))"
| "sql_task_step (DoneMissing inst cid) db =
     (Answered (CompletionAnswer inst cid
        (rbind (sql_ensure_command_exists cid db) (\<lambda>_. Inl (CommandTargetNotFound cid inst)))), db)"
| "sql_task_step (DoneUpdate inst cid completion now) db =
     (DoneFetch inst cid now, sql_close_delivery cid inst completion db)"
| "sql_task_step (DoneFetch inst cid now) db =
     (case sql_fetch_command cid db of
        Inl e \<Rightarrow> (Answered (CompletionAnswer inst cid (Inl e)), db)
      | Inr c \<Rightarrow> (DoneStates inst cid now c, db))"
| "sql_task_step (DoneStates inst cid now c) db =
     (case sql_fetch_delivery_states cid db of
        Inl e \<Rightarrow> (Answered (CompletionAnswer inst cid (Inl e)), db)
      | Inr states \<Rightarrow>
          (DoneWrite inst cid (c\<lparr>qc_status := aggregate_command_status states,
             qc_result := command_result_from_deliveries (cr_kind (qc_request c)) states, qc_updated_at := now\<rparr>), db))"
| "sql_task_step (DoneWrite inst cid c) db =
     (Answered (CompletionAnswer inst cid (Inr c)), sql_write_command cid c db)"
| "sql_task_step (SaveInsert c targets) db =
     (if list_ex (\<lambda>r. rw_id r = qc_id c) (db_commands db)
      then (Answered (SaveAnswer (qc_id c) (Inl (ServerDatabase ''UNIQUE constraint failed''))), db)
      else (SaveTargets (qc_id c) targets, db\<lparr>db_commands := db_commands db @ [row_of_command c]\<rparr>))"
| "sql_task_step (SaveTargets cid []) db = (Answered (SaveAnswer cid (Inr ())), db)"
| "sql_task_step (SaveTargets cid (t # ts)) db =
     (SaveTargets cid ts, db\<lparr>db_deliveries := insert_delivery cid (db_deliveries db) t\<rparr>)"
| "sql_task_step (Answered a) db = (Answered a, db)"

fun answered :: "sql_task \<Rightarrow> bool" where
  "answered (Answered _) = True"
| "answered _ = False"

fun arriving :: "sql_task \<Rightarrow> bool" where
  "arriving (PollSelect _ _) = True"
| "arriving (DoneCheck _ _ _ _) = True"
| "arriving (SaveInsert _ _) = True"
| "arriving _ = False"

text \<open>The agent whose request a task carries out; operators save the commands.\<close>

fun asks_for :: "sql_task \<Rightarrow> string option" where
  "asks_for (PollSelect inst _) = Some inst"
| "asks_for (PollMark inst _ _) = Some inst"
| "asks_for (PollMarkCommand inst _ _) = Some inst"
| "asks_for (DoneCheck inst _ _ _) = Some inst"
| "asks_for (DoneMissing inst _) = Some inst"
| "asks_for (DoneUpdate inst _ _ _) = Some inst"
| "asks_for (DoneFetch inst _ _) = Some inst"
| "asks_for (DoneStates inst _ _ _) = Some inst"
| "asks_for (DoneWrite inst _ _) = Some inst"
| "asks_for _ = None"

text \<open>What a request answers when one of its statements fails.\<close>

fun failed_answer :: "string \<Rightarrow> sql_task \<Rightarrow> sql_answer" where
  "failed_answer msg (PollSelect inst _) = PollAnswer inst (Inl (ServerDatabase msg))"
| "failed_answer msg (PollMark inst _ _) = PollAnswer inst (Inl (ServerDatabase msg))"
| "failed_answer msg (PollMarkCommand inst _ _) = PollAnswer inst (Inl (ServerDatabase msg))"
| "failed_answer msg (DoneCheck inst cid _ _) = CompletionAnswer inst cid (Inl (ServerDatabase msg))"
| "failed_answer msg (DoneMissing inst cid) = CompletionAnswer inst cid (Inl (ServerDatabase msg))"
| "failed_answer msg (DoneUpdate inst cid _ _) = CompletionAnswer inst cid (Inl (ServerDatabase msg))"
| "failed_answer msg (DoneFetch inst cid _) = CompletionAnswer inst cid (Inl (ServerDatabase msg))"
| "failed_answer msg (DoneStates inst cid _ _) = CompletionAnswer inst cid (Inl (ServerDatabase msg))"
| "failed_answer msg (DoneWrite inst cid _) = CompletionAnswer inst cid (Inl (ServerDatabase msg))"
| "failed_answer msg (SaveInsert c _) = SaveAnswer (qc_id c) (Inl (ServerDatabase msg))"
| "failed_answer msg (SaveTargets cid _) = SaveAnswer cid (Inl (ServerDatabase msg))"
| "failed_answer msg (Answered a) = a"

section \<open>The server\<close>

text \<open>The database and the requests in the order of their arrival, the answered ones included.\<close>

record sql_server =
  sq_db :: admin_db
  sq_tasks :: "sql_task list"

definition sql_start :: "admin_db \<Rightarrow> sql_server" where
  "sql_start db = \<lparr>sq_db = db, sq_tasks = []\<rparr>"

datatype sql_action =
    Arrive sql_task
  | Run nat
  | Fail nat string
  | Abandon nat
  | BesideSecret timestamp string string
  | BesideInstance instance_snapshot
  | BesideGroup machine_group
  | BesideAudit central_audit_entry

definition sql_open :: "sql_server \<Rightarrow> nat \<Rightarrow> bool" where
  "sql_open s i \<longleftrightarrow> i < length (sq_tasks s) \<and> \<not> answered (sq_tasks s ! i)"

definition beside :: "admin_server_error + admin_db \<Rightarrow> sql_server \<Rightarrow> sql_server" where
  "beside r s = (case r of Inl _ \<Rightarrow> s | Inr db \<Rightarrow> s\<lparr>sq_db := db\<rparr>)"

fun perform_sql :: "sql_action \<Rightarrow> sql_server \<Rightarrow> sql_server option" where
  "perform_sql (Arrive t) s = (if arriving t then Some (s\<lparr>sq_tasks := sq_tasks s @ [t]\<rparr>) else None)"
| "perform_sql (Run i) s =
     (if sql_open s i
      then (case sql_task_step (sq_tasks s ! i) (sq_db s) of
              (t, db) \<Rightarrow> Some (s\<lparr>sq_db := db, sq_tasks := (sq_tasks s)[i := t]\<rparr>))
      else None)"
| "perform_sql (Fail i msg) s =
     (if sql_open s i
      then Some (s\<lparr>sq_tasks := (sq_tasks s)[i := Answered (failed_answer msg (sq_tasks s ! i))]\<rparr>) else None)"
| "perform_sql (Abandon i) s =
     (if sql_open s i then Some (s\<lparr>sq_tasks := (sq_tasks s)[i := Answered NoAnswer]\<rparr>) else None)"
| "perform_sql (BesideSecret now inst secret) s =
     Some (s\<lparr>sq_db := sql_register_agent_secret now inst secret (sq_db s)\<rparr>)"
| "perform_sql (BesideInstance i) s = Some (beside (sql_save_instance i (sq_db s)) s)"
| "perform_sql (BesideGroup g) s = Some (s\<lparr>sq_db := sql_save_machine_group g (sq_db s)\<rparr>)"
| "perform_sql (BesideAudit e) s = Some (beside (sql_append_central_audit e (sq_db s)) s)"

section \<open>A request alone is the operation\<close>

abbreviation alone :: "nat \<Rightarrow> sql_task \<Rightarrow> admin_db \<Rightarrow> sql_task \<times> admin_db" where
  "alone n t db \<equiv> ((\<lambda>(t, db). sql_task_step t db) ^^ n) (t, db)"

lemma mark_running_statements:
  "sql_mark_running cid inst now db = sql_mark_command cid now (sql_mark_delivery cid inst now db)"
  by (simp add: sql_mark_running_def sql_mark_command_def sql_mark_delivery_def)

lemma poll_alone:
  "alone 3 (PollSelect inst now) db =
     (case sql_assign_next_command inst now db of (r, db') \<Rightarrow> (Answered (PollAnswer inst r), db'))"
  by (auto simp: eval_nat_numeral sql_assign_next_command_def mark_running_statements Let_def
      split: option.split sum.split)

lemma completion_alone:
  "alone 5 (DoneCheck inst cid completion now) db =
     (case sql_record_command_completion inst cid completion now db of
        (r, db') \<Rightarrow> (Answered (CompletionAnswer inst cid r), db'))"
  by (auto simp: eval_nat_numeral sql_record_command_completion_def sql_close_delivery_def sql_write_command_def
      Let_def result_simps split: option.split sum.split)

lemma save_targets_alone:
  "alone (Suc (length ts)) (SaveTargets cid ts) db =
     (Answered (SaveAnswer cid (Inr ())), db\<lparr>db_deliveries := foldl (insert_delivery cid) (db_deliveries db) ts\<rparr>)"
  by (induction ts arbitrary: db) (simp_all add: funpow_Suc_right del: funpow.simps)

lemma answered_alone [simp]: "alone n (Answered a) db = (Answered a, db)"
  by (induction n) simp_all

lemma save_alone:
  "alone (Suc (Suc (length targets))) (SaveInsert c targets) db =
     (case sql_save_batch_command c targets db of
        Inl e \<Rightarrow> (Answered (SaveAnswer (qc_id c) (Inl e)), db)
      | Inr db' \<Rightarrow> (Answered (SaveAnswer (qc_id c) (Inr ())), db'))"
  using save_targets_alone [of targets "qc_id c" "db\<lparr>db_commands := db_commands db @ [row_of_command c]\<rparr>"]
  by (simp add: funpow_Suc_right sql_save_batch_command_def del: funpow.simps)

section \<open>Steps\<close>

lemma sql_perform_cases:
  assumes "perform_sql a s = Some s'"
  obtains (arrive) t where "a = Arrive t" "arriving t" "s' = s\<lparr>sq_tasks := sq_tasks s @ [t]\<rparr>"
  | (run) i t db where "sql_open s i" "sql_task_step (sq_tasks s ! i) (sq_db s) = (t, db)"
      "s' = s\<lparr>sq_db := db, sq_tasks := (sq_tasks s)[i := t]\<rparr>"
  | (broken) i x where "sql_open s i" "x = NoAnswer \<or> (\<exists>msg. x = failed_answer msg (sq_tasks s ! i))"
      "s' = s\<lparr>sq_tasks := (sq_tasks s)[i := Answered x]\<rparr>"
  | (others) "sq_tasks s' = sq_tasks s" "db_commands (sq_db s') = db_commands (sq_db s)"
      "db_deliveries (sq_db s') = db_deliveries (sq_db s)"
proof (cases a)
  case (Run i)
  obtain t db where st: "sql_task_step (sq_tasks s ! i) (sq_db s) = (t, db)" by (metis surj_pair)
  with assms Run run [OF _ st] show thesis by (simp split: if_splits)
next
  case (BesideInstance i)
  with assms show thesis
    by (intro others) (auto simp: beside_def sql_save_instance_def split: sum.splits if_splits)
next
  case (BesideAudit e)
  with assms show thesis
    by (intro others) (auto simp: beside_def sql_append_central_audit_def split: sum.splits if_splits)
next
  case (Fail i msg)
  with assms broken [of i "failed_answer msg (sq_tasks s ! i)"] show thesis by (auto split: if_splits)
next
  case (Abandon i)
  with assms broken [of i NoAnswer] show thesis by (auto split: if_splits)
qed (use assms arrive others in \<open>auto simp: sql_register_agent_secret_def sql_save_machine_group_def split: if_splits\<close>)

lemma perform_sql_length: "perform_sql a s = Some s' \<Longrightarrow> length (sq_tasks s) \<le> length (sq_tasks s')"
  by (erule sql_perform_cases) simp_all

text \<open>
  What a step does to the row of a delivery: its status is one of \<open>S\<close>, and stays so unless the task writes
  another.
\<close>

definition delivery_in :: "string set \<Rightarrow> uuid \<times> string \<Rightarrow> admin_db \<Rightarrow> bool" where
  "delivery_in S k db \<longleftrightarrow> (\<exists>d \<in> set (db_deliveries db). delivery_row_key d = k) \<and>
     (\<forall>d \<in> set (db_deliveries db). delivery_row_key d = k \<longrightarrow> dr_status d \<in> S)"

fun writes :: "uuid \<times> string \<Rightarrow> sql_task \<Rightarrow> string option" where
  "writes k (PollMark inst _ c) = (if (qc_id c, inst) = k then Some ''running'' else None)"
| "writes k (DoneUpdate inst cid completion _) =
     (if (cid, inst) = k
      then Some (command_status_to_wire (completion_status_to_command_status (co_status completion))) else None)"
| "writes k _ = None"

lemma delivery_in_map:
  assumes "\<And>d. delivery_row_key (f d) = delivery_row_key d" "delivery_in S k db"
    and "\<And>d. delivery_row_key d = k \<Longrightarrow> dr_status d \<in> S \<Longrightarrow> dr_status (f d) \<in> S'"
  shows "delivery_in S' k (db\<lparr>db_deliveries := map f (db_deliveries db)\<rparr>)"
  using assms by (auto simp: delivery_in_def)

lemma delivery_kept:
  assumes "sql_task_step t db = (t', db')" "delivery_in S k db"
  shows "delivery_in (case writes k t of None \<Rightarrow> S | Some x \<Rightarrow> {x}) k db'"
proof (cases t)
  case (PollMark inst now c)
  with assms show ?thesis
    by (auto simp: sql_mark_delivery_def delivery_row_key_def intro!: delivery_in_map [where S = S])
next
  case (DoneUpdate inst cid completion now)
  with assms show ?thesis
    by (auto simp: sql_close_delivery_def delivery_row_key_def intro!: delivery_in_map [where S = S])
next
  case (SaveTargets cid ts)
  have "delivery_in S k (db\<lparr>db_deliveries := insert_delivery cid (db_deliveries db) u\<rparr>)" for u
  proof -
    obtain d where "d \<in> set (db_deliveries db)" "delivery_row_key d = k" using assms(2) by (auto simp: delivery_in_def)
    then have "(cid, u) \<noteq> k \<or> insert_delivery cid (db_deliveries db) u = db_deliveries db"
      by (auto simp: insert_delivery_def list_ex_iff)
    moreover have "delivery_row_key (pending_row cid u) = (cid, u)" by (simp add: delivery_row_key_def pending_row_def)
    ultimately show ?thesis using assms(2) by (auto simp: delivery_in_def insert_delivery_def)
  qed
  with assms SaveTargets show ?thesis by (cases ts) auto
qed (use assms in \<open>auto simp: delivery_in_def sql_mark_command_def sql_write_command_def split: option.splits sum.splits if_splits\<close>)

lemma row_kept: "sql_task_step t db = (t', db') \<Longrightarrow> delivery_in UNIV k db \<Longrightarrow> delivery_in UNIV k db'"
  using delivery_kept [of t db t' db' UNIV k] by (auto simp: delivery_in_def)

lemma found: "find P xs = Some x \<Longrightarrow> x \<in> set xs \<and> P x"
  by (metis find_Some_iff nth_mem)

lemma selected_pending:
  assumes "sql_select_next inst db = Some row"
  shows "\<exists>d \<in> set (db_deliveries db). delivery_row_key d = (rw_id row, inst) \<and> dr_status d = ''pending''"
proof -
  from assms obtain rs where "sort_key rw_created_at (filter (row_is_next inst db) (db_commands db)) = row # rs"
    by (auto simp: sql_select_next_rows split: list.splits)
  from sort_key_Cons [OF this] have "row_is_next inst db row" by simp
  then show ?thesis by (auto simp: row_is_next_def row_waits_for_def delivery_row_key_def)
qed

lemma command_of_row_id: "command_of_row r = Inr c \<Longrightarrow> qc_id c = rw_id r"
  by (auto simp: command_of_row_def result_simps)

section \<open>Polls\<close>

text \<open>A task that hands the command out: it has selected it, or has answered with it.\<close>

fun hands_out :: "uuid \<Rightarrow> string \<Rightarrow> sql_task \<Rightarrow> bool" where
  "hands_out cid inst (PollMark inst' _ c) = (inst' = inst \<and> qc_id c = cid)"
| "hands_out cid inst (PollMarkCommand inst' _ c) = (inst' = inst \<and> qc_id c = cid)"
| "hands_out cid inst (Answered (PollAnswer inst' (Inr (Some a)))) = (inst' = inst \<and> as_command_id a = cid)"
| "hands_out cid inst _ = False"

text \<open>The delivery has been taken: its row is there and is not pending.\<close>

abbreviation taken :: "uuid \<Rightarrow> string \<Rightarrow> admin_db \<Rightarrow> bool" where
  "taken cid inst \<equiv> delivery_in (- {''pending''}) (cid, inst)"

lemma closed_text [simp]:
  "command_status_to_wire (completion_status_to_command_status st) \<noteq> ''pending''"
  "command_status_to_wire (completion_status_to_command_status st) \<noteq> ''running''"
  by (cases st; simp)+

lemma taken_kept: "sql_task_step t db = (t', db') \<Longrightarrow> taken cid inst db \<Longrightarrow> taken cid inst db'"
  using delivery_kept [of t db t' db' "- {''pending''}" "(cid, inst)"]
  by (cases t; auto split: if_splits simp: delivery_in_def)

lemma broken_hands_out_nothing:
  "\<not> answered t \<Longrightarrow> x = NoAnswer \<or> (\<exists>msg. x = failed_answer msg t) \<Longrightarrow> \<not> hands_out cid inst (Answered x)"
  by (cases t) auto

lemma step_hands_out:
  assumes "sql_task_step t db = (t', db')" "hands_out cid inst t'"
  shows "hands_out cid inst t \<or> \<not> taken cid inst db"
proof (cases t)
  case (PollSelect inst' now)
  with assms obtain row c where row: "sql_select_next inst db = Some row" "command_of_row row = Inr c" "qc_id c = cid" "inst' = inst"
    by (auto split: option.splits sum.splits)
  from selected_pending [OF row(1)] command_of_row_id [OF row(2)] row(3)
  have "\<not> taken cid inst db" by (auto simp: delivery_in_def)
  then show ?thesis ..
next
  case (SaveTargets c ts)
  with assms show ?thesis by (cases ts) auto
qed (use assms in \<open>auto simp: command_assignment_for_def split: option.splits sum.splits if_splits\<close>)

definition only_taken :: "uuid \<Rightarrow> string \<Rightarrow> nat \<Rightarrow> sql_server \<Rightarrow> bool" where
  "only_taken cid inst n s \<longleftrightarrow> n \<le> length (sq_tasks s) \<and> taken cid inst (sq_db s) \<and>
     (\<forall>k. n \<le> k \<longrightarrow> k < length (sq_tasks s) \<longrightarrow> \<not> hands_out cid inst (sq_tasks s ! k))"

lemma only_taken_step: "only_taken cid inst n s \<Longrightarrow> perform_sql a s = Some s' \<Longrightarrow> only_taken cid inst n s'"
proof (erule sql_perform_cases, goal_cases)
  case (1 t)
  then show ?case by (cases t) (auto simp: only_taken_def nth_append)
next
  case (2 i t db)
  then show ?case using taken_kept [OF 2(3)] step_hands_out [OF 2(3), of cid inst]
    by (auto simp: only_taken_def sql_open_def nth_list_update)
next
  case (3 i x)
  then show ?case using broken_hands_out_nothing [of "sq_tasks s ! i" x]
    by (auto simp: only_taken_def sql_open_def nth_list_update)
next
  case 4
  then show ?case by (simp add: only_taken_def delivery_in_def)
qed

lemma only_taken_run: "only_taken cid inst n s \<Longrightarrow> run_all perform_sql acts s = Some s' \<Longrightarrow> only_taken cid inst n s'"
  by (induction acts arbitrary: s) (auto split: option.splits intro: only_taken_step)

text \<open>What has been selected has a row; what has been marked is taken.\<close>

fun poll_ok :: "admin_db \<Rightarrow> sql_task \<Rightarrow> bool" where
  "poll_ok db (PollMark inst _ c) = delivery_in UNIV (qc_id c, inst) db"
| "poll_ok db (PollMarkCommand inst _ c) = taken (qc_id c) inst db"
| "poll_ok db (Answered (PollAnswer inst (Inr (Some a)))) = taken (as_command_id a) inst db"
| "poll_ok db _ = True"

lemma poll_ok_kept: "sql_task_step t db = (t', db') \<Longrightarrow> poll_ok db u \<Longrightarrow> poll_ok db' u"
  by (cases "(db, u)" rule: poll_ok.cases) (simp_all add: taken_kept row_kept)

lemma poll_ok_step: "sql_task_step t db = (t', db') \<Longrightarrow> poll_ok db t \<Longrightarrow> poll_ok db' t'"
proof (cases t)
  case (PollSelect inst now)
  moreover assume "sql_task_step t db = (t', db')" "poll_ok db t"
  ultimately show ?thesis using selected_pending [of inst db]
    by (auto split: option.splits sum.splits dest!: command_of_row_id simp: delivery_in_def)
next
  case (PollMark inst now c)
  moreover assume "sql_task_step t db = (t', db')" "poll_ok db t"
  ultimately show ?thesis using delivery_kept [of t db t' db' UNIV "(qc_id c, inst)"] by (auto simp: delivery_in_def)
next
  case (PollMarkCommand inst now c)
  moreover assume "sql_task_step t db = (t', db')" "poll_ok db t"
  ultimately show ?thesis using taken_kept [of t db t' db' "qc_id c" inst] by (auto simp: command_assignment_for_def)
next
  case (SaveTargets cid ts)
  moreover assume "sql_task_step t db = (t', db')"
  ultimately show ?thesis by (cases ts) auto
qed (auto split: option.splits sum.splits if_splits)

interpretation polls: machine perform_sql "sql_start db" "\<lambda>s. \<forall>t \<in> set (sq_tasks s). poll_ok (sq_db s) t"
  for db
proof (unfold_locales, goal_cases)
  case (2 s a s')
  from 2(2) show ?case
  proof (cases rule: sql_perform_cases)
    case (arrive t)
    with 2(1) show ?thesis by (cases t) auto
  next
    case (run i t db')
    then have "poll_ok (sq_db s) (sq_tasks s ! i)" using 2(1) by (simp add: sql_open_def)
    with run 2(1) poll_ok_kept [OF run(2)] poll_ok_step [OF run(2)] show ?thesis
      by (auto dest: subsetD [OF set_update_subset_insert])
  next
    case (broken i x)
    then have "poll_ok (sq_db s) (Answered x)" by (cases "sq_tasks s ! i") (auto simp: sql_open_def)
    with broken 2(1) show ?thesis by (auto dest: subsetD [OF set_update_subset_insert])
  next
    case others
    have "poll_ok (sq_db s') t = poll_ok (sq_db s) t" for t
      by (cases "(sq_db s, t)" rule: poll_ok.cases) (simp_all add: delivery_in_def others)
    with 2(1) others(1) show ?thesis by simp
  qed
qed (simp add: sql_start_def)

text \<open>
  C11. However the statements of the server's requests interleave, fail or are cut off, a poll that arrives
  after an earlier poll of the same agent has been answered with a command never returns that command. (So a
  response that is lost on the way is not repeated, and its delivery stays \<open>Running\<close>.)
\<close>

theorem later_poll_gets_other_command:
  assumes "reach perform_sql (sql_start db) s" "i < length (sq_tasks s)"
    and "sq_tasks s ! i = Answered (PollAnswer inst (Inr (Some a)))"
    and "run_all perform_sql acts s = Some s'" "length (sq_tasks s) \<le> j" "j < length (sq_tasks s')"
    and "sq_tasks s' ! j = Answered (PollAnswer inst (Inr (Some a')))"
  shows "as_command_id a' \<noteq> as_command_id a"
proof
  assume same: "as_command_id a' = as_command_id a"
  have "poll_ok (sq_db s) (sq_tasks s ! i)" using polls.reach_inv [OF assms(1)] assms(2) by simp
  then have "only_taken (as_command_id a) inst (length (sq_tasks s)) s" using assms(3) by (simp add: only_taken_def)
  then have "only_taken (as_command_id a) inst (length (sq_tasks s)) s'" by (rule only_taken_run [OF _ assms(4)])
  then show False using assms(5-7) same unfolding only_taken_def by force
qed

section \<open>Completions\<close>

text \<open>The report of a command by an agent, once its check has passed.\<close>

fun reports :: "uuid \<Rightarrow> string \<Rightarrow> sql_task \<Rightarrow> bool" where
  "reports cid inst (DoneUpdate inst' cid' _ _) = (inst' = inst \<and> cid' = cid)"
| "reports cid inst (DoneFetch inst' cid' _) = (inst' = inst \<and> cid' = cid)"
| "reports cid inst (DoneStates inst' cid' _ _) = (inst' = inst \<and> cid' = cid)"
| "reports cid inst (DoneWrite inst' cid' _) = (inst' = inst \<and> cid' = cid)"
| "reports cid inst (Answered (CompletionAnswer inst' cid' (Inr _))) = (inst' = inst \<and> cid' = cid)"
| "reports cid inst _ = False"

lemma missing_is_refused [simp]:
  "\<not> reports cid inst (Answered (CompletionAnswer inst' cid' (rbind p (\<lambda>_. Inl e))))"
  by (cases p) (simp_all add: result_simps)

fun will_mark :: "uuid \<Rightarrow> string \<Rightarrow> sql_task \<Rightarrow> bool" where
  "will_mark cid inst (PollMark inst' _ c) = (inst' = inst \<and> qc_id c = cid)"
| "will_mark cid inst _ = False"

text \<open>The delivery is finished with the status \<open>x\<close>: from here on no task reports it that did not before.\<close>

abbreviation finished_as :: "string \<Rightarrow> uuid \<Rightarrow> string \<Rightarrow> admin_db \<Rightarrow> bool" where
  "finished_as x cid inst \<equiv> delivery_in {x} (cid, inst)"

lemma finished_kept:
  assumes "sql_task_step t db = (t', db')" "finished_as x cid inst db" "\<not> will_mark cid inst t" "\<not> reports cid inst t"
  shows "finished_as x cid inst db'"
proof -
  have "writes (cid, inst) t = None" using assms(3,4) by (cases t) auto
  with delivery_kept [OF assms(1,2)] show ?thesis by simp
qed

lemma finished_stays_closed:
  assumes "sql_task_step t db = (t', db')" "finished_as x cid inst db" "x \<noteq> ''pending''" "x \<noteq> ''running''"
    and "\<not> will_mark cid inst t" "\<not> reports cid inst t"
  shows "\<not> will_mark cid inst t' \<and> \<not> reports cid inst t'"
proof (cases t)
  case (PollSelect inst' now)
  with assms(1-3) show ?thesis using selected_pending [of inst db]
    by (auto split: option.splits sum.splits dest!: command_of_row_id simp: delivery_in_def)
next
  case (DoneCheck inst' cid' completion now)
  have "dr_status d = x" if "find (\<lambda>d. delivery_row_key d = (cid, inst)) (db_deliveries db) = Some d" for d
    using found [OF that] assms(2) by (auto simp: delivery_in_def)
  moreover have "command_status_from_wire x \<noteq> Inr Running"
    using assms(4) by (auto simp: command_status_from_wire_def split: if_splits)
  ultimately show ?thesis using assms(1) DoneCheck by (auto split: option.splits sum.splits if_splits)
next
  case (SaveTargets c ts)
  with assms(1) show ?thesis by (cases ts) auto
qed (use assms in \<open>auto simp: result_simps split: option.splits sum.splits if_splits\<close>)

lemma broken_closes: "\<not> answered t \<Longrightarrow> x = NoAnswer \<or> (\<exists>msg. x = failed_answer msg t) \<Longrightarrow>
    \<not> will_mark cid inst (Answered x) \<and> \<not> reports cid inst (Answered x)"
  by (cases t) auto

definition closed :: "string \<Rightarrow> uuid \<Rightarrow> string \<Rightarrow> nat \<Rightarrow> sql_server \<Rightarrow> bool" where
  "closed x cid inst i s \<longleftrightarrow> i < length (sq_tasks s) \<and> answered (sq_tasks s ! i) \<and> finished_as x cid inst (sq_db s) \<and>
     (\<forall>k < length (sq_tasks s). answered (sq_tasks s ! k) \<and> k \<le> i \<or>
        \<not> will_mark cid inst (sq_tasks s ! k) \<and> \<not> reports cid inst (sq_tasks s ! k))"

lemma answered_writes_nothing: "answered t \<Longrightarrow> sql_task_step t db = (t, db)"
  by (cases t) auto

lemma closed_step:
  assumes "closed x cid inst i s" "x \<noteq> ''pending''" "x \<noteq> ''running''" "perform_sql a s = Some s'"
  shows "closed x cid inst i s'"
  using assms(4)
proof (cases rule: sql_perform_cases)
  case (arrive t)
  with assms(1) show ?thesis by (cases t) (auto simp: closed_def nth_append)
next
  case (run k t db)
  then have k: "k < length (sq_tasks s)" "k \<noteq> i" "\<not> will_mark cid inst (sq_tasks s ! k)" "\<not> reports cid inst (sq_tasks s ! k)"
    using assms(1) by (auto simp: closed_def sql_open_def)
  have "finished_as x cid inst db" using finished_kept [OF run(2) _ k(3,4)] assms(1) by (simp add: closed_def)
  with k finished_stays_closed [OF run(2) _ assms(2,3) k(3,4)] assms(1) run(3) show ?thesis
    by (auto simp: closed_def nth_list_update)
next
  case (broken k y)
  then have "k \<noteq> i" using assms(1) by (auto simp: closed_def sql_open_def)
  with broken broken_closes [of "sq_tasks s ! k" y] assms(1) show ?thesis
    by (auto simp: closed_def sql_open_def nth_list_update)
qed (use assms(1) in \<open>auto simp: closed_def delivery_in_def\<close>)

text \<open>The report on its way, the only open request of its agent.\<close>

fun report_ok :: "string \<Rightarrow> uuid \<Rightarrow> string \<Rightarrow> admin_db \<Rightarrow> sql_task \<Rightarrow> bool" where
  "report_ok x cid inst db (DoneCheck inst' cid' completion _) =
     (inst' = inst \<and> cid' = cid \<and> x = command_status_to_wire (completion_status_to_command_status (co_status completion)))"
| "report_ok x cid inst db (DoneMissing _ _) = True"
| "report_ok x cid inst db (DoneUpdate inst' cid' completion _) =
     (inst' = inst \<and> cid' = cid \<and> delivery_in UNIV (cid, inst) db \<and>
      x = command_status_to_wire (completion_status_to_command_status (co_status completion)))"
| "report_ok x cid inst db (DoneFetch _ _ _) = finished_as x cid inst db"
| "report_ok x cid inst db (DoneStates _ _ _ _) = finished_as x cid inst db"
| "report_ok x cid inst db (DoneWrite _ _ _) = finished_as x cid inst db"
| "report_ok x cid inst db (Answered (CompletionAnswer _ _ (Inr _))) = finished_as x cid inst db"
| "report_ok x cid inst db (Answered _) = True"
| "report_ok x cid inst db _ = False"

lemma missing_report_ok [simp]:
  "report_ok x cid inst db (Answered (CompletionAnswer inst' cid' (rbind p (\<lambda>_. Inl e))))"
  by (cases p) (simp_all add: result_simps)

lemma report_ok_step:
  assumes "sql_task_step t db = (t', db')" "report_ok x cid inst db t"
  shows "report_ok x cid inst db' t'"
proof (cases t)
  case (DoneCheck inst' cid' completion now)
  with assms show ?thesis
    by (auto simp: delivery_in_def split: option.splits sum.splits if_splits dest!: found)
next
  case (DoneUpdate inst' cid' completion now)
  with assms delivery_kept [of t db t' db' UNIV "(cid, inst)"] show ?thesis by auto
next
  case (Answered y)
  with assms show ?thesis by simp
qed (use assms in \<open>auto simp: delivery_in_def sql_write_command_def result_simps split: option.splits sum.splits if_splits\<close>)

lemma report_ok_beside:
  assumes "\<And>S. delivery_in S (cid, inst) db \<Longrightarrow> delivery_in S (cid, inst) db'" "report_ok x cid inst db t"
  shows "report_ok x cid inst db' t"
  using assms by (cases "(x, cid, inst, db, t)" rule: report_ok.cases) auto

definition quiet :: "string \<Rightarrow> sql_server \<Rightarrow> bool" where
  "quiet inst s \<longleftrightarrow> list_all (\<lambda>t. asks_for t \<noteq> Some inst) (sq_tasks s)"

fun arrives_for :: "string \<Rightarrow> sql_action \<Rightarrow> bool" where
  "arrives_for inst (Arrive t) = (asks_for t = Some inst)"
| "arrives_for inst _ = False"

definition sole :: "string \<Rightarrow> uuid \<Rightarrow> string \<Rightarrow> nat \<Rightarrow> sql_server \<Rightarrow> bool" where
  "sole x cid inst i s \<longleftrightarrow> i < length (sq_tasks s) \<and> report_ok x cid inst (sq_db s) (sq_tasks s ! i) \<and>
     (\<forall>k < length (sq_tasks s). k \<noteq> i \<longrightarrow>
        asks_for (sq_tasks s ! k) \<noteq> Some inst \<and> (i < k \<longrightarrow> \<not> reports cid inst (sq_tasks s ! k)))"

lemma step_asks_for: "sql_task_step t db = (t', db') \<Longrightarrow> asks_for t' = None \<or> asks_for t' = asks_for t"
  by (cases "(t, db)" rule: sql_task_step.cases) (auto split: option.splits sum.splits if_splits)

lemma will_mark_asks: "will_mark cid inst t \<Longrightarrow> asks_for t = Some inst"
  by (cases t) auto

lemma reports_asks: "reports cid inst t \<Longrightarrow> \<not> answered t \<Longrightarrow> asks_for t = Some inst"
  by (cases t) auto

lemma step_reports:
  "sql_task_step t db = (t', db') \<Longrightarrow> reports cid inst t' \<Longrightarrow> asks_for t = Some inst \<or> answered t"
  by (cases "(t, db)" rule: sql_task_step.cases) (auto split: option.splits sum.splits if_splits)

lemma sole_step:
  assumes "sole x cid inst i s" "perform_sql a s = Some s'" "\<not> arrives_for inst a"
  shows "sole x cid inst i s'"
  using assms(2)
proof (cases rule: sql_perform_cases)
  case (arrive t)
  then have "asks_for t \<noteq> Some inst" "\<not> reports cid inst t" using assms(3) by (cases t; simp)+
  with arrive assms(1) show ?thesis by (auto simp: sole_def nth_append)
next
  case (run k t db)
  show ?thesis
  proof (cases "k = i")
    case True
    with run report_ok_step [OF run(2)] assms(1) show ?thesis by (auto simp: sole_def nth_list_update)
  next
    case False
    then have k: "k < length (sq_tasks s)" "asks_for (sq_tasks s ! k) \<noteq> Some inst" "\<not> answered (sq_tasks s ! k)"
      using run(1) assms(1) by (auto simp: sole_def sql_open_def)
    then have "writes (cid, inst) (sq_tasks s ! k) = None" by (cases "sq_tasks s ! k") auto
    then have "delivery_in S (cid, inst) (sq_db s) \<Longrightarrow> delivery_in S (cid, inst) db" for S
      using delivery_kept [OF run(2), of S "(cid, inst)"] by simp
    moreover have "report_ok x cid inst (sq_db s) (sq_tasks s ! i)" using assms(1) unfolding sole_def by blast
    ultimately have "report_ok x cid inst db (sq_tasks s ! i)" by (rule report_ok_beside)
    moreover have "asks_for t \<noteq> Some inst" "\<not> reports cid inst t"
      using step_asks_for [OF run(2)] step_reports [OF run(2), of cid inst] k by auto
    ultimately show ?thesis using run(3) False assms(1) by (auto simp: sole_def nth_list_update k(1))
  qed
next
  case (broken k y)
  then have "report_ok x cid inst (sq_db s) (Answered y)" by (cases "sq_tasks s ! k") (auto simp: sql_open_def)
  moreover have "\<not> reports cid inst (Answered y)"
    using broken broken_closes [of "sq_tasks s ! k" y] by (simp add: sql_open_def)
  ultimately show ?thesis using broken assms(1) by (auto simp: sole_def sql_open_def nth_list_update)
next
  case others
  then have "delivery_in S (cid, inst) (sq_db s) \<Longrightarrow> delivery_in S (cid, inst) (sq_db s')" for S
    by (simp add: delivery_in_def)
  moreover have "report_ok x cid inst (sq_db s) (sq_tasks s ! i)" using assms(1) unfolding sole_def by blast
  ultimately have "report_ok x cid inst (sq_db s') (sq_tasks s ! i)" by (rule report_ok_beside)
  with others assms(1) show ?thesis by (simp add: sole_def)
qed

lemma sole_run:
  "sole x cid inst i s \<Longrightarrow> run_all perform_sql acts s = Some s' \<Longrightarrow> \<not> list_ex (arrives_for inst) acts \<Longrightarrow> sole x cid inst i s'"
  by (induction acts arbitrary: s) (auto split: option.splits intro: sole_step)

lemma closed_run:
  "closed x cid inst i s \<Longrightarrow> x \<noteq> ''pending'' \<Longrightarrow> x \<noteq> ''running'' \<Longrightarrow> run_all perform_sql acts s = Some s' \<Longrightarrow>
   closed x cid inst i s'"
  by (induction acts arbitrary: s) (auto split: option.splits intro: closed_step)

lemma sole_closed:
  assumes "sole x cid inst i s" "sq_tasks s ! i = Answered (CompletionAnswer inst cid (Inr c))"
  shows "closed x cid inst i s"
proof -
  have "answered (sq_tasks s ! k) \<and> k \<le> i \<or> \<not> will_mark cid inst (sq_tasks s ! k) \<and> \<not> reports cid inst (sq_tasks s ! k)"
    if "k < length (sq_tasks s)" for k
  proof (cases "k = i")
    case False
    with assms(1) that have k: "asks_for (sq_tasks s ! k) \<noteq> Some inst" "i < k \<longrightarrow> \<not> reports cid inst (sq_tasks s ! k)"
      by (auto simp: sole_def)
    then show ?thesis using will_mark_asks reports_asks by (metis not_less)
  qed (use assms(2) in simp)
  with assms show ?thesis by (simp add: closed_def sole_def)
qed


section \<open>Overlapping requests\<close>

text \<open>A command for the agents \<open>a\<close> and \<open>b\<close>, and requests of theirs.\<close>

definition demo_saved :: admin_db where
  "demo_saved = snd (alone 4 (SaveInsert \<lparr>qc_id = 1, qc_source = ''ui'', qc_request = \<lparr>cr_kind = StartJob,
     cr_target_instance_ids = [''a'', ''b''], cr_job_ids = [1], cr_execution_ids = [], cr_reason = None, cr_job_payloads = []\<rparr>,
     qc_status = Pending, qc_result = None, qc_created_at = 1, qc_updated_at = 1\<rparr> [''a'', ''b'']) db_empty)"

definition demo_poll_of :: "string \<Rightarrow> sql_action" where
  "demo_poll_of inst = Arrive (PollSelect inst 2)"

definition demo_report_of :: "string \<Rightarrow> sql_action" where
  "demo_report_of inst = Arrive (DoneCheck inst 1 \<lparr>co_command_id = 1, co_target_instance_id = inst, co_status = DoneCompleted,
     co_message = [], co_completed_at = 3\<rparr> 3)"

definition demo_run :: "sql_action list \<Rightarrow> sql_server" where
  "demo_run acts = the (run_all perform_sql acts (sql_start demo_saved))"

definition polled :: "sql_task \<Rightarrow> (string \<times> uuid) option" where
  "polled t = (case t of Answered (PollAnswer inst (Inr (Some a))) \<Rightarrow> Some (inst, as_command_id a) | _ \<Rightarrow> None)"

definition accepted_report :: "sql_task \<Rightarrow> (string \<times> uuid) option" where
  "accepted_report t = (case t of Answered (CompletionAnswer inst cid (Inr _)) \<Rightarrow> Some (inst, cid) | _ \<Rightarrow> None)"

definition delivery_texts :: "sql_server \<Rightarrow> string list" where
  "delivery_texts s = map dr_status (db_deliveries (sq_db s))"

definition command_texts :: "sql_server \<Rightarrow> string list" where
  "command_texts s = map rw_status (db_commands (sq_db s))"

text \<open>Two polls of an agent that both select before either marks are given the same command.\<close>

lemma overlapping_polls_get_one_command:
  "map polled (sq_tasks (demo_run ([demo_poll_of ''a'', demo_poll_of ''a'', Run 0, Run 1] @
     replicate 2 (Run 0) @ replicate 2 (Run 1)))) = [Some (''a'', 1), Some (''a'', 1)]"
  by code_simp

text \<open>Two reports of a command that both check before either updates are both accepted.\<close>

lemma overlapping_reports_are_both_accepted:
  "map accepted_report (sq_tasks (demo_run ([demo_poll_of ''a''] @ replicate 3 (Run 0) @
     [demo_report_of ''a'', demo_report_of ''a'', Run 1, Run 2] @ replicate 4 (Run 1) @ replicate 4 (Run 2)))) =
   [None, Some (''a'', 1), Some (''a'', 1)]"
  by code_simp

text \<open>
  A poll that selected before the report and marks after it puts the finished delivery back to \<open>running\<close>, and
  a second report is accepted.
\<close>

lemma late_poll_reopens_delivery:
  "map accepted_report (sq_tasks (demo_run ([demo_poll_of ''a'', demo_poll_of ''a'', Run 0, Run 1] @ replicate 2 (Run 0) @
     [demo_report_of ''a''] @ replicate 5 (Run 2) @ replicate 2 (Run 1) @ [demo_report_of ''a''] @ replicate 5 (Run 3)))) =
   [None, None, Some (''a'', 1), Some (''a'', 1)]"
  by code_simp

text \<open>
  Two agents that report side by side: the first has read the deliveries before the second closes its own, and
  writes the command after it. Every delivery is then completed, and the command stays \<open>running\<close> for ever.
\<close>

lemma overlapping_reports_leave_stale_status:
  "(\<lambda>s. (delivery_texts s, command_texts s)) (demo_run ([demo_poll_of ''a''] @ replicate 3 (Run 0) @ [demo_poll_of ''b''] @
     replicate 3 (Run 1) @ [demo_report_of ''a''] @ replicate 4 (Run 2) @ [demo_report_of ''b''] @ replicate 5 (Run 3) @ [Run 2])) =
   ([''completed'', ''completed''], [''running''])"
  by code_simp

section \<open>Requests that do not overlap\<close>

text \<open>Two polls of agent \<open>a\<close>, the second after the first has been answered, with polls of \<open>b\<close> beside them.\<close>

definition demo_first_poll :: "sql_action list" where
  "demo_first_poll = [demo_poll_of ''a'', demo_poll_of ''b'', Run 0, Run 1, Run 0, Run 0]"

definition demo_second_save :: "sql_action list" where
  "demo_second_save = [Arrive (SaveInsert \<lparr>qc_id = 2, qc_source = ''ui'', qc_request = \<lparr>cr_kind = StopJob,
     cr_target_instance_ids = [''a''], cr_job_ids = [1], cr_execution_ids = [], cr_reason = None, cr_job_payloads = []\<rparr>,
     qc_status = Pending, qc_result = None, qc_created_at = 2, qc_updated_at = 2\<rparr> [''a'']), Run 2, Run 2, Run 1, Run 2,
     demo_poll_of ''a'', Run 3, Run 1, Run 3, Run 3]"

lemma demo_polls_view:
  "map_option (\<lambda>s. map polled (sq_tasks s)) (run_all perform_sql demo_first_poll (sql_start demo_saved)) =
     Some [Some (''a'', 1), None]"
  "map_option (\<lambda>s. map polled (sq_tasks s)) (run_all perform_sql (demo_first_poll @ demo_second_save) (sql_start demo_saved)) =
     Some [Some (''a'', 1), Some (''b'', 1), None, Some (''a'', 2)]"
  by code_simp+

lemma polled_Some:
  "polled t = Some (inst, n) \<longleftrightarrow> (\<exists>a. t = Answered (PollAnswer inst (Inr (Some a))) \<and> as_command_id a = n)"
  by (auto simp: polled_def split: sql_task.splits sql_answer.splits sum.splits option.splits)

theorem later_poll_gets_other_command_witness:
  "\<exists>s s' a a'. run_all perform_sql demo_first_poll (sql_start demo_saved) = Some s \<and>
     run_all perform_sql demo_second_save s = Some s' \<and> sq_tasks s ! 0 = Answered (PollAnswer ''a'' (Inr (Some a))) \<and>
     sq_tasks s' ! 3 = Answered (PollAnswer ''a'' (Inr (Some a'))) \<and> as_command_id a' \<noteq> as_command_id a"
proof -
  obtain s where s: "run_all perform_sql demo_first_poll (sql_start demo_saved) = Some s"
      "map polled (sq_tasks s) = [Some (''a'', 1), None]"
    using demo_polls_view(1) by auto
  obtain s' where s': "run_all perform_sql demo_second_save s = Some s'"
      "map polled (sq_tasks s') = [Some (''a'', 1), Some (''b'', 1), None, Some (''a'', 2)]"
    using demo_polls_view(2) s(1) by (auto simp: run_all_append simp del: run_all.simps)
  have len: "length (sq_tasks s) = 2" "length (sq_tasks s') = 4"
    using arg_cong [OF s(2), of length] arg_cong [OF s'(2), of length] by simp_all
  have "polled (sq_tasks s ! 0) = Some (''a'', 1)" "polled (sq_tasks s' ! 3) = Some (''a'', 2)"
    using nth_map [of 0 "sq_tasks s" polled] nth_map [of 3 "sq_tasks s'" polled] s(2) s'(2) len by simp_all
  then obtain a a' where a: "sq_tasks s ! 0 = Answered (PollAnswer ''a'' (Inr (Some a)))"
      "sq_tasks s' ! 3 = Answered (PollAnswer ''a'' (Inr (Some a')))" by (auto simp: polled_Some)
  have "reach perform_sql (sql_start demo_saved) s" using s(1) reach_iff_run_all by metis
  from later_poll_gets_other_command [OF this _ a(1) s'(1) _ _ a(2)] len have "as_command_id a' \<noteq> as_command_id a" by simp
  with s(1) s'(1) a show ?thesis by blast
qed

text \<open>Agent \<open>a\<close> reports while a poll of \<open>b\<close> goes on, and then reports again.\<close>

definition demo_report_alone :: "sql_action list" where
  "demo_report_alone = [Run 2, Run 1, Run 2, Run 2, Run 1, Run 2, Run 2]"

definition demo_report_again :: "sql_action list" where
  "demo_report_again = [demo_report_of ''a'', Run 3]"

lemma demo_reports_view:
  "map_option (\<lambda>s. (quiet ''a'' s, length (sq_tasks s))) (run_all perform_sql demo_first_poll (sql_start demo_saved)) =
     Some (True, 2)"
  "map_option (\<lambda>s. map accepted_report (sq_tasks s))
     (run_all perform_sql (demo_first_poll @ demo_report_of ''a'' # demo_report_alone) (sql_start demo_saved)) =
   Some [None, None, Some (''a'', 1)]"
  "map_option (\<lambda>s. map answered (sq_tasks s))
     (run_all perform_sql (demo_first_poll @ demo_report_of ''a'' # demo_report_alone @ demo_report_again) (sql_start demo_saved)) =
   Some [True, True, True, True]"
  by code_simp+

lemma accepted_report_Some:
  "accepted_report t = Some (inst, cid) \<longleftrightarrow> (\<exists>c. t = Answered (CompletionAnswer inst cid (Inr c)))"
  by (auto simp: accepted_report_def split: sql_task.splits sql_answer.splits sum.splits)


section \<open>The store in memory\<close>

text \<open>
  Every operation of \<open>MemoryAdminServerStore\<close> holds the locks it takes to its end, so operations of concurrent
  requests come one after the other. A command is saved under a new identifier, pending, with its targets
  listed once, as the handler makes it.
\<close>

fun perform_memory :: "store_request \<Rightarrow> memory_store \<Rightarrow> memory_store option" where
  "perform_memory (SaveCommand c targets) m =
     (if Option.is_none (mem_command m (qc_id c)) \<and> qc_status c = Pending \<and> targets \<noteq> [] \<and> distinct targets
      then Some (snd (mem_perform (SaveCommand c targets) m)) else None)"
| "perform_memory q m = Some (snd (mem_perform q m))"

lemma perform_memory_step: "perform_memory q m = Some m' \<Longrightarrow> memory.step m m'"
proof (cases q)
  case (SaveCommand c targets)
  moreover assume "perform_memory q m = Some m'"
  ultimately show ?thesis
    by (auto intro!: memory.step_save [of m c targets] simp: mem_save_batch_command_def Option.is_none_def
        split: if_splits option.splits)
next
  case (AssignNext inst now)
  moreover assume "perform_memory q m = Some m'"
  ultimately show ?thesis
    by (intro memory.step_assign [of inst now m "fst (mem_assign_next_command inst now m)"]) (auto simp: map_prod_def split: prod.splits)
next
  case (RecordCompletion inst cid req now)
  moreover assume "perform_memory q m = Some m'"
  ultimately show ?thesis
    by (intro memory.step_complete [of inst cid req now m "fst (mem_record_command_completion inst cid req now m)"])
      (auto simp: map_prod_def split: prod.splits)
qed

interpretation memory_server: machine perform_memory memory_empty "\<lambda>m. mem_ok m \<and> memory.consistent m"
proof (unfold_locales, goal_cases)
  case (2 m q m')
  from perform_memory_step [OF 2(2)] 2(1) show ?case by (blast intro: memory.step_invar memory.step_consistent)
qed (simp add: mem_ok_def memory_empty_def mem_command_def hm_simps memory.consistent_def)

text \<open>
  C12. With the store in memory, whatever requests it is asked to carry out from empty on, a queued command has a
  target, and its status is \<open>Pending\<close> while no agent has taken it and afterwards what its deliveries add up to:
  \<open>Running\<close> while one is open, else \<open>Failed\<close> if one failed, \<open>Skipped\<close> if all were skipped, \<open>Completed\<close>
  otherwise. (The SQLite store does not promise it to requests that overlap:
  \<open>overlapping_reports_leave_stale_status\<close>.)
\<close>

theorem memory_status_follows_deliveries:
  assumes "reach perform_memory memory_empty m" "mem_command m cid = Some c"
  shows "(\<exists>t. mem_status m cid t \<noteq> None) \<and>
    qc_status c =
      (if \<forall>t x. mem_status m cid t = Some x \<longrightarrow> x = Pending then Pending
       else status_of_set {x. \<exists>t. mem_status m cid t = Some x})"
  using memory_server.reach_inv [OF assms(1)] assms(2) unfolding memory.consistent_def by blast

lemma demo_memory_view:
  "map_option (\<lambda>m. map_option qc_status (mem_command m 1)) (run_all perform_memory (take 6 demo_requests) memory_empty) =
     Some (Some command_status.Failed)"
  by code_simp

theorem memory_status_follows_deliveries_witness:
  "\<exists>m c t x. run_all perform_memory (take 6 demo_requests) memory_empty = Some m \<and> mem_command m 1 = Some c \<and>
     qc_status c = command_status.Failed \<and> mem_status m 1 t = Some x \<and> x \<noteq> Pending"
proof -
  obtain m where "run_all perform_memory (take 6 demo_requests) memory_empty = Some m"
      "map_option qc_status (mem_command m 1) = Some command_status.Failed"
    using demo_memory_view by (auto simp only: map_option_eq_Some option.inject)
  then obtain c where m: "run_all perform_memory (take 6 demo_requests) memory_empty = Some m" "mem_command m 1 = Some c"
      "qc_status c = command_status.Failed" by auto
  have "reach perform_memory memory_empty m" using m(1) reach_iff_run_all by metis
  from memory_status_follows_deliveries [OF this m(2)] m(3) have "\<exists>t x. mem_status m 1 t = Some x \<and> x \<noteq> Pending"
    by (metis command_status.distinct(5))
  with m show ?thesis by blast
qed

end
