(* ===== verification/Blueprint.thy ===== *)
theory Blueprint
  imports Job_Config Hash_Map
begin

text \<open>
  Blueprints, \<open>crates/autoflow-domain/src/blueprint.rs\<close>, and their counters, \<open>counter.rs\<close>: the data, the
  validation a blueprint passes before it is stored, and the numbers a counter prints. A folder plan
  is a tree of actions; its variables are a \<open>BTreeMap\<close> of strings.
\<close>

section \<open>Counters\<close>

datatype counter_scope = GlobalScope | PerDay | PerFolder | PerParent

record counter_config =
  cc_scope :: counter_scope
  cc_start :: "64 word"
  cc_padding :: "32 word"

definition counter_default :: counter_config where
  "counter_default = \<lparr>cc_scope = GlobalScope, cc_start = 1, cc_padding = 0\<rparr>"

definition i64_max :: "64 word" where
  "i64_max = 0x7FFFFFFFFFFFFFFF"

definition counter_validate :: "counter_config \<Rightarrow> domain_error + unit" where
  "counter_validate c =
     (if cc_start c = 0 then Inl (Validation ''counter start must be at least 1'')
      else if cc_start c \<ge> i64_max then Inl (Validation ''counter start is too large'')
      else if cc_padding c > 12 then Inl (Validation ''counter padding must be between 0 and 12'')
      else Inr ())"

definition scope_key :: "counter_config \<Rightarrow> string \<Rightarrow> string \<Rightarrow> string \<Rightarrow> string" where
  "scope_key c parent folder date_key =
     (case cc_scope c of
        GlobalScope \<Rightarrow> ''global''
      | PerDay \<Rightarrow> ''day:'' @ date_key
      | PerFolder \<Rightarrow> ''folder:'' @ folder
      | PerParent \<Rightarrow> ''parent:'' @ parent)"

definition format_value :: "counter_config \<Rightarrow> 64 word \<Rightarrow> string" where
  "format_value c v =
     (let digits = show_nat (unat v) in
      if cc_padding c = 0 then digits
      else replicate (unat (cc_padding c) - length digits) (CHR ''0'') @ digits)"

section \<open>Folder plans\<close>

datatype folder_action = FolderCreate | FolderRename | FolderMove | FolderCopy | FolderDelete

datatype folder_action_node =
  FolderNode (fn_action: folder_action) (fn_name: string) (fn_source_path: string)
    (fn_target_path: string) (fn_children: "folder_action_node list")

definition node_create :: "string \<Rightarrow> folder_action_node" where
  "node_create name = FolderNode FolderCreate name [] [] []"

record folder_plan_variable =
  fv_name :: string
  fv_label :: string
  fv_default_value :: string
  fv_required :: bool

record folder_plan =
  pl_version :: "32 word"
  pl_variables :: "folder_plan_variable list"
  pl_allow_delete_non_empty :: bool
  pl_confirm_delete_non_empty :: bool
  pl_nodes :: "folder_action_node list"

definition folder_plan_default :: folder_plan where
  "folder_plan_default = \<lparr>pl_version = 1, pl_variables = [], pl_allow_delete_non_empty = False,
     pl_confirm_delete_non_empty = False, pl_nodes = []\<rparr>"

definition identifier_start :: "char \<Rightarrow> bool" where
  "identifier_start ch \<longleftrightarrow> is_alpha ch \<or> ch = CHR ''_''"

definition identifier_rest :: "char \<Rightarrow> bool" where
  "identifier_rest ch \<longleftrightarrow> is_alnum ch \<or> ch = CHR ''_''"

text \<open>The key two variable names must not share: letters and digits only, in lower case.\<close>

definition variable_dedup_key :: "string \<Rightarrow> string" where
  "variable_dedup_key name = map to_lower (filter is_alnum name)"

fun variables_validate :: "folder_plan_variable list \<Rightarrow> string list \<Rightarrow> domain_error + unit" where
  "variables_validate [] seen = Inr ()"
| "variables_validate (v # vs) seen =
     (let name = trim (fv_name v) in
      if name = [] then Inl (Validation ''folder variable name cannot be empty'')
      else if \<not> identifier_start (hd name) \<or> \<not> list_all identifier_rest (tl name)
      then Inl (Validation (''folder variable name must be an identifier: '' @ name))
      else if variable_dedup_key name \<in> set seen
      then Inl (Validation (''duplicate folder variable name: '' @ name))
      else variables_validate vs (variable_dedup_key name # seen))"

definition check_relative :: "string \<Rightarrow> domain_error + unit" where
  "check_relative path =
     (if trim path = [] then Inr () else map_err Validation (validate_relative_path path))"

fun node_validate :: "folder_action_node \<Rightarrow> domain_error + unit"
  and nodes_validate :: "folder_action_node list \<Rightarrow> domain_error + unit" where
  "node_validate (FolderNode action name source target children) =
     rbind (check_relative source) (\<lambda>_. rbind (check_relative target) (\<lambda>_. nodes_validate children))"
| "nodes_validate [] = Inr ()"
| "nodes_validate (node # nodes) = rbind (node_validate node) (\<lambda>_. nodes_validate nodes)"

definition folder_plan_validate :: "folder_plan \<Rightarrow> domain_error + unit" where
  "folder_plan_validate p =
     (if pl_version p = 0 then Inl (Validation ''folder plan version must be at least 1'')
      else rbind (variables_validate (pl_variables p) []) (\<lambda>_. nodes_validate (pl_nodes p)))"

section \<open>Blueprints\<close>

datatype blueprint_kind = FileKind | FolderKind

datatype blueprint_operation = OpMove | OpCopy

record routing_config =
  rc_path_template :: template_pipeline
  rc_create_intermediate_dirs :: bool

definition routing_default :: routing_config where
  "routing_default = \<lparr>rc_path_template = \<lparr>segments = []\<rparr>, rc_create_intermediate_dirs = True\<rparr>"

record blueprint =
  bp_id :: uuid
  bp_name :: string
  bp_kind :: blueprint_kind
  bp_root_path :: string
  bp_search :: file_filter
  bp_routing :: routing_config
  bp_operation :: blueprint_operation
  bp_recursive :: bool
  bp_conflict :: conflict_strategy
  bp_rename_template :: "template_pipeline option"
  bp_folder_plan :: "folder_plan option"
  bp_watch :: "watch_config option"
  bp_counter :: counter_config
  bp_enabled :: bool
  bp_last_run :: "timestamp option"

record blueprint_summary =
  bs_id :: uuid
  bs_name :: string
  bs_kind :: blueprint_kind
  bs_root_path :: string
  bs_operation :: blueprint_operation
  bs_enabled :: bool
  bs_last_run :: "timestamp option"
  bs_watch_enabled :: bool

definition blueprint_new :: "uuid \<Rightarrow> string \<Rightarrow> blueprint_kind \<Rightarrow> string \<Rightarrow> blueprint" where
  "blueprint_new new_v4 name kind root_path =
     \<lparr>bp_id = new_v4, bp_name = name, bp_kind = kind, bp_root_path = root_path, bp_search = filter_default,
      bp_routing = routing_default, bp_operation = OpMove, bp_recursive = True, bp_conflict = Skip,
      bp_rename_template = None, bp_folder_plan = None, bp_watch = None, bp_counter = counter_default,
      bp_enabled = True, bp_last_run = None\<rparr>"

definition blueprint_watch_active :: "blueprint \<Rightarrow> bool" where
  "blueprint_watch_active b = (case bp_watch b of None \<Rightarrow> False | Some w \<Rightarrow> wc_enabled w)"

definition blueprint_normalize :: "blueprint \<Rightarrow> blueprint" where
  "blueprint_normalize b =
     (let b1 = b\<lparr>bp_search := bp_search b\<lparr>recursive := bp_recursive b\<rparr>\<rparr> in
      if blueprint_watch_active b1
      then b1\<lparr>bp_watch := map_option (\<lambda>w. w\<lparr>wc_enabled := True\<rparr>) (bp_watch b1)\<rparr> else b1)"

definition blueprint_validate :: "regex_lib \<Rightarrow> blueprint \<Rightarrow> domain_error + unit" where
  "blueprint_validate rx b =
     (if trim (bp_name b) = [] \<or> length (trim (bp_name b)) > 120
      then Inl (Validation ''name must be between 1 and 120 characters'')
      else if trim (bp_root_path b) = [] then Inl (Validation ''root_path is required'')
      else if bp_kind b = FileKind \<and> segments (rc_path_template (bp_routing b)) = []
      then Inl (Validation ''file blueprints require a routing template'')
      else if bp_kind b = FolderKind \<and> bp_folder_plan b = None
      then Inl (Validation ''folder blueprints require a folder plan'')
      else if (case bp_rename_template b of None \<Rightarrow> False | Some t \<Rightarrow> segments t = [])
      then Inl (Validation ''rename template cannot be empty'')
      else
        rbind (case bp_folder_plan b of None \<Rightarrow> Inr () | Some p \<Rightarrow> folder_plan_validate p) (\<lambda>_.
        rbind (counter_validate (bp_counter b)) (\<lambda>_.
          (case bp_watch b of None \<Rightarrow> Inr () | Some w \<Rightarrow> watch_validate rx w))))"

definition blueprint_summary_of :: "blueprint \<Rightarrow> blueprint_summary" where
  "blueprint_summary_of b =
     \<lparr>bs_id = bp_id b, bs_name = bp_name b, bs_kind = bp_kind b, bs_root_path = bp_root_path b,
      bs_operation = bp_operation b, bs_enabled = bp_enabled b, bs_last_run = bp_last_run b,
      bs_watch_enabled = blueprint_watch_active b\<rparr>"

end
