(* ===== verification/Blueprint_Store.thy ===== *)
theory Blueprint_Store
  imports Blueprint Job_Store Machine
begin

text \<open>
  Where blueprints and their counters are kept: the port \<open>crates/autoflow-application/src/ports/blueprint_store.rs\<close>
  with its default \<open>next_counter\<close>, the SQLite store \<open>crates/autoflow-infrastructure/src/blueprints.rs\<close>
  and the use cases that list, read, create, change and delete blueprints
  (\<open>crates/autoflow-application/src/blueprints.rs\<close>). A payload is the blueprint \<open>serde_json\<close> wrote; a row
  that is not valid JSON and a failing database are not modelled.
\<close>

section \<open>The SQLite store\<close>

record blueprint_row =
  br_payload :: blueprint
  br_updated_at :: timestamp

text \<open>
  A counter is an \<open>INTEGER\<close> column. SQLite adds in 64-bit signed integers and goes over to a
  floating-point number when the sum does not fit; such a cell no longer decodes as \<open>i64\<close>.
\<close>

datatype counter_cell = Whole "64 word" | Real

record blueprint_db =
  bd_rows :: "(uuid, blueprint_row) hash_map"
  bd_counters :: "(uuid \<times> string, counter_cell) hash_map"

definition undecodable :: domain_error where
  "undecodable = DatabaseError ''mismatched types''"

definition bp_store_list :: "blueprint_db \<Rightarrow> blueprint_summary list" where
  "bp_store_list db =
     map (\<lambda>row. blueprint_summary_of (blueprint_normalize (br_payload row)))
       (sort_key (\<lambda>row. - br_updated_at row) (hm_values (bd_rows db)))"

definition bp_store_get :: "uuid \<Rightarrow> blueprint_db \<Rightarrow> domain_error + blueprint" where
  "bp_store_get bid db =
     (case hm_get bid (bd_rows db) of
        Some row \<Rightarrow> Inr (blueprint_normalize (br_payload row))
      | None \<Rightarrow> Inl BlueprintNotFound)"

definition bp_store_save :: "regex_lib \<Rightarrow> timestamp \<Rightarrow> blueprint \<Rightarrow> blueprint_db \<Rightarrow> domain_error + blueprint_db" where
  "bp_store_save rx now b db =
     rbind (blueprint_validate rx b) (\<lambda>_.
       Inr (db\<lparr>bd_rows := hm_insert (bp_id b) \<lparr>br_payload = b, br_updated_at = now\<rparr> (bd_rows db)\<rparr>))"

definition bp_store_delete :: "uuid \<Rightarrow> blueprint_db \<Rightarrow> domain_error + blueprint_db" where
  "bp_store_delete bid db =
     (if \<not> hm_contains bid (bd_rows db) then Inl BlueprintNotFound
      else Inr \<lparr>bd_rows = hm_remove bid (bd_rows db),
                bd_counters = filter (\<lambda>c. fst (fst c) \<noteq> bid) (bd_counters db)\<rparr>)"

definition bp_authorized_roots :: "blueprint_db \<Rightarrow> string list" where
  "bp_authorized_roots db =
     dedup_paths (sort_key path_key
       (map (\<lambda>row. bp_root_path (blueprint_normalize (br_payload row))) (hm_values (bd_rows db))))"

definition get_counter :: "uuid \<Rightarrow> string \<Rightarrow> blueprint_db \<Rightarrow> domain_error + 64 word" where
  "get_counter bid scope db =
     (case hm_get (bid, scope) (bd_counters db) of
        None \<Rightarrow> Inr 0
      | Some (Whole v) \<Rightarrow> Inr v
      | Some Real \<Rightarrow> Inl undecodable)"

definition set_counter :: "uuid \<Rightarrow> string \<Rightarrow> 64 word \<Rightarrow> blueprint_db \<Rightarrow> domain_error + blueprint_db" where
  "set_counter bid scope v db =
     Inr (db\<lparr>bd_counters := hm_insert (bid, scope) (Whole v) (bd_counters db)\<rparr>)"

definition bump_cell :: "64 word \<Rightarrow> counter_cell option \<Rightarrow> counter_cell" where
  "bump_cell excluded cell =
     (case cell of
        None \<Rightarrow> Whole excluded
      | Some Real \<Rightarrow> Real
      | Some (Whole v) \<Rightarrow>
          if sint v > 0 then (if v = i64_max then Real else Whole (v + 1)) else Whole excluded)"

definition saturating_succ :: "64 word \<Rightarrow> 64 word" where
  "saturating_succ v = (if v = - 1 then v else v + 1)"

definition next_counter ::
    "uuid \<Rightarrow> string \<Rightarrow> 64 word \<Rightarrow> blueprint_db \<Rightarrow> (domain_error + 64 word) \<times> blueprint_db" where
  "next_counter bid scope first db =
     (if first = 0 \<or> first \<ge> i64_max
      then (Inl (Validation ''counter start must be between 1 and i64::MAX - 1''), db)
      else
        (let cell = bump_cell (saturating_succ first) (hm_get (bid, scope) (bd_counters db));
             db' = db\<lparr>bd_counters := hm_insert (bid, scope) cell (bd_counters db)\<rparr>
         in case cell of Whole v \<Rightarrow> (Inr (v - 1), db') | Real \<Rightarrow> (Inl undecodable, db')))"

definition update_last_run ::
    "regex_lib \<Rightarrow> timestamp \<Rightarrow> uuid \<Rightarrow> blueprint_db \<Rightarrow> domain_error + blueprint_db" where
  "update_last_run rx now bid db =
     rbind (bp_store_get bid db) (\<lambda>b. bp_store_save rx now (b\<lparr>bp_last_run := Some now\<rparr>) db)"

section \<open>The port\<close>

text \<open>The method \<open>next_counter\<close> a store gets when it does not define its own.\<close>

definition default_next_counter ::
    "('s \<Rightarrow> domain_error + 64 word) \<Rightarrow> (64 word \<Rightarrow> 's \<Rightarrow> domain_error + 's) \<Rightarrow> 64 word \<Rightarrow> 's \<Rightarrow>
     domain_error + 64 word \<times> 's" where
  "default_next_counter get put first s =
     rbind (get s) (\<lambda>current.
       (let v = (if current = 0 then first else current) in
        rbind (put (saturating_succ v) s) (\<lambda>s'. Inr (v, s'))))"

locale counter_cells =
  fixes get :: "uuid \<Rightarrow> string \<Rightarrow> 's \<Rightarrow> domain_error + 64 word"
    and put :: "uuid \<Rightarrow> string \<Rightarrow> 64 word \<Rightarrow> 's \<Rightarrow> domain_error + 's"
  assumes get_put: "put bid scope v s = Inr s' \<Longrightarrow>
      get bid' scope' s' = (if bid' = bid \<and> scope' = scope then Inr v else get bid' scope' s)"
begin

lemma default_next:
  assumes "default_next_counter (get bid scope) (put bid scope) first s = Inr (v, s')" "first \<noteq> 0"
  shows "v \<noteq> 0"
    and "get bid scope s = Inr 0 \<and> v = first \<or> get bid scope s = Inr v"
    and "get bid' scope' s' =
      (if bid' = bid \<and> scope' = scope then Inr (saturating_succ v) else get bid' scope' s)"
  using assms get_put by (auto simp: default_next_counter_def result_simps Let_def split: if_splits)

end

interpretation sqlite_counters: counter_cells get_counter set_counter
  by unfold_locales (auto simp: get_counter_def set_counter_def hm_simps)

locale blueprint_port =
  fixes get :: "uuid \<Rightarrow> 's \<Rightarrow> domain_error + blueprint"
    and save :: "timestamp \<Rightarrow> blueprint \<Rightarrow> 's \<Rightarrow> domain_error + 's"
    and delete :: "uuid \<Rightarrow> 's \<Rightarrow> domain_error + 's"
  assumes get_save: "save t b s = Inr s' \<Longrightarrow>
      get bid s' = (if bid = bp_id b then Inr (blueprint_normalize b) else get bid s)"
    and get_delete: "delete bid s = Inr s' \<Longrightarrow>
      get bid' s' = (if bid' = bid then Inl BlueprintNotFound else get bid' s)"
    and delete_error: "delete bid s = Inl e \<Longrightarrow> e = BlueprintNotFound \<and> get bid s = Inl BlueprintNotFound"
begin

lemma delete_saved:
  assumes "save t b s = Inr s'"
  obtains s'' where "delete (bp_id b) s' = Inr s''" "get (bp_id b) s'' = Inl BlueprintNotFound"
    "\<And>bid. bid \<noteq> bp_id b \<Longrightarrow> get bid s'' = get bid s"
proof (cases "delete (bp_id b) s'")
  case (Inl e)
  from delete_error [OF Inl] get_save [OF assms, of "bp_id b"] show ?thesis by simp
next
  case (Inr s'')
  show ?thesis by (rule that [OF Inr]) (simp_all add: get_delete [OF Inr] get_save [OF assms])
qed

end

interpretation sqlite_blueprints: blueprint_port bp_store_get "bp_store_save rx" bp_store_delete for rx
  by unfold_locales
    (auto simp: bp_store_get_def bp_store_save_def bp_store_delete_def result_simps hm_simps
      hm_contains_get split: if_splits option.splits)

section \<open>Use cases\<close>

definition create_blueprint ::
    "regex_lib \<Rightarrow> timestamp \<Rightarrow> blueprint \<Rightarrow> blueprint_db \<Rightarrow> domain_error + blueprint \<times> blueprint_db" where
  "create_blueprint rx now b db =
     (let b' = blueprint_normalize b in
      rbind (blueprint_validate rx b') (\<lambda>_.
      rbind (bp_store_save rx now b' db) (\<lambda>db'. Inr (b', db'))))"

definition update_blueprint ::
    "regex_lib \<Rightarrow> timestamp \<Rightarrow> blueprint \<Rightarrow> blueprint_db \<Rightarrow> domain_error + blueprint \<times> blueprint_db" where
  "update_blueprint rx now b db =
     (let b' = blueprint_normalize b in
      rbind (blueprint_validate rx b') (\<lambda>_.
      rbind (bp_store_save rx now b' db) (\<lambda>db'. Inr (b', db'))))"

definition delete_blueprint :: "uuid \<Rightarrow> blueprint_db \<Rightarrow> domain_error + blueprint_db" where
  "delete_blueprint bid db = bp_store_delete bid db"


section \<open>Counters as numbers\<close>

text \<open>
  The abstract counter: the next number of each blueprint and scope, absent until a first number was
  issued. \<open>issued\<close> is the abstraction of the table.
\<close>

definition cell_number :: "counter_cell option \<Rightarrow> nat option" where
  "cell_number cell =
     (case cell of Some (Whole v) \<Rightarrow> if sint v > 0 then Some (unat v) else None | _ \<Rightarrow> None)"

definition issued :: "blueprint_db \<Rightarrow> (uuid \<times> string) \<Rightarrow> nat option" where
  "issued db k = cell_number (hm_get k (bd_counters db))"

definition upcoming :: "nat \<Rightarrow> nat option \<Rightarrow> nat" where
  "upcoming first n = (case n of None \<Rightarrow> first | Some m \<Rightarrow> m)"

fun spec_issue :: "((uuid \<times> string) \<times> nat) list \<Rightarrow> (uuid \<times> string \<Rightarrow> nat option) \<Rightarrow>
    nat list \<times> (uuid \<times> string \<Rightarrow> nat option)" where
  "spec_issue [] m = ([], m)"
| "spec_issue ((k, first) # reqs) m =
     (let n = upcoming first (m k); (ns, m') = spec_issue reqs (m(k \<mapsto> n + 1)) in (n # ns, m'))"

fun issue_all :: "((uuid \<times> string) \<times> 64 word) list \<Rightarrow> blueprint_db \<Rightarrow>
    (domain_error + 64 word) list \<times> blueprint_db" where
  "issue_all [] db = ([], db)"
| "issue_all (((bid, scope), first) # reqs) db =
     (let (r, db1) = next_counter bid scope first db; (rs, db2) = issue_all reqs db1 in (r # rs, db2))"

definition no_real :: "blueprint_db \<Rightarrow> bool" where
  "no_real db \<longleftrightarrow> Real \<notin> set (hm_values (bd_counters db))"

lemma div_cases: fixes k :: int assumes "0 \<le> k" "k < 2 * m" "0 < m" shows "k div m = (if k < m then 0 else 1)"
proof (cases "k < m")
  case False
  have "(k - m) div m = 0" using assms False by (intro div_pos_pos_trivial) simp_all
  moreover have "k = m + (k - m)" by simp
  ultimately show ?thesis using False assms(3) by (metis add.commute add.right_neutral div_add_self2 less_irrefl)
qed (use assms in simp)

lemma unat_less_iff_uint: "unat (v::64 word) < n \<longleftrightarrow> uint v < int n"
  by (metis of_nat_less_iff of_nat_unat)
lemma sint_cases: "sint (v :: 64 word) = (if unat v < 2 ^ 63 then uint v else uint v - 2 ^ 64)"
proof -
  have "uint v < 2 ^ 64" using uint_lt2p [of v] by simp
  then have "uint v div 2 ^ 63 = (if uint v < 2 ^ 63 then 0 else 1)"
    by (intro div_cases) simp_all
  then have "bit (uint v) 63 = (\<not> uint v < 2 ^ 63)"
    unfolding bit_iff_odd by (simp del: odd_iff_mod_2_eq_one)
  moreover have "take_bit 64 (uint v) = uint v" 
    using \<open>uint v < 2 ^ 64\<close> by (simp add: take_bit_int_eq_self)
  ultimately show ?thesis
    by (simp add: sint_uint signed_take_bit_eq_take_bit_minus unat_less_iff_uint)
qed
lemma sint_pos_iff: "0 < sint (v :: 64 word) \<longleftrightarrow> v \<noteq> 0 \<and> unat v < 2 ^ 63"
proof -
  have "uint v < 2 ^ 64" using uint_lt2p [of v] by simp
  moreover have "0 < uint v \<longleftrightarrow> v \<noteq> 0" by (metis less_le uint_0_iff uint_ge_0)
  moreover have "unat v < 2 ^ 63 \<longleftrightarrow> uint v < 2 ^ 63" by (simp add: unat_less_iff_uint)
  ultimately show ?thesis by (auto simp: sint_cases)
qed

lemma unat_succ: "unat (v :: 64 word) < 2 ^ 63 \<Longrightarrow> unat (v + 1) = unat v + 1"
  by (simp add: unat_word_ariths)
lemma not_minus1: "unat (v :: 64 word) < 2 ^ 63 \<Longrightarrow> v \<noteq> -1"
  using unat_succ by fastforce
lemma unat_i64_max: "unat i64_max = 2 ^ 63 - 1"
  by (simp add: i64_max_def)

lemma below_i64_max: "v < i64_max \<longleftrightarrow> unat v < 2 ^ 63 - 1"
  by (simp add: word_less_nat_alt unat_i64_max)

lemma succ_small: "unat v < 2 ^ 63 \<Longrightarrow> saturating_succ v = v + 1"
  by (simp add: saturating_succ_def not_minus1)

lemma upcoming_issued:
  "upcoming (unat first) (cell_number (Some (Whole v))) = (if sint v > 0 then unat v else unat first)"
  by (simp add: upcoming_def cell_number_def)

lemma next_counter_step:
  assumes "first \<noteq> 0" "first < i64_max" "hm_get (bid, scope) (bd_counters db) \<noteq> Some Real"
    and n: "n = upcoming (unat first) (issued db (bid, scope))" and "n < 2 ^ 63 - 1"
  shows "next_counter bid scope first db =
    (Inr (of_nat n), db\<lparr>bd_counters := hm_insert (bid, scope) (Whole (of_nat (n + 1))) (bd_counters db)\<rparr>)"
proof -
  let ?cell = "hm_get (bid, scope) (bd_counters db)"
  have succ: "saturating_succ first = first + 1" using assms(2) by (simp add: below_i64_max succ_small)
  have "bump_cell (saturating_succ first) ?cell = Whole (of_nat (n + 1))"
  proof (cases ?cell)
    case None
    with n succ show ?thesis by (simp add: bump_cell_def issued_def cell_number_def upcoming_def add.commute)
  next
    case (Some cell)
    with assms(3) obtain v where v: "cell = Whole v" by (cases cell) auto
    have "v \<noteq> i64_max" if "sint v > 0"
      using that n assms(5) Some v by (auto simp: issued_def upcoming_issued unat_i64_max)
    with n succ Some v show ?thesis
      by (simp add: bump_cell_def issued_def upcoming_issued add.commute)
  qed
  with assms(1,2) show ?thesis by (simp add: next_counter_def Let_def leD)
qed


lemma no_real_get: "no_real db \<Longrightarrow> hm_get k (bd_counters db) \<noteq> Some Real"
  by (force simp: no_real_def hm_values_def hm_get_def dest: map_of_SomeD)

lemma no_real_insert: "no_real db \<Longrightarrow> no_real (db\<lparr>bd_counters := hm_insert k (Whole v) (bd_counters db)\<rparr>)"
proof -
  have "set (hm_values (hm_insert k (Whole v) m)) \<subseteq> insert (Whole v) (set (hm_values m))" for m :: "(uuid \<times> string, counter_cell) hash_map"
    by (induction m) (auto simp: hm_values_def)
  then show "no_real db \<Longrightarrow> ?thesis" by (fastforce simp: no_real_def)
qed

lemma issued_insert:
  assumes "0 < n" "n < 2 ^ 63"
  shows "issued (db\<lparr>bd_counters := hm_insert k (Whole (of_nat n)) (bd_counters db)\<rparr>) = (issued db)(k \<mapsto> n)"
proof -
  have "unat (of_nat n :: 64 word) = n" using assms(2) by (simp add: unat_of_nat)
  moreover from this assms have "0 < sint (of_nat n :: 64 word)" by (auto simp: sint_pos_iff)
  ultimately show ?thesis by (auto simp: issued_def cell_number_def hm_simps)
qed

lemma issue_all_spec:
  assumes "no_real db"
    and "\<And>k n. issued db k = Some n \<Longrightarrow> n + length reqs < 2 ^ 63"
    and "list_all (\<lambda>(k, first). first \<noteq> 0 \<and> unat first + length reqs < 2 ^ 63) reqs"
    and "spec_issue (map (\<lambda>(k, first). (k, unat first)) reqs) (issued db) = (ns, m)"
  shows "\<exists>db'. issue_all reqs db = (map (\<lambda>n. Inr (of_nat n)) ns, db') \<and> issued db' = m"
  using assms
proof (induction reqs arbitrary: db ns)
  case (Cons req reqs)
  obtain bid scope first where req: "req = ((bid, scope), first)" by (cases req) auto
  define n where "n = upcoming (unat first) (issued db (bid, scope))"
  define db1 where "db1 = db\<lparr>bd_counters := hm_insert (bid, scope) (Whole (of_nat (n + 1))) (bd_counters db)\<rparr>"
  have small: "n + length (req # reqs) < 2 ^ 63"
    using Cons.prems(2) [of "(bid, scope)"] Cons.prems(3)
    by (auto simp: n_def upcoming_def req split: option.splits)
  have first: "first \<noteq> 0" "first < i64_max"
    using Cons.prems(3) by (auto simp: req below_i64_max)
  have step: "next_counter bid scope first db = (Inr (of_nat n), db1)"
    unfolding db1_def
    by (rule next_counter_step [OF first no_real_get [OF Cons.prems(1)] n_def]) (use small in simp)
  have iss: "issued db1 = (issued db)((bid, scope) \<mapsto> n + 1)"
    using small unfolding db1_def by (intro issued_insert) simp_all
  obtain ns' where ns: "spec_issue (map (\<lambda>(k, first). (k, unat first)) reqs) (issued db1) = (ns', m)" "ns = n # ns'"
    using Cons.prems(4) by (auto simp: req n_def iss Let_def split: prod.splits)
  have "\<exists>db'. issue_all reqs db1 = (map (\<lambda>n. Inr (of_nat n)) ns', db') \<and> issued db' = m"
  proof (rule Cons.IH [OF _ _ _ ns(1)])
    show "no_real db1" unfolding db1_def by (rule no_real_insert [OF Cons.prems(1)])
    show "n' + length reqs < 2 ^ 63" if "issued db1 k = Some n'" for k n'
      using that small Cons.prems(2) [of k] by (auto simp: iss split: if_splits)
    show "list_all (\<lambda>(k, first). first \<noteq> 0 \<and> unat first + length reqs < 2 ^ 63) reqs"
      using Cons.prems(3) by (auto simp: list_all_iff)
  qed
  then show ?case using step ns(2) by (auto simp: req split: prod.splits)
qed simp

definition numbers_of :: "'k \<Rightarrow> 'k list \<Rightarrow> nat list \<Rightarrow> nat list" where
  "numbers_of k ks ns = map snd (filter (\<lambda>p. fst p = k) (zip ks ns))"

lemma spec_issue_consecutive:
  "spec_issue reqs m = (ns, m') \<Longrightarrow>
   successively (\<lambda>a b. b = Suc a) (numbers_of k (map fst reqs) ns) \<and>
   (\<forall>n. m k = Some n \<and> numbers_of k (map fst reqs) ns \<noteq> [] \<longrightarrow> hd (numbers_of k (map fst reqs) ns) = n)"
proof (induction reqs arbitrary: m ns)
  case (Cons req reqs)
  obtain k' first where req: "req = (k', first)" by (cases req)
  define n where "n = upcoming first (m k')"
  obtain ns' where ns: "spec_issue reqs (m(k' \<mapsto> n + 1)) = (ns', m')" "ns = n # ns'"
    using Cons.prems by (auto simp: req n_def Let_def split: prod.splits)
  have eq: "numbers_of k (map fst (req # reqs)) ns =
      (if k' = k then n # numbers_of k (map fst reqs) ns' else numbers_of k (map fst reqs) ns')"
    by (simp add: numbers_of_def req ns(2))
  from Cons.IH [OF ns(1)] show ?case
    unfolding eq by (auto simp: successively_Cons n_def upcoming_def)
qed (simp add: numbers_of_def)

section \<open>Properties\<close>

text \<open>
  C20. The SQLite counter implements the abstract one. Any interleaving of requests, for several blueprints and
  scopes, returns what the abstract counter returns and leaves the table standing for its state; so
  the numbers of one blueprint and scope follow each other without a gap or a repetition, the first
  being the number stored or else the start of the first request. The hypotheses say that every request has a start a validated
  blueprint can have and that no counter reaches 2^63 on the way.
\<close>

theorem counters_refine:
  assumes "no_real db"
    and "\<forall>k n. issued db k = Some n \<longrightarrow> n + length reqs < 2 ^ 63"
    and "list_all (\<lambda>(k, first). first \<noteq> 0 \<and> unat first + length reqs < 2 ^ 63) reqs"
  shows "case spec_issue (map (\<lambda>(k, first). (k, unat first)) reqs) (issued db) of
      (ns, m) \<Rightarrow> \<exists>db'. issue_all reqs db = (map (\<lambda>n. Inr (of_nat n)) ns, db') \<and> issued db' = m \<and>
        successively (\<lambda>a b. b = Suc a) (numbers_of k (map fst reqs) ns)"
proof -
  obtain ns m where spec: "spec_issue (map (\<lambda>(k, first). (k, unat first)) reqs) (issued db) = (ns, m)"
    by (cases "spec_issue (map (\<lambda>(k, first). (k, unat first)) reqs) (issued db)")
  have keys: "map fst (map (\<lambda>(k, first). (k, unat first)) reqs) = map fst reqs" by auto
  obtain db' where "issue_all reqs db = (map (\<lambda>n. Inr (of_nat n)) ns, db')" "issued db' = m"
    using issue_all_spec [OF assms(1) _ assms(3) spec] assms(2) by blast
  with spec_issue_consecutive [OF spec, of k, unfolded keys] show ?thesis
    unfolding spec by auto
qed

theorem counters_refine_witness:
  "fst (issue_all [((1, ''global''), 5), ((2, ''global''), 1), ((1, ''global''), 5)] \<lparr>bd_rows = [], bd_counters = []\<rparr>)
     = [Inr 5, Inr 1, Inr 6]"
proof -
  let ?db = "\<lparr>bd_rows = [], bd_counters = []\<rparr>"
  let ?reqs = "[((1, ''global''), 5), ((2, ''global''), 1), ((1, ''global''), 5)] :: ((uuid \<times> string) \<times> 64 word) list"
  have "no_real ?db" by (simp add: no_real_def hm_values_def)
  moreover have "\<forall>k n. issued ?db k = Some n \<longrightarrow> n + length ?reqs < 2 ^ 63"
    by (simp add: issued_def hm_get_def cell_number_def)
  moreover have "list_all (\<lambda>(k, first). first \<noteq> 0 \<and> unat first + length ?reqs < 2 ^ 63) ?reqs" by simp
  ultimately show ?thesis
    using counters_refine [of ?db ?reqs "(1, ''global'')"]
    by (auto simp: issued_def hm_get_def cell_number_def upcoming_def)
qed

text \<open>
  C21. SQLite's single-statement \<open>next_counter\<close> returns and stores what the port's default method does over the store's
  own \<open>get_counter\<close> and \<open>set_counter\<close>, for every start a validated blueprint can have and every stored
  number below the largest one.
\<close>

theorem sqlite_next_is_default:
  assumes "first \<noteq> 0" "first < i64_max"
    and "case hm_get (bid, scope) (bd_counters db) of
        None \<Rightarrow> True | Some Real \<Rightarrow> False | Some (Whole v) \<Rightarrow> v = 0 \<or> v < i64_max"
  shows "default_next_counter (get_counter bid scope) (set_counter bid scope) first db =
    (case next_counter bid scope first db of (Inr v, db') \<Rightarrow> Inr (v, db') | (Inl e, _) \<Rightarrow> Inl e)"
proof -
  have "saturating_succ v = v + 1 \<and> (v \<noteq> 0 \<longrightarrow> sint v > 0) \<and> v \<noteq> i64_max" if "v < i64_max" for v :: "64 word"
    using that by (auto simp: below_i64_max succ_small sint_pos_iff unat_i64_max)
  with assms show ?thesis
    by (auto simp: default_next_counter_def next_counter_def get_counter_def set_counter_def bump_cell_def
        Let_def leD split: option.splits counter_cell.splits if_splits)
qed


text \<open>A counter that already gave out 5 and 6.\<close>

theorem sqlite_next_is_default_witness:
  "default_next_counter (get_counter 1 ''global'') (set_counter 1 ''global'') 5
       \<lparr>bd_rows = [], bd_counters = [((1, ''global''), Whole 7)]\<rparr>
     = Inr (7, \<lparr>bd_rows = [], bd_counters = [((1, ''global''), Whole 8)]\<rparr>)"
proof -
  let ?db = "\<lparr>bd_rows = [], bd_counters = [((1, ''global''), Whole 7)]\<rparr>"
  have "(5 :: 64 word) \<noteq> 0" "(5 :: 64 word) < i64_max"
    "case hm_get (1, ''global'') (bd_counters ?db) of
        None \<Rightarrow> True | Some Real \<Rightarrow> False | Some (Whole v) \<Rightarrow> v = 0 \<or> v < i64_max"
    by (simp_all add: i64_max_def hm_get_def)
  from sqlite_next_is_default [OF this] show ?thesis
    by (simp add: next_counter_def bump_cell_def i64_max_def hm_get_def saturating_succ_def sint_pos_iff)
qed

section \<open>What the store holds\<close>

text \<open>
  Every change to the store as an action. A counter may be set to any value: the port has the method.
\<close>

datatype store_action =
    CreateBlueprint timestamp blueprint
  | UpdateBlueprint timestamp blueprint
  | SaveBlueprint timestamp blueprint
  | DeleteBlueprint uuid
  | SetCounter uuid string "64 word"
  | NextCounter uuid string "64 word"
  | TouchLastRun timestamp uuid

definition ok_or_same :: "'s \<Rightarrow> 'e + 's \<Rightarrow> 's" where
  "ok_or_same s r = (case r of Inl _ \<Rightarrow> s | Inr s' \<Rightarrow> s')"

fun perform_store :: "regex_lib \<Rightarrow> store_action \<Rightarrow> blueprint_db \<Rightarrow> blueprint_db option" where
  "perform_store rx (CreateBlueprint now b) db = Some (ok_or_same db (map_sum id snd (create_blueprint rx now b db)))"
| "perform_store rx (UpdateBlueprint now b) db = Some (ok_or_same db (map_sum id snd (update_blueprint rx now b db)))"
| "perform_store rx (SaveBlueprint now b) db = Some (ok_or_same db (bp_store_save rx now b db))"
| "perform_store rx (DeleteBlueprint bid) db = Some (ok_or_same db (delete_blueprint bid db))"
| "perform_store rx (SetCounter bid scope v) db = Some (ok_or_same db (set_counter bid scope v db))"
| "perform_store rx (NextCounter bid scope first) db = Some (snd (next_counter bid scope first db))"
| "perform_store rx (TouchLastRun now bid) db = Some (ok_or_same db (update_last_run rx now bid db))"

definition row_ok :: "regex_lib \<Rightarrow> uuid \<times> blueprint_row \<Rightarrow> bool" where
  "row_ok rx r \<longleftrightarrow> bp_id (br_payload (snd r)) = fst r \<and> is_ok (blueprint_validate rx (br_payload (snd r)))"

definition store_ok :: "regex_lib \<Rightarrow> blueprint_db \<Rightarrow> bool" where
  "store_ok rx db \<longleftrightarrow> hm_ok (bd_rows db) \<and> list_all (row_ok rx) (bd_rows db)"

lemma blueprint_normalize_eq: "blueprint_normalize b = b\<lparr>bp_search := bp_search b\<lparr>recursive := bp_recursive b\<rparr>\<rparr>"
proof (cases "bp_watch b")
  case (Some w)
  have "wc_enabled w \<Longrightarrow> w\<lparr>wc_enabled := True\<rparr> = w" by (cases w) simp
  with Some show ?thesis
    by (cases b) (simp add: blueprint_normalize_def blueprint_watch_active_def Let_def)
qed (simp add: blueprint_normalize_def blueprint_watch_active_def Let_def)

lemma normalized_same [simp]:
  "bp_id (blueprint_normalize b) = bp_id b" "bp_kind (blueprint_normalize b) = bp_kind b"
  "blueprint_validate rx (blueprint_normalize b) = blueprint_validate rx b"
  "blueprint_normalize (blueprint_normalize b) = blueprint_normalize b"
  "blueprint_validate rx (b\<lparr>bp_last_run := t\<rparr>) = blueprint_validate rx b"
  by (simp_all add: blueprint_normalize_eq blueprint_validate_def)

lemma save_ok: "store_ok rx db \<Longrightarrow> bp_store_save rx now b db = Inr db' \<Longrightarrow> store_ok rx db'"
  by (auto simp: store_ok_def bp_store_save_def result_simps row_ok_def set_hm_insert list_all_iff is_ok_iff)

lemma get_ok:
  assumes "store_ok rx db" "bp_store_get bid db = Inr b"
  shows "bp_id b = bid" "is_ok (blueprint_validate rx b)"
  using assms
  by (auto simp: store_ok_def bp_store_get_def row_ok_def list_all_iff hm_get_Some_iff split: option.splits)

lemma next_counter_rows: "bd_rows (snd (next_counter bid scope first db)) = bd_rows db"
  by (simp add: next_counter_def Let_def split: counter_cell.splits)

lemma map_snd_Inr: "map_sum id snd r = Inr x \<longleftrightarrow> (\<exists>y. r = Inr (y, x))"
  by (cases r) auto

lemma perform_store_ok: "store_ok rx db \<Longrightarrow> perform_store rx a db = Some db' \<Longrightarrow> store_ok rx db'"
proof (cases a)
  case (DeleteBlueprint bid)
  then show "store_ok rx db \<Longrightarrow> perform_store rx a db = Some db' \<Longrightarrow> store_ok rx db'"
    by (auto simp: ok_or_same_def delete_blueprint_def bp_store_delete_def store_ok_def list_all_iff hm_simps
        split: if_splits)
next
  case (NextCounter bid scope first)
  then show "store_ok rx db \<Longrightarrow> perform_store rx a db = Some db' \<Longrightarrow> store_ok rx db'"
    by (auto simp: store_ok_def next_counter_rows)
next
  case (SetCounter bid scope v)
  then show "store_ok rx db \<Longrightarrow> perform_store rx a db = Some db' \<Longrightarrow> store_ok rx db'"
    by (auto simp: store_ok_def set_counter_def ok_or_same_def)
qed (auto simp: ok_or_same_def create_blueprint_def update_blueprint_def update_last_run_def Let_def result_simps
      map_snd_Inr split: sum.splits intro: save_ok)

interpretation blueprint_machine: machine "perform_store rx" "\<lparr>bd_rows = [], bd_counters = []\<rparr>" "store_ok rx" for rx
  by unfold_locales (simp add: store_ok_def, rule perform_store_ok)


text \<open>
  C22. Whatever operations the store has seen, from the empty database on, a blueprint it returns carries the identifier it was asked for, passes
  the validation it had when it was saved, and the end of a run, \<open>update_last_run\<close>, can record the
  moment: reading and normalizing never makes a stored blueprint unfit to be saved again.
\<close>

theorem stored_blueprints_are_valid:
  assumes "reach (perform_store rx) \<lparr>bd_rows = [], bd_counters = []\<rparr> db" "bp_store_get bid db = Inr b"
  shows "bp_id b = bid \<and> blueprint_validate rx b = Inr () \<and> blueprint_normalize b = b \<and>
    (case update_last_run rx now bid db of
       Inl _ \<Rightarrow> False | Inr db' \<Rightarrow> bp_store_get bid db' = Inr (b\<lparr>bp_last_run := Some now\<rparr>))"
proof -
  note ok = get_ok [OF blueprint_machine.reach_inv [OF assms(1)] assms(2)]
  then have valid: "blueprint_validate rx b = Inr ()" by (auto simp: is_ok_iff)
  moreover have normal: "blueprint_normalize b = b"
    using assms(2) by (auto simp: bp_store_get_def split: option.splits)
  moreover have "bp_search b\<lparr>recursive := bp_recursive b\<rparr> = bp_search b"
    using arg_cong [OF normal, of bp_search] by (simp add: blueprint_normalize_eq)
  then have touch: "blueprint_normalize (b\<lparr>bp_last_run := Some now\<rparr>) = b\<lparr>bp_last_run := Some now\<rparr>"
    by (cases b) (simp add: blueprint_normalize_eq)
  moreover have "is_ok (update_last_run rx now bid db)"
    using assms(2) valid by (simp add: update_last_run_def bp_store_save_def)
  then obtain db' where db': "update_last_run rx now bid db = Inr db'" by (auto simp: is_ok_iff)
  with assms(2) have "bp_store_save rx now (b\<lparr>bp_last_run := Some now\<rparr>) db = Inr db'"
    by (simp add: update_last_run_def)
  from sqlite_blueprints.get_save [OF this, of bid] ok(1) touch
  have "bp_store_get bid db' = Inr (b\<lparr>bp_last_run := Some now\<rparr>)" by simp
  ultimately show ?thesis using ok(1) db' by simp
qed

definition demo_blueprint :: blueprint where
  "demo_blueprint = (blueprint_new 7 ''Notas'' FileKind ''/in'')
     \<lparr>bp_routing := routing_default\<lparr>rc_path_template := \<lparr>segments = [Token ''original'']\<rparr>\<rparr>\<rparr>"

definition no_regex :: regex_lib where
  "no_regex = \<lparr>rx_new = (\<lambda>_. Inr ()), rx_is_match = (\<lambda>_ _. True)\<rparr>"

theorem stored_blueprints_are_valid_witness:
  "blueprint_validate no_regex demo_blueprint = Inr () \<and>
   (case update_last_run no_regex 9 7 \<lparr>bd_rows = [(7, \<lparr>br_payload = demo_blueprint, br_updated_at = 1\<rparr>)], bd_counters = []\<rparr> of
      Inl _ \<Rightarrow> False | Inr db' \<Rightarrow> bp_store_get 7 db' = Inr (demo_blueprint\<lparr>bp_last_run := Some 9\<rparr>))"
proof -
  let ?db = "\<lparr>bd_rows = [(7, \<lparr>br_payload = demo_blueprint, br_updated_at = 1\<rparr>)], bd_counters = []\<rparr>"
  have n: "blueprint_normalize demo_blueprint = demo_blueprint" by code_simp
  have i: "bp_id demo_blueprint = 7" by code_simp
  have v: "blueprint_validate no_regex demo_blueprint = Inr ()"
    by code_simp
  have "create_blueprint no_regex 1 demo_blueprint \<lparr>bd_rows = [], bd_counters = []\<rparr> = Inr (demo_blueprint, ?db)"
    by (simp add: create_blueprint_def bp_store_save_def n v i)
  then have "perform_store no_regex (CreateBlueprint 1 demo_blueprint) \<lparr>bd_rows = [], bd_counters = []\<rparr> = Some ?db"
    by (simp add: ok_or_same_def)
  then have "run_all (perform_store no_regex) [CreateBlueprint 1 demo_blueprint] \<lparr>bd_rows = [], bd_counters = []\<rparr> = Some ?db"
    by (simp only: run_all.simps option.case)
  from reach_run_all [OF reach_init this]
  have "reach (perform_store no_regex) \<lparr>bd_rows = [], bd_counters = []\<rparr> ?db" .
  moreover have "bp_store_get 7 ?db = Inr demo_blueprint" by (simp add: bp_store_get_def hm_get_def n)
  ultimately show ?thesis using stored_blueprints_are_valid [of no_regex ?db 7 demo_blueprint 9] by blast
qed

end
