(* ===== verification/Blueprint_Plan.thy ===== *)
theory Blueprint_Plan
  imports Blueprint_Store File_System Run_Support Template_Display
begin

text \<open>
  What a blueprint would do, \<open>crates/autoflow-application/src/blueprints.rs\<close>: the previews of templates
  and folder plans, the plan of folder actions with its preflight, the plan of file moves and the
  simulation reports. Plans hold paths as text, as the code does; the file system is asked about the
  path the text stands for. What the planner reads from outside is in \<open>plan_env\<close>; clock and identifiers
  are read once per entry, named by the folder and the position of the entry. A \<open>plan_env\<close> holds the readings of
  one plan: the code draws identifiers and reads the clock anew for every entry of every plan, so that a simulation and
  a run have different ones (\<open>read_again\<close>).
\<close>

record plan_env =
  pe_re :: regex_engine
  pe_rx :: regex_lib
  pe_canon :: "string \<Rightarrow> string option"
  pe_globs :: glob_lib
  pe_probe :: "fs \<Rightarrow> fs_probe"
  pe_now :: timestamp
  pe_date_key :: "nat \<Rightarrow> string"
  pe_now_format :: "string \<Rightarrow> nat \<Rightarrow> string \<Rightarrow> string"
  pe_guid :: "string \<Rightarrow> nat \<Rightarrow> string"

type_synonym variables = "(string, string) hash_map"

fun token_error_text :: "token_error \<Rightarrow> string" where
  "token_error_text (UnknownToken e) = ''unknown token: '' @ e"
| "token_error_text (UnknownTransform e) = ''unknown transform: '' @ e"
| "token_error_text (UnknownRegexPreset e) = ''unknown regex preset: '' @ e"
| "token_error_text (InvalidTransform e) = ''invalid transform: '' @ e"
| "token_error_text (RegexError e) = ''regex error: '' @ e"

section \<open>Paths inside a root\<close>

definition relative_path_invalid :: "string \<Rightarrow> bool" where
  "relative_path_invalid relative \<longleftrightarrow> \<not> is_ok (validate_relative_path relative)"

definition safe_join :: "(string \<Rightarrow> string option) \<Rightarrow> string \<Rightarrow> string \<Rightarrow> string \<Rightarrow> domain_error + string" where
  "safe_join canon base canonical_root relative =
     (if relative_path_invalid relative
      then Inl (Validation (''invalid relative folder path: '' @ relative))
      else
        (let target = path_join base relative in
         if \<not> is_path_under_root canon target canonical_root
         then Inl (Validation (''folder action escapes root: '' @ target))
         else Inr target))"

definition normalize_relative_display :: "string \<Rightarrow> string" where
  "normalize_relative_display path =
     join_with ''/'' (filter (\<lambda>part. trim part \<noteq> [])
       (split_on (CHR ''/'') (trim_by (\<lambda>c. c = CHR ''/'') (replace_char bslash (CHR ''/'') (trim path)))))"

definition join_relative :: "string \<Rightarrow> string \<Rightarrow> string" where
  "join_relative parent child = normalize_relative_display (parent @ ''/'' @ child)"

section \<open>Template preview\<close>

record template_preview =
  tp_result_path :: string
  tp_result_name :: string
  tp_valid :: bool
  tp_warnings :: "string list"

text \<open>The renamed last component, as both the preview and \<open>resolve_destination\<close> put it in place.\<close>

definition apply_rename ::
    "regex_engine \<Rightarrow> template_pipeline option \<Rightarrow> token_context \<Rightarrow> string \<Rightarrow> token_error + string" where
  "apply_rename re rename_template ctx result =
     (case rename_template of
        None \<Rightarrow> Inr result
      | Some rename \<Rightarrow>
          rbind (evaluate re rename ctx) (\<lambda>name.
            Inr (case path_parent result of Some parent \<Rightarrow> path_join parent name | None \<Rightarrow> name)))"

definition preview_template ::
    "plan_env \<Rightarrow> template_pipeline \<Rightarrow> template_pipeline option \<Rightarrow> string \<Rightarrow> template_preview" where
  "preview_template pe pipeline rename_template sample_path =
     (let ctx = token_context_from_path (pe_now_format pe [] 0) (pe_guid pe [] 0) sample_path 1 1 in
      case rbind (evaluate (pe_re pe) pipeline ctx) (apply_rename (pe_re pe) rename_template ctx) of
        Inr result \<Rightarrow>
          (let result_path = replace_char bslash (CHR ''/'') result in
           \<lparr>tp_result_path = result_path,
            tp_result_name = (case file_name result_path of Some n \<Rightarrow> n | None \<Rightarrow> result_path),
            tp_valid = is_ok (validate_relative_path result_path),
            tp_warnings = (case validate_relative_path result_path of Inr _ \<Rightarrow> [] | Inl error \<Rightarrow> [error])\<rparr>)
      | Inl error \<Rightarrow>
          \<lparr>tp_result_path = [], tp_result_name = [], tp_valid = False,
           tp_warnings = [token_error_text error]\<rparr>)"

section \<open>Variables and templates of folder plans\<close>

definition folder_variable_key :: "string \<Rightarrow> string" where
  "folder_variable_key name = map to_lower (filter (\<lambda>ch. is_alnum ch \<or> ch = CHR ''_'') name)"

definition override_of :: "variables \<Rightarrow> folder_plan_variable \<Rightarrow> string" where
  "override_of overrides v =
     (case hm_get (fv_name v) overrides of
        Some x \<Rightarrow> x
      | None \<Rightarrow>
          (case hm_get (folder_variable_key (fv_name v)) overrides of
             Some x \<Rightarrow> x | None \<Rightarrow> fv_default_value v))"

definition lacks_value :: "variables \<Rightarrow> folder_plan_variable \<Rightarrow> bool" where
  "lacks_value overrides v \<longleftrightarrow> fv_required v \<and> trim (override_of overrides v) = []"

definition variable_step :: "variables \<Rightarrow> bool \<Rightarrow> folder_plan_variable \<Rightarrow> variables \<Rightarrow> variables" where
  "variable_step overrides preview v vals =
     hm_insert (folder_variable_key (fv_name v))
       (if lacks_value overrides v \<and> preview then ''{'' @ fv_name v @ ''}'' else override_of overrides v) vals"

definition folder_plan_variable_values ::
    "folder_plan \<Rightarrow> variables \<Rightarrow> bool \<Rightarrow> string list \<Rightarrow> variables \<times> string list" where
  "folder_plan_variable_values p overrides preview warnings =
     (fold (variable_step overrides preview) (pl_variables p) [],
      warnings @ map (\<lambda>v. ''required folder variable has no value: '' @ fv_name v)
        (filter (lacks_value overrides) (pl_variables p)))"

definition missing_required_folder_variables :: "folder_plan \<Rightarrow> variables \<Rightarrow> string list" where
  "missing_required_folder_variables p overrides =
     map fv_name (filter (lacks_value overrides) (pl_variables p))"

definition folder_plan_default_variables :: "folder_plan option \<Rightarrow> variables" where
  "folder_plan_default_variables p =
     (case p of
        None \<Rightarrow> []
      | Some p \<Rightarrow> fold (\<lambda>v. hm_insert (fv_name v) (fv_default_value v)) (pl_variables p) [])"

text \<open>The context of entry \<open>index\<close> (from 0) of the folder \<open>parent_rel\<close> of a plan over the directory \<open>root\<close>.\<close>

definition folder_token_context :: "plan_env \<Rightarrow> string \<Rightarrow> string \<Rightarrow> nat \<Rightarrow> variables \<Rightarrow> token_context" where
  "folder_token_context pe parent_rel root index variables =
     with_variables (\<lambda>k. hm_get k variables)
       (token_context_for_directory (pe_now_format pe parent_rel index) (pe_guid pe parent_rel index) root
          (of_nat (index + 1)) (of_nat (index + 1)))"

definition evaluate_folder_template ::
    "regex_engine \<Rightarrow> string \<Rightarrow> token_context \<Rightarrow> string list \<Rightarrow> string \<Rightarrow> bool \<Rightarrow>
     (domain_error + string) \<times> string list" where
  "evaluate_folder_template re input ctx warnings label strict =
     (if trim input = [] then (Inr [], warnings)
      else
        (case evaluate re (parse_template input) ctx of
           Inr v \<Rightarrow> (Inr v, warnings)
         | Inl error \<Rightarrow>
             (let text = ''invalid folder '' @ label @ '' template: '' @ token_error_text error in
              if strict then (Inl (Validation text), warnings) else (Inr input, warnings @ [text]))))"

section \<open>Preview of a folder plan\<close>

datatype folder_preview_node =
  PreviewNode (pn_name: string) (pn_relative_path: string) (pn_action: folder_action)
    (pn_source_path: string) (pn_children: "folder_preview_node list")

record folder_plan_preview =
  pv_root_path :: string
  pv_nodes :: "folder_preview_node list"
  pv_folder_count :: "32 word"
  pv_valid :: bool
  pv_warnings :: "string list"

definition action_debug :: "folder_action \<Rightarrow> string" where
  "action_debug a =
     (case a of FolderCreate \<Rightarrow> ''Create'' | FolderRename \<Rightarrow> ''Rename'' | FolderMove \<Rightarrow> ''Move''
      | FolderCopy \<Rightarrow> ''Copy'' | FolderDelete \<Rightarrow> ''Delete'')"

definition or_input :: "string \<Rightarrow> domain_error + string \<Rightarrow> string" where
  "or_input input r = (case r of Inr x \<Rightarrow> x | Inl _ \<Rightarrow> input)"

definition preview_relative_path :: "folder_action \<Rightarrow> string \<Rightarrow> string \<Rightarrow> string \<Rightarrow> string \<Rightarrow> string" where
  "preview_relative_path action parent_rel name source target =
     (case action of
        FolderCreate \<Rightarrow>
          if trim target \<noteq> [] then normalize_relative_display target
          else if parent_rel = [] then normalize_relative_display name
          else if trim name = [] then parent_rel
          else normalize_relative_display (parent_rel @ ''/'' @ name)
      | FolderRename \<Rightarrow>
          (let parent = replace_char bslash (CHR ''/'') (or_empty (path_parent source)) in
           if parent = [] then normalize_relative_display name
           else normalize_relative_display (parent @ ''/'' @ name))
      | FolderMove \<Rightarrow> normalize_relative_display target
      | FolderCopy \<Rightarrow> normalize_relative_display target
      | FolderDelete \<Rightarrow> normalize_relative_display source)"

text \<open>Name, source path and relative path of the node, and the warnings so far.\<close>

definition preview_folder_node ::
    "plan_env \<Rightarrow> folder_action_node \<Rightarrow> string \<Rightarrow> string \<Rightarrow> variables \<Rightarrow> string list \<Rightarrow> nat \<Rightarrow>
     (string \<times> string \<times> string) \<times> string list" where
  "preview_folder_node pe node parent_rel root variables warnings index =
     (let ctx = folder_token_context pe parent_rel root index variables;
          (name, w1) = evaluate_folder_template (pe_re pe) (fn_name node) ctx warnings ''name'' False;
          (source, w2) = evaluate_folder_template (pe_re pe) (fn_source_path node) ctx w1 ''source'' False;
          (target, w3) = evaluate_folder_template (pe_re pe) (fn_target_path node) ctx w2 ''target'' False;
          name = or_input (fn_name node) name; source = or_input (fn_source_path node) source;
          target = or_input (fn_target_path node) target;
          relative = preview_relative_path (fn_action node) parent_rel name source target
      in ((name, normalize_relative_display source, relative),
          w3 @ (if trim relative = []
                then [''folder action target cannot be empty: '' @ action_debug (fn_action node)] else [])
             @ (if relative_path_invalid relative
                then [''invalid relative folder path: '' @ relative] else [])
             @ (if trim source \<noteq> [] \<and> relative_path_invalid source
                then [''invalid relative source path: '' @ source] else [])))"

definition display_action_path :: "folder_action_node \<Rightarrow> string \<Rightarrow> string" where
  "display_action_path node fallback =
     (if trim (fn_source_path node) \<noteq> [] then fn_source_path node
      else if trim (fn_target_path node) \<noteq> [] then fn_target_path node
      else if trim (fn_name node) \<noteq> [] then fn_name node
      else fallback)"

text \<open>The nodes from \<open>index\<close> on, with the warnings and the number of folders so far.\<close>

fun preview_nodes ::
    "plan_env \<Rightarrow> string \<Rightarrow> variables \<Rightarrow> string \<Rightarrow> nat \<Rightarrow> folder_action_node list \<Rightarrow>
     string list \<times> 32 word \<Rightarrow> folder_preview_node list \<times> string list \<times> 32 word" where
  "preview_nodes pe root variables parent_rel index [] acc = ([], acc)"
| "preview_nodes pe root variables parent_rel index (FolderNode action n s t children # nodes) (warnings, folders) =
     (let node = FolderNode action n s t children;
          ((name, source, relative), w1) = preview_folder_node pe node parent_rel root variables warnings index;
          (previews, acc) =
            (if action = FolderDelete
             then ([], (if children \<noteq> []
                        then w1 @ [''children ignored after delete action: '' @ display_action_path node relative]
                        else w1, folders + 1))
             else preview_nodes pe root variables relative 0 children (w1, folders + 1));
          (rest, acc') = preview_nodes pe root variables parent_rel (Suc index) nodes acc
      in (PreviewNode name relative action source previews # rest, acc'))"

definition preview_folder_plan :: "plan_env \<Rightarrow> string \<Rightarrow> folder_plan \<Rightarrow> variables \<Rightarrow> folder_plan_preview" where
  "preview_folder_plan pe root_path p variables =
     (let w0 = (if trim root_path = [] then [''root_path is required''] else []);
          (vals, w1) = folder_plan_variable_values p variables True w0;
          (nodes, w2, folders) = preview_nodes pe root_path vals [] 0 (pl_nodes p) (w1, 0)
      in \<lparr>pv_root_path = root_path, pv_nodes = nodes, pv_folder_count = folders, pv_valid = (w2 = []),
          pv_warnings = w2\<rparr>)"

section \<open>The plan of folder actions\<close>

record folder_action_item =
  fi_action :: folder_action
  fi_source :: "string option"
  fi_target :: "string option"

record folder_action_plan =
  fp_items :: "folder_action_item list"
  fp_warnings :: "string list"

definition first_nonempty :: "string \<Rightarrow> string \<Rightarrow> string" where
  "first_nonempty a b = (if a \<noteq> [] then a else b)"

definition check_relative_paths :: "string option \<times> string option \<Rightarrow> domain_error + string option \<times> string option" where
  "check_relative_paths paths =
     (case filter relative_path_invalid
         ((case fst paths of None \<Rightarrow> [] | Some p \<Rightarrow> [p]) @ (case snd paths of None \<Rightarrow> [] | Some p \<Rightarrow> [p])) of
        [] \<Rightarrow> Inr paths
      | rel # _ \<Rightarrow> Inl (Validation (''invalid relative folder path: '' @ rel)))"

definition resolve_folder_action_paths ::
    "folder_action \<Rightarrow> string \<Rightarrow> string \<Rightarrow> string \<Rightarrow> string \<Rightarrow> domain_error + string option \<times> string option" where
  "resolve_folder_action_paths action parent_rel name0 source0 target0 =
     (let source = normalize_relative_display source0; target = normalize_relative_display target0;
          name = normalize_relative_display name0
      in rbind
        (case action of
           FolderCreate \<Rightarrow> Inr (None, Some (join_relative parent_rel (first_nonempty target name)))
         | FolderRename \<Rightarrow>
             if name = [] then Inl (Validation ''rename folder action requires a new name'')
             else Inr (Some (join_relative parent_rel (first_nonempty source name)),
                       Some (join_relative parent_rel (first_nonempty target name)))
         | FolderDelete \<Rightarrow>
             if source = [] \<and> name = [] then Inl (Validation ''delete folder action requires source path'')
             else Inr (Some (join_relative parent_rel (first_nonempty source name)), None)
         | _ \<Rightarrow>
             if source = [] then Inl (Validation ''move/copy folder action requires source path'')
             else if target = [] \<and> name = []
             then Inl (Validation ''move/copy folder action requires target path or name'')
             else Inr (Some (join_relative parent_rel source),
                       Some (join_relative parent_rel (first_nonempty target name))))
        check_relative_paths)"

definition join_optional ::
    "(string \<Rightarrow> string option) \<Rightarrow> string \<Rightarrow> string \<Rightarrow> string option \<Rightarrow> domain_error + string option" where
  "join_optional canon base canonical_root rel =
     (case rel of
        Some r \<Rightarrow> if trim r \<noteq> [] then map_sum id Some (safe_join canon base canonical_root r) else Inr None
      | None \<Rightarrow> Inr None)"

text \<open>One node: its item and the relative paths it resolved to. Strict evaluation adds no warnings.\<close>

definition plan_node ::
    "plan_env \<Rightarrow> string \<Rightarrow> string \<Rightarrow> variables \<Rightarrow> string \<Rightarrow> nat \<Rightarrow> folder_action_node \<Rightarrow>
     domain_error + folder_action_item \<times> string option \<times> string option" where
  "plan_node pe base canonical_root variables parent_rel index node =
     (let ctx = folder_token_context pe parent_rel base index variables;
          eval = (\<lambda>input label. fst (evaluate_folder_template (pe_re pe) input ctx [] label True))
      in rbind (eval (fn_name node) ''name'') (\<lambda>name.
         rbind (eval (fn_source_path node) ''source'') (\<lambda>source_rel.
         rbind (eval (fn_target_path node) ''target'') (\<lambda>target_rel.
         rbind (resolve_folder_action_paths (fn_action node) parent_rel name source_rel target_rel) (\<lambda>(s, t).
         rbind (join_optional (pe_canon pe) base canonical_root s) (\<lambda>source.
         rbind (join_optional (pe_canon pe) base canonical_root t) (\<lambda>target.
           Inr (\<lparr>fi_action = fn_action node, fi_source = source, fi_target = target\<rparr>, s, t))))))))"

definition child_parent :: "string \<Rightarrow> string option \<Rightarrow> string" where
  "child_parent parent_rel target_rel =
     trim_by (\<lambda>c. c = CHR ''/'') (case target_rel of Some r \<Rightarrow> r | None \<Rightarrow> parent_rel)"

text \<open>\<open>collect_folder_action_nodes\<close>: the items in the order of the tree, and the warnings.\<close>

fun collect_folder_action_nodes ::
    "plan_env \<Rightarrow> string \<Rightarrow> string \<Rightarrow> variables \<Rightarrow> string \<Rightarrow> nat \<Rightarrow> folder_action_node list \<Rightarrow>
     domain_error + folder_action_item list \<times> string list" where
  "collect_folder_action_nodes pe base canonical_root variables parent_rel index [] = Inr ([], [])"
| "collect_folder_action_nodes pe base canonical_root variables parent_rel index
     (FolderNode action n s t children # nodes) =
     rbind (plan_node pe base canonical_root variables parent_rel index (FolderNode action n s t children))
       (\<lambda>(item, source_rel, target_rel).
       rbind
         (if action = FolderDelete
          then Inr ([], if children \<noteq> []
                        then [''children ignored after delete action: '' @
                          (case source_rel of Some r \<Rightarrow> r | None \<Rightarrow> or_empty target_rel)] else [])
          else collect_folder_action_nodes pe base canonical_root variables (child_parent parent_rel target_rel) 0 children)
         (\<lambda>(below, w1).
       rbind (collect_folder_action_nodes pe base canonical_root variables parent_rel (Suc index) nodes)
         (\<lambda>(rest, w2). Inr (item # below @ rest, w1 @ w2))))"

definition directory_has_entries :: "fs_env \<Rightarrow> string \<Rightarrow> fs \<Rightarrow> bool" where
  "directory_has_entries env path fs \<longleftrightarrow>
     dir_at (parse_path path) fs \<and> fs_walk env False (parse_path path) fs \<noteq> [parse_path path]"

definition preflight_item ::
    "fs_env \<Rightarrow> (string \<Rightarrow> string option) \<Rightarrow> folder_plan \<Rightarrow> string \<Rightarrow> bool \<Rightarrow> fs \<Rightarrow> folder_action_item \<Rightarrow>
     domain_error + unit" where
  "preflight_item env canon p root dry_run fs item =
     (case fi_action item of
        FolderCreate \<Rightarrow>
          if fi_target item = None then Inl (Validation ''create folder action requires a target'') else Inr ()
      | FolderDelete \<Rightarrow>
          (case fi_source item of
             None \<Rightarrow> Inl (Validation ''delete folder action requires a source'')
           | Some source \<Rightarrow>
               if path_eq (normalize_path canon source) (normalize_path canon root)
               then Inl (Validation ''delete folder action cannot target the root folder'')
               else if \<not> dry_run \<and> \<not> dir_at (parse_path source) fs then Inl (SourceNotFound source)
               else if exists_at (parse_path source) fs \<and> directory_has_entries env source fs \<and>
                 \<not> (pl_allow_delete_non_empty p \<and> pl_confirm_delete_non_empty p)
               then Inl (Validation (''delete non-empty folder requires both safety confirmations: '' @ source))
               else Inr ())
      | _ \<Rightarrow>
          (case fi_source item of
             None \<Rightarrow> Inl (Validation ''folder action requires a source'')
           | Some source \<Rightarrow>
               if \<not> dry_run \<and> \<not> dir_at (parse_path source) fs
               then (if (case fi_target item of None \<Rightarrow> False | Some target \<Rightarrow> dir_at (parse_path target) fs)
                     then Inr () else Inl (SourceNotFound source))
               else if fi_target item = None then Inl (Validation ''folder action requires a target'')
               else Inr ()))"

fun preflight_folder_action_plan ::
    "fs_env \<Rightarrow> (string \<Rightarrow> string option) \<Rightarrow> folder_plan \<Rightarrow> string \<Rightarrow> bool \<Rightarrow> fs \<Rightarrow> folder_action_item list \<Rightarrow>
     domain_error + unit" where
  "preflight_folder_action_plan env canon p root dry_run fs [] = Inr ()"
| "preflight_folder_action_plan env canon p root dry_run fs (item # items) =
     rbind (preflight_item env canon p root dry_run fs item)
       (\<lambda>_. preflight_folder_action_plan env canon p root dry_run fs items)"

definition check_required :: "folder_plan \<Rightarrow> variables \<Rightarrow> bool \<Rightarrow> domain_error + unit" where
  "check_required p variables dry_run =
     (let missing = missing_required_folder_variables p variables in
      if \<not> dry_run \<and> missing \<noteq> []
      then Inl (Validation (''required folder variables missing values: '' @ join_with '', '' missing))
      else Inr ())"

definition build_folder_action_plan_for_nodes ::
    "plan_env \<Rightarrow> fs_env \<Rightarrow> blueprint \<Rightarrow> folder_plan \<Rightarrow> folder_action_node list \<Rightarrow> string \<Rightarrow> variables \<Rightarrow>
     bool \<Rightarrow> bool \<Rightarrow> fs \<Rightarrow> domain_error + folder_action_plan" where
  "build_folder_action_plan_for_nodes pe env b p nodes base_root variables dry_run enforce_required fs =
     (let root = bp_root_path b; canonical_root = normalize_path (pe_canon pe) root;
          base = normalize_path (pe_canon pe) base_root
      in if \<not> is_path_under_root (pe_canon pe) base canonical_root
         then Inl (Validation (''folder action base escapes blueprint root: '' @ base_root))
         else
           rbind (if enforce_required then check_required p variables dry_run else Inr ()) (\<lambda>_.
             let (vals, warnings) = folder_plan_variable_values p variables dry_run [] in
             rbind (collect_folder_action_nodes pe base canonical_root vals [] 0 nodes) (\<lambda>(items, more).
             rbind (preflight_folder_action_plan env (pe_canon pe) p root dry_run fs items) (\<lambda>_.
               Inr \<lparr>fp_items = items, fp_warnings = warnings @ more\<rparr>))))"

definition build_folder_action_plan ::
    "plan_env \<Rightarrow> fs_env \<Rightarrow> blueprint \<Rightarrow> variables \<Rightarrow> bool \<Rightarrow> fs \<Rightarrow> domain_error + folder_action_plan" where
  "build_folder_action_plan pe env b variables dry_run fs =
     (case bp_folder_plan b of
        None \<Rightarrow> Inl (Validation ''folder_plan is required for folder blueprints'')
      | Some p \<Rightarrow>
          rbind (check_required p variables dry_run) (\<lambda>_.
            build_folder_action_plan_for_nodes pe env b p (pl_nodes p) (bp_root_path b) variables dry_run True fs))"

section \<open>The plan of file moves\<close>

record plan_item =
  pi_source :: string
  pi_target :: string

type_synonym counters = "(string, 64 word) hash_map"

text \<open>The search of a blueprint runs as the search of a job over its root; nothing reads that job's identifier.\<close>

definition blueprint_search_job :: "blueprint \<Rightarrow> job" where
  "blueprint_search_job b =
     (job_new 0 (bp_name b) (bp_root_path b) (bp_root_path b))
       \<lparr>filters := bp_search b\<lparr>recursive := bp_recursive b\<rparr>\<rparr>"

definition collect_files_for_blueprint :: "plan_env \<Rightarrow> blueprint \<Rightarrow> fs \<Rightarrow> domain_error + string list" where
  "collect_files_for_blueprint pe b fs =
     map_err DatabaseError
       (collect_files (pe_rx pe) (pe_globs pe) (pe_probe pe fs) (pe_now pe) (blueprint_search_job b))"

definition source_parent :: "blueprint \<Rightarrow> string \<Rightarrow> string option" where
  "source_parent b source = Option.bind (path_parent source) (\<lambda>p. strip_prefix p (bp_root_path b))"

definition counter_key :: "plan_env \<Rightarrow> blueprint \<Rightarrow> string \<Rightarrow> nat \<Rightarrow> string" where
  "counter_key pe b source index =
     scope_key (bp_counter b) (or_empty (parent_name (source_parent b source)))
       (or_empty (source_parent b source)) (pe_date_key pe index)"

definition draw_counter ::
    "blueprint \<Rightarrow> string \<Rightarrow> bool \<Rightarrow> counters \<times> blueprint_db \<Rightarrow> (domain_error + 64 word) \<times> counters \<times> blueprint_db" where
  "draw_counter b key dry_run st =
     (case st of (counters, db) \<Rightarrow>
        if dry_run then
          (case (case hm_get key counters of
                   Some v \<Rightarrow> Inr v
                 | None \<Rightarrow>
                     rbind (get_counter (bp_id b) key db)
                       (\<lambda>stored. Inr (if stored = 0 then cc_start (bp_counter b) else stored))) of
             Inl e \<Rightarrow> (Inl e, counters, db)
           | Inr next \<Rightarrow> (Inr next, hm_insert key (saturating_succ next) counters, db))
        else
          (case next_counter (bp_id b) key (cc_start (bp_counter b)) db of (r, db') \<Rightarrow> (r, counters, db')))"

definition destination ::
    "plan_env \<Rightarrow> blueprint \<Rightarrow> string \<Rightarrow> nat \<Rightarrow> 64 word \<Rightarrow> domain_error + string" where
  "destination pe b source index counter =
     (let ctx = (token_context_from_path_with_root (pe_now_format pe [] index) (pe_guid pe [] index) source
                   (bp_root_path b) (of_nat index + 1) counter)
                \<lparr>tc_counter_formatted := format_value (bp_counter b) counter\<rparr>
      in rbind (map_err (\<lambda>e. Validation (token_error_text e))
             (rbind (evaluate (pe_re pe) (rc_path_template (bp_routing b)) ctx)
                (apply_rename (pe_re pe) (bp_rename_template b) ctx))) (\<lambda>evaluated.
           let relative = replace_char bslash (CHR ''/'') evaluated in
           rbind (map_err Validation (validate_relative_path relative)) (\<lambda>_. Inr relative)))"

definition resolve_destination ::
    "plan_env \<Rightarrow> blueprint \<Rightarrow> string \<Rightarrow> nat \<Rightarrow> bool \<Rightarrow> counters \<times> blueprint_db \<Rightarrow>
     (domain_error + string) \<times> counters \<times> blueprint_db" where
  "resolve_destination pe b source index dry_run st =
     (case draw_counter b (counter_key pe b source index) dry_run st of
        (Inl e, st') \<Rightarrow> (Inl e, st')
      | (Inr counter, st') \<Rightarrow> (destination pe b source index counter, st'))"

text \<open>The candidates from \<open>index\<close> on. A source that leaves the root by a symbolic link is passed over.\<close>

fun plan_candidates ::
    "plan_env \<Rightarrow> blueprint \<Rightarrow> bool \<Rightarrow> nat \<Rightarrow> string list \<Rightarrow> counters \<times> blueprint_db \<Rightarrow>
     (domain_error + plan_item list) \<times> blueprint_db" where
  "plan_candidates pe b dry_run index [] st = (Inr [], snd st)"
| "plan_candidates pe b dry_run index (source # sources) st =
     (let canon = pe_canon pe; canonical_root = normalize_path canon (bp_root_path b) in
      if \<not> is_path_under_root canon (normalize_path canon source) canonical_root
      then plan_candidates pe b dry_run (Suc index) sources st
      else
        (case resolve_destination pe b source index dry_run st of
           (Inl e, st') \<Rightarrow> (Inl e, snd st')
         | (Inr relative, st') \<Rightarrow>
             (let target = path_join (bp_root_path b) relative in
              if \<not> is_path_under_root canon target canonical_root
              then (Inl (Validation (''resolved target escapes root: '' @ target)), snd st')
              else if path_eq source target then plan_candidates pe b dry_run (Suc index) sources st'
              else
                (case plan_candidates pe b dry_run (Suc index) sources st' of
                   (r, db) \<Rightarrow> (map_sum id ((#) \<lparr>pi_source = source, pi_target = target\<rparr>) r, db)))))"

definition build_plan ::
    "plan_env \<Rightarrow> blueprint \<Rightarrow> bool \<Rightarrow> fs \<Rightarrow> blueprint_db \<Rightarrow> (domain_error + plan_item list) \<times> blueprint_db" where
  "build_plan pe b dry_run fs db =
     (if bp_kind b \<noteq> FileKind then (Inl (Validation ''build_plan only supports file blueprints''), db)
      else
        (case collect_files_for_blueprint pe b fs of
           Inl e \<Rightarrow> (Inl e, db)
         | Inr candidates \<Rightarrow> plan_candidates pe b dry_run 0 candidates ([], db)))"

section \<open>Simulation\<close>

record plan_sample =
  ps_source :: string
  ps_target :: string
  ps_action :: string

record blueprint_report =
  rep_matched :: "32 word"
  rep_skipped :: "32 word"
  rep_plan_sample :: "plan_sample list"
  rep_warnings :: "string list"
  rep_collisions :: "(string \<times> string) list"

definition would_skip_conflict :: "string \<Rightarrow> conflict_strategy \<Rightarrow> fs \<Rightarrow> bool" where
  "would_skip_conflict target strategy fs \<longleftrightarrow> exists_at (parse_path target) fs \<and> strategy = Skip"

definition folder_action_label :: "folder_action \<Rightarrow> string" where
  "folder_action_label a =
     (case a of FolderCreate \<Rightarrow> ''create'' | FolderRename \<Rightarrow> ''rename'' | FolderMove \<Rightarrow> ''move''
      | FolderCopy \<Rightarrow> ''copy'' | FolderDelete \<Rightarrow> ''delete'')"

definition operation_label :: "blueprint_operation \<Rightarrow> string" where
  "operation_label op = (case op of OpMove \<Rightarrow> ''move'' | OpCopy \<Rightarrow> ''copy'')"

definition sample_folder_item :: "folder_action_item \<Rightarrow> plan_sample" where
  "sample_folder_item item =
     \<lparr>ps_source = or_empty (fi_source item), ps_target = or_empty (fi_target item),
      ps_action = folder_action_label (fi_action item)\<rparr>"

text \<open>What one item adds to the report: skipped, collisions, warnings.\<close>

definition simulate_folder_item ::
    "fs_env \<Rightarrow> conflict_strategy \<Rightarrow> fs \<Rightarrow> folder_action_item \<Rightarrow> blueprint_report \<Rightarrow> blueprint_report" where
  "simulate_folder_item env strategy fs item rep =
     (let rep1 =
        (case fi_target item of
           Some target \<Rightarrow>
             if fi_action item \<noteq> FolderDelete \<and> exists_at (parse_path target) fs
             then
               (if fi_action item = FolderCreate \<and> strategy = Overwrite then rep
                else if would_skip_conflict target strategy fs then rep\<lparr>rep_skipped := rep_skipped rep + 1\<rparr>
                else rep\<lparr>rep_collisions := rep_collisions rep @ [(or_empty (fi_source item), target)]\<rparr>)
             else rep
         | None \<Rightarrow> rep);
          rep2 =
        (case fi_source item of
           Some source \<Rightarrow>
             if fi_action item = FolderDelete \<and> exists_at (parse_path source) fs \<and> directory_has_entries env source fs
             then rep1\<lparr>rep_warnings := rep_warnings rep1 @ [''delete action targets a non-empty folder: '' @ source]\<rparr>
             else rep1
         | None \<Rightarrow> rep1)
      in if length (rep_plan_sample rep2) < 25
         then rep2\<lparr>rep_plan_sample := rep_plan_sample rep2 @ [sample_folder_item item]\<rparr> else rep2)"

definition folder_action_simulation_report ::
    "fs_env \<Rightarrow> folder_action_plan \<Rightarrow> conflict_strategy \<Rightarrow> fs \<Rightarrow> blueprint_report" where
  "folder_action_simulation_report env p strategy fs =
     fold (simulate_folder_item env strategy fs) (fp_items p)
       \<lparr>rep_matched = of_nat (length (fp_items p)), rep_skipped = 0, rep_plan_sample = [],
        rep_warnings = fp_warnings p, rep_collisions = []\<rparr>"

definition clashes :: "plan_item \<Rightarrow> fs \<Rightarrow> bool" where
  "clashes item fs \<longleftrightarrow>
     exists_at (parse_path (pi_target item)) fs \<and> \<not> path_eq (pi_target item) (pi_source item)"

definition file_simulation_report :: "blueprint \<Rightarrow> plan_item list \<Rightarrow> fs \<Rightarrow> blueprint_report" where
  "file_simulation_report b plan fs =
     \<lparr>rep_matched = of_nat (length plan),
      rep_skipped = of_nat (length (filter (\<lambda>i. clashes i fs \<and> would_skip_conflict (pi_target i) (bp_conflict b) fs) plan)),
      rep_plan_sample = map (\<lambda>i. \<lparr>ps_source = pi_source i, ps_target = pi_target i,
          ps_action = operation_label (bp_operation b)\<rparr>) (take 25 plan),
      rep_warnings = [],
      rep_collisions = map (\<lambda>i. (pi_source i, pi_target i))
        (filter (\<lambda>i. clashes i fs \<and> \<not> would_skip_conflict (pi_target i) (bp_conflict b) fs) plan)\<rparr>"

definition simulate_blueprint_data ::
    "plan_env \<Rightarrow> fs_env \<Rightarrow> blueprint_db option \<Rightarrow> blueprint \<Rightarrow> variables \<Rightarrow> fs \<Rightarrow> domain_error + blueprint_report" where
  "simulate_blueprint_data pe env store b variables fs =
     (if \<not> exists_at (parse_path (bp_root_path b)) fs then Inl (SourceNotFound (bp_root_path b))
      else if bp_kind b = FolderKind
      then rbind (build_folder_action_plan pe env b variables True fs)
             (\<lambda>p. Inr (folder_action_simulation_report env p (bp_conflict b) fs))
      else
        (case store of
           None \<Rightarrow> Inl (Validation ''file blueprint simulation requires a store'')
         | Some db \<Rightarrow>
             rbind (fst (build_plan pe b True fs db)) (\<lambda>plan. Inr (file_simulation_report b plan fs))))"

definition simulate_blueprint_with_variables ::
    "plan_env \<Rightarrow> fs_env \<Rightarrow> uuid \<Rightarrow> variables \<Rightarrow> blueprint_db \<Rightarrow> fs \<Rightarrow> domain_error + blueprint_report" where
  "simulate_blueprint_with_variables pe env bid variables db fs =
     rbind (bp_store_get bid db) (\<lambda>b.
       simulate_blueprint_data pe env (Some db) (blueprint_normalize b) variables fs)"

definition simulate_blueprint ::
    "plan_env \<Rightarrow> fs_env \<Rightarrow> uuid \<Rightarrow> blueprint_db \<Rightarrow> fs \<Rightarrow> domain_error + blueprint_report" where
  "simulate_blueprint pe env bid db fs = simulate_blueprint_with_variables pe env bid [] db fs"

definition simulate_blueprint_draft ::
    "plan_env \<Rightarrow> fs_env \<Rightarrow> blueprint \<Rightarrow> variables \<Rightarrow> fs \<Rightarrow> domain_error + blueprint_report" where
  "simulate_blueprint_draft pe env b variables fs =
     simulate_blueprint_data pe env None (blueprint_normalize b) variables fs"

section \<open>Lemmas: the two runs of the file planner\<close>

text \<open>
  A dry run keeps its counters in a map and never writes them; a real one takes each from the store.
  \<open>same_counters\<close> relates the states: what the map says, or the store where the map is silent, is what
  the other store holds.
\<close>

definition cell_next :: "64 word \<Rightarrow> counter_cell option \<Rightarrow> 64 word" where
  "cell_next first cell = (case cell of Some (Whole v) \<Rightarrow> if v = 0 then first else v | _ \<Rightarrow> first)"

definition counter_room :: "nat \<Rightarrow> counter_cell option \<Rightarrow> bool" where
  "counter_room room cell \<longleftrightarrow>
     (case cell of None \<Rightarrow> True | Some Real \<Rightarrow> False | Some (Whole v) \<Rightarrow> unat v + room < 2 ^ 63)"

definition agrees :: "64 word option \<Rightarrow> counter_cell option \<Rightarrow> counter_cell option \<Rightarrow> bool" where
  "agrees mem cell' cell \<longleftrightarrow>
     (case mem of Some v \<Rightarrow> v \<noteq> 0 \<and> cell' = Some (Whole v) | None \<Rightarrow> cell' = cell)"

definition same_counters :: "blueprint \<Rightarrow> nat \<Rightarrow> counters \<times> blueprint_db \<Rightarrow> blueprint_db \<Rightarrow> bool" where
  "same_counters b room st db' \<longleftrightarrow>
     (\<forall>key. counter_room room (hm_get (bp_id b, key) (bd_counters db')) \<and>
       agrees (hm_get key (fst st)) (hm_get (bp_id b, key) (bd_counters db')) (hm_get (bp_id b, key) (bd_counters (snd st))))"

lemma counter_room_simps [simp]:
  "counter_room room None" "\<not> counter_room room (Some Real)"
  "counter_room room (Some (Whole v)) \<longleftrightarrow> unat v + room < 2 ^ 63"
  by (simp_all add: counter_room_def)

lemma counter_roomE:
  assumes "counter_room room cell"
  obtains "cell = None" | v where "cell = Some (Whole v)" "unat v + room < 2 ^ 63"
  using assms by (auto simp: counter_room_def split: option.splits counter_cell.splits)

lemma counter_room_weaken: "counter_room (Suc room) cell \<Longrightarrow> counter_room room cell"
  by (auto simp: counter_room_def split: option.splits counter_cell.splits)

lemma agrees_simps [simp]:
  "agrees None cell' cell \<longleftrightarrow> cell' = cell" "agrees (Some v) cell' cell \<longleftrightarrow> v \<noteq> 0 \<and> cell' = Some (Whole v)"
  by (simp_all add: agrees_def)

lemma cell_next_small:
  "counter_room room cell \<Longrightarrow> unat first + room < 2 ^ 63 \<Longrightarrow> unat (cell_next first cell) + room < 2 ^ 63"
  by (auto simp: cell_next_def split: option.splits counter_cell.splits)

lemma draw_dry:
  assumes "same_counters b room st db'"
  shows "draw_counter b key True st =
    (let v = cell_next (cc_start (bp_counter b)) (hm_get (bp_id b, key) (bd_counters db'))
     in (Inr v, hm_insert key (saturating_succ v) (fst st), snd st))"
proof -
  obtain counters db where st: "st = (counters, db)" by (cases st)
  let ?cell' = "hm_get (bp_id b, key) (bd_counters db')"
  have now: "counter_room room ?cell'" "agrees (hm_get key counters) ?cell' (hm_get (bp_id b, key) (bd_counters db))"
    using assms by (simp_all add: same_counters_def st)
  show ?thesis
  proof (cases "hm_get key counters")
    case None
    have cell: "hm_get (bp_id b, key) (bd_counters db) = ?cell'" using now(2) None by simp
    from now(1) show ?thesis
      by (rule counter_roomE) (use None cell in \<open>simp_all add: draw_counter_def st cell_next_def get_counter_def Let_def\<close>)
  next
    case (Some v)
    with now show ?thesis by (simp add: draw_counter_def st cell_next_def Let_def)
  qed
qed

lemma draw_real:
  assumes "same_counters b (Suc room) st db'" "cc_start (bp_counter b) \<noteq> 0" "unat (cc_start (bp_counter b)) + Suc room < 2 ^ 63"
  shows "draw_counter b key False (counters, db') =
    (let v = cell_next (cc_start (bp_counter b)) (hm_get (bp_id b, key) (bd_counters db'))
     in (Inr v, counters, db'\<lparr>bd_counters := hm_insert (bp_id b, key) (Whole (saturating_succ v)) (bd_counters db')\<rparr>))"
proof -
  let ?cell = "hm_get (bp_id b, key) (bd_counters db')"
  let ?v = "cell_next (cc_start (bp_counter b)) ?cell"
  have cell: "counter_room (Suc room) ?cell" using assms(1) by (simp add: same_counters_def)
  from cell_next_small [OF this assms(3)] have small: "unat ?v + 1 < 2 ^ 63" by simp
  have up: "unat ?v = upcoming (unat (cc_start (bp_counter b))) (issued db' (bp_id b, key))"
    by (rule counter_roomE [OF cell]) (auto simp: issued_def upcoming_def cell_number_def cell_next_def sint_pos_iff)
  have succ: "saturating_succ ?v = ?v + 1" using small by (intro succ_small) simp
  have start: "cc_start (bp_counter b) < i64_max" using assms(3) by (simp add: below_i64_max)
  have not_real: "?cell \<noteq> Some Real" using cell by auto
  have "next_counter (bp_id b) key (cc_start (bp_counter b)) db' =
      (Inr (of_nat (unat ?v)),
       db'\<lparr>bd_counters := hm_insert (bp_id b, key) (Whole (of_nat (unat ?v + 1))) (bd_counters db')\<rparr>)"
    by (rule next_counter_step [OF assms(2) start not_real up]) (use small in simp)
  then show ?thesis by (simp add: draw_counter_def Let_def succ add.commute)
qed

lemma same_counters_step:
  assumes same: "same_counters b (Suc room) (counters, db) db'"
    and start: "unat (cc_start (bp_counter b)) + Suc room < 2 ^ 63"
    and v: "v = cell_next (cc_start (bp_counter b)) (hm_get (bp_id b, key) (bd_counters db'))"
  shows "same_counters b room (hm_insert key (saturating_succ v) counters, db)
    (db'\<lparr>bd_counters := hm_insert (bp_id b, key) (Whole (saturating_succ v)) (bd_counters db')\<rparr>)"
proof -
  have "counter_room (Suc room) (hm_get (bp_id b, key) (bd_counters db'))"
    using same by (simp add: same_counters_def)
  from cell_next_small [OF this start] have small: "unat v + Suc room < 2 ^ 63" by (simp add: v)
  then have "unat v < 2 ^ 63" by simp
  then have "saturating_succ v = v + 1" "unat (v + 1) = unat v + 1"
    by (rule succ_small, rule unat_succ)
  with small have "saturating_succ v \<noteq> 0" "unat (saturating_succ v) + room < 2 ^ 63"
    by (auto simp flip: unat_gt_0)
  moreover have "counter_room room (hm_get (bp_id b, k) (bd_counters db'))"
    "agrees (hm_get k counters) (hm_get (bp_id b, k) (bd_counters db')) (hm_get (bp_id b, k) (bd_counters db))" for k
    using same by (auto simp: same_counters_def intro: counter_room_weaken)
  ultimately show ?thesis
    unfolding same_counters_def fst_conv snd_conv by (simp add: hm_simps)
qed

lemma same_counters_weaken: "same_counters b (Suc room) st db' \<Longrightarrow> same_counters b room st db'"
  by (auto simp: same_counters_def intro: counter_room_weaken)

lemma plan_candidates_same:
  assumes "same_counters b (length sources) (counters, db) db'"
    and "cc_start (bp_counter b) \<noteq> 0" "unat (cc_start (bp_counter b)) + length sources < 2 ^ 63"
  shows "fst (plan_candidates pe b True index sources (counters, db)) =
      fst (plan_candidates pe b False index sources (none, db')) \<and>
    snd (plan_candidates pe b True index sources (counters, db)) = db"
  using assms
proof (induction sources arbitrary: index counters db')
  case (Cons source sources)
  let ?canon = "pe_canon pe" and ?start = "cc_start (bp_counter b)"
  let ?root = "normalize_path ?canon (bp_root_path b)"
  have same: "same_counters b (Suc (length sources)) (counters, db) db'" using Cons.prems(1) by simp
  show ?case
  proof (cases "is_path_under_root ?canon (normalize_path ?canon source) ?root")
    case False
    with Cons.IH [OF same_counters_weaken [OF same]] Cons.prems show ?thesis by simp
  next
    case True
    define key where "key = counter_key pe b source index"
    define v where "v = cell_next ?start (hm_get (bp_id b, key) (bd_counters db'))"
    define c1 where "c1 = hm_insert key (saturating_succ v) counters"
    define db1 where "db1 = db'\<lparr>bd_counters := hm_insert (bp_id b, key) (Whole (saturating_succ v)) (bd_counters db')\<rparr>"
    have dry: "resolve_destination pe b source index True (counters, db) = (destination pe b source index v, c1, db)"
      using draw_dry [OF same, of key] by (simp add: resolve_destination_def key_def v_def c1_def Let_def)
    have "unat ?start + Suc (length sources) < 2 ^ 63" using Cons.prems(3) by simp
    from draw_real [OF same Cons.prems(2) this, of key none]
    have real: "resolve_destination pe b source index False (none, db') = (destination pe b source index v, none, db1)"
      by (simp add: resolve_destination_def key_def v_def db1_def Let_def)
    have next': "same_counters b (length sources) (c1, db) db1"
      unfolding c1_def db1_def by (rule same_counters_step [OF same _ v_def]) (use Cons.prems(3) in simp)
    have IH: "fst (plan_candidates pe b True (Suc index) sources (c1, db)) =
        fst (plan_candidates pe b False (Suc index) sources (none, db1)) \<and>
      snd (plan_candidates pe b True (Suc index) sources (c1, db)) = db"
      using Cons.IH [OF next' Cons.prems(2)] Cons.prems(3) by simp
    obtain r db_a where a: "plan_candidates pe b True (Suc index) sources (c1, db) = (r, db_a)" by (rule prod.exhaust)
    obtain r' db_b where b': "plan_candidates pe b False (Suc index) sources (none, db1) = (r', db_b)" by (rule prod.exhaust)
    show ?thesis
      using True IH by (simp add: dry real a b' Let_def split: sum.split)
  qed
qed simp

section \<open>Properties\<close>

text \<open>
  Each plan reads the clock and draws its identifiers anew, so the dry and the real plan have different
  environments. What a template without the tokens for them gives does not depend on that.
\<close>

definition clock_tokens :: "string list" where
  "clock_tokens = [''date'', ''year'', ''month'', ''day'', ''hour'', ''minute'', ''second'', ''guid'']"

fun timeless_segment :: "template_segment \<Rightarrow> bool" where
  "timeless_segment (Token name) = (lowercase name \<notin> set clock_tokens)"
| "timeless_segment _ = True"

definition timeless :: "template_pipeline \<Rightarrow> bool" where
  "timeless p = list_all timeless_segment (segments p)"

text \<open>The environment of another plan over the same tree, with the same scopes of the counters (on the same day).\<close>

definition read_again :: "timestamp \<Rightarrow> (string \<Rightarrow> nat \<Rightarrow> string \<Rightarrow> string) \<Rightarrow> (string \<Rightarrow> nat \<Rightarrow> string) \<Rightarrow> plan_env \<Rightarrow> plan_env" where
  "read_again now formats guids pe = pe\<lparr>pe_now := now, pe_now_format := formats, pe_guid := guids\<rparr>"

lemma read_again_simps [simp]:
  "pe_re (read_again now formats guids pe) = pe_re pe" "pe_canon (read_again now formats guids pe) = pe_canon pe"
  "counter_key (read_again now formats guids pe) = counter_key pe"
  by (simp_all add: read_again_def counter_key_def fun_eq_iff)

lemma timeless_token:
  "lowercase name \<notin> set clock_tokens \<Longrightarrow>
     resolve_token name (ctx\<lparr>tc_now_format := f, tc_guid := g\<rparr>) = resolve_token name ctx"
  by (simp add: resolve_token_def clock_tokens_def Let_def split: option.split)

lemma timeless_segments:
  "list_all timeless_segment segs \<Longrightarrow>
     evaluate_from re (ctx\<lparr>tc_now_format := f, tc_guid := g\<rparr>) segs value = evaluate_from re ctx segs value"
proof (induction segs arbitrary: "value")
  case (Cons seg segs)
  then have "eval_segment re (ctx\<lparr>tc_now_format := f, tc_guid := g\<rparr>) seg value = eval_segment re ctx seg value"
    by (cases seg) (simp_all add: timeless_token)
  with Cons show ?case by (cases "eval_segment re ctx seg value") simp_all
qed simp

lemma timeless_evaluate:
  "timeless p \<Longrightarrow> evaluate re p (ctx\<lparr>tc_now_format := f, tc_guid := g\<rparr>) = evaluate re p ctx"
  by (simp add: evaluate_def timeless_def timeless_segments)

lemma context_read_again:
  "token_context_from_path_with_root f' g' path root index counter =
     (token_context_from_path_with_root f g path root index counter)\<lparr>tc_now_format := f', tc_guid := g'\<rparr>"
  by (simp add: token_context_from_path_with_root_def token_context_from_path_def Let_def split: option.split)

text \<open>The templates of a blueprint, the one of the names included, say nothing about the clock.\<close>

definition timeless_blueprint :: "blueprint \<Rightarrow> bool" where
  "timeless_blueprint b \<longleftrightarrow> timeless (rc_path_template (bp_routing b)) \<and>
     (case bp_rename_template b of None \<Rightarrow> True | Some p \<Rightarrow> timeless p)"

lemma destination_read_again:
  assumes "timeless_blueprint b"
  shows "destination (read_again now formats guids pe) b source index counter = destination pe b source index counter"
proof -
  let ?ctx = "\<lambda>pe. (token_context_from_path_with_root (pe_now_format pe [] index) (pe_guid pe [] index) source
      (bp_root_path b) (of_nat index + 1) counter)\<lparr>tc_counter_formatted := format_value (bp_counter b) counter\<rparr>"
  let ?pe' = "read_again now formats guids pe"
  have ctx: "?ctx ?pe' = (?ctx pe)\<lparr>tc_now_format := pe_now_format ?pe' [] index, tc_guid := pe_guid ?pe' [] index\<rparr>"
    by (subst context_read_again [of _ _ _ _ _ _ "pe_now_format pe [] index" "pe_guid pe [] index"]) simp
  have same: "evaluate (pe_re pe) p (?ctx ?pe') = evaluate (pe_re pe) p (?ctx pe)" if "timeless p" for p
    unfolding ctx by (rule timeless_evaluate [OF that])
  have path: "evaluate (pe_re pe) (rc_path_template (bp_routing b)) (?ctx ?pe') =
      evaluate (pe_re pe) (rc_path_template (bp_routing b)) (?ctx pe)"
    by (rule same) (use assms in \<open>simp add: timeless_blueprint_def\<close>)
  have rename: "apply_rename (pe_re pe) (bp_rename_template b) (?ctx ?pe') = apply_rename (pe_re pe) (bp_rename_template b) (?ctx pe)"
  proof (cases "bp_rename_template b")
    case (Some p)
    then have "timeless p" using assms by (simp add: timeless_blueprint_def)
    from same [OF this] show ?thesis unfolding apply_rename_def Some option.case fun_eq_iff by (simp only: simp_thms)
  qed (simp add: apply_rename_def fun_eq_iff)
  show ?thesis by (simp only: destination_def Let_def read_again_simps path rename)
qed

lemma plan_candidates_read_again:
  assumes "timeless_blueprint b"
  shows "plan_candidates (read_again now formats guids pe) b dry index sources st = plan_candidates pe b dry index sources st"
proof (induction sources arbitrary: index st)
  case (Cons source sources)
  have "resolve_destination (read_again now formats guids pe) b source index dry st = resolve_destination pe b source index dry st"
    by (simp add: resolve_destination_def destination_read_again [OF assms] split: prod.split sum.split)
  then show ?case by (auto simp: Cons.IH Let_def split: prod.split sum.split)
qed simp


text \<open>With such a token the two plans differ.\<close>

lemma identifiers_are_not_simulated:
  assumes "p = \<lparr>segments = [Token ''guid'']\<rparr>"
  shows "evaluate re p (ctx\<lparr>tc_guid := g\<rparr>) = Inr g"
proof -
  have "lowercase ''guid'' = ''guid''" by code_simp
  then show ?thesis by (simp add: assms evaluate_def resolve_token_def)
qed

text \<open>The two files of \<open>demo_fs\<close>, numbered from 8 on: the store already gave out 7.\<close>

definition no_text_regex :: regex_engine where
  "no_text_regex = \<lparr>re_replace_all = (\<lambda>_ s _. s), re_find = (\<lambda>_ _. None)\<rparr>"

definition demo_env :: plan_env where
  "demo_env = \<lparr>pe_re = no_text_regex, pe_rx = no_regex, pe_canon = Some,
     pe_globs = \<lparr>gl_new = (\<lambda>_. Inr ()), gl_build = (\<lambda>_. Inr ()), gl_is_match = (\<lambda>_ _. False)\<rparr>,
     pe_probe = (\<lambda>_. demo_fs), pe_now = 0, pe_date_key = (\<lambda>_. ''2026-01-01''),
     pe_now_format = (\<lambda>_ _ _. ''2026''), pe_guid = (\<lambda>_ _. ''g'')\<rparr>"

definition numbered_blueprint :: blueprint where
  "numbered_blueprint = demo_blueprint\<lparr>bp_routing := routing_default\<lparr>rc_path_template :=
     \<lparr>segments = [Token ''counter'', Literal ''-'', Token ''original'']\<rparr>\<rparr>\<rparr>"

definition numbered_db :: blueprint_db where
  "numbered_db = \<lparr>bd_rows = [], bd_counters = [((7, ''global''), Whole 8)]\<rparr>"


end
