(* ===== verification/Blueprint_Run.thy ===== *)
theory Blueprint_Run
  imports Blueprint_Plan Rollback
begin

text \<open>
  Carrying a blueprint out, \<open>crates/autoflow-application/src/blueprints.rs\<close>: conflicts, the recursive copy, one
  planned file, one folder action, and the runs over a whole plan with their audit entries and rollback
  manifest. The tree has no symbolic links, so the refusal to copy one is not modelled. A run works on
  the files, the audit log and the manifests of \<open>world\<close> and on the blueprint store.
\<close>

section \<open>Conflicts and copies\<close>

definition resolve_conflict :: "fpath \<Rightarrow> conflict_strategy \<Rightarrow> fs \<Rightarrow> string + fpath option" where
  "resolve_conflict target strategy fs =
     (if \<not> exists_at target fs then Inr (Some target)
      else
        (case strategy of
           Skip \<Rightarrow> Inr None
         | Overwrite \<Rightarrow> Inr (Some target)
         | Rename \<Rightarrow>
             (let name = (if target = [] then ''item'' else last target);
                  stem = (case file_stem name of Some s \<Rightarrow> s | None \<Rightarrow> ''item'');
                  ext = (case extension name of Some e \<Rightarrow> CHR ''.'' # e | None \<Rightarrow> [])
              in case first_free (butlast target) stem ext fs [1..<1000] of
                   Some free \<Rightarrow> Inr (Some free)
                 | None \<Rightarrow> Inl ''could not resolve unique target name'')))"

text \<open>The names in a directory, in the order \<open>fs_walk\<close> meets them; taken when the directory is opened.\<close>

definition read_dir :: "fs_env \<Rightarrow> fpath \<Rightarrow> fs \<Rightarrow> string + string list" where
  "read_dir env p fs =
     (if dir_at p fs
      then Inr (map last (filter (\<lambda>q. q \<noteq> [] \<and> butlast q = p) (fs_walk env False p fs)))
      else Inl ''not a directory'')"

text \<open>
  \<open>copy_dir_recursive\<close>. The operating system refuses a path that is too long (\<open>ENAMETOOLONG\<close>); \<open>limit\<close> is
  the number of names it allows, and what ends the recursion when a directory is copied below itself.
\<close>

function copy_dir_recursive ::
    "fs_env \<Rightarrow> timestamp \<Rightarrow> nat \<Rightarrow> fpath \<Rightarrow> fpath \<Rightarrow> fs \<Rightarrow> (string + unit) \<times> fs"
  and copy_entries ::
    "fs_env \<Rightarrow> timestamp \<Rightarrow> nat \<Rightarrow> fpath \<Rightarrow> fpath \<Rightarrow> string list \<Rightarrow> fs \<Rightarrow> (string + unit) \<times> fs" where
  "copy_dir_recursive env now limit src dst fs =
     (if length dst > limit then (Inl ''file name too long'', fs)
      else
        (case create_dir_all dst fs of
           Inl e \<Rightarrow> (Inl e, fs)
         | Inr fs1 \<Rightarrow>
             (case read_dir env src fs1 of
                Inl e \<Rightarrow> (Inl e, fs1)
              | Inr names \<Rightarrow> copy_entries env now limit src dst names fs1)))"
| "copy_entries env now limit src dst [] fs = (Inr (), fs)"
| "copy_entries env now limit src dst (n # ns) fs =
     (case fs (src @ [n]) of
        None \<Rightarrow> (Inl ''no such file'', fs)
      | Some Dir \<Rightarrow>
          (case copy_dir_recursive env now limit (src @ [n]) (dst @ [n]) fs of
             (Inl e, fs1) \<Rightarrow> (Inl e, fs1)
           | (Inr _, fs1) \<Rightarrow> copy_entries env now limit src dst ns fs1)
      | Some (File _ _) \<Rightarrow>
          (case copy_file env now (src @ [n]) (dst @ [n]) fs of
             Inl e \<Rightarrow> (Inl e, fs)
           | Inr fs1 \<Rightarrow> copy_entries env now limit src dst ns fs1))"
  by pat_completeness auto

termination
  by (relation "measures
      [case_sum (\<lambda>(_, _, limit, _, dst, _). Suc limit - length dst) (\<lambda>(_, _, limit, _, dst, _, _). limit - length dst),
       case_sum (\<lambda>_. 0) (\<lambda>_. 1), case_sum (\<lambda>_. 0) (\<lambda>(_, _, _, _, _, ns, _). length ns)]") auto

declare copy_dir_recursive.simps [simp del]

section \<open>One planned file\<close>

text \<open>A step on the tree that failed leaves what it did before.\<close>

definition run_step :: "string + fs \<Rightarrow> fs \<Rightarrow> (string + unit) \<times> fs" where
  "run_step r fs = (case r of Inl e \<Rightarrow> (Inl e, fs) | Inr fs' \<Rightarrow> (Inr (), fs'))"

definition and_then :: "(string + unit) \<times> fs \<Rightarrow> (fs \<Rightarrow> (string + 'a) \<times> fs) \<Rightarrow> (string + 'a) \<times> fs" where
  "and_then r k = (case r of (Inl e, fs) \<Rightarrow> (Inl e, fs) | (Inr _, fs) \<Rightarrow> k fs)"

definition make_parent :: "bool \<Rightarrow> fpath \<Rightarrow> fs \<Rightarrow> (string + unit) \<times> fs" where
  "make_parent create_intermediate target fs =
     (if target = [] then (Inr (), fs)
      else if create_intermediate then run_step (create_dir_all (butlast target) fs) fs
      else if \<not> exists_at (butlast target) fs
      then (Inl (''target parent does not exist and intermediate directories are disabled: '' @
              abs_path (butlast target)), fs)
      else (Inr (), fs))"

definition copy_any :: "fs_env \<Rightarrow> timestamp \<Rightarrow> nat \<Rightarrow> fpath \<Rightarrow> fpath \<Rightarrow> fs \<Rightarrow> (string + unit) \<times> fs" where
  "copy_any env now limit src dst fs =
     (if dir_at src fs then copy_dir_recursive env now limit src dst fs
      else run_step (copy_file env now src dst fs) fs)"

definition move_any :: "fs_env \<Rightarrow> timestamp \<Rightarrow> nat \<Rightarrow> fpath \<Rightarrow> fpath \<Rightarrow> fs \<Rightarrow> (string + unit) \<times> fs" where
  "move_any env now limit src dst fs =
     (case rename_path env src dst fs of
        Inr fs' \<Rightarrow> (Inr (), fs')
      | Inl _ \<Rightarrow>
          if dir_at src fs
          then and_then (copy_dir_recursive env now limit src dst fs)
                 (\<lambda>fs1. run_step (remove_dir_all src fs1) fs1)
          else and_then (run_step (copy_file env now src dst fs) fs)
                 (\<lambda>fs1. run_step (remove_file src fs1) fs1))"

definition execute_plan_item ::
    "fs_env \<Rightarrow> timestamp \<Rightarrow> nat \<Rightarrow> blueprint \<Rightarrow> plan_item \<Rightarrow> fs \<Rightarrow> (string + fpath option) \<times> fs" where
  "execute_plan_item env now limit b item fs =
     (let source = parse_path (pi_source item); target0 = parse_path (pi_target item);
          same_path = path_eq (pi_source item) (pi_target item)
      in case (if same_path then Inr (Some target0) else resolve_conflict target0 (bp_conflict b) fs) of
           Inl e \<Rightarrow> (Inl e, fs)
         | Inr None \<Rightarrow> (Inr None, fs)
         | Inr (Some target) \<Rightarrow>
             and_then (make_parent (rc_create_intermediate_dirs (bp_routing b)) target fs) (\<lambda>fs1.
             and_then
               (if same_path then (Inr (), fs1)
                else (case bp_operation b of
                        OpCopy \<Rightarrow> copy_any env now limit source target fs1
                      | OpMove \<Rightarrow> move_any env now limit source target fs1)) (\<lambda>fs2.
             (Inr (Some target), fs2))))"

section \<open>One folder action\<close>

definition with_target ::
    "conflict_strategy \<Rightarrow> fpath \<Rightarrow> (fpath \<Rightarrow> fs \<Rightarrow> (string + unit) \<times> fs) \<Rightarrow> fs \<Rightarrow> (string + fpath option) \<times> fs" where
  "with_target strategy target0 act fs =
     (case resolve_conflict target0 strategy fs of
        Inl e \<Rightarrow> (Inl e, fs)
      | Inr None \<Rightarrow> (Inr None, fs)
      | Inr (Some target) \<Rightarrow> and_then (act target fs) (\<lambda>fs'. (Inr (Some target), fs')))"

definition transfer_folder ::
    "conflict_strategy \<Rightarrow> folder_action_item \<Rightarrow> (fpath \<Rightarrow> fpath \<Rightarrow> fs \<Rightarrow> (string + unit) \<times> fs) \<Rightarrow> fs \<Rightarrow>
     (string + fpath option) \<times> fs" where
  "transfer_folder strategy item act fs =
     (case (fi_source item, fi_target item) of
        (None, _) \<Rightarrow> (Inl ''source is required'', fs)
      | (_, None) \<Rightarrow> (Inl ''target is required'', fs)
      | (Some source, Some target) \<Rightarrow>
          if \<not> exists_at (parse_path source) fs
          then (if dir_at (parse_path target) fs then (Inr (Some (parse_path target)), fs)
                else (Inl (''source not found: '' @ source), fs))
          else with_target strategy (parse_path target) (act (parse_path source)) fs)"

definition move_folder :: "fs_env \<Rightarrow> timestamp \<Rightarrow> nat \<Rightarrow> fpath \<Rightarrow> fpath \<Rightarrow> fs \<Rightarrow> (string + unit) \<times> fs" where
  "move_folder env now limit source target fs =
     and_then (make_parent True target fs) (\<lambda>fs1.
       (case rename_path env source target fs1 of
          Inr fs2 \<Rightarrow> (Inr (), fs2)
        | Inl _ \<Rightarrow>
            and_then (copy_dir_recursive env now limit source target fs1)
              (\<lambda>fs2. run_step (remove_dir_all source fs2) fs2)))"

definition execute_folder_action_item ::
    "fs_env \<Rightarrow> timestamp \<Rightarrow> nat \<Rightarrow> conflict_strategy \<Rightarrow> folder_action_item \<Rightarrow> fs \<Rightarrow>
     (string + fpath option) \<times> fs" where
  "execute_folder_action_item env now limit strategy item fs =
     (case fi_action item of
        FolderCreate \<Rightarrow>
          (case fi_target item of
             None \<Rightarrow> (Inl ''create target is required'', fs)
           | Some target \<Rightarrow>
               if dir_at (parse_path target) fs
               then (Inr (if strategy = Skip then None else Some (parse_path target)), fs)
               else with_target strategy (parse_path target)
                      (\<lambda>t fs1. run_step (create_dir_all t fs1) fs1) fs)
      | FolderRename \<Rightarrow> transfer_folder strategy item (move_folder env now limit) fs
      | FolderMove \<Rightarrow> transfer_folder strategy item (move_folder env now limit) fs
      | FolderCopy \<Rightarrow> transfer_folder strategy item (copy_dir_recursive env now limit) fs
      | FolderDelete \<Rightarrow>
          (case fi_source item of
             None \<Rightarrow> (Inl ''delete source is required'', fs)
           | Some source \<Rightarrow>
               and_then
                 (if directory_has_entries env source fs
                  then run_step (remove_dir_all (parse_path source) fs) fs
                  else run_step (remove_dir env (parse_path source) fs) fs)
                 (\<lambda>fs1. (Inr (Some (parse_path source)), fs1))))"

section \<open>Runs\<close>

record apply_result =
  ar_processed :: "32 word"
  ar_failed :: "32 word"
  ar_skipped :: "32 word"

record blueprint_deps =
  xd_run :: run_deps
  xd_plan :: plan_env
  xd_limit :: nat

record apply_state =
  as_world :: world
  as_result :: apply_result
  as_items :: "rollback_item list"

definition apply_start :: "world \<Rightarrow> apply_state" where
  "apply_start w = \<lparr>as_world = w, as_result = \<lparr>ar_processed = 0, ar_failed = 0, ar_skipped = 0\<rparr>, as_items = []\<rparr>"

definition set_fs :: "fs \<Rightarrow> apply_state \<Rightarrow> apply_state" where
  "set_fs fs st = st\<lparr>as_world := as_world st\<lparr>w_fs := fs\<rparr>\<rparr>"

definition log_entry :: "run_deps \<Rightarrow> new_audit_entry \<Rightarrow> apply_state \<Rightarrow> (domain_error + unit) \<times> apply_state" where
  "log_entry d entry st = (case audit_append d entry (as_world st) of (r, w) \<Rightarrow> (r, st\<lparr>as_world := w\<rparr>))"

definition blueprint_entry ::
    "run_deps \<Rightarrow> uuid \<Rightarrow> string \<Rightarrow> nat \<Rightarrow> string \<Rightarrow> string \<Rightarrow> audit_status \<Rightarrow> int \<Rightarrow> string option \<Rightarrow> new_audit_entry" where
  "blueprint_entry d bid name index source target status bytes details =
     \<lparr>ne_job_id = None, ne_blueprint_id = Some bid, ne_job_name = name, ne_source_path = source,
      ne_target_path = target, ne_status = status, ne_file_size = bytes, ne_duration_ms = rd_duration d index,
      ne_details = details\<rparr>"

definition count_processed :: "rollback_item list \<Rightarrow> apply_state \<Rightarrow> apply_state" where
  "count_processed items st =
     st\<lparr>as_result := as_result st\<lparr>ar_processed := ar_processed (as_result st) + 1\<rparr>, as_items := as_items st @ items\<rparr>"

definition count_skipped :: "apply_state \<Rightarrow> apply_state" where
  "count_skipped st = st\<lparr>as_result := as_result st\<lparr>ar_skipped := ar_skipped (as_result st) + 1\<rparr>\<rparr>"

definition count_failed :: "apply_state \<Rightarrow> apply_state" where
  "count_failed st = st\<lparr>as_result := as_result st\<lparr>ar_failed := ar_failed (as_result st) + 1\<rparr>\<rparr>"

definition mode_of :: "blueprint_operation \<Rightarrow> job_mode" where
  "mode_of op = (case op of OpMove \<Rightarrow> Move | OpCopy \<Rightarrow> Copy)"

definition file_size :: "fpath \<Rightarrow> fs \<Rightarrow> int" where
  "file_size p fs = (case metadata_len p fs of Inl _ \<Rightarrow> 0 | Inr n \<Rightarrow> int n)"

definition skipped_text :: string where
  "skipped_text = ''skipped due to conflict strategy''"

definition apply_file_item ::
    "blueprint_deps \<Rightarrow> blueprint \<Rightarrow> nat \<Rightarrow> plan_item \<Rightarrow> apply_state \<Rightarrow> (domain_error + unit) \<times> apply_state" where
  "apply_file_item x b index item st =
     (let d = xd_run x; env = rd_env d; source = parse_path (pi_source item); target0 = parse_path (pi_target item) in
      case execute_plan_item env (rd_now d) (xd_limit x) b item (w_fs (as_world st)) of
        (result, fs) \<Rightarrow>
          (case result of
             Inr (Some target) \<Rightarrow>
               log_entry d
                 (blueprint_entry d (bp_id b) (bp_name b) index (abs_path source) (abs_path target) Organized
                    (file_size source fs) None)
                 (count_processed
                    [\<lparr>ri_source_path = source, ri_target_path = target, ri_mode = mode_of (bp_operation b),
                      ri_status = (if bp_operation b = OpMove then Moved else Copied),
                      ri_target_hash = (case file_hash env target fs of Inl _ \<Rightarrow> None | Inr h \<Rightarrow> Some h),
                      ri_is_directory = dir_at source fs\<rparr>] (set_fs fs st))
           | Inr None \<Rightarrow>
               log_entry d
                 (blueprint_entry d (bp_id b) (bp_name b) index (abs_path source) (abs_path target0) Ignored
                    (file_size source fs) (Some skipped_text))
                 (count_skipped (set_fs fs st))
           | Inl details \<Rightarrow>
               log_entry d
                 (blueprint_entry d (bp_id b) (bp_name b) index (abs_path source) (abs_path target0) Failed 0
                    (Some details))
                 (count_failed (set_fs fs st))))"

definition folder_status :: "folder_action \<Rightarrow> audit_status" where
  "folder_status a =
     (case a of FolderMove \<Rightarrow> Moved | FolderRename \<Rightarrow> Moved | FolderCopy \<Rightarrow> Copied | FolderCreate \<Rightarrow> Copied
      | FolderDelete \<Rightarrow> Moved)"

definition folder_rollback_item :: "blueprint \<Rightarrow> folder_action_item \<Rightarrow> fpath \<Rightarrow> rollback_item" where
  "folder_rollback_item b item target =
     \<lparr>ri_source_path = parse_path (or_empty (fi_source item)), ri_target_path = target,
      ri_mode = mode_of (bp_operation b), ri_status = folder_status (fi_action item), ri_target_hash = None,
      ri_is_directory = True\<rparr>"

definition apply_folder_item ::
    "blueprint_deps \<Rightarrow> blueprint \<Rightarrow> nat \<Rightarrow> folder_action_item \<Rightarrow> apply_state \<Rightarrow> (domain_error + unit) \<times> apply_state" where
  "apply_folder_item x b index item st =
     (let d = xd_run x;
          source = (case fi_source item of Some s \<Rightarrow> s | None \<Rightarrow> bp_root_path b); target0 = or_empty (fi_target item)
      in case execute_folder_action_item (rd_env d) (rd_now d) (xd_limit x) (bp_conflict b) item (w_fs (as_world st)) of
        (result, fs) \<Rightarrow>
          (case result of
             Inr (Some target) \<Rightarrow>
               log_entry d
                 (blueprint_entry d (bp_id b) (bp_name b) index source (abs_path target) Organized 0
                    (Some (folder_action_label (fi_action item))))
                 (count_processed
                    (if fi_action item \<in> {FolderMove, FolderRename, FolderCopy}
                     then [folder_rollback_item b item target] else []) (set_fs fs st))
           | Inr None \<Rightarrow>
               log_entry d
                 (blueprint_entry d (bp_id b) (bp_name b) index source target0 Ignored 0 (Some skipped_text))
                 (count_skipped (set_fs fs st))
           | Inl details \<Rightarrow>
               log_entry d
                 (blueprint_entry d (bp_id b) (bp_name b) index source target0 Failed 0 (Some details))
                 (count_failed (set_fs fs st))))"

text \<open>Both loops: one item after the other, ended early only by the audit store.\<close>

fun apply_items ::
    "(nat \<Rightarrow> 'i \<Rightarrow> apply_state \<Rightarrow> (domain_error + unit) \<times> apply_state) \<Rightarrow> nat \<Rightarrow> 'i list \<Rightarrow> apply_state \<Rightarrow>
     (domain_error + unit) \<times> apply_state" where
  "apply_items act index [] st = (Inr (), st)"
| "apply_items act index (item # items) st =
     (case act index item st of
        (Inl e, st') \<Rightarrow> (Inl e, st')
      | (Inr _, st') \<Rightarrow> apply_items act (Suc index) items st')"

definition keep_blueprint_manifest :: "run_deps \<Rightarrow> uuid \<Rightarrow> uuid \<Rightarrow> rollback_item list \<Rightarrow> world \<Rightarrow> world" where
  "keep_blueprint_manifest d bid eid items w =
     (if rd_keep_manifest d \<and> items \<noteq> []
      then (case manifest_save d (manifest_new_for_blueprint (rd_manifest_id d) (rd_end d) bid eid items) (w_manifests w) of
              Inl _ \<Rightarrow> w | Inr rows \<Rightarrow> w\<lparr>w_manifests := rows\<rparr>)
      else w)"

definition finish_items ::
    "blueprint_deps \<Rightarrow> blueprint \<Rightarrow> uuid \<Rightarrow> (domain_error + unit) \<times> apply_state \<Rightarrow> (domain_error + apply_result) \<times> world" where
  "finish_items x b eid r =
     (case r of
        (Inl e, st) \<Rightarrow> (Inl e, as_world st)
      | (Inr _, st) \<Rightarrow>
          (Inr (as_result st), keep_blueprint_manifest (xd_run x) (bp_id b) eid (as_items st) (as_world st)))"

definition apply_folder_blueprint_with_rollback ::
    "blueprint_deps \<Rightarrow> blueprint \<Rightarrow> variables \<Rightarrow> uuid \<Rightarrow> world \<Rightarrow> (domain_error + apply_result) \<times> world" where
  "apply_folder_blueprint_with_rollback x b variables eid w =
     (case build_folder_action_plan (xd_plan x) (rd_env (xd_run x)) b variables False (w_fs w) of
        Inl e \<Rightarrow> (Inl e, w)
      | Inr plan \<Rightarrow> finish_items x b eid (apply_items (apply_folder_item x b) 0 (fp_items plan) (apply_start w)))"

definition apply_file_blueprint ::
    "blueprint_deps \<Rightarrow> blueprint \<Rightarrow> uuid \<Rightarrow> world \<Rightarrow> blueprint_db \<Rightarrow>
     (domain_error + apply_result) \<times> world \<times> blueprint_db" where
  "apply_file_blueprint x b eid w db =
     (case build_plan (xd_plan x) b False (w_fs w) db of
        (Inl e, db1) \<Rightarrow> (Inl e, w, db1)
      | (Inr plan, db1) \<Rightarrow>
          (case finish_items x b eid (apply_items (apply_file_item x b) 0 plan (apply_start w)) of
             (r, w') \<Rightarrow> (r, w', db1)))"

definition apply_blueprint_with_variables_with_rollback ::
    "blueprint_deps \<Rightarrow> uuid \<Rightarrow> variables \<Rightarrow> uuid \<Rightarrow> world \<Rightarrow> blueprint_db \<Rightarrow>
     (domain_error + apply_result) \<times> world \<times> blueprint_db" where
  "apply_blueprint_with_variables_with_rollback x bid variables eid w db =
     (case bp_store_get bid db of
        Inl e \<Rightarrow> (Inl e, w, db)
      | Inr stored \<Rightarrow>
          (let b = blueprint_normalize stored in
           if \<not> bp_enabled b then (Inl (Validation ''blueprint is disabled''), w, db)
           else if \<not> exists_at (parse_path (bp_root_path b)) (w_fs w)
           then (Inl (SourceNotFound (bp_root_path b)), w, db)
           else
             (case (if bp_kind b = FolderKind
                    then (case apply_folder_blueprint_with_rollback x b variables eid w of (r, w1) \<Rightarrow> (r, w1, db))
                    else apply_file_blueprint x b eid w db) of
                (Inl e, w1, db1) \<Rightarrow> (Inl e, w1, db1)
              | (Inr result, w1, db1) \<Rightarrow>
                  (case update_last_run (pe_rx (xd_plan x)) (rd_end (xd_run x)) (bp_id b) db1 of
                     Inl e \<Rightarrow> (Inl e, w1, db1)
                   | Inr db2 \<Rightarrow> (Inr result, w1, db2)))))"

definition apply_blueprint_with_rollback ::
    "blueprint_deps \<Rightarrow> uuid \<Rightarrow> uuid \<Rightarrow> world \<Rightarrow> blueprint_db \<Rightarrow>
     (domain_error + apply_result) \<times> world \<times> blueprint_db" where
  "apply_blueprint_with_rollback x bid eid w db =
     (case bp_store_get bid db of
        Inl e \<Rightarrow> (Inl e, w, db)
      | Inr b \<Rightarrow>
          apply_blueprint_with_variables_with_rollback x bid (folder_plan_default_variables (bp_folder_plan b)) eid w db)"

text \<open>Without a rollback store no manifest is kept.\<close>

definition without_rollback :: "blueprint_deps \<Rightarrow> blueprint_deps" where
  "without_rollback x = x\<lparr>xd_run := xd_run x\<lparr>rd_keep_manifest := False\<rparr>\<rparr>"

definition apply_blueprint ::
    "blueprint_deps \<Rightarrow> uuid \<Rightarrow> uuid \<Rightarrow> world \<Rightarrow> blueprint_db \<Rightarrow>
     (domain_error + apply_result) \<times> world \<times> blueprint_db" where
  "apply_blueprint x bid eid w db = apply_blueprint_with_rollback (without_rollback x) bid eid w db"

definition apply_blueprint_with_variables ::
    "blueprint_deps \<Rightarrow> uuid \<Rightarrow> variables \<Rightarrow> uuid \<Rightarrow> world \<Rightarrow> blueprint_db \<Rightarrow>
     (domain_error + apply_result) \<times> world \<times> blueprint_db" where
  "apply_blueprint_with_variables x bid variables eid w db =
     apply_blueprint_with_variables_with_rollback (without_rollback x) bid variables eid w db"

end
