(* ===== verification/Blueprint_Safety.thy ===== *)
theory Blueprint_Safety
  imports Blueprint_Run
begin

text \<open>
  What running a blueprint does to the files: the frame of each operation of \<open>Blueprint_Run\<close> (what it
  leaves alone), from it that a folder plan stays inside its directory and that a run without overwriting
  loses no file, and what the audit log and the counts say of a run.
\<close>

section \<open>Lemmas: frames\<close>

text \<open>What an operation that writes at \<open>dst\<close> may change: nothing outside, but directories above it may appear.\<close>

definition frame :: "fpath \<Rightarrow> fs \<Rightarrow> fs \<Rightarrow> bool" where
  "frame dst fs fs' \<longleftrightarrow> tree_ok fs' \<and> (\<forall>q. fs q = Some Dir \<longrightarrow> fs' q = Some Dir) \<and>
     (\<forall>q. \<not> prefix dst q \<longrightarrow> fs' q = fs q \<or> (strict_prefix q dst \<and> fs q = None \<and> fs' q = Some Dir))"

lemma frame_refl: "tree_ok fs \<Longrightarrow> frame dst fs fs"
  by (simp add: frame_def)

lemma frame_tree: "frame dst fs fs' \<Longrightarrow> tree_ok fs'"
  by (simp add: frame_def)

lemma frame_dir: "frame dst fs fs' \<Longrightarrow> fs q = Some Dir \<Longrightarrow> fs' q = Some Dir"
  by (simp add: frame_def)

lemma frame_trans: "frame dst fs fs1 \<Longrightarrow> frame dst fs1 fs2 \<Longrightarrow> frame dst fs fs2"
  unfolding frame_def by (metis option.distinct(1))

lemma frame_outside:
  assumes "frame dst fs fs'" "\<not> prefix dst q" "fs q \<noteq> None \<or> \<not> strict_prefix q dst"
  shows "fs' q = fs q"
  using assms unfolding frame_def by auto

lemma dir_above: "tree_ok fs \<Longrightarrow> fs d = Some Dir \<Longrightarrow> prefix q d \<Longrightarrow> fs q = Some Dir"
  using tree_ok_prefix [of fs q d] by (cases "q = d") auto

lemma frame_up:
  assumes "frame d fs fs'" "prefix dst d"
  shows "frame dst fs fs'"
proof -
  have "\<not> prefix d q \<and> (strict_prefix q d \<longrightarrow> strict_prefix q dst)" if "\<not> prefix dst q" for q
    using that assms(2)
    by (metis prefix_order.dual_order.trans prefix_order.less_imp_le prefix_order.nless_le prefix_same_cases)
  with assms(1) show ?thesis unfolding frame_def by meson
qed

lemma create_dir_all_frame:
  assumes "create_dir_all p fs = Inr fs'" "tree_ok fs"
  shows "frame p fs fs'"
  unfolding frame_def
proof (intro conjI allI impI)
  show "tree_ok fs'" by (rule create_dir_all_tree [OF assms(2,1)])
  show "fs' q = Some Dir" if "fs q = Some Dir" for q
    using create_dir_all_keeps [OF assms(1), of q] that by simp
  fix q
  assume q: "\<not> prefix p q"
  show "fs' q = fs q \<or> strict_prefix q p \<and> fs q = None \<and> fs' q = Some Dir"
  proof (cases "prefix q p")
    case True
    with q have "strict_prefix q p" by (auto simp: strict_prefix_def)
    with True show ?thesis
      using create_dir_all_keeps [OF assms(1), of q] create_dir_all_eq(1) [OF assms(1)] by (cases "fs q") auto
  qed (simp add: create_dir_all_eq(1) [OF assms(1)])
qed

lemma copy_file_frame:
  assumes "copy_file env now src dst fs = Inr fs'" "tree_ok fs"
  shows "frame dst fs fs'"
proof -
  obtain c where fs': "fs' = fs(dst \<mapsto> File c now)" and ok: "fs dst \<noteq> Some Dir" "parent_dir dst fs"
    using assms(1) by (auto simp: copy_file_def dir_at_def split: option.splits node.splits if_splits)
  show ?thesis
    unfolding frame_def fs'
    using ok tree_ok_add [OF assms(2) ok(2,1)] by (auto simp: prefix_def)
qed

text \<open>
  Whatever holds of doing nothing, of making a directory and of copying one file at or below \<open>dst\<close>, and
  of one step after the other, holds of the recursive copy.
\<close>

lemma copy_closure:
  assumes refl: "\<And>fs. P fs fs" and trans: "\<And>fs fs1 fs2. P fs fs1 \<Longrightarrow> P fs1 fs2 \<Longrightarrow> P fs fs2"
    and mk: "\<And>d fs fs'. prefix dst0 d \<Longrightarrow> create_dir_all d fs = Inr fs' \<Longrightarrow> P fs fs'"
    and cp: "\<And>env now s d fs fs'. prefix dst0 d \<Longrightarrow> copy_file env now s d fs = Inr fs' \<Longrightarrow> P fs fs'"
  shows "copy_dir_recursive env now limit src dst fs = (r, fs') \<Longrightarrow> prefix dst0 dst \<Longrightarrow> P fs fs'"
    and "copy_entries env now limit src dst ns fs = (r, fs') \<Longrightarrow> prefix dst0 dst \<Longrightarrow> P fs fs'"
proof (induction env now limit src dst fs and env now limit src dst ns fs
    arbitrary: r fs' and r fs' rule: copy_dir_recursive_copy_entries.induct)
  case (1 env now limit src dst fs)
  show ?case
  proof (cases "length dst > limit")
    case False
    show ?thesis
    proof (cases "create_dir_all dst fs")
      case (Inr fs1)
      note m = mk [OF "1.prems"(2) Inr]
      show ?thesis
      proof (cases "read_dir env src fs1")
        case r: (Inr names)
        with False Inr 1(2) have "copy_entries env now limit src dst names fs1 = (r, fs')"
          by (simp add: copy_dir_recursive.simps)
        from "1.IH" [OF False Inr r this "1.prems"(2)] show ?thesis by (rule trans [OF m])
      qed (use False Inr 1(2) m in \<open>simp add: copy_dir_recursive.simps\<close>)
    qed (use False 1 in \<open>simp add: copy_dir_recursive.simps refl\<close>)
  qed (use 1 in \<open>simp add: copy_dir_recursive.simps refl\<close>)
next
  case (3 env now limit src dst n ns fs)
  have below: "prefix dst0 (dst @ [n])" using "3.prems"(2) by (rule prefix_prefix)
  show ?case
  proof (cases "fs (src @ [n])")
    case (Some nd)
    show ?thesis
    proof (cases nd)
      case Dir
      obtain r1 fs1 where c: "copy_dir_recursive env now limit (src @ [n]) (dst @ [n]) fs = (r1, fs1)" by (rule prod.exhaust)
      note p1 = "3.IH"(1) [OF Some Dir c below]
      show ?thesis
      proof (cases r1)
        case (Inr u)
        with c Some Dir "3.prems" have "copy_entries env now limit src dst ns fs1 = (r, fs')" by simp
        from "3.IH"(2) [OF Some Dir c [symmetric] Inr this "3.prems"(2)] show ?thesis by (rule trans [OF p1])
      qed (use c Some Dir "3.prems" p1 in simp)
    next
      case (File k t)
      show ?thesis
      proof (cases "copy_file env now (src @ [n]) (dst @ [n]) fs")
        case (Inr fs1)
        from Inr Some File "3.prems" have "copy_entries env now limit src dst ns fs1 = (r, fs')" by simp
        from "3.IH"(3) [OF Some File Inr this "3.prems"(2)] show ?thesis by (rule trans [OF cp [OF below Inr]])
      qed (use Some File "3.prems" in \<open>simp add: refl\<close>)
    qed
  qed (use 3 in \<open>simp add: refl\<close>)
qed (simp add: refl)

lemma copy_frame:
  assumes "copy_dir_recursive env now limit src dst fs = (r, fs')" "tree_ok fs"
  shows "frame dst fs fs'"
proof -
  have "tree_ok fs \<longrightarrow> frame dst fs fs'"
  proof (rule copy_closure(1) [where P = "\<lambda>fs fs'. tree_ok fs \<longrightarrow> frame dst fs fs'", OF _ _ _ _ assms(1) prefix_order.refl])
    show "tree_ok fs \<longrightarrow> frame dst fs fs" for fs by (simp add: frame_refl)
    show "tree_ok fs \<longrightarrow> frame dst fs fs2"
      if "tree_ok fs \<longrightarrow> frame dst fs fs1" "tree_ok fs1 \<longrightarrow> frame dst fs1 fs2" for fs fs1 fs2
      using that frame_tree frame_trans by blast
    show "tree_ok fs \<longrightarrow> frame dst fs fs'" if "prefix dst d" "create_dir_all d fs = Inr fs'" for d fs fs'
      using that create_dir_all_frame frame_up by blast
    show "tree_ok fs \<longrightarrow> frame dst fs fs'" if "prefix dst d" "copy_file env now s d fs = Inr fs'" for env now s d fs fs'
      using that copy_file_frame frame_up by blast
  qed
  with assms(2) show ?thesis by simp
qed

text \<open>
  \<open>kept base\<close>: nothing outside \<open>base\<close> changes, where the directories above it are there.
\<close>

definition rooted :: "fpath \<Rightarrow> fs \<Rightarrow> bool" where
  "rooted base fs \<longleftrightarrow> (\<forall>q. strict_prefix q base \<longrightarrow> fs q = Some Dir)"

definition kept :: "fpath \<Rightarrow> fs \<Rightarrow> fs \<Rightarrow> bool" where
  "kept base fs fs' \<longleftrightarrow> (rooted base fs \<longrightarrow> (\<forall>q. \<not> prefix base q \<longrightarrow> fs' q = fs q))"

lemma rooted_kept: "kept base fs fs' \<Longrightarrow> rooted base fs \<Longrightarrow> rooted base fs'"
  unfolding kept_def rooted_def by (metis prefix_order.less_le_not_le)

lemma kept_refl [simp, intro]: "kept base fs fs"
  by (simp add: kept_def)

lemma kept_trans: "kept base fs fs1 \<Longrightarrow> kept base fs1 fs2 \<Longrightarrow> kept base fs fs2"
  using rooted_kept unfolding kept_def by metis

lemma create_dir_all_kept:
  assumes "prefix base d \<or> prefix d base" "create_dir_all d fs = Inr fs'"
  shows "kept base fs fs'"
  unfolding kept_def
proof (intro impI allI)
  fix q
  assume root: "rooted base fs" and q: "\<not> prefix base q"
  show "fs' q = fs q"
  proof (cases "prefix q d")
    case True
    with q assms(1) have "strict_prefix q base"
      by (metis prefix_order.le_less prefix_order.trans prefix_same_cases)
    with root have "fs q = Some Dir" by (simp add: rooted_def)
    then show ?thesis using create_dir_all_keeps [OF assms(2), of q] by simp
  qed (simp add: create_dir_all_eq(1) [OF assms(2)])
qed

lemma copy_file_kept: "prefix base d \<Longrightarrow> copy_file env now s d fs = Inr fs' \<Longrightarrow> kept base fs fs'"
  by (auto simp: copy_file_def kept_def split: option.splits node.splits if_splits)

lemma copy_kept:
  assumes "copy_dir_recursive env now limit src dst fs = (r, fs')" "prefix base dst"
  shows "kept base fs fs'"
  by (rule copy_closure(1) [where P = "kept base", OF _ _ _ _ assms])
    (auto intro: kept_trans create_dir_all_kept copy_file_kept)

lemma rename_path_kept:
  "rename_path env src dst fs = Inr fs' \<Longrightarrow> prefix base src \<Longrightarrow> prefix base dst \<Longrightarrow> kept base fs fs'"
  by (auto simp: rename_path_def kept_def split: option.splits node.splits if_splits dest: prefix_order.trans)

lemma remove_kept:
  "prefix base p \<Longrightarrow> remove_dir_all p fs = Inr fs' \<Longrightarrow> kept base fs fs'"
  "prefix base p \<Longrightarrow> remove_dir env p fs = Inr fs' \<Longrightarrow> kept base fs fs'"
  "prefix base p \<Longrightarrow> remove_file p fs = Inr fs' \<Longrightarrow> kept base fs fs'"
  by (auto simp: remove_dir_all_def remove_dir_def remove_file_def kept_def split: if_splits dest: prefix_order.trans)

lemma run_step_kept:
  "(\<And>fs'. r = Inr fs' \<Longrightarrow> kept base fs fs') \<Longrightarrow> run_step r fs = (u, fs2) \<Longrightarrow> kept base fs fs2"
  by (auto simp: run_step_def split: sum.splits)

lemma and_then_kept:
  assumes "and_then r k = (u, fs2)" "kept base fs (snd r)"
    and "\<And>fs1 u fs2. k fs1 = (u, fs2) \<Longrightarrow> kept base fs fs1 \<Longrightarrow> kept base fs1 fs2"
  shows "kept base fs fs2"
  using assms by (auto simp: and_then_def split: prod.splits sum.splits intro: kept_trans)

section \<open>Lemmas: a folder action stays inside\<close>

lemma resolve_conflict_cases:
  assumes "resolve_conflict t0 strategy fs = Inr (Some t)"
  shows "t = t0 \<and> (fs t = None \<or> strategy = Overwrite) \<or>
    strategy = Rename \<and> fs t = None \<and> butlast t = butlast t0 \<and> t \<noteq> [] \<and> fs t0 \<noteq> None"
  using assms
  by (auto simp: resolve_conflict_def exists_at_def Let_def split: conflict_strategy.splits option.splits if_splits
      dest: first_free_Some)

lemma resolve_conflict_inside:
  assumes "resolve_conflict t0 strategy fs = Inr (Some t)" "prefix base t0" "strategy \<noteq> Rename \<or> t0 \<noteq> base"
  shows "prefix base t"
proof (cases "t = t0")
  case False
  with resolve_conflict_cases [OF assms(1)] assms(3) have "butlast t = butlast t0" "t0 \<noteq> base" by auto
  then have "prefix base (butlast t)"
    using assms(2) by (metis append_butlast_last_id butlast.simps(1) prefix_Nil prefix_snoc)
  then show ?thesis by (metis prefix_order.trans prefixeq_butlast)
qed (use assms(2) in simp)

lemma with_target_kept:
  assumes "with_target strategy t0 act fs = (r, fs')" "prefix base t0" "strategy \<noteq> Rename \<or> t0 \<noteq> base"
    and "\<And>t u fs1. prefix base t \<Longrightarrow> act t fs = (u, fs1) \<Longrightarrow> kept base fs fs1"
  shows "kept base fs fs'"
proof (cases "resolve_conflict t0 strategy fs")
  case (Inr found)
  show ?thesis
  proof (cases found)
    case (Some t)
    from resolve_conflict_inside [OF _ assms(2,3)] Inr Some have "prefix base t" by simp
    then have "kept base fs (snd (act t fs))" using assms(4) by (metis prod.collapse)
    then show ?thesis
      using assms(1) Inr Some by (auto simp: with_target_def and_then_def split: prod.splits sum.splits)
  qed (use assms(1) Inr in \<open>simp add: with_target_def\<close>)
qed (use assms(1) in \<open>simp add: with_target_def\<close>)

lemma make_parent_kept:
  assumes "make_parent flag t fs = (r, fs')" "prefix base t"
  shows "kept base fs fs'"
proof -
  have "prefix base (butlast t) \<or> prefix (butlast t) base"
    using assms(2) by (metis prefix_same_cases prefixeq_butlast)
  with assms(1) create_dir_all_kept show ?thesis
    by (auto simp: make_parent_def run_step_def split: if_splits sum.splits)
qed

text \<open>The item names paths at or below \<open>base\<close>; a renaming strategy needs them below it.\<close>

definition item_inside :: "conflict_strategy \<Rightarrow> fpath \<Rightarrow> folder_action_item \<Rightarrow> bool" where
  "item_inside strategy base item \<longleftrightarrow>
     pred_option (\<lambda>p. prefix base (parse_path p)) (fi_source item) \<and>
     pred_option (\<lambda>p. prefix base (parse_path p) \<and> (strategy = Rename \<longrightarrow> parse_path p \<noteq> base)) (fi_target item)"

lemma transfer_folder_kept:
  assumes "transfer_folder strategy item act fs = (r, fs')" "item_inside strategy base item"
    and "\<And>s t u fs1. prefix base s \<Longrightarrow> prefix base t \<Longrightarrow> act s t fs = (u, fs1) \<Longrightarrow> kept base fs fs1"
  shows "kept base fs fs'"
proof (cases "fi_source item"; cases "fi_target item")
  fix source target
  assume st: "fi_source item = Some source" "fi_target item = Some target"
  with assms(2) have in': "prefix base (parse_path source)" "prefix base (parse_path target)"
      "strategy \<noteq> Rename \<or> parse_path target \<noteq> base"
    by (auto simp: item_inside_def)
  show ?thesis
  proof (cases "exists_at (parse_path source) fs")
    case True
    with assms(1) st have "with_target strategy (parse_path target) (act (parse_path source)) fs = (r, fs')"
      by (simp add: transfer_folder_def)
    then show ?thesis by (rule with_target_kept [OF _ in'(2,3)]) (rule assms(3) [OF in'(1)])
  qed (use assms(1) st in \<open>auto simp: transfer_folder_def split: if_splits\<close>)
qed (use assms(1) in \<open>auto simp: transfer_folder_def\<close>)

lemma move_folder_kept:
  assumes "move_folder env now limit s t fs = (r, fs')" "prefix base s" "prefix base t"
  shows "kept base fs fs'"
  using assms(1) unfolding move_folder_def
proof (rule and_then_kept)
  show "kept base fs (snd (make_parent True t fs))"
    using make_parent_kept [OF _ assms(3)] by (metis prod.collapse)
  fix fs1 u fs2
  assume *: "(case rename_path env s t fs1 of
      Inl x \<Rightarrow> and_then (copy_dir_recursive env now limit s t fs1) (\<lambda>fs2. run_step (remove_dir_all s fs2) fs2)
    | Inr fs2 \<Rightarrow> (Inr (), fs2)) = (u, fs2)"
  show "kept base fs1 fs2"
  proof (cases "rename_path env s t fs1")
    case (Inl e)
    with * have "and_then (copy_dir_recursive env now limit s t fs1) (\<lambda>fs2. run_step (remove_dir_all s fs2) fs2) = (u, fs2)"
      by simp
    then show ?thesis
    proof (rule and_then_kept)
      show "kept base fs1 (snd (copy_dir_recursive env now limit s t fs1))"
        using copy_kept [OF _ assms(3)] by (metis prod.collapse)
    qed (auto intro: run_step_kept remove_kept assms(2))
  qed (use * rename_path_kept [OF _ assms(2,3)] in auto)
qed

lemma delete_folder_kept:
  assumes "(if directory_has_entries env source fs then run_step (remove_dir_all (parse_path source) fs) fs
      else run_step (remove_dir env (parse_path source) fs) fs) = (r, fs')" "prefix base (parse_path source)"
  shows "kept base fs fs'"
  using assms by (auto split: if_splits intro: run_step_kept remove_kept)

lemma execute_folder_action_item_kept:
  assumes "execute_folder_action_item env now limit strategy item fs = (r, fs')" "item_inside strategy base item"
  shows "kept base fs fs'"
proof (cases "fi_action item")
  case FolderCreate
  show ?thesis
  proof (cases "fi_target item")
    case (Some target)
    with assms(2) have t: "prefix base (parse_path target)" "strategy \<noteq> Rename \<or> parse_path target \<noteq> base"
      by (auto simp: item_inside_def)
    show ?thesis
    proof (cases "dir_at (parse_path target) fs")
      case False
      with assms(1) FolderCreate Some
      have "with_target strategy (parse_path target) (\<lambda>t fs1. run_step (create_dir_all t fs1) fs1) fs = (r, fs')"
        by (simp add: execute_folder_action_item_def)
      then show ?thesis
        by (rule with_target_kept [OF _ t]) (auto intro: run_step_kept create_dir_all_kept)
    qed (use assms(1) FolderCreate Some in \<open>simp add: execute_folder_action_item_def\<close>)
  qed (use assms(1) FolderCreate in \<open>simp add: execute_folder_action_item_def\<close>)
next
  case FolderDelete
  show ?thesis
  proof (cases "fi_source item")
    case (Some source)
    with assms(2) have "prefix base (parse_path source)" by (simp add: item_inside_def)
    moreover obtain u fs1 where d: "(if directory_has_entries env source fs then run_step (remove_dir_all (parse_path source) fs) fs
        else run_step (remove_dir env (parse_path source) fs) fs) = (u, fs1)" by (rule prod.exhaust)
    ultimately have "kept base fs fs1" using delete_folder_kept by blast
    then show ?thesis
      using assms(1) FolderDelete Some d
      by (auto simp: execute_folder_action_item_def and_then_def simp del: if_split split: sum.splits)
  qed (use assms(1) FolderDelete in \<open>simp add: execute_folder_action_item_def\<close>)
qed (use assms in \<open>auto simp: execute_folder_action_item_def
    intro: transfer_folder_kept move_folder_kept copy_kept\<close>)

section \<open>Lemmas: a plan stays inside\<close>

lemma parse_path_resolve: "parse_path s = resolve s"
  by (simp add: parse_path_def join_path_def resolve_def)

lemma safe_join_inside:
  "safe_join canon base root rel = Inr p \<Longrightarrow>
   prefix (parse_path base) (parse_path p) \<and> is_path_under_root canon p root"
  using validated_path_stays_under_root [of rel base]
  by (auto simp: safe_join_def relative_path_invalid_def Let_def parse_path_resolve is_ok_iff split: if_splits)

lemma join_optional_inside:
  assumes "join_optional canon base root rel = Inr p"
  shows "pred_option (\<lambda>p. prefix (parse_path base) (parse_path p) \<and> is_path_under_root canon p root) p"
  using assms safe_join_inside [of canon base root "the rel"]
  by (auto simp: join_optional_def map_sum_def split: option.splits if_splits sum.splits)

definition under_root :: "(string \<Rightarrow> string option) \<Rightarrow> string \<Rightarrow> folder_action_item \<Rightarrow> bool" where
  "under_root canon root item \<longleftrightarrow>
     pred_option (\<lambda>p. is_path_under_root canon p root) (fi_source item) \<and>
     pred_option (\<lambda>p. is_path_under_root canon p root) (fi_target item)"

lemma plan_node_inside:
  assumes "plan_node pe base root variables parent_rel index node = Inr (item, s, t)" "strategy \<noteq> Rename"
  shows "item_inside strategy (parse_path base) item \<and> under_root (pe_canon pe) root item"
  using assms
  by (auto simp: plan_node_def Let_def result_simps item_inside_def under_root_def pred_option_def
      dest!: join_optional_inside)

lemma collect_inside:
  assumes "strategy \<noteq> Rename"
  shows "collect_folder_action_nodes pe base root variables parent_rel index nodes = Inr (items, ws) \<Longrightarrow>
    list_all (\<lambda>item. item_inside strategy (parse_path base) item \<and> under_root (pe_canon pe) root item) items"
proof (induction pe base root variables parent_rel index nodes arbitrary: items ws
    rule: collect_folder_action_nodes.induct)
  case (2 pe base root variables parent_rel index action n s t children nodes)
  then obtain item src tgt below w1 rest w2 where
      node: "plan_node pe base root variables parent_rel index (FolderNode action n s t children) = Inr (item, src, tgt)"
    and below: "action = FolderDelete \<Longrightarrow> below = []" "action \<noteq> FolderDelete \<Longrightarrow>
      collect_folder_action_nodes pe base root variables (child_parent parent_rel tgt) 0 children = Inr (below, w1)"
    and rest: "collect_folder_action_nodes pe base root variables parent_rel (Suc index) nodes = Inr (rest, w2)"
    and items: "items = item # below @ rest"
    by (cases "action = FolderDelete") (auto simp: result_simps)
  have "list_all (\<lambda>item. item_inside strategy (parse_path base) item \<and> under_root (pe_canon pe) root item) below"
    using below "2.IH"(1) by (cases "action = FolderDelete") auto
  with plan_node_inside [OF node assms] "2.IH"(2) [OF rest] items show ?case by simp
qed simp

lemma build_inside:
  assumes "build_folder_action_plan_for_nodes pe env b p nodes base_root variables dry_run enforce fs = Inr plan"
    and "strategy \<noteq> Rename"
  shows "list_all (\<lambda>item. item_inside strategy (parse_path (normalize_path (pe_canon pe) base_root)) item \<and>
      under_root (pe_canon pe) (normalize_path (pe_canon pe) (bp_root_path b)) item) (fp_items plan)"
  using assms collect_inside [OF assms(2)]
  by (auto simp: build_folder_action_plan_for_nodes_def Let_def result_simps split: if_splits prod.splits)

section \<open>Lemmas: the loop over a plan\<close>

lemma log_entry_frame:
  "w_fs (as_world (snd (log_entry d e st))) = w_fs (as_world st)"
  "w_manifests (as_world (snd (log_entry d e st))) = w_manifests (as_world st)"
  "as_items (snd (log_entry d e st)) = as_items st" "as_result (snd (log_entry d e st)) = as_result st"
  by (auto simp: log_entry_def audit_append_def split: option.splits)

lemma count_frame:
  "as_world (count_processed its st) = as_world st" "as_items (count_processed its st) = as_items st @ its"
  "as_world (count_skipped st) = as_world st" "as_items (count_skipped st) = as_items st"
  "as_world (count_failed st) = as_world st" "as_items (count_failed st) = as_items st"
  "as_result (count_processed its st) = as_result st\<lparr>ar_processed := ar_processed (as_result st) + 1\<rparr>"
  "as_result (count_skipped st) = as_result st\<lparr>ar_skipped := ar_skipped (as_result st) + 1\<rparr>"
  "as_result (count_failed st) = as_result st\<lparr>ar_failed := ar_failed (as_result st) + 1\<rparr>"
  by (simp_all add: count_processed_def count_skipped_def count_failed_def)

lemma set_fs_frame:
  "w_fs (as_world (set_fs fs st)) = fs" "w_manifests (as_world (set_fs fs st)) = w_manifests (as_world st)"
  "w_audit (as_world (set_fs fs st)) = w_audit (as_world st)"
  "as_items (set_fs fs st) = as_items st" "as_result (set_fs fs st) = as_result st"
  by (simp_all add: set_fs_def)

lemmas apply_frame = log_entry_frame count_frame set_fs_frame

lemma apply_folder_item_fs:
  "w_fs (as_world (snd (apply_folder_item x b index item st))) =
     snd (execute_folder_action_item (rd_env (xd_run x)) (rd_now (xd_run x)) (xd_limit x) (bp_conflict b) item
            (w_fs (as_world st)))"
  by (auto simp: apply_folder_item_def Let_def apply_frame split: prod.splits sum.splits option.splits)

lemma apply_items_invariant:
  assumes "\<And>index item st. item \<in> set items \<Longrightarrow> P st \<Longrightarrow> P (snd (act index item st))"
  shows "P st \<Longrightarrow> P (snd (apply_items act index items st))"
  using assms
proof (induction items arbitrary: index st)
  case (Cons item items)
  obtain r st1 where a: "act index item st = (r, st1)" by (rule prod.exhaust)
  have "P st1" using Cons.prems a by (metis list.set_intros(1) snd_conv)
  with Cons.IH [OF this] Cons.prems(2) a show ?case by (cases r) auto
qed simp

lemma finish_items_fs: "w_fs (snd (finish_items x b eid r)) = w_fs (as_world (snd r))"
  by (auto simp: finish_items_def keep_blueprint_manifest_def split: prod.splits sum.splits)

section \<open>Properties: folder plans\<close>

text \<open>
  C17. A folder blueprint that does not rename on conflict changes nothing outside its root: whatever the
  templates evaluate to, whichever actions fail and wherever the run is cut short, every path outside
  the root's directory is as it was. The hypothesis \<open>rooted\<close> says that the directories above the root are there.
\<close>

theorem folder_run_stays_in_root:
  assumes "apply_folder_blueprint_with_rollback x b variables eid w = (r, w')" "bp_conflict b \<noteq> Rename"
    and "rooted (parse_path (normalize_path (pe_canon (xd_plan x)) (bp_root_path b))) (w_fs w)"
    and "\<not> prefix (parse_path (normalize_path (pe_canon (xd_plan x)) (bp_root_path b))) q"
  shows "w_fs w' q = w_fs w q"
proof (cases "build_folder_action_plan (xd_plan x) (rd_env (xd_run x)) b variables False (w_fs w)")
  case (Inr plan)
  let ?base = "parse_path (normalize_path (pe_canon (xd_plan x)) (bp_root_path b))"
  have inside: "list_all (item_inside (bp_conflict b) ?base) (fp_items plan)"
    using Inr build_inside [OF _ assms(2)]
    by (fastforce simp: build_folder_action_plan_def result_simps list_all_iff split: option.splits)
  have "kept ?base (w_fs w) (w_fs (as_world (snd (apply_items (apply_folder_item x b) 0 (fp_items plan) (apply_start w)))))"
  proof (rule apply_items_invariant [where P = "\<lambda>st :: apply_state. kept ?base (w_fs w) (w_fs (as_world st))"])
    fix index item and st :: apply_state
    assume "item \<in> set (fp_items plan)" and st: "kept ?base (w_fs w) (w_fs (as_world st))"
    then have "item_inside (bp_conflict b) ?base item" using inside by (simp add: list_all_iff)
    from execute_folder_action_item_kept [OF prod.collapse [symmetric] this]
    show "kept ?base (w_fs w) (w_fs (as_world (snd (apply_folder_item x b index item st))))"
      unfolding apply_folder_item_fs by (rule kept_trans [OF st])
  qed (simp add: apply_start_def)
  with assms Inr show ?thesis
    unfolding apply_folder_blueprint_with_rollback_def kept_def
    by (metis finish_items_fs snd_conv sum.case(2))
qed (use assms(1) in \<open>simp add: apply_folder_blueprint_with_rollback_def\<close>)

text \<open>A plan that creates \<open>2026/docs\<close> below \<open>/in\<close>, and a world in which \<open>/out\<close> holds a file.\<close>

definition demo_blueprint_deps :: blueprint_deps where
  "demo_blueprint_deps = \<lparr>xd_run = demo_deps, xd_plan = demo_env, xd_limit = 64\<rparr>"

definition folder_blueprint :: "conflict_strategy \<Rightarrow> folder_action_node list \<Rightarrow> blueprint" where
  "folder_blueprint strategy nodes = (blueprint_new 7 ''Pastas'' FolderKind ''/in'')
     \<lparr>bp_conflict := strategy, bp_folder_plan := Some (folder_plan_default\<lparr>pl_nodes := nodes\<rparr>)\<rparr>"

definition world_with :: "fs \<Rightarrow> world" where
  "world_with fs = (demo_world Copy Skip)\<lparr>w_fs := fs\<rparr>"

definition year_nodes :: "folder_action_node list" where
  "year_nodes = [FolderNode FolderCreate ''2026'' [] [] [node_create ''docs'']]"

theorem folder_run_stays_in_root_witness:
  "case apply_folder_blueprint_with_rollback demo_blueprint_deps (folder_blueprint Skip year_nodes) [] 5 (world_with demo_tree) of
     (r, w') \<Rightarrow> is_ok r \<and> w_fs w' [''in'', ''2026'', ''docs''] = Some Dir \<and>
       w_fs w' [''out'', ''a.txt''] = Some (File ''older'' 0)"
proof -
  let ?run = "apply_folder_blueprint_with_rollback demo_blueprint_deps (folder_blueprint Skip year_nodes) [] 5 (world_with demo_tree)"
  have conflict: "bp_conflict (folder_blueprint Skip year_nodes) \<noteq> Rename" by code_simp
  have base: "parse_path (normalize_path (pe_canon (xd_plan demo_blueprint_deps))
      (bp_root_path (folder_blueprint Skip year_nodes))) = [''in'']" by code_simp
  have "rooted [''in''] (w_fs (world_with demo_tree))"
    by (auto simp: rooted_def world_with_def demo_tree_def strict_prefix_def prefix_Cons)
  moreover have "\<not> prefix [''in''] [''out'', ''a.txt'']" by simp
  ultimately have "w_fs (snd ?run) [''out'', ''a.txt''] = w_fs (world_with demo_tree) [''out'', ''a.txt'']"
    by (intro folder_run_stays_in_root [OF prod.collapse [symmetric] conflict]) (simp_all only: base not_False_eq_True)
  moreover have "w_fs (world_with demo_tree) [''out'', ''a.txt''] = Some (File ''older'' 0)" by code_simp
  moreover have "is_ok (fst ?run) \<and> w_fs (snd ?run) [''in'', ''2026'', ''docs''] = Some Dir" by code_simp
  ultimately show ?thesis by (simp add: split_beta)
qed

text \<open>
  With the strategy that renames, a target of \<open>.\<close>, which the validation lets through, names the root itself;
  the free name next to it is outside the root.
\<close>

definition sub_tree :: fs where
  "sub_tree p =
     (if p \<in> {[], [''in''], [''in'', ''sub'']} then Some Dir
      else if p = [''in'', ''sub'', ''a.txt''] then Some (File ''alpha'' 1) else None)"

lemma dot_target_leaves_root:
  "case apply_folder_blueprint_with_rollback demo_blueprint_deps
       (folder_blueprint Rename [FolderNode FolderMove [] ''sub'' ''.'' []]) [] 5 (world_with sub_tree) of
     (r, w') \<Rightarrow> is_ok r \<and> w_fs w' [''in'', ''sub'', ''a.txt''] = None \<and>
       w_fs w' [''in (1)'', ''a.txt''] = Some (File ''alpha'' 1)"
  by code_simp

end
