(* ===== verification/Blueprint_Naming.thy ===== *)
theory Blueprint_Naming
  imports Blueprint_Safety
begin

text \<open>
  Folder names and their correction, \<open>crates/autoflow-application/src/naming.rs\<close>: whether a folder's name is
  the one its plan asks for, the name it should have, and the handler a watch calls when a folder
  appears: it renames the folder and carries out the actions below the plan's node in it. The copy that
  replaces a failed rename is the one of \<open>Blueprint_Run\<close>.
\<close>

section \<open>Names\<close>

definition normalize_variables :: "folder_plan \<Rightarrow> variables \<Rightarrow> variables" where
  "normalize_variables p variables = fst (folder_plan_variable_values p variables False [])"

definition name_context :: "plan_env \<Rightarrow> string \<Rightarrow> folder_plan \<Rightarrow> variables \<Rightarrow> token_context" where
  "name_context pe folder_name p variables =
     folder_token_context pe [] folder_name 0 (normalize_variables p variables)"

text \<open>The name a node's template gives, when it has one: \<open>None\<close> stands for falling through.\<close>

definition node_name ::
    "plan_env \<Rightarrow> folder_action_node option \<Rightarrow> token_context \<Rightarrow> string + string option" where
  "node_name pe node ctx =
     (case node of
        None \<Rightarrow> Inr None
      | Some nd \<Rightarrow>
          if trim (fn_name nd) = [] then Inr None
          else
            rbind (map_err token_error_text (evaluate (pe_re pe) (parse_template (fn_name nd)) ctx))
              (\<lambda>resolved. Inr (if trim resolved = [] then None else Some resolved)))"

definition first_node :: "folder_plan \<Rightarrow> folder_action_node option" where
  "first_node p = (case pl_nodes p of [] \<Rightarrow> None | nd # _ \<Rightarrow> Some nd)"

definition folder_name_matches_pattern ::
    "plan_env \<Rightarrow> string \<Rightarrow> naming_pattern option \<Rightarrow> folder_plan \<Rightarrow> variables \<Rightarrow> string + bool" where
  "folder_name_matches_pattern pe folder_name pattern p variables =
     (let ctx = name_context pe folder_name p variables;
          by_node = rbind (node_name pe (first_node p) ctx)
            (\<lambda>n. Inr (case n of Some resolved \<Rightarrow> folder_name = resolved | None \<Rightarrow> True));
          by_regex = (\<lambda>np. if np_regex np \<noteq> None then Inr (pattern_matches (pe_rx pe) np folder_name None) else by_node)
      in case pattern of
           None \<Rightarrow> by_node
         | Some np \<Rightarrow>
             (case np_template_override np of
                None \<Rightarrow> by_regex np
              | Some tpl \<Rightarrow>
                  rbind (map_err token_error_text (evaluate (pe_re pe) tpl ctx)) (\<lambda>resolved.
                    if np_regex np \<noteq> None \<or> trim resolved \<noteq> []
                    then Inr (pattern_matches (pe_rx pe) np folder_name (Some resolved))
                    else by_regex np)))"

definition resolve_correct_folder_name ::
    "plan_env \<Rightarrow> string \<Rightarrow> naming_pattern option \<Rightarrow> folder_plan \<Rightarrow> folder_action_node option \<Rightarrow> variables \<Rightarrow>
     string + string" where
  "resolve_correct_folder_name pe folder_name pattern p node variables =
     (let ctx = name_context pe folder_name p variables;
          by_node = rbind (node_name pe (case node of Some nd \<Rightarrow> Some nd | None \<Rightarrow> first_node p) ctx)
            (\<lambda>n. Inr (case n of Some resolved \<Rightarrow> resolved | None \<Rightarrow> folder_name))
      in case Option.bind pattern np_template_override of
           None \<Rightarrow> by_node
         | Some tpl \<Rightarrow>
             rbind (map_err token_error_text (evaluate (pe_re pe) tpl ctx)) (\<lambda>resolved.
               if trim resolved \<noteq> [] then Inr resolved else by_node))"

section \<open>The node of a folder\<close>

text \<open>The name a node has for the search; a template that does not evaluate counts as it is written.\<close>

definition search_name :: "plan_env \<Rightarrow> variables \<Rightarrow> folder_action_node \<Rightarrow> string" where
  "search_name pe variables nd =
     (case evaluate (pe_re pe) (parse_template (fn_name nd)) (folder_token_context pe [] ''.'' 0 variables) of
        Inr resolved \<Rightarrow> resolved | Inl _ \<Rightarrow> fn_name nd)"

text \<open>Down the components; \<open>current\<close> is the node reached so far.\<close>

fun descend ::
    "plan_env \<Rightarrow> variables \<Rightarrow> string list \<Rightarrow> folder_action_node option \<Rightarrow> folder_action_node list \<Rightarrow>
     folder_action_node option" where
  "descend pe variables [] current nodes = current"
| "descend pe variables (component # components) current nodes =
     (case find (\<lambda>nd. search_name pe variables nd = component) nodes of
        None \<Rightarrow> None
      | Some nd \<Rightarrow> descend pe variables components (Some nd) (fn_children nd))"

definition find_folder_plan_node ::
    "plan_env \<Rightarrow> folder_action_node list \<Rightarrow> string \<Rightarrow> variables \<Rightarrow> folder_action_node option" where
  "find_folder_plan_node pe nodes relative_parent variables =
     (let target = trim_by (\<lambda>c. c = CHR ''/'') relative_parent in
      if target = [] then (case nodes of [] \<Rightarrow> None | nd # _ \<Rightarrow> Some nd)
      else descend pe variables (filter (\<lambda>s. s \<noteq> []) (split_on (CHR ''/'') target)) None nodes)"

section \<open>The correction\<close>

definition correct_label :: "blueprint \<Rightarrow> string" where
  "correct_label b = bp_name b @ '' (auto-correct)''"

definition apply_child ::
    "blueprint_deps \<Rightarrow> blueprint \<Rightarrow> nat \<Rightarrow> folder_action_item \<Rightarrow> apply_state \<Rightarrow> (domain_error + unit) \<times> apply_state" where
  "apply_child x b index item st =
     (let d = xd_run x; source = or_empty (fi_source item); target0 = or_empty (fi_target item) in
      case execute_folder_action_item (rd_env d) (rd_now d) (xd_limit x) (bp_conflict b) item (w_fs (as_world st)) of
        (result, fs) \<Rightarrow>
          (case result of
             Inr (Some target) \<Rightarrow>
               log_entry d
                 (blueprint_entry d (bp_id b) (correct_label b) index source (abs_path target) Organized 0
                    (Some ''auto-correct structure''))
                 (count_processed [] (set_fs fs st))
           | Inr None \<Rightarrow> (Inr (), count_skipped (set_fs fs st))
           | Inl details \<Rightarrow>
               log_entry d
                 (blueprint_entry d (bp_id b) (correct_label b) index source target0 Failed 0 (Some details))
                 (count_failed (set_fs fs st))))"

definition apply_children_structure ::
    "blueprint_deps \<Rightarrow> blueprint \<Rightarrow> string \<Rightarrow> folder_action_node list \<Rightarrow> variables \<Rightarrow> world \<Rightarrow>
     (domain_error + apply_result) \<times> world" where
  "apply_children_structure x b renamed_folder children variables w =
     (case bp_folder_plan b of
        None \<Rightarrow> (Inl (Validation ''folder_plan required for auto-correct''), w)
      | Some p \<Rightarrow>
          (case build_folder_action_plan_for_nodes (xd_plan x) (rd_env (xd_run x)) b p children renamed_folder variables
                  False False (w_fs w) of
             Inl e \<Rightarrow> (Inl e, w)
           | Inr plan \<Rightarrow>
               (case apply_items (apply_child x b) 1 (fp_items plan) (apply_start w) of
                  (Inl e, st) \<Rightarrow> (Inl e, as_world st)
                | (Inr _, st) \<Rightarrow> (Inr (as_result st), as_world st))))"

definition drop_result :: "(domain_error + 'a) \<times> world \<Rightarrow> (domain_error + unit) \<times> world" where
  "drop_result r = (map_sum id (\<lambda>_. ()) (fst r), snd r)"

fun replace_double_bslash :: "string \<Rightarrow> string" where
  "replace_double_bslash (a # c # s) =
     (if a = bslash \<and> c = bslash then CHR ''/'' # replace_double_bslash s else a # replace_double_bslash (c # s))"
| "replace_double_bslash s = s"

definition relative_parent_of :: "string \<Rightarrow> string \<Rightarrow> string" where
  "relative_parent_of parent root =
     trim_by (\<lambda>c. c = CHR ''/'') (replace_double_bslash (or_empty (strip_prefix parent root)))"

text \<open>The rename itself, when the correct name differs and is free.\<close>

definition correct_rename ::
    "blueprint_deps \<Rightarrow> blueprint \<Rightarrow> string \<Rightarrow> string \<Rightarrow> world \<Rightarrow> (domain_error + unit) \<times> world" where
  "correct_rename x b source target w =
     (let d = xd_run x; src = parse_path source; dst = parse_path target in
      case move_folder (rd_env d) (rd_now d) (xd_limit x) src dst (w_fs w) of
        (Inl e, fs) \<Rightarrow> (Inl (DatabaseError e), w\<lparr>w_fs := fs\<rparr>)
      | (Inr _, fs) \<Rightarrow>
          audit_append d
            (blueprint_entry d (bp_id b) (correct_label b) 0 source target Organized 0 (Some ''auto-correct rename''))
            (w\<lparr>w_fs := fs\<rparr>))"

definition correct_folder ::
    "blueprint_deps \<Rightarrow> blueprint \<Rightarrow> folder_plan \<Rightarrow> watch_config \<Rightarrow> string \<Rightarrow> string \<Rightarrow> world \<Rightarrow>
     (domain_error + unit) \<times> world" where
  "correct_folder x b p watch0 folder_path folder_name w =
     (let pe = xd_plan x; variables = folder_plan_default_variables (Some p);
          root = normalize_path (pe_canon pe) (bp_root_path b); source = normalize_path (pe_canon pe) folder_path;
          parent = (case path_parent source of Some q \<Rightarrow> q | None \<Rightarrow> root)
      in if \<not> is_path_under_root (pe_canon pe) parent root then (Inr (), w)
         else
           (let relative = relative_parent_of parent root in
            case (if relative = [] then first_node p else find_folder_plan_node pe (pl_nodes p) relative variables) of
              None \<Rightarrow> (Inl (FolderOutOfPattern relative), w)
            | Some node \<Rightarrow>
                (case map_err Validation
                        (resolve_correct_folder_name pe folder_name (wc_naming_pattern watch0) p (Some node) variables) of
                   Inl e \<Rightarrow> (Inl e, w)
                 | Inr correct_name \<Rightarrow>
                     (case validate_file_name correct_name of
                        Inl error \<Rightarrow>
                          (Inl (Validation (''auto-correct produced an invalid folder name ('' @ correct_name @ ''): '' @ error)), w)
                      | Inr _ \<Rightarrow>
                          (let children = (\<lambda>folder w. drop_result
                                 (apply_children_structure x b folder (fn_children node) variables w));
                               target = path_join parent correct_name
                           in if correct_name = folder_name then children source w
                              else if exists_at (parse_path target) (w_fs w) then children target w
                              else
                                (case correct_rename x b source target w of
                                   (Inl e, w1) \<Rightarrow> (Inl e, w1)
                                 | (Inr _, w1) \<Rightarrow> children target w1))))))"

definition handle_folder_auto_correct ::
    "blueprint_deps \<Rightarrow> uuid \<Rightarrow> string \<Rightarrow> string \<Rightarrow> blueprint_db \<Rightarrow> world \<Rightarrow> (domain_error + unit) \<times> world" where
  "handle_folder_auto_correct x bid folder_path folder_name db w =
     (case bp_store_get bid db of
        Inl e \<Rightarrow> (Inl e, w)
      | Inr b \<Rightarrow>
          if \<not> bp_enabled b \<or> bp_kind b \<noteq> FolderKind then (Inr (), w)
          else
            (case (bp_folder_plan b, bp_watch b) of
               (Some p, Some watch0) \<Rightarrow>
                 if wc_auto_correct watch0 then correct_folder x b p watch0 folder_path folder_name w else (Inr (), w)
             | _ \<Rightarrow> (Inr (), w)))"

section \<open>What the handler does\<close>

text \<open>The plan \<open>Client\<close> with \<open>Briefing\<close> below it, watched with correction, and a folder below the client's.\<close>

definition client_blueprint :: blueprint where
  "client_blueprint = (folder_blueprint Skip [FolderNode FolderCreate ''Client'' [] [] [node_create ''Briefing'']])
     \<lparr>bp_watch := Some (watch_default\<lparr>wc_enabled := True, wc_auto_correct := True\<rparr>)\<rparr>"

definition client_db :: blueprint_db where
  "client_db = \<lparr>bd_rows = [(7, \<lparr>br_payload = client_blueprint, br_updated_at = 0\<rparr>)], bd_counters = []\<rparr>"

definition dirs_tree :: "fpath list \<Rightarrow> fs" where
  "dirs_tree ds p = (if p \<in> set ds then Some Dir else None)"

text \<open>A folder below the root gets the name and the structure of the first node.\<close>

lemma new_folder_is_corrected:
  "case handle_folder_auto_correct demo_blueprint_deps 7 ''/in/new'' ''new'' client_db
      (world_with (dirs_tree [[], [''in''], [''in'', ''new'']])) of
     (r, w) \<Rightarrow> r = Inr () \<and> w_fs w [''in'', ''new''] = None \<and> w_fs w [''in'', ''Client''] = Some Dir \<and>
       w_fs w [''in'', ''Client'', ''Briefing''] = Some Dir"
  by code_simp

text \<open>A folder below a node's folder is given the name of that node, not of one of its children.\<close>

lemma nested_folder_takes_parent_name:
  "case handle_folder_auto_correct demo_blueprint_deps 7 ''/in/Client/Briefing'' ''Briefing'' client_db
      (world_with (dirs_tree [[], [''in''], [''in'', ''Client''], [''in'', ''Client'', ''Briefing'']])) of
     (r, w) \<Rightarrow> r = Inr () \<and> w_fs w [''in'', ''Client'', ''Briefing''] = None \<and>
       w_fs w [''in'', ''Client'', ''Client'', ''Briefing''] = Some Dir"
  by code_simp

end
