(* ===== verification/Blueprint_Rollback.thy ===== *)
theory Blueprint_Rollback
  imports Blueprint_Safety
begin

text \<open>
  Undoing the run of a file blueprint: the run leaves a trail in the sense of \<open>Execution\<close>, one step of the file system per
  item of its manifest, and the lemmas of \<open>Rollback\<close> walk it backwards.
\<close>

section \<open>Lemmas: one planned file\<close>

text \<open>Files move from the sources \<open>S\<close>, and no directory appears where one of them was.\<close>

definition blueprint_places :: "fpath set \<Rightarrow> places" where
  "blueprint_places S = \<lparr>new_dir = (\<lambda>q. q \<notin> S), target_ok = (\<lambda>_. True), source_ok = (\<lambda>s. s \<in> S)\<rparr>"

lemma blueprint_places_sel [simp]:
  "new_dir (blueprint_places S) q \<longleftrightarrow> q \<notin> S" "target_ok (blueprint_places S) t"
  "source_ok (blueprint_places S) s \<longleftrightarrow> s \<in> S"
  by (simp_all add: blueprint_places_def)

lemma resolve_conflict_fresh:
  assumes "resolve_conflict t0 strategy fs = Inr (Some t)" "strategy \<noteq> Overwrite" "tree_ok fs"
  shows "fs t = None" "t \<noteq> []" "butlast t = butlast t0"
  using resolve_conflict_cases [OF assms(1)] assms(2,3) by (auto simp: tree_ok_def)

lemma make_parent_grows:
  assumes "make_parent flag t fs = (r, fs1)" "tree_ok fs" "\<And>s. s \<in> S \<Longrightarrow> fs s \<noteq> Some Dir \<Longrightarrow> \<not> prefix s (butlast t)"
  shows "dirs_grow (\<lambda>q. q \<notin> S) fs fs1" "file_view fs1 = file_view fs"
    "t \<noteq> [] \<Longrightarrow> fs t = None \<Longrightarrow> fs1 t = None"
proof -
  have "fs1 = fs \<or> create_dir_all (butlast t) fs = Inr fs1"
    using assms(1) by (auto simp: make_parent_def run_step_def split: if_splits sum.splits)
  then have "dirs_grow (\<lambda>q. q \<notin> S) fs fs1 \<and> file_view fs1 = file_view fs \<and> (t \<noteq> [] \<and> fs t = None \<longrightarrow> fs1 t = None)"
  proof
    assume c: "create_dir_all (butlast t) fs = Inr fs1"
    have eq: "fs1 p = (if prefix p (butlast t) then Some Dir else fs p)" for p
      by (simp add: create_dir_all_eq(1) [OF c])
    have "dirs_grow (\<lambda>q. q \<notin> S) fs fs1"
      unfolding dirs_grow_def using assms(2,3) create_dir_all_tree [OF assms(2) c] eq by metis
    moreover have "\<not> prefix t (butlast t)" if "t \<noteq> []"
      using that by (metis append_butlast_last_id append_self_conv list.distinct(1) prefixI prefix_order.eq_iff)
    ultimately show ?thesis using create_dir_all_view [OF c] by (simp add: eq)
  qed (use assms(2) in \<open>simp add: dirs_grow_refl\<close>)
  then show "dirs_grow (\<lambda>q. q \<notin> S) fs fs1" "file_view fs1 = file_view fs"
    "t \<noteq> [] \<Longrightarrow> fs t = None \<Longrightarrow> fs1 t = None" by blast+
qed

text \<open>What carrying out one item does, by its result; the source is a file.\<close>

definition item_effect ::
    "timestamp \<Rightarrow> blueprint_operation \<Rightarrow> fpath \<Rightarrow> string + fpath option \<Rightarrow> fs \<Rightarrow> fs \<Rightarrow> bool" where
  "item_effect now op source r fs fs' \<longleftrightarrow>
     (case r of
        Inr (Some t) \<Rightarrow>
          (\<exists>c m. fs source = Some (File c m) \<and> file_view fs t = None \<and>
             (case op of
                OpCopy \<Rightarrow> fs' t = Some (File c now) \<and> file_view fs' = (file_view fs)(t \<mapsto> File c now)
              | OpMove \<Rightarrow> fs' t = Some (File c m) \<and> file_view fs' = (file_view fs)(source := None, t \<mapsto> File c m)))
      | _ \<Rightarrow> file_view fs' = file_view fs)"

lemma execute_plan_item_effect:
  assumes run: "execute_plan_item env now limit b item fs = (r, fs')"
    and env: "reliable env" "bp_conflict b \<noteq> Overwrite" "tree_ok fs" "\<not> path_eq (pi_source item) (pi_target item)"
    and src: "fs (parse_path (pi_source item)) = Some (File c m)" "parse_path (pi_source item) \<in> S"
    and apart: "\<And>s. s \<in> S \<Longrightarrow> \<not> strict_prefix s (parse_path (pi_target item))"
  shows "dirs_grow (\<lambda>q. q \<notin> S) fs fs' \<and> item_effect now (bp_operation b) (parse_path (pi_source item)) r fs fs'"
proof -
  let ?s = "parse_path (pi_source item)" and ?t0 = "parse_path (pi_target item)"
  show ?thesis
  proof (cases "resolve_conflict ?t0 (bp_conflict b) fs")
    case (Inl e)
    with run env(4) have "r = Inl e" "fs' = fs" by (auto simp: execute_plan_item_def Let_def)
    with env(3) show ?thesis by (simp add: item_effect_def dirs_grow_refl)
  next
    case (Inr found)
    show ?thesis
    proof (cases found)
      case None
      with Inr run env(4) have "r = Inr None" "fs' = fs" by (auto simp: execute_plan_item_def Let_def)
      with env(3) show ?thesis by (simp add: item_effect_def dirs_grow_refl)
    next
      case (Some t)
      note fresh = resolve_conflict_fresh [OF Inr [unfolded Some] env(2,3)]
      obtain u fs1 where mp: "make_parent (rc_create_intermediate_dirs (bp_routing b)) t fs = (u, fs1)" by (rule prod.exhaust)
      have above: "\<not> prefix q (butlast t)" if "q \<in> S" "fs q \<noteq> Some Dir" for q
      proof
        assume "prefix q (butlast t)"
        then have "prefix q (butlast ?t0)" by (simp add: fresh(3))
        moreover have "?t0 \<noteq> []" using calculation that(2) env(3) by (auto simp: tree_ok_def)
        ultimately have "strict_prefix q ?t0"
          by (metis append_butlast_last_id prefix_order.le_less_trans strict_prefix_def prefixI not_Cons_self2 append_self_conv)
        with apart that(1) show False by blast
      qed
      note grow = make_parent_grows [OF mp env(3) above]
      show ?thesis
      proof (cases u)
        case (Inl e)
        with mp Inr Some run env(4) have "r = Inl e" "fs' = fs1"
          by (auto simp: execute_plan_item_def Let_def and_then_def)
        with grow show ?thesis by (simp add: item_effect_def)
      next
        case u: (Inr v)
        with grow(3) fresh have t1: "fs1 t = None" by simp
        have tree: "tree_ok fs1" using grow(1) by (simp add: dirs_grow_def)
        have s1: "fs1 ?s = Some (File c m)"
          by (rule file_view_eq_Some) (simp add: grow(2) src(1))
        have ne: "?s \<noteq> t" using s1 t1 by auto
        have nd: "\<not> dir_at ?s fs1" "\<not> dir_at t fs1" by (simp_all add: dir_at_def s1 t1)
        obtain v fs2 where act: "(case bp_operation b of OpCopy \<Rightarrow> copy_any env now limit ?s t fs1
            | OpMove \<Rightarrow> move_any env now limit ?s t fs1) = (v, fs2)" by (rule prod.exhaust)
        have result: "r = (case v of Inl e \<Rightarrow> Inl e | Inr _ \<Rightarrow> Inr (Some t))" "fs' = fs2"
          using mp u Inr Some run env(4) act
          by (auto simp: execute_plan_item_def Let_def and_then_def split: sum.splits)
        have vt: "file_view fs t = None" using fresh(1) by (simp add: file_view_def)
        show ?thesis
        proof (cases "parent_dir t fs1")
          case False
          have "v = Inl ''cannot write the target'' \<and> fs2 = fs1"
            using act s1 nd False env(1) by (cases "bp_operation b")
              (simp_all add: copy_any_def move_any_def copy_file_def rename_path_def run_step_def and_then_def reliable_def)
          with result grow show ?thesis by (simp add: item_effect_def)
        next
          case True
          have added: "tree_ok (fs1(t \<mapsto> File c k))" for k using tree_ok_add [OF tree True] t1 by simp
          show ?thesis
          proof (cases "bp_operation b")
            case OpCopy
            with act s1 nd True env(1) have "v = Inr ()" "fs2 = fs1(t \<mapsto> File c now)"
              using ne by (auto simp: copy_any_def copy_file_def run_step_def reliable_def)
            moreover from this have "dirs_grow (\<lambda>q. q \<notin> S) fs1 fs2"
              using tree added t1 by (auto simp: dirs_grow_def)
            ultimately show ?thesis
              using dirs_grow_trans [OF grow(1)] result OpCopy src(1) vt
              by (auto simp: item_effect_def file_view_upd grow(2))
          next
            case OpMove
            with act s1 nd True env(1) ne have v: "v = Inr ()" "fs2 = fs1(?s := None, t \<mapsto> File c m)"
              by (auto simp: move_any_def rename_path_def reliable_def)
            have "fs2 = (fs1(t \<mapsto> File c m))(?s := None)" using v(2) ne by (simp add: fun_upd_twist)
            moreover have "tree_ok ((fs1(t \<mapsto> File c m))(?s := None))"
              using added s1 ne by (intro tree_ok_remove) (simp_all add: file_at_iff)
            ultimately have "dirs_grow (\<lambda>q. q \<notin> S) fs1 fs2" using tree t1 s1 by (auto simp: dirs_grow_def)
            then show ?thesis
              using dirs_grow_trans [OF grow(1)] result OpMove src(1) vt v
              by (auto simp: item_effect_def file_view_upd grow(2))
          qed
        qed
      qed
    qed
  qed
qed

section \<open>Lemmas: the run\<close>

text \<open>What the loop adds to the manifest while the tree goes from the one state to the other.\<close>

definition adds_trail :: "fs_env \<Rightarrow> fpath set \<Rightarrow> apply_state \<Rightarrow> apply_state \<Rightarrow> bool" where
  "adds_trail env S st st' \<longleftrightarrow>
     w_manifests (as_world st') = w_manifests (as_world st) \<and>
     (\<exists>items. as_items st' = as_items st @ items \<and> list_all reverted_as items \<and>
        ar_processed (as_result st') = ar_processed (as_result st) + of_nat (length items) \<and>
        trail env (blueprint_places S) items (w_fs (as_world st)) (w_fs (as_world st')))"

lemma adds_trail_refl: "tree_ok (w_fs (as_world st)) \<Longrightarrow> adds_trail env S st st"
  by (auto simp: adds_trail_def dirs_grow_refl)

lemma trail_append:
  "trail env pl its fs fs1 \<Longrightarrow> trail env pl its' fs1 fs2 \<Longrightarrow> trail env pl (its @ its') fs fs2"
  by (induction its arbitrary: fs) (auto intro: trail_prepend)

lemma adds_trail_trans:
  assumes "adds_trail env S st st1" "adds_trail env S st1 st2"
  shows "adds_trail env S st st2"
  using assms unfolding adds_trail_def by (fastforce intro: trail_append)

lemma apply_file_item_trail:
  assumes run: "apply_file_item x b index item st = (r, st')"
    and env: "reliable (rd_env (xd_run x))" "bp_conflict b \<noteq> Overwrite" "tree_ok (w_fs (as_world st))"
      "\<not> path_eq (pi_source item) (pi_target item)"
    and src: "file_at (parse_path (pi_source item)) (w_fs (as_world st))" "parse_path (pi_source item) \<in> S"
    and apart: "\<And>s. s \<in> S \<Longrightarrow> \<not> strict_prefix s (parse_path (pi_target item))"
  shows "adds_trail (rd_env (xd_run x)) S st st' \<and>
    (\<forall>q. q \<noteq> parse_path (pi_source item) \<longrightarrow> file_at q (w_fs (as_world st)) \<longrightarrow> file_at q (w_fs (as_world st')))"
proof -
  let ?env = "rd_env (xd_run x)" and ?s = "parse_path (pi_source item)" and ?fs = "w_fs (as_world st)"
  obtain c m where orig: "?fs ?s = Some (File c m)" using src(1) by (auto simp: file_at_iff)
  obtain o' fs' where ex: "execute_plan_item ?env (rd_now (xd_run x)) (xd_limit x) b item ?fs = (o', fs')" by (rule prod.exhaust)
  from execute_plan_item_effect [OF ex env orig src(2) apart]
  have grow: "dirs_grow (\<lambda>q. q \<notin> S) ?fs fs'"
    and effect: "item_effect (rd_now (xd_run x)) (bp_operation b) ?s o' ?fs fs'" by auto
  have st': "w_fs (as_world st') = fs'" "w_manifests (as_world st') = w_manifests (as_world st)"
    using arg_cong [OF run, of snd] ex
    by (auto simp: apply_file_item_def Let_def apply_frame split: sum.splits option.splits)
  show ?thesis
  proof (cases "\<exists>t. o' = Inr (Some t)")
    case False
    then have "as_items st' = as_items st" "ar_processed (as_result st') = ar_processed (as_result st)"
      using arg_cong [OF run, of snd] ex
      by (auto simp: apply_file_item_def Let_def apply_frame split: sum.splits option.splits)
    moreover have "file_view fs' = file_view ?fs"
      using effect False by (auto simp: item_effect_def split: sum.splits option.splits)
    ultimately show ?thesis
      using grow st' by (auto simp: adds_trail_def blueprint_places_def file_at_view)
  next
    case True
    then obtain t where t: "o' = Inr (Some t)" by blast
    define it where "it = \<lparr>ri_source_path = ?s, ri_target_path = t, ri_mode = mode_of (bp_operation b),
        ri_status = (if bp_operation b = OpMove then Moved else Copied),
        ri_target_hash = (case file_hash ?env t fs' of Inl _ \<Rightarrow> None | Inr h \<Rightarrow> Some h),
        ri_is_directory = dir_at ?s fs'\<rparr>"
    have "st' = snd (log_entry (xd_run x) (blueprint_entry (xd_run x) (bp_id b) (bp_name b) index (abs_path ?s)
        (abs_path t) Organized (file_size ?s fs') None) (count_processed [it] (set_fs fs' st)))"
      using arg_cong [OF run, of snd] ex t by (simp add: apply_file_item_def Let_def it_def)
    then have items: "as_items st' = as_items st @ [it]" "ar_processed (as_result st') = ar_processed (as_result st) + 1"
      by (simp_all add: apply_frame)
    have "fs' ?s \<noteq> Some Dir" using grow src(2) orig by (auto simp: dirs_grow_def)
    then have "\<not> dir_at ?s fs'" by (simp add: dir_at_def)
    with effect grow t orig src(2)
    have step: "item_step ?env (blueprint_places S) it ?fs fs'"
      by (cases "bp_operation b")
        (auto simp: item_step_def item_effect_def it_def file_hash_def blueprint_places_def)
    have "reverted_as it" by (simp add: reverted_as_def it_def)
    moreover have "dirs_grow (\<lambda>q. q \<notin> S) fs' fs'" using grow by (simp add: dirs_grow_def)
    ultimately have "adds_trail ?env S st st'"
      using st' items step unfolding adds_trail_def
      by (intro conjI exI [of _ "[it]"]) (auto simp: blueprint_places_def)
    moreover have "file_at q fs'" if "q \<noteq> ?s" "file_at q ?fs" for q
      using effect t that
      by (cases "bp_operation b") (auto simp: item_effect_def file_at_view)
    ultimately show ?thesis using st' by simp
  qed
qed

lemma apply_items_trail:
  assumes "apply_items (apply_file_item x b) index plan st = (r, st')"
    and env: "reliable (rd_env (xd_run x))" "bp_conflict b \<noteq> Overwrite" and "tree_ok (w_fs (as_world st))"
    and "list_all (\<lambda>i. \<not> path_eq (pi_source i) (pi_target i)) plan"
    and "distinct (map (parse_path \<circ> pi_source) plan)"
    and "\<forall>i \<in> set plan. parse_path (pi_source i) \<in> S \<and> file_at (parse_path (pi_source i)) (w_fs (as_world st))"
    and "\<forall>i \<in> set plan. \<forall>s \<in> S. \<not> strict_prefix s (parse_path (pi_target i))"
  shows "adds_trail (rd_env (xd_run x)) S st st'"
  using assms
proof (induction plan arbitrary: index st)
  case Nil
  then show ?case by (simp add: adds_trail_refl)
next
  case (Cons item plan)
  obtain r1 st1 where a: "apply_file_item x b index item st = (r1, st1)" by (rule prod.exhaust)
  have step: "adds_trail (rd_env (xd_run x)) S st st1 \<and>
    (\<forall>q. q \<noteq> parse_path (pi_source item) \<longrightarrow> file_at q (w_fs (as_world st)) \<longrightarrow> file_at q (w_fs (as_world st1)))"
    by (rule apply_file_item_trail [OF a env Cons.prems(4)]) (use Cons.prems in auto)
  show ?case
  proof (cases r1)
    case (Inl e)
    with a Cons.prems(1) step show ?thesis by simp
  next
    case (Inr u)
    with a Cons.prems(1) have "apply_items (apply_file_item x b) (Suc index) plan st1 = (r, st')" by simp
    moreover have "tree_ok (w_fs (as_world st1))"
      using step trail_tree unfolding adds_trail_def by blast
    moreover have "\<forall>i \<in> set plan. parse_path (pi_source i) \<noteq> parse_path (pi_source item)"
      using Cons.prems(6) by (auto simp: image_iff)
    ultimately have "adds_trail (rd_env (xd_run x)) S st1 st'"
      using Cons.prems(5,6,7,8) step by (intro Cons.IH [OF _ env]) auto
    with step show ?thesis using adds_trail_trans by blast
  qed
qed

lemma plan_items_differ:
  "fst (plan_candidates pe b dry index sources st) = Inr plan \<Longrightarrow>
   list_all (\<lambda>i. \<not> path_eq (pi_source i) (pi_target i)) plan"
proof (induction sources arbitrary: index st plan)
  case (Cons source sources)
  show ?case
  proof (cases "is_path_under_root (pe_canon pe) (normalize_path (pe_canon pe) source) (normalize_path (pe_canon pe) (bp_root_path b))")
    case True
    obtain r st' where d: "resolve_destination pe b source index dry st = (r, st')" by (rule prod.exhaust)
    obtain rest db' where rest: "plan_candidates pe b dry (Suc index) sources st' = (rest, db')" by (rule prod.exhaust)
    from Cons.prems True d rest Cons.IH [of "Suc index" st'] show ?thesis
      by (cases r; cases rest) (auto simp: Let_def split: if_splits)
  qed (use Cons in \<open>simp add: Let_def\<close>)
qed simp

definition undo_safe :: "plan_item list \<Rightarrow> fs \<Rightarrow> bool" where
  "undo_safe plan fs \<longleftrightarrow>
     distinct (map (parse_path \<circ> pi_source) plan) \<and>
     (\<forall>i \<in> set plan. file_at (parse_path (pi_source i)) fs \<and>
        (\<forall>j \<in> set plan. \<not> strict_prefix (parse_path (pi_source j)) (parse_path (pi_target i))))"

lemma apply_file_blueprint_trail:
  assumes "apply_file_blueprint x b eid w db = (Inr res, w', db')" "build_plan (xd_plan x) b False (w_fs w) db = (Inr plan, db1)"
    and "undo_safe plan (w_fs w)" "bp_conflict b \<noteq> Overwrite" "reliable (rd_env (xd_run x))" "tree_ok (w_fs w)"
  obtains items where "list_all reverted_as items" "ar_processed res = of_nat (length items)"
    "trail (rd_env (xd_run x)) (blueprint_places (set (map (parse_path \<circ> pi_source) plan))) items (w_fs w) (w_fs w')"
    "w_manifests w' = w_manifests (keep_blueprint_manifest (xd_run x) (bp_id b) eid items w)"
proof -
  let ?S = "set (map (parse_path \<circ> pi_source) plan)"
  obtain r st where st: "apply_items (apply_file_item x b) 0 plan (apply_start w) = (r, st)" by (rule prod.exhaust)
  have differ: "list_all (\<lambda>i. \<not> path_eq (pi_source i) (pi_target i)) plan"
  proof -
    obtain cands where "plan_candidates (xd_plan x) b False 0 cands ([], db) = (Inr plan, db1)"
      using assms(2) by (auto simp: build_plan_def split: if_splits sum.splits)
    then have "fst (plan_candidates (xd_plan x) b False 0 cands ([], db)) = Inr plan" by simp
    then show ?thesis by (rule plan_items_differ)
  qed
  have w0: "as_world (apply_start w) = w" "as_items (apply_start w) = []" "ar_processed (as_result (apply_start w)) = 0"
    by (simp_all add: apply_start_def)
  have "adds_trail (rd_env (xd_run x)) ?S (apply_start w) st"
    by (rule apply_items_trail [OF st assms(5,4) _ differ]) (use assms(3,6) w0 in \<open>auto simp: undo_safe_def\<close>)
  then obtain items where items: "as_items st = items" "list_all reverted_as items"
      "ar_processed (as_result st) = of_nat (length items)"
      "trail (rd_env (xd_run x)) (blueprint_places ?S) items (w_fs w) (w_fs (as_world st))"
      "w_manifests (as_world st) = w_manifests w"
    by (auto simp: adds_trail_def w0)
  have res: "res = as_result st" "w' = keep_blueprint_manifest (xd_run x) (bp_id b) eid items (as_world st)"
    using assms(1,2) st items(1)
    by (auto simp: apply_file_blueprint_def finish_items_def split: prod.splits sum.splits)
  show ?thesis
  proof (rule that)
    show "trail (rd_env (xd_run x)) (blueprint_places ?S) items (w_fs w) (w_fs w')"
      using items(4) res(2) by (simp add: keep_blueprint_manifest_def split: sum.split)
    show "w_manifests w' = w_manifests (keep_blueprint_manifest (xd_run x) (bp_id b) eid items w)"
      using items(5) res(2) by (simp add: keep_blueprint_manifest_def split: sum.split)
  qed (use items res in simp_all)
qed

section \<open>Properties\<close>

text \<open>
  C18. Applying a file blueprint and rolling it back gives back every file as it was. The hypotheses: the
  blueprint does not overwrite, the device copies faithfully, the sources of the plan are different
  files and no target lies below one of them (the old place of a moved file could then be a directory).
  Every item of the manifest is reverted, as many as the run processed.
\<close>

theorem blueprint_rollback_restores_every_file:
  assumes "apply_file_blueprint x b eid w db = (Inr res, w', db')" "build_plan (xd_plan x) b False (w_fs w) db = (Inr plan, db1)"
    and "undo_safe plan (w_fs w)" "bp_conflict b \<noteq> Overwrite" "reliable (rd_env (xd_run x))" "tree_ok (w_fs w)"
    and "w_manifests w' \<noteq> w_manifests w" "\<forall>r \<in> set (w_manifests w). mr_created_at r < rd_end (xd_run x)"
  shows "\<exists>w''. rollback_blueprint (xd_run x) uuid_text now (bp_id b) w' =
      (Inr \<lparr>rr_success = True, rr_reverted_count = ar_processed res, rr_skipped_count = 0\<rparr>, w'') \<and>
    file_view (w_fs w'') = file_view (w_fs w)"
proof -
  let ?d = "xd_run x" and ?pl = "blueprint_places (set (map (parse_path \<circ> pi_source) plan))"
  from assms(1-6) obtain items where items: "list_all reverted_as items" "ar_processed res = of_nat (length items)"
      and trail: "trail (rd_env ?d) ?pl items (w_fs w) (w_fs w')"
      and kept: "w_manifests w' = w_manifests (keep_blueprint_manifest ?d (bp_id b) eid items w)"
    by (rule apply_file_blueprint_trail)
  let ?m = "manifest_new_for_blueprint (rd_manifest_id ?d) (rd_end ?d) (bp_id b) eid items"
  have rows: "w_manifests w' = w_manifests w @ [\<lparr>mr_manifest = ?m, mr_rolled_back_at = None, mr_created_at = rd_end ?d\<rparr>]"
    using kept assms(7)
    by (auto simp: keep_blueprint_manifest_def manifest_save_def manifest_new_for_blueprint_def
        split: if_splits option.splits sum.splits)
  have latest: "latest_for_blueprint (bp_id b) (w_manifests w') = Some ?m"
    unfolding rows latest_for_blueprint_def using assms(8)
    by (subst latest_row_last) (simp_all add: manifest_new_for_blueprint_def)
  have all: "filter reverted_as items = items" "filter (\<lambda>it. \<not> reverted_as it) items = []"
    using items(1) by (auto simp: list_all_iff filter_id_conv filter_empty_conv)
  have "tree_ok (w_fs w')" using trail_tree [OF trail] .
  from revert_trail [OF trail assms(5) dirs_grow_refl [OF this] refl, of 0 0]
  obtain fs2 where "revert_items (rd_env ?d) items (w_fs w') = (fs2, of_nat (length items), 0)"
      "file_view fs2 = file_view (w_fs w)"
    by (auto simp: revert_items_def all)
  then show ?thesis
    by (auto simp: rollback_blueprint_def latest undo_manifest_def manifest_new_for_blueprint_def audit_append_def
        items(2) split: option.splits)
qed

text \<open>Both files of \<open>/in\<close> are moved to numbered names and come back.\<close>

definition moving_blueprint :: blueprint where
  "moving_blueprint = numbered_blueprint\<lparr>bp_operation := OpMove\<rparr>"

lemma moving_plan:
  "build_plan demo_env moving_blueprint False demo_tree numbered_db =
     (Inr [\<lparr>pi_source = ''/in/a.txt'', pi_target = ''/in/8-a.txt''\<rparr>,
           \<lparr>pi_source = ''/in/b.txt'', pi_target = ''/in/9-b.txt''\<rparr>],
      \<lparr>bd_rows = [], bd_counters = [((7, ''global''), Whole 10)]\<rparr>)"
  by code_simp

lemma moving_run:
  "case apply_file_blueprint demo_blueprint_deps moving_blueprint 5 (world_with demo_tree) numbered_db of
     (r, w', db') \<Rightarrow> (case r of Inl _ \<Rightarrow> False | Inr res \<Rightarrow> ar_processed res = 2) \<and> length (w_manifests w') = 1 \<and>
       w_fs w' [''in'', ''a.txt''] = None \<and> w_fs w' [''in'', ''8-a.txt''] = Some (File ''alpha'' 1)"
  by code_simp

theorem blueprint_rollback_restores_every_file_witness:
  "case apply_file_blueprint demo_blueprint_deps moving_blueprint 5 (world_with demo_tree) numbered_db of
     (r, w', db') \<Rightarrow> w_fs w' [''in'', ''a.txt''] = None \<and>
       (\<exists>w''. rollback_blueprint demo_deps show_nat 20 7 w' =
            (Inr \<lparr>rr_success = True, rr_reverted_count = 2, rr_skipped_count = 0\<rparr>, w'') \<and>
          w_fs w'' [''in'', ''a.txt''] = Some (File ''alpha'' 1))"
proof -
  obtain res w' db' where run: "apply_file_blueprint demo_blueprint_deps moving_blueprint 5 (world_with demo_tree) numbered_db =
      (Inr res, w', db')" and facts: "ar_processed res = 2" "length (w_manifests w') = 1" "w_fs w' [''in'', ''a.txt''] = None"
    using moving_run by (auto split: prod.splits sum.splits)
  have sel: "w_fs (world_with demo_tree) = demo_tree" "w_manifests (world_with demo_tree) = []" "xd_plan demo_blueprint_deps = demo_env"
      "xd_run demo_blueprint_deps = demo_deps" "bp_id moving_blueprint = 7"
    by (simp_all add: world_with_def demo_world_def demo_blueprint_deps_def moving_blueprint_def numbered_blueprint_def
        demo_blueprint_def blueprint_new_def)
  have safe: "undo_safe [\<lparr>pi_source = ''/in/a.txt'', pi_target = ''/in/8-a.txt''\<rparr>,
           \<lparr>pi_source = ''/in/b.txt'', pi_target = ''/in/9-b.txt''\<rparr>] demo_tree" by code_simp
  have "bp_conflict moving_blueprint \<noteq> Overwrite" by code_simp
  moreover have "reliable (rd_env demo_deps)" by (simp add: reliable_def demo_deps_def)
  moreover have "tree_ok demo_tree" by (auto simp: tree_ok_def demo_tree_def)
  moreover have "w_manifests w' \<noteq> []" using facts(2) by auto
  ultimately obtain w'' where w'': "rollback_blueprint demo_deps show_nat 20 7 w' =
        (Inr \<lparr>rr_success = True, rr_reverted_count = 2, rr_skipped_count = 0\<rparr>, w'')"
      "file_view (w_fs w'') = file_view demo_tree"
    using blueprint_rollback_restores_every_file [OF run, unfolded sel, OF moving_plan safe, of show_nat 20] facts(1) by auto
  moreover have "w_fs w'' [''in'', ''a.txt''] = Some (File ''alpha'' 1)"
    by (rule file_view_eq_Some) (simp add: w''(2), simp add: demo_tree_def)
  ultimately show ?thesis using run facts(3) by auto
qed

end
