(* ===== verification/Audit_Store.thy ===== *)
theory Audit_Store
  imports Admin_Domain Machine Execution
begin

text \<open>
  The local audit log: the table and queries of \<open>crates/autoflow-infrastructure/src/audit.rs\<close>, their types
  (\<open>crates/autoflow-domain/src/audit.rs\<close>) and the export of \<open>crates/autoflow-core/src/lib.rs\<close>. A row stores its status
  as text and its instant as RFC 3339 text, whose order is that of the instants. What the database
  computes in floating point is a parameter, and so is the text of dates and floating-point numbers.
\<close>

section \<open>Types\<close>

record audit_row =
  au_id :: int
  au_job_id :: "uuid option"
  au_blueprint_id :: "uuid option"
  au_job_name :: string
  au_source_path :: string
  au_target_path :: string
  au_status :: string
  au_file_size :: int
  au_duration_ms :: f64
  au_details :: "string option"
  au_created_at :: timestamp

text \<open>The table; \<open>ad_next\<close> is the number \<open>AUTOINCREMENT\<close> gives the next row.\<close>

record audit_db =
  ad_rows :: "audit_row list"
  ad_next :: int

record audit_entry =
  el_id :: int
  el_job_id :: "uuid option"
  el_blueprint_id :: "uuid option"
  el_job_name :: string
  el_source_path :: string
  el_target_path :: string
  el_status :: audit_status
  el_file_size :: int
  el_duration_ms :: f64
  el_details :: "string option"
  el_created_at :: timestamp

record audit_query =
  aq_search :: "string option"
  aq_status :: "audit_status option"
  aq_job_id :: "uuid option"
  aq_blueprint_id :: "uuid option"
  aq_date_from :: "timestamp option"
  aq_date_to :: "timestamp option"
  aq_limit :: int
  aq_offset :: int

record audit_summary =
  sm_total :: int
  sm_copied :: int
  sm_moved :: int
  sm_ignored :: int
  sm_failed :: int
  sm_organized :: int
  sm_total_bytes :: int
  sm_average_duration_ms :: f64
  sm_latest_at :: "timestamp option"

record audit_page =
  ap_entries :: "audit_entry list"
  ap_total :: int
  ap_limit :: int
  ap_offset :: int
  ap_summary :: audit_summary

definition audit_query_default :: audit_query where
  "audit_query_default = \<lparr>aq_search = None, aq_status = None, aq_job_id = None, aq_blueprint_id = None,
     aq_date_from = None, aq_date_to = None, aq_limit = 0, aq_offset = 0\<rparr>"

definition query_normalized :: "audit_query \<Rightarrow> audit_query" where
  "query_normalized q =
     q\<lparr>aq_search := (case aq_search q of None \<Rightarrow> None | Some s \<Rightarrow> if trim s = [] then None else Some (trim s)),
       aq_limit := clamp 1 1000 (aq_limit q), aq_offset := max 0 (aq_offset q)\<rparr>"

fun audit_status_to_db :: "audit_status \<Rightarrow> string" where
  "audit_status_to_db Copied = ''COPIED''"
| "audit_status_to_db Moved = ''MOVED''"
| "audit_status_to_db Ignored = ''IGNORED''"
| "audit_status_to_db Failed = ''FAILED''"
| "audit_status_to_db Organized = ''ORGANIZED''"
| "audit_status_to_db RolledBack = ''ROLLED_BACK''"

definition parse_audit_status :: "string \<Rightarrow> domain_error + audit_status" where
  "parse_audit_status raw =
     (if raw = ''COPIED'' then Inr Copied
      else if raw = ''MOVED'' then Inr Moved
      else if raw = ''IGNORED'' then Inr Ignored
      else if raw = ''FAILED'' then Inr Failed
      else if raw = ''ORGANIZED'' then Inr Organized
      else if raw = ''ROLLED_BACK'' then Inr RolledBack
      else Inl (DatabaseError (''unknown audit status: '' @ raw)))"

definition entry_of_audit_row :: "audit_row \<Rightarrow> domain_error + audit_entry" where
  "entry_of_audit_row r =
     rbind (parse_audit_status (au_status r)) (\<lambda>status.
       Inr \<lparr>el_id = au_id r, el_job_id = au_job_id r, el_blueprint_id = au_blueprint_id r,
            el_job_name = au_job_name r, el_source_path = au_source_path r, el_target_path = au_target_path r,
            el_status = status, el_file_size = au_file_size r, el_duration_ms = au_duration_ms r,
            el_details = au_details r, el_created_at = au_created_at r\<rparr>)"

section \<open>Queries\<close>

text \<open>
  \<open>text LIKE pattern\<close> of SQLite, which does not regard the case of ASCII letters: a percent sign stands
  for any text, an underscore for any character.
\<close>

fun sql_like :: "string \<Rightarrow> string \<Rightarrow> bool" where
  "sql_like [] s \<longleftrightarrow> s = []"
| "sql_like (p # ps) s \<longleftrightarrow>
     (if p = CHR ''%'' then sql_like ps s \<or> (case s of [] \<Rightarrow> False | _ # t \<Rightarrow> sql_like (p # ps) t)
      else (case s of [] \<Rightarrow> False
            | c # t \<Rightarrow> (p = CHR ''_'' \<or> to_lower p = to_lower c) \<and> sql_like ps t))"

definition sql_lower :: "string \<Rightarrow> string" where
  "sql_lower s = map to_lower s"

definition search_pattern :: "string \<Rightarrow> string" where
  "search_pattern search = ''%'' @ map to_lower search @ ''%''"

definition matches_search :: "string \<Rightarrow> audit_row \<Rightarrow> bool" where
  "matches_search search r \<longleftrightarrow>
     (let pattern = search_pattern search in
      sql_like pattern (sql_lower (au_job_name r)) \<or>
      sql_like pattern (sql_lower (au_source_path r)) \<or>
      sql_like pattern (sql_lower (au_target_path r)) \<or>
      sql_like pattern (sql_lower (or_empty (au_details r))))"

definition matches_filters :: "audit_query \<Rightarrow> audit_row \<Rightarrow> bool" where
  "matches_filters q r \<longleftrightarrow>
     (case aq_search q of None \<Rightarrow> True | Some s \<Rightarrow> matches_search s r) \<and>
     (case aq_status q of None \<Rightarrow> True | Some st \<Rightarrow> au_status r = audit_status_to_db st) \<and>
     (case aq_job_id q of None \<Rightarrow> True | Some jid \<Rightarrow> au_job_id r = Some jid) \<and>
     (case aq_blueprint_id q of None \<Rightarrow> True | Some bid \<Rightarrow> au_blueprint_id r = Some bid) \<and>
     (case aq_date_from q of None \<Rightarrow> True | Some t \<Rightarrow> au_created_at r \<ge> t) \<and>
     (case aq_date_to q of None \<Rightarrow> True | Some t \<Rightarrow> au_created_at r \<le> t)"

text \<open>\<open>ORDER BY created_at DESC, id DESC\<close>.\<close>

definition newest_rows :: "audit_row list \<Rightarrow> audit_row list" where
  "newest_rows rows = sort_key (\<lambda>r. - au_created_at r) (sort_key (\<lambda>r. - au_id r) rows)"

definition query_entries :: "audit_query \<Rightarrow> audit_db \<Rightarrow> domain_error + audit_entry list" where
  "query_entries q db =
     collect_rows entry_of_audit_row
       (take (nat (aq_limit q)) (drop (nat (aq_offset q)) (newest_rows (filter (matches_filters q) (ad_rows db)))))"

definition count_status :: "string \<Rightarrow> audit_row list \<Rightarrow> int" where
  "count_status status rows = sum_list (map (\<lambda>r. if au_status r = status then 1 else 0) rows)"

text \<open>
  The aggregates. \<open>SUM\<close> of integers fails when it leaves the 64-bit range; file sizes are not negative, so
  it leaves it on the way exactly when the whole sum does. \<open>average\<close> is what is decoded of \<open>COALESCE(AVG(..), 0)\<close>.
\<close>

definition query_summary ::
    "(f64 list \<Rightarrow> domain_error + f64) \<Rightarrow> audit_query \<Rightarrow> audit_db \<Rightarrow> domain_error + audit_summary" where
  "query_summary average q db =
     (let rows = filter (matches_filters q) (ad_rows db); bytes = sum_list (map au_file_size rows) in
      if bytes \<ge> 2 ^ 63 \<or> bytes < - (2 ^ 63) then Inl (DatabaseError ''integer overflow'')
      else
        rbind (average (map au_duration_ms rows)) (\<lambda>avg.
          Inr \<lparr>sm_total = int (length rows), sm_copied = count_status ''COPIED'' rows,
               sm_moved = count_status ''MOVED'' rows, sm_ignored = count_status ''IGNORED'' rows,
               sm_failed = count_status ''FAILED'' rows, sm_organized = count_status ''ORGANIZED'' rows,
               sm_total_bytes = bytes, sm_average_duration_ms = avg,
               sm_latest_at = (if rows = [] then None else Some (Max (au_created_at ` set rows)))\<rparr>))"

definition audit_store_query ::
    "(f64 list \<Rightarrow> domain_error + f64) \<Rightarrow> audit_query \<Rightarrow> audit_db \<Rightarrow> domain_error + audit_page" where
  "audit_store_query average q0 db =
     (let q = query_normalized q0 in
      rbind (query_summary average q db) (\<lambda>summary.
      rbind (query_entries q db) (\<lambda>entries.
        Inr \<lparr>ap_entries = entries, ap_total = sm_total summary, ap_limit = aq_limit q,
             ap_offset = aq_offset q, ap_summary = summary\<rparr>)))"

definition audit_list_recent ::
    "(f64 list \<Rightarrow> domain_error + f64) \<Rightarrow> int \<Rightarrow> audit_db \<Rightarrow> domain_error + audit_entry list" where
  "audit_list_recent average limit db =
     map_sum id ap_entries (audit_store_query average (audit_query_default\<lparr>aq_limit := limit\<rparr>) db)"

section \<open>Changes\<close>

definition audit_store_append :: "timestamp \<Rightarrow> new_audit_entry \<Rightarrow> audit_db \<Rightarrow> audit_db" where
  "audit_store_append now e db =
     \<lparr>ad_rows = ad_rows db @
        [\<lparr>au_id = ad_next db, au_job_id = ne_job_id e, au_blueprint_id = ne_blueprint_id e,
          au_job_name = ne_job_name e, au_source_path = ne_source_path e, au_target_path = ne_target_path e,
          au_status = audit_status_to_db (ne_status e), au_file_size = ne_file_size e,
          au_duration_ms = ne_duration_ms e, au_details = ne_details e, au_created_at = now\<rparr>],
      ad_next = ad_next db + 1\<rparr>"

definition audit_store_clear :: "audit_db \<Rightarrow> audit_db" where
  "audit_store_clear db = db\<lparr>ad_rows := []\<rparr>"

text \<open>\<open>Utc::now() - Duration::days(..)\<close> panics, \<open>None\<close>, before the first instant \<open>chrono\<close> knows, \<open>earliest\<close>.\<close>

definition days :: "32 word \<Rightarrow> int" where
  "days n = secs (uint n * 86400)"

definition audit_store_purge_older_than ::
    "timestamp \<Rightarrow> timestamp \<Rightarrow> 32 word \<Rightarrow> audit_db \<Rightarrow> (64 word \<times> audit_db) option" where
  "audit_store_purge_older_than earliest now n db =
     (if n = 0 then Some (0, db)
      else
        (let cutoff = now - days n; gone = filter (\<lambda>r. au_created_at r < cutoff) (ad_rows db) in
         if cutoff < earliest then None
         else Some (of_nat (length gone), db\<lparr>ad_rows := filter (\<lambda>r. \<not> au_created_at r < cutoff) (ad_rows db)\<rparr>)))"

section \<open>Export\<close>

datatype audit_export_format = Csv | Json

record audit_export =
  ex_file_name :: string
  ex_mime_type :: string
  ex_content :: string

text \<open>The text of instants (\<open>to_rfc3339\<close>) and of floating-point numbers.\<close>

record export_text =
  xt_time :: "timestamp \<Rightarrow> string"
  xt_float :: "f64 \<Rightarrow> string"

definition show_i64 :: "int \<Rightarrow> string" where
  "show_i64 n = (if n < 0 then CHR ''-'' # show_nat (nat (- n)) else show_nat (nat n))"

definition quote :: char where
  "quote = CHR 0x22"

definition line_feed :: char where
  "line_feed = CHR 0x0A"

definition csv_special :: "char \<Rightarrow> bool" where
  "csv_special c \<longleftrightarrow> c = CHR '','' \<or> c = quote \<or> c = line_feed \<or> c = CHR 0x0D"

definition double_quotes :: "string \<Rightarrow> string" where
  "double_quotes v = concat (map (\<lambda>c. if c = quote then [quote, quote] else [c]) v)"

definition csv_escape :: "string \<Rightarrow> string" where
  "csv_escape v = (if list_ex csv_special v then quote # double_quotes v @ [quote] else v)"

fun status_debug_upper :: "audit_status \<Rightarrow> string" where
  "status_debug_upper RolledBack = ''ROLLEDBACK''"
| "status_debug_upper st = audit_status_to_db st"

definition csv_fields :: "export_text \<Rightarrow> audit_entry \<Rightarrow> string list" where
  "csv_fields x e =
     [show_i64 (el_id e), xt_time x (el_created_at e), status_debug_upper (el_status e), el_job_name e,
      el_source_path e, el_target_path e, show_i64 (el_file_size e), xt_float x (el_duration_ms e),
      or_empty (el_details e)]"

definition csv_header :: "string list" where
  "csv_header = [''id'', ''created_at'', ''status'', ''job_name'', ''source_path'', ''target_path'', ''file_size'',
     ''duration_ms'', ''details'']"

definition csv_line :: "string list \<Rightarrow> string" where
  "csv_line cells = join_with '','' (map csv_escape cells) @ [line_feed]"

definition audit_entries_to_csv :: "export_text \<Rightarrow> audit_entry list \<Rightarrow> string" where
  "audit_entries_to_csv x entries =
     join_with '','' csv_header @ [line_feed] @ concat (map (\<lambda>e. csv_line (csv_fields x e)) entries)"

definition export_audit ::
    "export_text \<Rightarrow> (audit_entry list \<Rightarrow> domain_error + string) \<Rightarrow> string \<Rightarrow> (f64 list \<Rightarrow> domain_error + f64) \<Rightarrow>
     audit_query \<Rightarrow> audit_export_format \<Rightarrow> audit_db \<Rightarrow> domain_error + audit_export" where
  "export_audit x json stamp average q0 format db =
     (let q1 = query_normalized q0; q = q1\<lparr>aq_offset := 0, aq_limit := clamp 1 10000 (aq_limit q1)\<rparr> in
      rbind (audit_store_query average q db) (\<lambda>page.
        case format of
          Json \<Rightarrow>
            rbind (json (ap_entries page)) (\<lambda>content.
              Inr \<lparr>ex_file_name = ''autoflow-audit-'' @ stamp @ ''.json'', ex_mime_type = ''application/json'',
                   ex_content = content\<rparr>)
        | Csv \<Rightarrow>
            Inr \<lparr>ex_file_name = ''autoflow-audit-'' @ stamp @ ''.csv'', ex_mime_type = ''text/csv;charset=utf-8'',
                 ex_content = audit_entries_to_csv x (ap_entries page)\<rparr>))"

definition clear_audit :: "bool \<Rightarrow> audit_db \<Rightarrow> domain_error + audit_db" where
  "clear_audit confirm db =
     (if \<not> confirm then Inl (Validation ''audit clear requires confirmation'') else Inr (audit_store_clear db))"

section \<open>Lemmas: search\<close>

definition wild :: "char \<Rightarrow> bool" where
  "wild c \<longleftrightarrow> c = CHR ''%'' \<or> c = CHR ''_''"

lemma sql_like_percent: "sql_like (CHR ''%'' # ps) s \<longleftrightarrow> (\<exists>u t. s = u @ t \<and> sql_like ps t)"
proof (induction s)
  case (Cons c s)
  have "sql_like (CHR ''%'' # ps) (c # s) \<longleftrightarrow> sql_like ps (c # s) \<or> sql_like (CHR ''%'' # ps) s" by simp
  also have "\<dots> \<longleftrightarrow> (\<exists>u t. c # s = u @ t \<and> sql_like ps t)"
    unfolding Cons.IH by (metis append_Cons append_Nil append_eq_Cons_conv)
  finally show ?case .
qed simp

lemma sql_like_char:
  "\<not> wild p \<Longrightarrow> sql_like (p # ps) s \<longleftrightarrow> (\<exists>c t. s = c # t \<and> to_lower p = to_lower c \<and> sql_like ps t)"
  by (cases s) (auto simp: wild_def)

declare sql_like.simps(2) [simp del]

lemma sql_like_plain:
  "\<not> list_ex wild w \<Longrightarrow>
   sql_like (w @ ps) s \<longleftrightarrow> (\<exists>u t. s = u @ t \<and> map to_lower u = map to_lower w \<and> sql_like ps t)"
proof (induction w arbitrary: s)
  case (Cons p w)
  then have "sql_like ((p # w) @ ps) s \<longleftrightarrow> (\<exists>c r. s = c # r \<and> to_lower p = to_lower c \<and>
      (\<exists>u t. r = u @ t \<and> map to_lower u = map to_lower w \<and> sql_like ps t))"
    by (simp add: sql_like_char)
  also have "\<dots> \<longleftrightarrow> (\<exists>u t. s = u @ t \<and> map to_lower u = map to_lower (p # w) \<and> sql_like ps t)"
  proof
    assume "\<exists>c r. s = c # r \<and> to_lower p = to_lower c \<and> (\<exists>u t. r = u @ t \<and> map to_lower u = map to_lower w \<and> sql_like ps t)"
    then obtain c u t where "s = (c # u) @ t" "map to_lower (c # u) = map to_lower (p # w)" "sql_like ps t" by auto
    then show "\<exists>u t. s = u @ t \<and> map to_lower u = map to_lower (p # w) \<and> sql_like ps t" by blast
  next
    assume "\<exists>u t. s = u @ t \<and> map to_lower u = map to_lower (p # w) \<and> sql_like ps t"
    then obtain u t where u: "s = u @ t" "map to_lower u = map to_lower (p # w)" "sql_like ps t" by blast
    then show "\<exists>c r. s = c # r \<and> to_lower p = to_lower c \<and> (\<exists>u t. r = u @ t \<and> map to_lower u = map to_lower w \<and> sql_like ps t)"
      by (cases u) auto
  qed
  finally show ?case .
qed simp

lemma sql_like_any: "sql_like ''%'' s"
  unfolding sql_like_percent by auto

text \<open>A search text without wildcards is looked for as it is, without regard to case.\<close>

lemma search_pattern_sublist:
  assumes "\<not> list_ex wild search"
  shows "sql_like (search_pattern search) (sql_lower s) \<longleftrightarrow> sublist (map to_lower search) (map to_lower s)"
proof -
  have "wild (to_lower c) \<longleftrightarrow> wild c" for c
  proof -
    have "code (CHR ''%'') = 37" "code (CHR ''_'') = 95" by (simp_all add: code_def)
    then show ?thesis
      unfolding wild_def code_eq_iff [symmetric] code_to_lower by (auto simp: is_upper_def)
  qed
  then have "\<not> list_ex wild (map to_lower search)"
    using assms by (simp add: list_ex_iff)
  then have "sql_like (search_pattern search) (sql_lower s) \<longleftrightarrow>
      (\<exists>u v r. map to_lower s = u @ v @ r \<and> map to_lower v = map to_lower search)"
    by (auto simp: search_pattern_def sql_lower_def sql_like_percent sql_like_plain sql_like_any o_def)
  also have "\<dots> \<longleftrightarrow> (\<exists>u r. map to_lower s = u @ map to_lower search @ r)"
  proof -
    have "map to_lower v = v" if "map to_lower s = u @ v @ r" for u v r
    proof (rule map_idI)
      fix c assume "c \<in> set v"
      then have "c \<in> set (map to_lower s)" by (simp add: that)
      then show "to_lower c = c" by auto
    qed
    then show ?thesis by metis
  qed
  finally show ?thesis by (simp add: sublist_def)
qed

end
