(* ===== verification/Audit_Log.thy ===== *)
theory Audit_Log
  imports Audit_Store
begin

text \<open>
  What holds of the audit log: every table the program can reach decodes, paging through a query shows each
  matching entry once and the newest first, and the CSV export reads back as the entries exported.
\<close>

section \<open>The table as a machine\<close>

datatype audit_action =
    AppendEntry timestamp new_audit_entry
  | ClearLog
  | PurgeLog timestamp timestamp "32 word"

fun perform_audit :: "audit_action \<Rightarrow> audit_db \<Rightarrow> audit_db option" where
  "perform_audit (AppendEntry now e) db = Some (audit_store_append now e db)"
| "perform_audit ClearLog db = Some (audit_store_clear db)"
| "perform_audit (PurgeLog earliest now n) db = map_option snd (audit_store_purge_older_than earliest now n db)"

definition empty_audit :: audit_db where
  "empty_audit = \<lparr>ad_rows = [], ad_next = 1\<rparr>"

definition audit_ok :: "audit_db \<Rightarrow> bool" where
  "audit_ok db \<longleftrightarrow>
     distinct (map au_id (ad_rows db)) \<and> (\<forall>r \<in> set (ad_rows db). au_id r < ad_next db) \<and>
     (\<forall>r \<in> set (ad_rows db). \<exists>st. au_status r = audit_status_to_db st)"

lemma audit_status_inj [simp]: "audit_status_to_db st = audit_status_to_db st' \<longleftrightarrow> st = st'"
  by (cases st; cases st') simp_all

lemma parse_audit_status_db [simp]: "parse_audit_status (audit_status_to_db st) = Inr st"
  by (cases st) (simp_all add: parse_audit_status_def)

interpretation audit_machine: machine perform_audit empty_audit audit_ok
proof unfold_locales
  show "audit_ok empty_audit" by (simp add: audit_ok_def empty_audit_def)
  show "audit_ok db'" if "audit_ok db" "perform_audit a db = Some db'" for db a db'
  proof (cases a)
    case (AppendEntry now e)
    with that show ?thesis by (fastforce simp: audit_ok_def audit_store_append_def)
  next
    case ClearLog
    with that show ?thesis by (auto simp: audit_ok_def audit_store_clear_def)
  next
    case (PurgeLog earliest now n)
    with that show ?thesis
      by (auto simp: audit_ok_def audit_store_purge_older_than_def Let_def distinct_map_filter split: if_splits)
  qed
qed

section \<open>Lemmas: pages\<close>

definition newer :: "audit_row \<Rightarrow> audit_row \<Rightarrow> bool" where
  "newer a b \<longleftrightarrow> au_created_at a > au_created_at b \<or> au_created_at a = au_created_at b \<and> au_id a > au_id b"

lemma sorted_insort_key:
  assumes "sorted_wrt (\<lambda>a b. f a < f b \<or> f a = f b \<and> Q a b) xs" "\<forall>y \<in> set xs. Q x y"
  shows "sorted_wrt (\<lambda>a b. f a < f b \<or> f a = f b \<and> Q a b) (insort_key f x xs)"
  using assms by (induction xs) (fastforce simp: set_insort_key)+

text \<open>Sorting is stable: elements with the same key stay in the order they had.\<close>

lemma sorted_sort_key:
  "sorted_wrt Q xs \<Longrightarrow> sorted_wrt (\<lambda>a b. f a < f b \<or> f a = f b \<and> Q a b) (sort_key f xs)"
  by (induction xs) (auto intro!: sorted_insort_key)

lemma newest_rows_sorted:
  assumes "distinct (map au_id rows)"
  shows "sorted_wrt newer (newest_rows rows)"
proof -
  let ?xs = "sort_key (\<lambda>r. - au_id r) rows"
  have "distinct (map (\<lambda>r. - au_id r) ?xs)" using assms by (auto simp: distinct_map inj_on_def)
  then have "sorted_wrt (<) (map (\<lambda>r. - au_id r) ?xs)" by (simp add: strict_sorted_iff)
  then have "sorted_wrt (\<lambda>a b. au_id a > au_id b) ?xs" by (simp add: sorted_wrt_map)
  from sorted_sort_key [OF this, of "\<lambda>r. - au_created_at r"] show ?thesis
    by (simp add: newest_rows_def newer_def [abs_def] eq_commute)
qed

lemma concat_pages: "concat (map (\<lambda>k. take l (drop (k * l) xs)) [0..<n]) = take (n * l) xs"
proof (induction n)
  case (Suc n)
  have "take (Suc n * l) xs = take (n * l) xs @ take l (drop (n * l) xs)"
    by (simp only: mult_Suc add.commute [of l] take_add)
  with Suc show ?case by simp
qed simp

lemma collect_rows_all: "(\<And>r. r \<in> set rows \<Longrightarrow> f r = Inr (g r)) \<Longrightarrow> collect_rows f rows = Inr (map g rows)"
  by (induction rows) simp_all

text \<open>On a reachable table a query for any page succeeds when one does, and its entries are a slice of one list.\<close>

definition entry_of_ok_row :: "audit_row \<Rightarrow> audit_entry" where
  "entry_of_ok_row r = (case entry_of_audit_row r of Inr e \<Rightarrow> e | Inl _ \<Rightarrow> undefined)"

lemma entry_of_ok_row:
  assumes "audit_ok db" "r \<in> set (ad_rows db)"
  shows "entry_of_audit_row r = Inr (entry_of_ok_row r)"
    and "el_id (entry_of_ok_row r) = au_id r" "el_created_at (entry_of_ok_row r) = au_created_at r"
  using assms by (auto simp: audit_ok_def entry_of_audit_row_def entry_of_ok_row_def)

definition matching_rows :: "audit_query \<Rightarrow> audit_db \<Rightarrow> audit_row list" where
  "matching_rows q db = newest_rows (filter (matches_filters q) (ad_rows db))"

lemma set_matching_rows: "set (matching_rows q db) = {r \<in> set (ad_rows db). matches_filters q r}"
  by (simp add: matching_rows_def newest_rows_def)

lemma query_entries_ok:
  assumes "audit_ok db"
  shows "query_entries q db =
    Inr (map entry_of_ok_row (take (nat (aq_limit q)) (drop (nat (aq_offset q)) (matching_rows q db))))"
  unfolding query_entries_def matching_rows_def [symmetric]
  by (rule collect_rows_all, rule entry_of_ok_row(1) [OF assms])
    (auto dest!: in_set_takeD in_set_dropD simp: set_matching_rows)

lemma normalized_page: "aq_limit (query_normalized q) = clamp 1 1000 (aq_limit q)" "aq_offset (query_normalized q) = max 0 (aq_offset q)"
  by (simp_all add: query_normalized_def)

lemma matches_offset:
  "matches_filters (query_normalized (q\<lparr>aq_offset := n\<rparr>)) = matches_filters (query_normalized q)"
  by (simp add: fun_eq_iff matches_filters_def query_normalized_def)

lemma matching_offset: "matching_rows (query_normalized (q\<lparr>aq_offset := n\<rparr>)) db = matching_rows (query_normalized q) db"
  by (simp add: matching_rows_def matches_offset)

lemma summary_offset:
  "query_summary average (query_normalized (q\<lparr>aq_offset := n\<rparr>)) db = query_summary average (query_normalized q) db"
  by (simp add: query_summary_def matches_offset)

lemma summary_total: "query_summary average q db = Inr s \<Longrightarrow> sm_total s = int (length (matching_rows q db))"
  by (auto simp: query_summary_def Let_def result_simps matching_rows_def newest_rows_def split: if_splits)

lemma audit_store_query_ok:
  assumes "audit_ok db"
  shows "audit_store_query average q db =
    rbind (query_summary average (query_normalized q) db) (\<lambda>s.
      Inr \<lparr>ap_entries = map entry_of_ok_row (take (nat (clamp 1 1000 (aq_limit q)))
             (drop (nat (max 0 (aq_offset q))) (matching_rows (query_normalized q) db))),
           ap_total = sm_total s, ap_limit = clamp 1 1000 (aq_limit q), ap_offset = max 0 (aq_offset q), ap_summary = s\<rparr>)"
  by (simp add: audit_store_query_def Let_def query_entries_ok [OF assms] normalized_page)

lemma page_at:
  assumes "audit_ok db" "audit_store_query average q db = Inr page"
  shows "ap_limit page = clamp 1 1000 (aq_limit q)" "ap_total page = int (length (matching_rows (query_normalized q) db))"
    "query_summary average (query_normalized q) db = Inr (ap_summary page)"
    "audit_store_query average (q\<lparr>aq_offset := int n\<rparr>) db = Inr (page\<lparr>ap_offset := int n, ap_entries :=
       map entry_of_ok_row (take (nat (ap_limit page)) (drop n (matching_rows (query_normalized q) db)))\<rparr>)"
proof -
  obtain s where s: "query_summary average (query_normalized q) db = Inr s" and page: "page =
      \<lparr>ap_entries = map entry_of_ok_row (take (nat (clamp 1 1000 (aq_limit q)))
             (drop (nat (max 0 (aq_offset q))) (matching_rows (query_normalized q) db))),
       ap_total = sm_total s, ap_limit = clamp 1 1000 (aq_limit q), ap_offset = max 0 (aq_offset q), ap_summary = s\<rparr>"
    using assms(2) by (auto simp: audit_store_query_ok [OF assms(1)] result_simps)
  show "ap_limit page = clamp 1 1000 (aq_limit q)" "ap_total page = int (length (matching_rows (query_normalized q) db))"
      "query_summary average (query_normalized q) db = Inr (ap_summary page)"
    using s summary_total [OF s] by (simp_all add: page)
  show "audit_store_query average (q\<lparr>aq_offset := int n\<rparr>) db = Inr (page\<lparr>ap_offset := int n, ap_entries :=
       map entry_of_ok_row (take (nat (ap_limit page)) (drop n (matching_rows (query_normalized q) db)))\<rparr>)"
    by (simp add: audit_store_query_ok [OF assms(1)] summary_offset matching_offset s page)
qed

section \<open>Lemmas: the CSV export\<close>

text \<open>A reader of RFC 4180 files whose lines end in a line feed: the field and the line read so far, both reversed.\<close>

datatype csv_mode = FieldStart | Plain | Quoted | QuoteSeen

definition csv_separator ::
    "(csv_mode \<Rightarrow> string \<Rightarrow> string list \<Rightarrow> string list list) \<Rightarrow> char \<Rightarrow> string \<Rightarrow> string list \<Rightarrow> string list list" where
  "csv_separator next_char c f row =
     (if c = CHR '','' then next_char FieldStart [] (rev f # row)
      else if c = line_feed then rev (rev f # row) # next_char FieldStart [] []
      else next_char Plain (c # f) row)"

fun read_csv :: "string \<Rightarrow> csv_mode \<Rightarrow> string \<Rightarrow> string list \<Rightarrow> string list list" where
  "read_csv [] mode f row = (if mode = FieldStart \<and> row = [] then [] else [rev (rev f # row)])"
| "read_csv (c # s) mode f row =
     (case mode of
        FieldStart \<Rightarrow> if c = quote then read_csv s Quoted [] row else csv_separator (read_csv s) c f row
      | Plain \<Rightarrow> csv_separator (read_csv s) c f row
      | Quoted \<Rightarrow> if c = quote then read_csv s QuoteSeen f row else read_csv s Quoted (c # f) row
      | QuoteSeen \<Rightarrow> if c = quote then read_csv s Quoted (quote # f) row else csv_separator (read_csv s) c f row)"

lemma special_chars [simp]: "quote \<noteq> CHR '',''" "quote \<noteq> line_feed" "line_feed \<noteq> CHR '',''" "line_feed \<noteq> quote"
    "CHR '','' \<noteq> quote" "CHR '','' \<noteq> line_feed"
  by (simp_all add: quote_def line_feed_def)

lemma read_quoted: "read_csv (double_quotes v @ quote # s) Quoted f row = read_csv s QuoteSeen (rev v @ f) row"
  by (induction v arbitrary: f) (auto simp: double_quotes_def)

lemma read_plain:
  "\<not> list_ex csv_special v \<Longrightarrow> mode = FieldStart \<or> mode = Plain \<Longrightarrow> c = CHR '','' \<or> c = line_feed \<Longrightarrow>
   read_csv (v @ c # s) mode f row = csv_separator (read_csv s) c (rev v @ f) row"
proof (induction v arbitrary: mode f)
  case (Cons d v)
  then have d: "d \<noteq> CHR '',''" "d \<noteq> line_feed" "d \<noteq> quote" by (auto simp: csv_special_def)
  then have "read_csv ((d # v) @ c # s) mode f row = read_csv (v @ c # s) Plain (d # f) row"
    using Cons.prems(2) by (auto simp: csv_separator_def)
  with Cons show ?case by simp
qed auto

lemma read_escaped:
  "c = CHR '','' \<or> c = line_feed \<Longrightarrow>
   read_csv (csv_escape v @ c # s) FieldStart [] row = csv_separator (read_csv s) c (rev v) row"
  by (auto simp: csv_escape_def read_quoted read_plain)

lemma read_line:
  "cells \<noteq> [] \<Longrightarrow> read_csv (csv_line cells @ s) FieldStart [] row = (rev row @ cells) # read_csv s FieldStart [] []"
proof (induction cells arbitrary: row rule: induct_list012)
  case (2 cell)
  then show ?case by (simp add: csv_line_def read_escaped csv_separator_def)
next
  case (3 cell cell' cells)
  have "csv_line (cell # cell' # cells) @ s = csv_escape cell @ CHR '','' # csv_line (cell' # cells) @ s"
    by (simp add: csv_line_def)
  with 3 show ?case by (simp add: read_escaped csv_separator_def)
qed simp

lemma read_lines:
  "list_all (\<lambda>cells. cells \<noteq> []) lines \<Longrightarrow> read_csv (concat (map csv_line lines)) FieldStart [] [] = lines"
  by (induction lines) (simp_all add: read_line)

lemma csv_lines: "audit_entries_to_csv x entries = concat (map csv_line (csv_header # map (csv_fields x) entries))"
proof -
  have "map csv_escape csv_header = csv_header" by code_simp
  then show ?thesis by (simp add: audit_entries_to_csv_def csv_line_def o_def)
qed

section \<open>Properties\<close>

text \<open>
  C24. An exported CSV file reads back as what was exported. For any entries, whatever commas, quotes and
  line ends their names, paths and details hold, a reader of the format finds the header and one
  line of nine cells per entry, each cell as it was.
\<close>

theorem exported_csv_reads_back:
  "read_csv (audit_entries_to_csv x entries) FieldStart [] [] = csv_header # map (csv_fields x) entries"
  unfolding csv_lines by (rule read_lines) (simp add: csv_header_def csv_fields_def list_all_iff)

text \<open>
  C23. Paging through a query shows the whole answer. On every table the program can reach, if one page of a
  query is answered then so is each page of the same size, and the pages one after the other hold
  every matching entry exactly once, the newest first, as many as the total the page announced. The
  hypothesis on \<open>n\<close> says that \<open>n\<close> pages are enough for the total.
\<close>

theorem pages_cover_log:
  assumes "reach perform_audit empty_audit db" "audit_store_query average q db = Inr page"
    and "ap_total page \<le> int n * ap_limit page"
  shows "\<exists>pages. length pages = n \<and>
    (\<forall>k < n. audit_store_query average (q\<lparr>aq_offset := int k * ap_limit page\<rparr>) db = Inr (pages ! k)) \<and>
    (let es = concat (map ap_entries pages) in
     distinct (map el_id es) \<and> int (length es) = ap_total page \<and>
     sorted_wrt (\<lambda>a b. el_created_at a > el_created_at b \<or> el_created_at a = el_created_at b \<and> el_id a > el_id b) es \<and>
     Inr ` set es = entry_of_audit_row ` {r \<in> set (ad_rows db). matches_filters (query_normalized q) r})"
proof -
  let ?q = "query_normalized q" and ?rows = "matching_rows (query_normalized q) db"
  define l where "l = nat (ap_limit page)"
  define pages where "pages = map (\<lambda>k. page\<lparr>ap_offset := int (k * l), ap_entries :=
      map entry_of_ok_row (take l (drop (k * l) ?rows))\<rparr>) [0..<n]"
  have ok: "audit_ok db" using assms(1) by (rule audit_machine.reach_inv)
  note at = page_at [OF ok assms(2)]
  have l: "ap_limit page = int l" using at(1) by (simp add: l_def clamp_def)
  have "length ?rows \<le> n * l"
    using assms(3) unfolding at(2) l by (metis of_nat_le_iff of_nat_mult)
  moreover have "concat (map ap_entries pages) = map entry_of_ok_row (concat (map (\<lambda>k. take l (drop (k * l) ?rows)) [0..<n]))"
    by (simp add: pages_def o_def map_concat)
  ultimately have all: "concat (map ap_entries pages) = map entry_of_ok_row ?rows" by (simp add: concat_pages)
  have sound: "entry_of_audit_row r = Inr (entry_of_ok_row r)" "el_id (entry_of_ok_row r) = au_id r"
      "el_created_at (entry_of_ok_row r) = au_created_at r" if "r \<in> set ?rows" for r
    using that entry_of_ok_row [OF ok] by (simp_all add: set_matching_rows)
  have ids: "distinct (map au_id (filter (matches_filters ?q) (ad_rows db)))"
    using ok by (simp add: audit_ok_def distinct_map_filter)
  have "sorted_wrt newer ?rows"
    unfolding matching_rows_def by (rule newest_rows_sorted [OF ids])
  then have "sorted_wrt (\<lambda>a b. el_created_at a > el_created_at b \<or> el_created_at a = el_created_at b \<and> el_id a > el_id b)
      (map entry_of_ok_row ?rows)"
    by (auto simp: sorted_wrt_map newer_def sound elim!: sorted_wrt_mono_rel [rotated])
  moreover have "distinct (map el_id (map entry_of_ok_row ?rows))"
  proof -
    have "map el_id (map entry_of_ok_row ?rows) = map au_id ?rows" using sound(2) by simp
    moreover have "distinct (map au_id ?rows)"
      using ids by (auto simp: distinct_map matching_rows_def newest_rows_def)
    ultimately show ?thesis by (simp only:)
  qed
  moreover have "Inr ` set (map entry_of_ok_row ?rows) = entry_of_audit_row ` {r \<in> set (ad_rows db). matches_filters ?q r}"
    using sound(1) by (simp add: image_image set_matching_rows cong: image_cong_simp)
  moreover have "audit_store_query average (q\<lparr>aq_offset := int k * ap_limit page\<rparr>) db = Inr (pages ! k)" if "k < n" for k
    using at(4) [of "k * l"] that by (simp add: pages_def l l_def [symmetric])
  moreover have "length pages = n" by (simp add: pages_def)
  ultimately show ?thesis
    unfolding Let_def using at(2) by (intro exI [of _ pages]) (simp only: all length_map, blast)
qed

text \<open>Three entries, read two at a time: the newest is on the first page, the oldest on the second.\<close>

definition demo_entry :: "string \<Rightarrow> audit_status \<Rightarrow> new_audit_entry" where
  "demo_entry name st = \<lparr>ne_job_id = None, ne_blueprint_id = None, ne_job_name = name, ne_source_path = ''/in/a'',
     ne_target_path = ''/out/a'', ne_status = st, ne_file_size = 5, ne_duration_ms = 0, ne_details = None\<rparr>"

definition demo_actions :: "audit_action list" where
  "demo_actions = [AppendEntry 1 (demo_entry ''a'' Copied), AppendEntry 3 (demo_entry ''b'' Failed),
     AppendEntry 2 (demo_entry ''c'' Moved)]"

definition demo_log :: audit_db where
  "demo_log = the (run_all perform_audit demo_actions empty_audit)"

definition demo_query :: audit_query where
  "demo_query = audit_query_default\<lparr>aq_limit := 2\<rparr>"

theorem pages_cover_log_witness:
  "\<exists>page (pages :: audit_page list). audit_store_query (\<lambda>_. Inr 0) demo_query demo_log = Inr page \<and> length pages = 2 \<and>
     distinct (map el_id (concat (map ap_entries pages))) \<and> length (concat (map ap_entries pages)) = 3"
proof -
  have run: "run_all perform_audit demo_actions empty_audit = Some demo_log"
    by (simp add: demo_log_def demo_actions_def)
  have reach: "reach perform_audit empty_audit demo_log"
    using reach_run_all [OF reach_init run] .
  have "case audit_store_query (\<lambda>_. Inr 0) demo_query demo_log of Inl _ \<Rightarrow> False
      | Inr page \<Rightarrow> ap_total page = 3 \<and> ap_limit page = 2" by code_simp
  then obtain page where page: "audit_store_query (\<lambda>_. Inr 0) demo_query demo_log = Inr page"
      "ap_total page = 3" "ap_limit page = 2"
    by (cases "audit_store_query (\<lambda>_. Inr 0) demo_query demo_log") auto
  have enough: "ap_total page \<le> int 2 * ap_limit page" by (simp add: page)
  have "\<exists>pages :: audit_page list. length pages = 2 \<and> distinct (map el_id (concat (map ap_entries pages))) \<and>
      int (length (concat (map ap_entries pages))) = ap_total page"
    using pages_cover_log [OF reach page(1) enough] unfolding Let_def by blast
  then obtain pages :: "audit_page list" where "length pages = 2" "distinct (map el_id (concat (map ap_entries pages)))"
      "int (length (concat (map ap_entries pages))) = 3"
    unfolding page(2) by blast
  moreover from this(3) have "length (concat (map ap_entries pages)) = 3" by linarith
  ultimately show ?thesis using page(1) by blast
qed

section \<open>What search and export do not do\<close>

text \<open>The wildcards of \<open>LIKE\<close> are not escaped: an underscore finds every entry that has a name.\<close>

lemma underscore_finds_everything:
  assumes "au_job_name r \<noteq> []"
  shows "matches_search ''_'' r"
proof -
  from assms obtain c t where "sql_lower (au_job_name r) = [c] @ t" by (cases "au_job_name r") (auto simp: sql_lower_def)
  moreover have "sql_like ''_%'' ([c] @ t)" using sql_like_any by (simp add: sql_like.simps(2))
  ultimately have "\<exists>u r'. sql_lower (au_job_name r) = u @ r' \<and> sql_like ''_%'' r'"
    by (intro exI [of _ "[]"] exI [of _ "[c] @ t"] conjI) simp_all
  then have "sql_like (CHR ''%'' # ''_%'') (sql_lower (au_job_name r))" unfolding sql_like_percent .
  moreover have "search_pattern ''_'' = CHR ''%'' # ''_%''" by code_simp
  ultimately have "sql_like (search_pattern ''_'') (sql_lower (au_job_name r))" by (simp only:)
  then show ?thesis by (simp add: matches_search_def)
qed

text \<open>An export takes no more than one page: the limit is cut to 1000 before it is raised to 10000.\<close>

lemma export_is_one_page:
  "clamp 1 10000 (aq_limit (query_normalized q)) \<le> 1000 \<and>
   aq_limit (query_normalized ((query_normalized q)\<lparr>aq_limit := clamp 1 10000 (aq_limit (query_normalized q))\<rparr>)) \<le> 1000"
  by (simp add: query_normalized_def clamp_def)

text \<open>A retention of \<open>u32::MAX\<close> days reaches back before the first instant \<open>chrono\<close> has, and the purge panics.\<close>

lemma long_retention_panics:
  assumes "earliest = secs (- 96465293 * 86400)" "0 \<le> now" "now < secs (100000 * 86400)"
  shows "audit_store_purge_older_than earliest now (- 1) db = None"
  using assms by (simp add: audit_store_purge_older_than_def Let_def days_def secs_def unsigned_minus_1_eq_mask mask_eq_exp_minus_1)

end
