(* ===== verification/Watch_Service.thy ===== *)
theory Watch_Service
  imports Job_Queue Blueprint_Naming
begin

text \<open>
  The watch runtime, \<open>crates/autoflow-core/src/watch.rs\<close>: which jobs and blueprints are watched, the events
  a debouncer or a poller sends, and the worker that starts their runs. The state is what stands behind
  the locks of \<open>WatchServiceInner\<close> with the channel, the spawned tasks and what they work on; a section
  between two locks or awaits is one action. What \<open>notify\<close> reports, and whether it can watch a path, is a
  parameter; so are the length and the time of a directory's entry.
\<close>

section \<open>Events\<close>

datatype watch_target = WatchJob uuid | WatchBlueprint uuid

datatype watch_event = FolderCreated uuid string string | BlueprintTriggered uuid | JobTriggered uuid

text \<open>The kinds of \<open>notify::EventKind\<close> the code tells apart.\<close>

datatype fs_event_kind = FolderCreatedKind | OtherCreatedKind | NameModifiedKind | OtherModifiedKind | RemovedKind | OtherKind

record fs_event =
  ev_kind :: fs_event_kind
  ev_paths :: "string list"

fun watch_kind_of :: "fs_event_kind \<Rightarrow> watch_event_kind option" where
  "watch_kind_of FolderCreatedKind = Some CreateEvent"
| "watch_kind_of OtherCreatedKind = Some CreateEvent"
| "watch_kind_of NameModifiedKind = Some RenameEvent"
| "watch_kind_of OtherModifiedKind = Some ModifyEvent"
| "watch_kind_of RemovedKind = Some RemoveEvent"
| "watch_kind_of OtherKind = None"

definition matches_watch_event :: "fs_event_kind \<Rightarrow> watch_event_kind list \<Rightarrow> bool" where
  "matches_watch_event kind allowed \<longleftrightarrow>
     (case watch_kind_of kind of None \<Rightarrow> False | Some event \<Rightarrow> event \<in> set allowed)"

section \<open>Realtime watching\<close>

record realtime_watch =
  rw_allowed :: "watch_event_kind list"
  rw_settle :: "32 word"
  rw_auto_correct :: bool
  rw_root :: string
  rw_recursive :: bool

text \<open>What the callback of a settled batch sends: both look at the first matching event only.\<close>

definition realtime_job_events :: "realtime_watch \<Rightarrow> uuid \<Rightarrow> fs_event list \<Rightarrow> watch_event list" where
  "realtime_job_events rw jid batch =
     (if list_ex (\<lambda>e. matches_watch_event (ev_kind e) (rw_allowed rw)) batch then [JobTriggered jid] else [])"

definition or_no_name :: "string \<Rightarrow> string" where
  "or_no_name path = or_empty (file_name path)"

definition realtime_blueprint_events :: "realtime_watch \<Rightarrow> uuid \<Rightarrow> fs_event list \<Rightarrow> watch_event list" where
  "realtime_blueprint_events rw bid batch =
     (case find (\<lambda>e. matches_watch_event (ev_kind e) (rw_allowed rw)) batch of
        None \<Rightarrow> []
      | Some e \<Rightarrow>
          if rw_auto_correct rw \<and> ev_kind e = FolderCreatedKind
          then (case find (\<lambda>p. prefix (parse_path (rw_root rw)) (parse_path p)) (ev_paths e) of
                  None \<Rightarrow> []
                | Some p \<Rightarrow> [FolderCreated bid p (or_no_name p)])
          else [BlueprintTriggered bid])"

section \<open>Polling\<close>

record watch_env =
  we_fs :: fs_env
  we_dir_stat :: "fpath \<Rightarrow> fs \<Rightarrow> nat \<times> timestamp"
  we_start_error :: "watch_target \<Rightarrow> realtime_watch \<Rightarrow> string option"

type_synonym dir_snapshot = "(fpath, nat \<times> nat \<times> bool) hash_map"

definition unix_secs :: "timestamp \<Rightarrow> nat" where
  "unix_secs t = (if t < 0 then 0 else nat (t div secs 1))"

definition file_signature :: "watch_env \<Rightarrow> fpath \<Rightarrow> fs \<Rightarrow> (nat \<times> nat \<times> bool) option" where
  "file_signature we p fs =
     (case fs p of
        None \<Rightarrow> None
      | Some Dir \<Rightarrow> (case we_dir_stat we p fs of (len, t) \<Rightarrow> Some (len, unix_secs t, True))
      | Some (File c t) \<Rightarrow> Some (length c, unix_secs t, False))"

definition add_signature :: "watch_env \<Rightarrow> fs \<Rightarrow> fpath \<Rightarrow> dir_snapshot \<Rightarrow> dir_snapshot" where
  "add_signature we fs p snap =
     (case file_signature we p fs of None \<Rightarrow> snap | Some sig \<Rightarrow> hm_insert p sig snap)"

definition directory_snapshot :: "watch_env \<Rightarrow> fpath \<Rightarrow> fs \<Rightarrow> dir_snapshot" where
  "directory_snapshot we root fs =
     (if \<not> exists_at root fs then []
      else if file_at root fs then add_signature we fs root []
      else fold (add_signature we fs) (filter (\<lambda>p. p \<noteq> root) (fs_walk (we_fs we) False root fs)) [])"

definition same_entries :: "dir_snapshot \<Rightarrow> dir_snapshot \<Rightarrow> bool" where
  "same_entries a b \<longleftrightarrow> list_all (\<lambda>p. hm_get p a = hm_get p b) (hm_keys a @ hm_keys b)"

definition top_folder :: "fpath \<Rightarrow> fpath \<times> nat \<times> nat \<times> bool \<Rightarrow> bool" where
  "top_folder root entry = (case entry of (p, _, _, is_dir) \<Rightarrow> is_dir \<and> p \<noteq> [] \<and> butlast p = root)"

definition poll_events :: "watch_target \<Rightarrow> fpath \<Rightarrow> bool \<Rightarrow> dir_snapshot \<Rightarrow> dir_snapshot \<Rightarrow> watch_event list" where
  "poll_events trg root auto_correct old current =
     (if same_entries old current then []
      else
        (case trg of
           WatchJob jid \<Rightarrow> [JobTriggered jid]
         | WatchBlueprint bid \<Rightarrow>
             (let changed = filter (\<lambda>(p, sig). hm_get p old \<noteq> Some sig) current;
                  folders = (if auto_correct then filter (top_folder root) changed else []);
                  other_change = auto_correct \<and> list_ex (\<lambda>e. \<not> top_folder root e) changed
              in map (\<lambda>(p, _). FolderCreated bid (abs_path p) (last p)) folders @
                 (if folders = [] \<or> other_change then [BlueprintTriggered bid] else []))))"

section \<open>The state\<close>

record watch_handle =
  wn_realtime :: "realtime_watch option"
  wn_polls :: bool

record poller =
  po_target :: watch_target
  po_root :: fpath
  po_interval :: "32 word"
  po_auto_correct :: bool
  po_snapshot :: dir_snapshot

text \<open>A spawned run: its body has yet to be done; it has to leave the busy set; it has to be suppressed for a while.\<close>

datatype run_phase = RunStarting | RunEnding | RunReleased

record watch_run =
  wr_blueprint :: uuid
  wr_event :: watch_event
  wr_phase :: run_phase

record watch_state =
  wt_handles :: "(watch_target, watch_handle) hash_map"
  wt_pollers :: "poller list"
  wt_channel :: "watch_event list"
  wt_busy :: "uuid list"
  wt_suppressed :: "(uuid, timestamp) hash_map"
  wt_checked :: "(uuid \<times> watch_event) option"
  wt_runs :: "watch_run list"
  wt_queue :: job_queue
  wt_world :: world
  wt_db :: blueprint_db

section \<open>What is watched\<close>

definition should_watch_job :: "job \<Rightarrow> fs \<Rightarrow> bool" where
  "should_watch_job j fs \<longleftrightarrow>
     job_enabled j \<and> (case watch j of None \<Rightarrow> False | Some w \<Rightarrow> wc_enabled w) \<and> exists_at (parse_path (source_path j)) fs"

definition should_watch_blueprint :: "blueprint \<Rightarrow> fs \<Rightarrow> bool" where
  "should_watch_blueprint b fs \<longleftrightarrow>
     bp_enabled b \<and> blueprint_watch_active b \<and> exists_at (parse_path (bp_root_path b)) fs"

definition unregister :: "watch_target \<Rightarrow> watch_state \<Rightarrow> watch_state" where
  "unregister trg s = s\<lparr>wt_handles := hm_remove trg (wt_handles s)\<rparr>"

text \<open>
  Starting the debouncer and the poller of a target. The poller is a spawned task: dropping its handle does
  not end it, so it stays when the target is unregistered.
\<close>

definition register ::
    "watch_env \<Rightarrow> watch_target \<Rightarrow> watch_config \<Rightarrow> string \<Rightarrow> bool \<Rightarrow> bool \<Rightarrow> watch_state \<Rightarrow>
     (domain_error + unit) \<times> watch_state" where
  "register we trg w root recursive_flag auto_correct s =
     (let rw = \<lparr>rw_allowed = wc_events w, rw_settle = wc_settle_seconds w, rw_auto_correct = auto_correct,
                rw_root = root, rw_recursive = recursive_flag\<rparr>;
          path = parse_path root; fs = w_fs (wt_world s)
      in if \<not> exists_at path fs then (Inl (SourceNotFound root), s)
         else
           (case (if uses_realtime w then we_start_error we trg rw else None) of
              Some e \<Rightarrow> (Inl (DatabaseError e), s)
            | None \<Rightarrow>
                (Inr (), s\<lparr>
                   wt_pollers := wt_pollers s @
                     (case poll_interval_secs w of
                        None \<Rightarrow> []
                      | Some interval \<Rightarrow>
                          [\<lparr>po_target = trg, po_root = path, po_interval = interval,
                            po_auto_correct = auto_correct, po_snapshot = directory_snapshot we path fs\<rparr>]),
                   wt_handles := hm_insert trg
                     \<lparr>wn_realtime = (if uses_realtime w then Some rw else None), wn_polls = uses_polling w\<rparr>
                     (wt_handles s)\<rparr>)))"

definition sync_job :: "watch_env \<Rightarrow> job \<Rightarrow> watch_state \<Rightarrow> (domain_error + unit) \<times> watch_state" where
  "sync_job we j s0 =
     (let trg = WatchJob (job_id j); s = unregister trg s0 in
      if \<not> should_watch_job j (w_fs (wt_world s)) then (Inr (), s)
      else
        (case watch j of
           None \<Rightarrow> (Inr (), s)
         | Some w \<Rightarrow> register we trg w (source_path j) (recursive (filters j)) False s))"

definition sync_blueprint :: "watch_env \<Rightarrow> blueprint \<Rightarrow> watch_state \<Rightarrow> (domain_error + unit) \<times> watch_state" where
  "sync_blueprint we b s0 =
     (let trg = WatchBlueprint (bp_id b); s = unregister trg s0 in
      if \<not> should_watch_blueprint b (w_fs (wt_world s)) then (Inr (), s)
      else
        (case bp_watch b of
           None \<Rightarrow> (Inr (), s)
         | Some w \<Rightarrow> register we trg w (bp_root_path b) (bp_recursive b) (wc_auto_correct w) s))"


text \<open>Every job, then every blueprint, up to the first error.\<close>

fun sync_each :: "('b \<Rightarrow> watch_state \<Rightarrow> (domain_error + unit) \<times> watch_state) \<Rightarrow> 'b list \<Rightarrow> watch_state \<Rightarrow>
    (domain_error + unit) \<times> watch_state" where
  "sync_each f [] s = (Inr (), s)"
| "sync_each f (y # ys) s = (case f y s of (Inl e, s) \<Rightarrow> (Inl e, s) | (Inr (), s) \<Rightarrow> sync_each f ys s)"

definition sync_all :: "watch_env \<Rightarrow> store_config \<Rightarrow> timestamp \<Rightarrow> watch_state \<Rightarrow> (domain_error + unit) \<times> watch_state" where
  "sync_all we cfg now s =
     (case sync_each (\<lambda>summary s. case store_get cfg now (js_id summary) (w_jobs (wt_world s)) of
                        Inl e \<Rightarrow> (Inl e, s) | Inr j \<Rightarrow> sync_job we j s)
             (store_list cfg now (w_jobs (wt_world s))) s of
        (Inl e, s) \<Rightarrow> (Inl e, s)
      | (Inr (), s) \<Rightarrow>
          sync_each (\<lambda>summary s. case bp_store_get (bs_id summary) (wt_db s) of
                       Inl e \<Rightarrow> (Inl e, s) | Inr b \<Rightarrow> sync_blueprint we b s)
            (bp_store_list (wt_db s)) s)"

lemma hm_contains_handle [simp]:
  "hm_contains k (hm_insert k' v m) \<longleftrightarrow> k = k' \<or> hm_contains k m"
  "hm_contains k (hm_remove k' m) \<longleftrightarrow> k \<noteq> k' \<and> hm_contains k m"
  by (auto simp: hm_contains_get hm_simps)

text \<open>After a job is synchronised it has a handle exactly when it is to be watched, or the watch failed.\<close>

lemma sync_job_handle:
  assumes "sync_job we j s = (Inr (), s')"
  shows "hm_contains (WatchJob (job_id j)) (wt_handles s') \<longleftrightarrow> should_watch_job j (w_fs (wt_world s))"
  using assms
  by (auto simp: sync_job_def register_def unregister_def should_watch_job_def Let_def
      split: if_splits option.splits)

lemma sync_job_failed:
  assumes "sync_job we j s = (Inl e, s')"
  shows "should_watch_job j (w_fs (wt_world s)) \<and> \<not> hm_contains (WatchJob (job_id j)) (wt_handles s') \<and>
    (\<exists>msg. e = DatabaseError msg)"
  using assms
  by (auto simp: sync_job_def register_def unregister_def should_watch_job_def Let_def
      split: if_splits option.splits)

section \<open>The worker\<close>

text \<open>\<open>is_blueprint_suppressed\<close>: an entry that has run out is removed.\<close>

definition is_blueprint_suppressed :: "uuid \<Rightarrow> timestamp \<Rightarrow> watch_state \<Rightarrow> bool \<times> watch_state" where
  "is_blueprint_suppressed bid now s =
     (case hm_get bid (wt_suppressed s) of
        None \<Rightarrow> (False, s)
      | Some until \<Rightarrow>
          if now < until then (True, s) else (False, s\<lparr>wt_suppressed := hm_remove bid (wt_suppressed s)\<rparr>))"

definition begin_blueprint_run :: "uuid \<Rightarrow> watch_state \<Rightarrow> bool \<times> watch_state" where
  "begin_blueprint_run bid s =
     (if bid \<in> set (wt_busy s) then (False, s) else (True, s\<lparr>wt_busy := bid # wt_busy s\<rparr>))"

text \<open>The two locks of \<open>end_blueprint_run\<close>, one after the other.\<close>

definition release_blueprint :: "uuid \<Rightarrow> watch_state \<Rightarrow> watch_state" where
  "release_blueprint bid s = s\<lparr>wt_busy := removeAll bid (wt_busy s)\<rparr>"

definition suppress_blueprint :: "uuid \<Rightarrow> timestamp \<Rightarrow> watch_state \<Rightarrow> watch_state" where
  "suppress_blueprint bid now s = s\<lparr>wt_suppressed := hm_insert bid (now + secs 2) (wt_suppressed s)\<rparr>"

text \<open>
  The worker takes an event when it is not between the two guards of the last one. A job is enqueued and a
  refusal ignored; an event of a blueprint that is not suppressed goes on to the second guard.
\<close>

definition receive_event :: "timestamp \<Rightarrow> uuid \<Rightarrow> watch_state \<Rightarrow> watch_state option" where
  "receive_event now new_v4 s =
     (if wt_checked s \<noteq> None then None
      else
        (case wt_channel s of
           [] \<Rightarrow> None
         | ev # rest \<Rightarrow>
             (let s = s\<lparr>wt_channel := rest\<rparr> in
              case ev of
                JobTriggered jid \<Rightarrow>
                  (case perform (DoEnqueue new_v4 jid) (wt_queue s) of
                     None \<Rightarrow> None
                   | Some q \<Rightarrow> Some (s\<lparr>wt_queue := q\<rparr>))
              | FolderCreated bid _ _ \<Rightarrow>
                  (case is_blueprint_suppressed bid now s of
                     (True, s) \<Rightarrow> Some s
                   | (False, s) \<Rightarrow> Some (s\<lparr>wt_checked := Some (bid, ev)\<rparr>))
              | BlueprintTriggered bid \<Rightarrow>
                  (case is_blueprint_suppressed bid now s of
                     (True, s) \<Rightarrow> Some s
                   | (False, s) \<Rightarrow> Some (s\<lparr>wt_checked := Some (bid, ev)\<rparr>)))))"

text \<open>The second guard, and the task it spawns.\<close>

definition begin_checked :: "watch_state \<Rightarrow> watch_state option" where
  "begin_checked s =
     (case wt_checked s of
        None \<Rightarrow> None
      | Some (bid, ev) \<Rightarrow>
          (case begin_blueprint_run bid (s\<lparr>wt_checked := None\<rparr>) of
             (False, s) \<Rightarrow> Some s
           | (True, s) \<Rightarrow>
               Some (s\<lparr>wt_runs := wt_runs s @
                 [\<lparr>wr_blueprint = bid, wr_event = ev, wr_phase = RunStarting\<rparr>]\<rparr>)))"

text \<open>The body of the task; its error is only logged.\<close>

definition run_event :: "blueprint_deps \<Rightarrow> uuid \<Rightarrow> watch_event \<Rightarrow> blueprint_db \<times> world \<Rightarrow> blueprint_db \<times> world" where
  "run_event x eid ev dw =
     (case dw of (db, w) \<Rightarrow>
        (case ev of
           FolderCreated bid path name \<Rightarrow> (db, snd (handle_folder_auto_correct x bid path name db w))
         | BlueprintTriggered bid \<Rightarrow>
             (case bp_store_get bid db of
                Inl e \<Rightarrow> (db, w)
              | Inr b \<Rightarrow>
                  (case apply_blueprint_with_variables x bid
                          (folder_plan_default_variables (bp_folder_plan b)) eid w db of
                     (_, w, db) \<Rightarrow> (db, w)))
         | JobTriggered _ \<Rightarrow> (db, w)))"

definition set_phase :: "nat \<Rightarrow> run_phase \<Rightarrow> watch_state \<Rightarrow> watch_state" where
  "set_phase i ph s = s\<lparr>wt_runs := (wt_runs s)[i := (wt_runs s ! i)\<lparr>wr_phase := ph\<rparr>]\<rparr>"

definition at_phase :: "nat \<Rightarrow> run_phase \<Rightarrow> watch_state \<Rightarrow> bool" where
  "at_phase i ph s \<longleftrightarrow> i < length (wt_runs s) \<and> wr_phase (wt_runs s ! i) = ph"

definition run_body :: "blueprint_deps \<Rightarrow> uuid \<Rightarrow> nat \<Rightarrow> watch_state \<Rightarrow> watch_state option" where
  "run_body x eid i s =
     (if at_phase i RunStarting s
      then (case run_event x eid (wr_event (wt_runs s ! i)) (wt_db s, wt_world s) of
              (db, w) \<Rightarrow> Some (set_phase i RunEnding (s\<lparr>wt_db := db, wt_world := w\<rparr>)))
      else None)"

definition run_release :: "nat \<Rightarrow> watch_state \<Rightarrow> watch_state option" where
  "run_release i s =
     (if at_phase i RunEnding s
      then Some (set_phase i RunReleased (release_blueprint (wr_blueprint (wt_runs s ! i)) s)) else None)"

definition run_suppress :: "nat \<Rightarrow> timestamp \<Rightarrow> watch_state \<Rightarrow> watch_state option" where
  "run_suppress i now s =
     (if at_phase i RunReleased s
      then Some (suppress_blueprint (wr_blueprint (wt_runs s ! i)) now
             (s\<lparr>wt_runs := take i (wt_runs s) @ drop (Suc i) (wt_runs s)\<rparr>))
      else None)"

section \<open>The machine\<close>

text \<open>A settled batch reaches the channel while the debouncer of its target lives.\<close>

definition notified :: "watch_target \<Rightarrow> fs_event list \<Rightarrow> watch_state \<Rightarrow> watch_state option" where
  "notified trg batch s =
     (case hm_get trg (wt_handles s) of
        None \<Rightarrow> None
      | Some h \<Rightarrow>
          (case wn_realtime h of
             None \<Rightarrow> None
           | Some rw \<Rightarrow>
               Some (s\<lparr>wt_channel := wt_channel s @
                 (case trg of WatchJob jid \<Rightarrow> realtime_job_events rw jid batch
                            | WatchBlueprint bid \<Rightarrow> realtime_blueprint_events rw bid batch)\<rparr>)))"

text \<open>One tick of a poller: the new snapshot replaces the old one, and what changed is sent.\<close>

definition poll_tick :: "watch_env \<Rightarrow> nat \<Rightarrow> watch_state \<Rightarrow> watch_state option" where
  "poll_tick we i s =
     (if i < length (wt_pollers s)
      then
        (let po = wt_pollers s ! i; current = directory_snapshot we (po_root po) (w_fs (wt_world s))
         in Some (s\<lparr>
              wt_pollers := (wt_pollers s)[i := po\<lparr>po_snapshot := current\<rparr>],
              wt_channel := wt_channel s @
                poll_events (po_target po) (po_root po) (po_auto_correct po) (po_snapshot po) current\<rparr>))
      else None)"

datatype watch_action =
    SyncJob job
  | SyncBlueprint blueprint
  | Unregister watch_target
  | Notified watch_target "fs_event list"
  | PollTick nat
  | Receive timestamp uuid
  | BeginChecked
  | RunBody nat uuid
  | ReleaseRun nat
  | SuppressRun nat timestamp
  | OutsideWorld world blueprint_db
  | QueueAction action

fun perform_watch :: "watch_env \<Rightarrow> blueprint_deps \<Rightarrow> watch_action \<Rightarrow> watch_state \<Rightarrow> watch_state option" where
  "perform_watch we x (SyncJob j) s = Some (snd (sync_job we j s))"
| "perform_watch we x (SyncBlueprint b) s = Some (snd (sync_blueprint we b s))"
| "perform_watch we x (Unregister trg) s = Some (unregister trg s)"
| "perform_watch we x (Notified trg batch) s = notified trg batch s"
| "perform_watch we x (PollTick i) s = poll_tick we i s"
| "perform_watch we x (Receive now new_v4) s = receive_event now new_v4 s"
| "perform_watch we x BeginChecked s = begin_checked s"
| "perform_watch we x (RunBody i eid) s = run_body x eid i s"
| "perform_watch we x (ReleaseRun i) s = run_release i s"
| "perform_watch we x (SuppressRun i now) s = run_suppress i now s"
| "perform_watch we x (OutsideWorld w db) s = Some (s\<lparr>wt_world := w, wt_db := db\<rparr>)"
| "perform_watch we x (QueueAction a) s = map_option (\<lambda>q. s\<lparr>wt_queue := q\<rparr>) (perform a (wt_queue s))"

definition watch_start :: "world \<Rightarrow> blueprint_db \<Rightarrow> watch_state" where
  "watch_start w db = \<lparr>wt_handles = [], wt_pollers = [], wt_channel = [], wt_busy = [], wt_suppressed = [],
     wt_checked = None, wt_runs = [], wt_queue = start, wt_world = w, wt_db = db\<rparr>"

section \<open>The invariant\<close>

text \<open>The blueprints of the runs that have not left the busy set.\<close>

definition holders :: "watch_run list \<Rightarrow> uuid list" where
  "holders rs = map wr_blueprint (filter (\<lambda>r. wr_phase r \<noteq> RunReleased) rs)"

definition busy_ok :: "watch_state \<Rightarrow> bool" where
  "busy_ok s \<longleftrightarrow> distinct (holders (wt_runs s)) \<and> set (wt_busy s) = set (holders (wt_runs s))"

definition watch_ok :: "watch_state \<Rightarrow> bool" where
  "watch_ok s \<longleftrightarrow> busy_ok s \<and> queue_inv (wt_queue s)"

definition checked_blueprint :: "watch_state \<Rightarrow> uuid option" where
  "checked_blueprint s = map_option fst (wt_checked s)"

lemma holders_simps [simp]:
  "holders [] = []"
  "holders (r # rs) = (if wr_phase r = RunReleased then [] else [wr_blueprint r]) @ holders rs"
  "holders (rs @ rs') = holders rs @ holders rs'"
  by (simp_all add: holders_def)

lemma holders_update:
  assumes "i < length rs"
  shows "holders (rs[i := r]) = holders (take i rs) @ holders [r] @ holders (drop (Suc i) rs)"
  using assms by (simp add: upd_conv_take_nth_drop)

lemma holders_split:
  assumes "i < length rs"
  shows "holders rs = holders (take i rs) @ holders [rs ! i] @ holders (drop (Suc i) rs)"
  using assms by (subst id_take_nth_drop [OF assms]) simp

text \<open>An operation that touches neither the runs nor the busy set.\<close>

definition same_runs :: "watch_state \<Rightarrow> watch_state \<Rightarrow> bool" where
  "same_runs s s' \<longleftrightarrow> wt_runs s' = wt_runs s \<and> wt_busy s' = wt_busy s \<and> wt_queue s' = wt_queue s \<and>
     wt_checked s' = wt_checked s \<and> wt_suppressed s' = wt_suppressed s"

lemma same_runs_ok: "same_runs s s' \<Longrightarrow> watch_ok s \<Longrightarrow> watch_ok s'"
  by (simp add: same_runs_def watch_ok_def busy_ok_def)

lemma register_same_runs: "same_runs s (snd (register we trg w root rf ac s))"
  by (simp add: register_def same_runs_def Let_def split: option.splits)

lemma unregister_same_runs: "same_runs s (unregister trg s)"
  by (simp add: unregister_def same_runs_def)

lemma same_runs_trans: "same_runs s s' \<Longrightarrow> same_runs s' s'' \<Longrightarrow> same_runs s s''"
  by (simp add: same_runs_def)

lemma sync_job_same_runs: "same_runs s (snd (sync_job we j s))"
  using same_runs_trans [OF unregister_same_runs register_same_runs] unregister_same_runs
  by (simp add: sync_job_def Let_def split: option.split)

lemma sync_blueprint_same_runs: "same_runs s (snd (sync_blueprint we b s))"
  using same_runs_trans [OF unregister_same_runs register_same_runs] unregister_same_runs
  by (simp add: sync_blueprint_def Let_def split: option.split)

lemma notified_same_runs: "notified trg batch s = Some s' \<Longrightarrow> same_runs s s'"
  by (auto simp: notified_def same_runs_def split: option.splits)

lemma poll_tick_same_runs: "poll_tick we i s = Some s' \<Longrightarrow> same_runs s s'"
  by (auto simp: poll_tick_def same_runs_def Let_def split: if_splits)

lemma is_suppressed_runs:
  "is_blueprint_suppressed b now s = (r, s') \<Longrightarrow>
     wt_runs s' = wt_runs s \<and> wt_busy s' = wt_busy s \<and> wt_queue s' = wt_queue s"
  by (auto simp: is_blueprint_suppressed_def split: option.splits if_splits)

lemma receive_event_runs:
  assumes "receive_event now new_v4 s = Some s'"
  shows "wt_runs s' = wt_runs s \<and> wt_busy s' = wt_busy s \<and> (queue_inv (wt_queue s) \<longrightarrow> queue_inv (wt_queue s'))"
  using assms
  by (auto simp: receive_event_def Let_def intro: perform_inv dest!: is_suppressed_runs
      split: if_splits list.splits watch_event.splits option.splits prod.splits bool.splits simp del: perform.simps)

lemma receive_event_ok: "receive_event now new_v4 s = Some s' \<Longrightarrow> watch_ok s \<Longrightarrow> watch_ok s'"
  using receive_event_runs [of now new_v4 s s'] by (simp add: watch_ok_def busy_ok_def)

lemma begin_checked_ok: "begin_checked s = Some s' \<Longrightarrow> watch_ok s \<Longrightarrow> watch_ok s'"
  by (auto simp: begin_checked_def begin_blueprint_run_def watch_ok_def busy_ok_def
      split: option.splits if_splits)

lemma run_body_ok:
  assumes "run_body x eid i s = Some s'" "watch_ok s"
  shows "watch_ok s'"
proof -
  have i: "i < length (wt_runs s)" "wr_phase (wt_runs s ! i) = RunStarting"
    and s': "wt_runs s' = (wt_runs s)[i := (wt_runs s ! i)\<lparr>wr_phase := RunEnding\<rparr>]"
      "wt_busy s' = wt_busy s" "wt_queue s' = wt_queue s"
    using assms(1) by (auto simp: run_body_def at_phase_def set_phase_def split: if_splits prod.splits)
  have "holders (wt_runs s') = holders (wt_runs s)"
    using i by (simp add: s' holders_update holders_split [OF i(1)])
  with assms(2) s' show ?thesis by (simp add: watch_ok_def busy_ok_def)
qed

lemma run_release_ok:
  assumes "run_release i s = Some s'" "watch_ok s"
  shows "watch_ok s'"
proof -
  let ?r = "wt_runs s ! i"
  have i: "i < length (wt_runs s)" "wr_phase ?r = RunEnding"
    and s': "wt_runs s' = (wt_runs s)[i := ?r\<lparr>wr_phase := RunReleased\<rparr>]"
      "wt_busy s' = removeAll (wr_blueprint ?r) (wt_busy s)" "wt_queue s' = wt_queue s"
    using assms(1) by (auto simp: run_release_def at_phase_def set_phase_def release_blueprint_def split: if_splits)
  have "holders (wt_runs s) = holders (take i (wt_runs s)) @ wr_blueprint ?r # holders (drop (Suc i) (wt_runs s))"
    using i holders_split [OF i(1)] by simp
  moreover have "holders (wt_runs s') = holders (take i (wt_runs s)) @ holders (drop (Suc i) (wt_runs s))"
    using i by (simp add: s' holders_update)
  ultimately show ?thesis using assms(2) s' by (auto simp: watch_ok_def busy_ok_def)
qed

lemma run_suppress_ok:
  assumes "run_suppress i now s = Some s'" "watch_ok s"
  shows "watch_ok s'"
proof -
  have i: "i < length (wt_runs s)" "wr_phase (wt_runs s ! i) = RunReleased"
    and s': "wt_runs s' = take i (wt_runs s) @ drop (Suc i) (wt_runs s)"
      "wt_busy s' = wt_busy s" "wt_queue s' = wt_queue s"
    using assms(1) by (auto simp: run_suppress_def at_phase_def suppress_blueprint_def split: if_splits)
  have "holders (wt_runs s') = holders (wt_runs s)"
    using i by (simp add: s' holders_split [OF i(1)])
  with assms(2) s' show ?thesis by (simp add: watch_ok_def busy_ok_def)
qed

lemma perform_watch_ok:
  assumes "watch_ok s" "perform_watch we x a s = Some s'"
  shows "watch_ok s'"
proof (cases a)
  case (OutsideWorld w db)
  then show ?thesis using assms by (auto simp: watch_ok_def busy_ok_def)
next
  case (QueueAction b)
  then show ?thesis using assms by (auto simp: watch_ok_def busy_ok_def intro: perform_inv simp del: perform.simps)
qed (use assms in \<open>auto intro: same_runs_ok [OF sync_job_same_runs] same_runs_ok [OF sync_blueprint_same_runs]
      same_runs_ok [OF unregister_same_runs] same_runs_ok [OF notified_same_runs]
      same_runs_ok [OF poll_tick_same_runs] receive_event_ok begin_checked_ok run_body_ok run_release_ok
      run_suppress_ok\<close>)

lemma watch_start_ok: "watch_ok (watch_start w db)"
  by (simp add: watch_ok_def busy_ok_def watch_start_def start_inv)

interpretation watching: machine "perform_watch we x" "watch_start w db" watch_ok for we x w db
  by unfold_locales (rule watch_start_ok, rule perform_watch_ok)

text \<open>
  C25. However the clients, the debouncers, the pollers, the worker and the spawned runs interleave, no
  blueprint is run twice at a time: two runs that have not left the busy set are runs of different
  blueprints, and the busy set holds the blueprints of these runs and no other.
\<close>

theorem no_blueprint_runs_twice:
  assumes "reach (perform_watch we x) (watch_start w db) s"
  shows "(\<forall>i j. i < j \<and> j < length (wt_runs s) \<and> wr_phase (wt_runs s ! i) \<noteq> RunReleased \<and>
            wr_phase (wt_runs s ! j) \<noteq> RunReleased \<longrightarrow>
            wr_blueprint (wt_runs s ! i) \<noteq> wr_blueprint (wt_runs s ! j)) \<and>
         (\<forall>b. b \<in> set (wt_busy s) \<longleftrightarrow>
            (\<exists>r \<in> set (wt_runs s). wr_blueprint r = b \<and> wr_phase r \<noteq> RunReleased))"
proof -
  have ok: "busy_ok s" using watching.reach_inv [OF assms] by (simp add: watch_ok_def)
  have "wr_blueprint (wt_runs s ! i) \<noteq> wr_blueprint (wt_runs s ! j)"
    if "i < j" "j < length (wt_runs s)" "wr_phase (wt_runs s ! i) \<noteq> RunReleased"
      "wr_phase (wt_runs s ! j) \<noteq> RunReleased" for i j
  proof -
    have "wt_runs s ! i \<in> set (take j (wt_runs s))"
      using that by (auto simp: in_set_conv_nth intro!: exI [of _ i])
    then have "wr_blueprint (wt_runs s ! i) \<in> set (holders (take j (wt_runs s)))"
      using that by (simp add: holders_def)
    moreover have "distinct (holders (take j (wt_runs s)) @ [wr_blueprint (wt_runs s ! j)] @
        holders (drop (Suc j) (wt_runs s)))"
      using ok that holders_split [of j "wt_runs s"] by (simp add: busy_ok_def)
    ultimately show ?thesis by auto
  qed
  moreover have "b \<in> set (wt_busy s) \<longleftrightarrow> (\<exists>r \<in> set (wt_runs s). wr_blueprint r = b \<and> wr_phase r \<noteq> RunReleased)" for b
    using ok by (auto simp: busy_ok_def holders_def)
  ultimately show ?thesis by blast
qed

section \<open>Suppression\<close>

text \<open>The blueprint \<open>b\<close> is suppressed up to \<open>t\<close> and neither run nor between the guards of the worker.\<close>

definition quiet :: "uuid \<Rightarrow> timestamp \<Rightarrow> watch_state \<Rightarrow> bool" where
  "quiet b t s \<longleftrightarrow>
     (\<exists>until. hm_get b (wt_suppressed s) = Some until \<and> t \<le> until) \<and>
     b \<notin> set (holders (wt_runs s)) \<and> checked_blueprint s \<noteq> Some b"

text \<open>The clock is read at instants from \<open>t\<close> up to, not including, \<open>t + 2 s\<close>.\<close>

fun reads_within :: "timestamp \<Rightarrow> watch_action \<Rightarrow> bool" where
  "reads_within t (Receive now _) = (t \<le> now \<and> now < t + secs 2)"
| "reads_within t (SuppressRun _ now) = (t \<le> now \<and> now < t + secs 2)"
| "reads_within t _ = True"

lemma quiet_same_runs: "same_runs s s' \<Longrightarrow> quiet b t s \<Longrightarrow> quiet b t s'"
  by (simp add: same_runs_def quiet_def checked_blueprint_def)

lemma quiet_receive: "receive_event now new_v4 s = Some s' \<Longrightarrow> now < t \<Longrightarrow> quiet b t s \<Longrightarrow> quiet b t s'"
  by (auto simp: receive_event_def Let_def quiet_def checked_blueprint_def is_blueprint_suppressed_def hm_simps
      split: if_splits list.splits watch_event.splits option.splits simp del: perform.simps)

lemma quiet_begin: "begin_checked s = Some s' \<Longrightarrow> quiet b t s \<Longrightarrow> quiet b t s'"
  by (auto simp: begin_checked_def begin_blueprint_run_def quiet_def checked_blueprint_def
      split: option.splits if_splits)

lemma quiet_phase:
  assumes "i < length (wt_runs s)" "quiet b t s" "ph = RunReleased \<or> wr_phase (wt_runs s ! i) \<noteq> RunReleased"
  shows "quiet b t (set_phase i ph s)"
  using assms holders_split [OF assms(1)]
  by (auto simp: quiet_def set_phase_def holders_update checked_blueprint_def split: if_splits)

lemma quiet_outside: "quiet b t s \<Longrightarrow> quiet b t (s\<lparr>wt_db := db, wt_world := w\<rparr>)"
  by (simp add: quiet_def checked_blueprint_def)

lemma quiet_body:
  assumes "run_body x eid i s = Some s'" "quiet b t s"
  shows "quiet b t s'"
proof -
  obtain db w where s': "s' = set_phase i RunEnding (s\<lparr>wt_db := db, wt_world := w\<rparr>)" and "at_phase i RunStarting s"
    using assms(1) by (auto simp: run_body_def split: if_splits prod.splits)
  then show ?thesis
    unfolding s' by (intro quiet_phase quiet_outside assms(2)) (simp_all add: at_phase_def)
qed

lemma quiet_release:
  assumes "run_release i s = Some s'" "quiet b t s"
  shows "quiet b t s'"
proof -
  let ?s = "release_blueprint (wr_blueprint (wt_runs s ! i)) s"
  have s': "s' = set_phase i RunReleased ?s" and "at_phase i RunEnding s"
    using assms(1) by (auto simp: run_release_def split: if_splits)
  moreover have "quiet b t ?s" using assms(2) by (simp add: quiet_def release_blueprint_def checked_blueprint_def)
  ultimately show ?thesis
    unfolding s' by (intro quiet_phase) (simp_all add: at_phase_def release_blueprint_def)
qed

lemma quiet_suppress: "run_suppress i now s = Some s' \<Longrightarrow> t \<le> now + secs 2 \<Longrightarrow> quiet b t s \<Longrightarrow> quiet b t s'"
  using holders_split [of i "wt_runs s"]
  by (auto simp: run_suppress_def at_phase_def suppress_blueprint_def quiet_def checked_blueprint_def hm_simps
      split: if_splits)

lemma quiet_perform:
  assumes "perform_watch we x a s = Some s'" "reads_within t a" "quiet b (t + secs 2) s"
  shows "quiet b (t + secs 2) s'"
proof (cases a)
  case (OutsideWorld w db)
  then show ?thesis using assms by (auto simp: quiet_def checked_blueprint_def)
next
  case (QueueAction c)
  then show ?thesis using assms by (auto simp: quiet_def checked_blueprint_def simp del: perform.simps)
qed (use assms in \<open>auto intro: quiet_same_runs [OF sync_job_same_runs] quiet_same_runs [OF sync_blueprint_same_runs]
      quiet_same_runs [OF unregister_same_runs] quiet_same_runs [OF notified_same_runs]
      quiet_same_runs [OF poll_tick_same_runs] quiet_receive quiet_begin quiet_body quiet_release
      quiet_suppress\<close>)

text \<open>
  C26. A run does not trigger itself: when the run of a blueprint ends at \<open>now\<close>, with no other run of it and
  none of its events between the two guards of the worker, then for the next two seconds no run of that
  blueprint starts, whatever is reported, polled, synchronised or enqueued in between.
\<close>

theorem suppressed_for_two_seconds:
  assumes "run_suppress i now s = Some s1" "b = wr_blueprint (wt_runs s ! i)"
    "\<forall>r \<in> set (wt_runs s). wr_blueprint r = b \<longrightarrow> wr_phase r = RunReleased" "checked_blueprint s \<noteq> Some b"
    "watch_ok s" "list_all (reads_within now) acts" "run_all (perform_watch we x) acts s1 = Some s2"
  shows "b \<notin> set (wt_busy s2) \<and> (\<forall>r \<in> set (wt_runs s2). wr_blueprint r = b \<longrightarrow> wr_phase r = RunReleased)"
proof -
  have ok1: "watch_ok s1" by (rule run_suppress_ok [OF assms(1,5)])
  have "b \<notin> set (holders (wt_runs s1))"
    using assms(1,3) by (auto simp: run_suppress_def suppress_blueprint_def holders_def at_phase_def
        split: if_splits dest!: in_set_takeD in_set_dropD)
  then have "quiet b (now + secs 2) s1"
    using assms(1,2,4) by (auto simp: run_suppress_def suppress_blueprint_def quiet_def hm_simps
        checked_blueprint_def split: if_splits)
  moreover have "set acts \<subseteq> {a. reads_within now a}" using assms(6) by (auto simp: list_all_iff)
  ultimately have "quiet b (now + secs 2) s2"
    using watching.run_stable [of "quiet b (now + secs 2)" "{a. reads_within now a}" we x s1 acts s2]
      ok1 assms(7) quiet_perform by blast
  moreover have "watch_ok s2" by (rule watching.run_inv [OF ok1 assms(7)])
  ultimately show ?thesis by (auto simp: quiet_def watch_ok_def busy_ok_def holders_def)
qed

section \<open>Concrete runs\<close>

definition demo_watch_env :: watch_env where
  "demo_watch_env = \<lparr>we_fs = \<lparr>fs_hash = id, fs_same_device = (\<lambda>_ _. True), fs_copied = (\<lambda>_ _ c. c),
     fs_walk = (\<lambda>_ root fs. filter (\<lambda>p. fs p \<noteq> None) [root, root @ [''a''], root @ [''b'']])\<rparr>,
     we_dir_stat = (\<lambda>_ _. (4096, 0)), we_start_error = (\<lambda>_ _. None)\<rparr>"

abbreviation demo_perform :: "watch_action \<Rightarrow> watch_state \<Rightarrow> watch_state option" where
  "demo_perform \<equiv> perform_watch demo_watch_env demo_blueprint_deps"

definition new_folder_event :: "string \<Rightarrow> fs_event" where
  "new_folder_event name = \<lparr>ev_kind = FolderCreatedKind, ev_paths = [''/in/'' @ name]\<rparr>"

text \<open>The folder \<open>/in/new\<close> appears under the watched root and is corrected up to the release.\<close>

definition correction_start :: watch_state where
  "correction_start = watch_start (world_with (dirs_tree [[], [''in''], [''in'', ''new'']])) client_db"

definition correction_run :: "watch_action list" where
  "correction_run = [SyncBlueprint client_blueprint, Notified (WatchBlueprint 7) [new_folder_event ''new''],
     Receive 0 1, BeginChecked, RunBody 0 5, ReleaseRun 0]"

text \<open>What is left of the runs and the busy set, for evaluation.\<close>

definition runs_view :: "watch_state option \<Rightarrow> ((uuid \<times> run_phase) list \<times> uuid list \<times> uuid option) option" where
  "runs_view r = map_option (\<lambda>s. (map (\<lambda>r. (wr_blueprint r, wr_phase r)) (wt_runs s), wt_busy s,
     checked_blueprint s)) r"

lemma correction_view:
  "runs_view (run_all demo_perform correction_run correction_start) = Some ([(7, RunReleased)], [], None)"
  by code_simp

lemma run_starts_view:
  "runs_view (run_all demo_perform (take 4 correction_run) correction_start) = Some ([(7, RunStarting)], [7], None)"
  by code_simp

theorem no_blueprint_runs_twice_witness:
  "\<exists>s. run_all demo_perform (take 4 correction_run) correction_start = Some s \<and> 7 \<in> set (wt_busy s) \<and>
       (\<exists>r \<in> set (wt_runs s). wr_blueprint r = 7 \<and> wr_phase r \<noteq> RunReleased)"
proof -
  obtain s where s: "run_all demo_perform (take 4 correction_run) correction_start = Some s" "wt_busy s = [7]"
    using run_starts_view by (auto simp: runs_view_def)
  then have "reach demo_perform correction_start s" by (auto simp: reach_iff_run_all)
  then show ?thesis using s unfolding correction_start_def
    by (auto dest!: no_blueprint_runs_twice [THEN conjunct2, THEN spec [of _ 7]])
qed

text \<open>Two more folders are reported right after the end of the run.\<close>

definition quiet_acts :: "watch_action list" where
  "quiet_acts = [Notified (WatchBlueprint 7) [new_folder_event ''b''], Receive (secs 1) 2]"

lemma quiet_acts_view:
  "runs_view (run_all demo_perform (correction_run @ [SuppressRun 0 0] @ quiet_acts) correction_start) =
     Some ([], [], None)"
  by code_simp

theorem suppressed_for_two_seconds_witness:
  "\<exists>s s1 s2. run_all demo_perform correction_run correction_start = Some s \<and> run_suppress 0 0 s = Some s1 \<and>
     run_all demo_perform (quiet_acts) s1 = Some s2 \<and> 7 \<notin> set (wt_busy s2)"
proof -
  obtain s where s: "run_all demo_perform correction_run correction_start = Some s"
      "map (\<lambda>r. (wr_blueprint r, wr_phase r)) (wt_runs s) = [(7, RunReleased)]" "checked_blueprint s = None"
    using correction_view by (auto simp: runs_view_def)
  then obtain s1 where s1: "run_suppress 0 0 s = Some s1"
    by (auto simp: run_suppress_def at_phase_def)
  then obtain s2 where s2: "run_all demo_perform (quiet_acts) s1 = Some s2"
    using quiet_acts_view s(1) by (auto simp: run_all_append runs_view_def split: option.splits)
  have "watch_ok s"
    using watching.run_inv [OF watch_start_ok] s(1) unfolding correction_start_def by blast
  moreover have "wt_runs s ! 0 \<in> set (wt_runs s)" "wr_blueprint (wt_runs s ! 0) = 7"
    using s(2) by auto
  ultimately have "7 \<notin> set (wt_busy s2)"
    using suppressed_for_two_seconds [OF s1 _ _ _ _ _ s2, of 7] s(2,3)
    by (auto simp: quiet_acts_def secs_def)
  with s(1) s1 s2 show ?thesis by blast
qed

section \<open>What the runtime lets through\<close>

text \<open>
  The window is as long as the default settle time: what a run did at its end is reported when the window
  is over.
\<close>

lemma default_settle_outlasts_suppression:
  "fst (is_blueprint_suppressed b (now + secs (uint (wc_settle_seconds watch_default))) (suppress_blueprint b now s)) = False"
  by (simp add: is_blueprint_suppressed_def suppress_blueprint_def hm_simps watch_default_def)

text \<open>An event taken between the release and the suppression passes the first guard, and its run starts.\<close>

lemma run_starts_while_suppressed:
  "runs_view (run_all demo_perform (correction_run @ [Notified (WatchBlueprint 7) [new_folder_event ''b''],
       Receive 0 2, SuppressRun 0 0, BeginChecked]) correction_start) = Some ([(7, RunStarting)], [7], None)"
  by code_simp

text \<open>Of the folders of one batch only the first is reported, and while one is corrected the others are dropped.\<close>

lemma second_folder_of_batch_is_dropped:
  "realtime_blueprint_events \<lparr>rw_allowed = [CreateEvent], rw_settle = 2, rw_auto_correct = True, rw_root = ''/in'',
       rw_recursive = True\<rparr> 7 [new_folder_event ''a'', new_folder_event ''b''] = [FolderCreated 7 ''/in/a'' ''a'']"
  by code_simp

lemma folder_event_of_busy_blueprint_is_dropped:
  "runs_view (run_all demo_perform [SyncBlueprint client_blueprint,
       Notified (WatchBlueprint 7) [new_folder_event ''a''], Notified (WatchBlueprint 7) [new_folder_event ''b''],
       Receive 0 1, BeginChecked, Receive 0 2, BeginChecked] correction_start) = Some ([(7, RunStarting)], [7], None)"
  by code_simp

text \<open>A poller reports every change, whatever kinds of events are configured, and goes on when its target is unregistered.\<close>

definition polled_job :: job where
  "polled_job = (job_new 3 ''Sync'' ''/in'' ''/out'')
     \<lparr>watch := Some (watch_default\<lparr>wc_enabled := True, wc_detection := Polling 5, wc_events := [RemoveEvent]\<rparr>)\<rparr>"

lemma unregistered_poller_still_triggers:
  "map_option wt_channel (run_all demo_perform [SyncJob polled_job, Unregister (WatchJob 3),
       OutsideWorld (world_with (dirs_tree [[], [''in''], [''in'', ''a'']])) client_db, PollTick 0] correction_start) =
     Some [JobTriggered 3]"
  by code_simp

text \<open>A folder of the root whose entry only changed is reported as created.\<close>

lemma changed_folder_is_reported_as_created:
  "poll_events (WatchBlueprint 7) [''in''] True [([''in'', ''a''], (4096, 1, True))] [([''in'', ''a''], (4096, 2, True))] =
     [FolderCreated 7 ''/in/a'' ''a'']"
  by code_simp

end
