(* ===== verification/Settings.thy ===== *)
theory Settings
  imports Admin_Domain Machine
begin

text \<open>
  The settings: \<open>crates/autoflow-domain/src/settings.rs\<close> with its defaults, normalization and validation,
  the one-row SQLite store \<open>crates/autoflow-infrastructure/src/settings.rs\<close> and the use cases over a store,
  \<open>crates/autoflow-application/src/settings.rs\<close>. A payload is the value \<open>serde_json\<close> wrote. Texts of the
  defaults that leave ASCII are written with their Latin-1 codes.
\<close>

section \<open>Sections of the settings\<close>

datatype theme_mode = SystemTheme | LightTheme | DarkTheme

datatype process_priority = LowPriority | NormalPriority | HighPriority

record performance_settings =
  pf_max_threads :: "32 word"
  pf_memory_limit_mb :: "32 word"
  pf_process_priority :: process_priority
  pf_global_bandwidth_limit_mbps :: "32 word"
  pf_queue_poll_interval_ms :: "32 word"
  pf_pause_when_on_battery :: bool

definition performance_default :: performance_settings where
  "performance_default = \<lparr>pf_max_threads = 2, pf_memory_limit_mb = 0, pf_process_priority = NormalPriority,
     pf_global_bandwidth_limit_mbps = 0, pf_queue_poll_interval_ms = 500, pf_pause_when_on_battery = False\<rparr>"

record security_settings =
  se_pin_enabled :: bool
  se_access_pin_hash :: "string option"
  se_require_pin_on_startup :: bool
  se_lock_on_minimize :: bool
  se_lock_on_tray :: bool
  se_encryption_enabled :: bool
  se_master_key_hint :: string
  se_mask_sensitive_paths :: bool

definition security_default :: security_settings where
  "security_default = \<lparr>se_pin_enabled = False, se_access_pin_hash = None, se_require_pin_on_startup = False,
     se_lock_on_minimize = False, se_lock_on_tray = False, se_encryption_enabled = False, se_master_key_hint = [],
     se_mask_sensitive_paths = True\<rparr>"

record webhook_settings =
  wh_name :: string
  wh_url :: string
  wh_enabled :: bool
  wh_secret_configured :: bool

record smtp_settings =
  sp_enabled :: bool
  sp_host :: string
  sp_port :: "16 word"
  sp_username :: string
  sp_password :: string
  sp_from_address :: string
  sp_to_address :: string
  sp_use_tls :: bool
  sp_password_configured :: bool

definition smtp_default :: smtp_settings where
  "smtp_default = \<lparr>sp_enabled = False, sp_host = [], sp_port = 587, sp_username = [], sp_password = [],
     sp_from_address = [], sp_to_address = [], sp_use_tls = True, sp_password_configured = False\<rparr>"

record notification_settings =
  nt_enabled :: bool
  nt_desktop_enabled :: bool
  nt_webhook_enabled :: bool
  nt_webhooks :: "webhook_settings list"
  nt_smtp :: smtp_settings
  nt_admin_panel_enabled :: bool
  nt_notify_on_success :: bool
  nt_notify_on_failure :: bool

definition notification_default :: notification_settings where
  "notification_default = \<lparr>nt_enabled = False, nt_desktop_enabled = True, nt_webhook_enabled = False, nt_webhooks = [],
     nt_smtp = smtp_default, nt_admin_panel_enabled = False, nt_notify_on_success = False, nt_notify_on_failure = True\<rparr>"

record maintenance_settings =
  mn_log_retention_days :: "32 word"
  mn_auto_compact_database :: bool
  mn_backup_enabled :: bool
  mn_backup_directory :: string
  mn_backup_interval_hours :: "32 word"
  mn_backup_retention_count :: "32 word"
  mn_optimize_after_cleanup :: bool

definition default_log_retention_days :: "32 word" where
  "default_log_retention_days = 30"

definition maintenance_default :: maintenance_settings where
  "maintenance_default = \<lparr>mn_log_retention_days = default_log_retention_days, mn_auto_compact_database = True,
     mn_backup_enabled = False, mn_backup_directory = [], mn_backup_interval_hours = 24, mn_backup_retention_count = 7,
     mn_optimize_after_cleanup = False\<rparr>"

record support_settings =
  sup_support_email :: string
  sup_pix_key :: string
  sup_bank_deposit_info :: string
  sup_buy_me_coffee_url :: string
  sup_donations_enabled :: bool

definition support_default :: support_settings where
  "support_default = \<lparr>sup_support_email = ''suporte@autoflow.local'', sup_pix_key = [], sup_bank_deposit_info = [],
     sup_buy_me_coffee_url = [], sup_donations_enabled = True\<rparr>"

record about_settings =
  abt_project_name :: string
  abt_project_description :: string
  abt_creator_name :: string
  abt_creator_bio :: string
  abt_website_url :: string
  abt_github_url :: string
  abt_linkedin_url :: string

definition about_default :: about_settings where
  "about_default = \<lparr>abt_project_name = ''TidyFlow'',
     abt_project_description = ''Automa'' @ [CHR 0xE7, CHR 0xE3] @
       ''o local para organizar, copiar e mover arquivos com auditoria clara.'',
     abt_creator_name = ''Raillen Santos'', abt_creator_bio = ''Criador do TidyFlow e projetos Zenith.'',
     abt_website_url = [], abt_github_url = ''https://github.com/raillen'', abt_linkedin_url = []\<rparr>"

record admin_settings =
  ma_enabled :: bool
  ma_mode :: agent_mode
  ma_instance_id :: "string option"
  ma_display_name :: string
  ma_server_url :: string
  ma_enrollment_token :: string
  ma_enrollment_token_configured :: bool
  ma_allow_remote_commands :: bool
  ma_allow_batch_commands :: bool
  ma_heartbeat_interval_secs :: "32 word"
  ma_inventory_interval_secs :: "32 word"
  ma_last_registered_at :: "timestamp option"

definition admin_settings_default :: admin_settings where
  "admin_settings_default = \<lparr>ma_enabled = True, ma_mode = LocalOnly, ma_instance_id = None, ma_display_name = [],
     ma_server_url = [], ma_enrollment_token = [], ma_enrollment_token_configured = False,
     ma_allow_remote_commands = False, ma_allow_batch_commands = False, ma_heartbeat_interval_secs = 30,
     ma_inventory_interval_secs = 300, ma_last_registered_at = None\<rparr>"

record app_settings =
  as_theme :: theme_mode
  as_accent_color :: string
  as_language :: string
  as_interface_font :: string
  as_autostart :: bool
  as_close_to_tray :: bool
  as_start_minimized :: bool
  as_bandwidth_limit_mbps :: "32 word"
  as_max_parallel_files :: "32 word"
  as_log_retention_days :: "32 word"
  as_performance :: performance_settings
  as_security :: security_settings
  as_notifications :: notification_settings
  as_maintenance :: maintenance_settings
  as_support :: support_settings
  as_about :: about_settings
  as_admin :: admin_settings

definition app_settings_default :: app_settings where
  "app_settings_default = \<lparr>as_theme = SystemTheme, as_accent_color = ''#0064ff'', as_language = ''pt-BR'',
     as_interface_font = ''system'', as_autostart = False, as_close_to_tray = True, as_start_minimized = False,
     as_bandwidth_limit_mbps = 0, as_max_parallel_files = 1, as_log_retention_days = default_log_retention_days,
     as_performance = performance_default, as_security = security_default, as_notifications = notification_default,
     as_maintenance = maintenance_default, as_support = support_default, as_about = about_default,
     as_admin = admin_settings_default\<rparr>"

section \<open>Normalization and validation\<close>

definition normalize_performance :: "32 word \<Rightarrow> performance_settings \<Rightarrow> performance_settings" where
  "normalize_performance flat p =
     (if pf_global_bandwidth_limit_mbps p = 0 \<and> flat > 0 then p\<lparr>pf_global_bandwidth_limit_mbps := flat\<rparr> else p)"

definition normalize_maintenance :: "32 word \<Rightarrow> maintenance_settings \<Rightarrow> maintenance_settings" where
  "normalize_maintenance flat m =
     (if mn_log_retention_days m = default_log_retention_days \<and> flat \<noteq> default_log_retention_days
      then m\<lparr>mn_log_retention_days := flat\<rparr> else m)"

definition normalize_url :: "string \<Rightarrow> string" where
  "normalize_url url = trim_end_by (\<lambda>c. c = CHR ''/'') (trim url)"

definition normalize_admin :: "admin_settings \<Rightarrow> admin_settings" where
  "normalize_admin a =
     a\<lparr>ma_display_name := trim (ma_display_name a), ma_server_url := normalize_url (ma_server_url a),
       ma_instance_id := (case ma_instance_id a of
          None \<Rightarrow> None | Some i \<Rightarrow> if trim i = [] then None else Some (trim i))\<rparr>"

definition normalize_notifications :: "notification_settings \<Rightarrow> notification_settings" where
  "normalize_notifications n =
     n\<lparr>nt_smtp := (nt_smtp n)\<lparr>sp_password_configured := (trim (sp_password (nt_smtp n)) \<noteq> [])\<rparr>\<rparr>"

definition settings_normalized :: "app_settings \<Rightarrow> app_settings" where
  "settings_normalized s =
     (let p = normalize_performance (as_bandwidth_limit_mbps s) (as_performance s);
          m = normalize_maintenance (as_log_retention_days s) (as_maintenance s)
      in s\<lparr>as_performance := p, as_maintenance := m,
           as_bandwidth_limit_mbps := pf_global_bandwidth_limit_mbps p,
           as_log_retention_days := mn_log_retention_days m,
           as_notifications := normalize_notifications (as_notifications s),
           as_admin := normalize_admin (as_admin s)\<rparr>)"

definition is_hex_digit :: "char \<Rightarrow> bool" where
  "is_hex_digit c \<longleftrightarrow> is_digit c \<or> (65 \<le> code c \<and> code c \<le> 70) \<or> (97 \<le> code c \<and> code c \<le> 102)"

definition is_valid_hex_color :: "string \<Rightarrow> bool" where
  "is_valid_hex_color v \<longleftrightarrow> length v = 7 \<and> hd v = CHR ''#'' \<and> list_all is_hex_digit (tl v)"

definition is_http_url :: "string \<Rightarrow> bool" where
  "is_http_url v \<longleftrightarrow>
     (let lower = map to_lower (trim v) in prefix ''https://'' lower \<or> prefix ''http://'' lower)"

fun webhooks_validate :: "webhook_settings list \<Rightarrow> domain_error + unit" where
  "webhooks_validate [] = Inr ()"
| "webhooks_validate (w # ws) =
     (if wh_enabled w \<and> \<not> is_http_url (wh_url w)
      then Inl (Validation (''webhook URL must start with http:// or https://: '' @ wh_name w))
      else webhooks_validate ws)"

definition general_validate :: "app_settings \<Rightarrow> domain_error + unit" where
  "general_validate s =
     (if trim (as_language s) = [] then Inl (Validation ''language must not be empty'')
      else if trim (as_interface_font s) = [] then Inl (Validation ''interface_font must not be empty'')
      else if as_max_parallel_files s = 0 then Inl (Validation ''max_parallel_files must be >= 1'')
      else if pf_max_threads (as_performance s) = 0 \<or> pf_max_threads (as_performance s) > 128
      then Inl (Validation ''performance.max_threads must be between 1 and 128'')
      else if pf_queue_poll_interval_ms (as_performance s) < 100
      then Inl (Validation ''performance.queue_poll_interval_ms must be >= 100'')
      else if mn_backup_enabled (as_maintenance s) \<and> trim (mn_backup_directory (as_maintenance s)) = []
      then Inl (Validation ''maintenance.backup_directory is required when backups are enabled'')
      else if mn_backup_interval_hours (as_maintenance s) = 0
      then Inl (Validation ''maintenance.backup_interval_hours must be >= 1'')
      else if se_pin_enabled (as_security s) \<and> se_access_pin_hash (as_security s) = None
      then Inl (Validation ''security.access_pin_hash is required when PIN is enabled'')
      else if \<not> is_valid_hex_color (as_accent_color s)
      then Inl (Validation ''accent_color must be a hex color like #0064ff'')
      else Inr ())"

definition smtp_validate :: "smtp_settings \<Rightarrow> domain_error + unit" where
  "smtp_validate m =
     (if sp_enabled m \<and> trim (sp_host m) = []
      then Inl (Validation ''notifications.smtp.host is required when SMTP is enabled'')
      else if sp_enabled m \<and> trim (sp_to_address m) = []
      then Inl (Validation ''notifications.smtp.to_address is required when SMTP is enabled'')
      else Inr ())"

definition admin_validate :: "admin_settings \<Rightarrow> domain_error + unit" where
  "admin_validate a =
     (if length (ma_display_name a) > 120 then Inl (Validation ''admin.display_name must be <= 120 characters'')
      else if ma_heartbeat_interval_secs a < 10 \<or> ma_heartbeat_interval_secs a > 3600
      then Inl (Validation ''admin.heartbeat_interval_secs must be between 10 and 3600'')
      else if ma_inventory_interval_secs a < 60 \<or> ma_inventory_interval_secs a > 86400
      then Inl (Validation ''admin.inventory_interval_secs must be between 60 and 86400'')
      else if ma_server_url a \<noteq> [] \<and> \<not> is_http_url (ma_server_url a)
      then Inl (Validation ''admin.server_url must start with http:// or https://'')
      else if ma_enabled a \<and> ma_mode a = ManagedAgent \<and> ma_server_url a = []
      then Inl (Validation ''admin.server_url is required in managed agent mode'')
      else Inr ())"

definition settings_validate :: "app_settings \<Rightarrow> domain_error + unit" where
  "settings_validate s =
     rbind (general_validate s) (\<lambda>_.
     rbind (webhooks_validate (nt_webhooks (as_notifications s))) (\<lambda>_.
     rbind (smtp_validate (nt_smtp (as_notifications s))) (\<lambda>_.
       admin_validate (as_admin s))))"

section \<open>The store\<close>

text \<open>The row with the number 1, if it is there.\<close>

type_synonym settings_db = "app_settings option"

definition settings_save :: "app_settings \<Rightarrow> settings_db \<Rightarrow> settings_db" where
  "settings_save s db = Some s"

definition ensure_default :: "settings_db \<Rightarrow> settings_db" where
  "ensure_default db = (if db = None then settings_save app_settings_default db else db)"

definition get_async :: "settings_db \<Rightarrow> app_settings" where
  "get_async db = (case db of Some s \<Rightarrow> settings_normalized s | None \<Rightarrow> app_settings_default)"

definition update_async :: "app_settings \<Rightarrow> settings_db \<Rightarrow> domain_error + settings_db" where
  "update_async s db =
     (let s' = settings_normalized s in rbind (settings_validate s') (\<lambda>_. Inr (settings_save s' db)))"

text \<open>The use case, over any store with \<open>get\<close> and \<open>update\<close>.\<close>

definition update_settings_in ::
    "('s \<Rightarrow> app_settings) \<Rightarrow> (app_settings \<Rightarrow> 's \<Rightarrow> domain_error + 's) \<Rightarrow> app_settings \<Rightarrow> 's \<Rightarrow>
     domain_error + app_settings \<times> 's" where
  "update_settings_in get put s st =
     rbind (settings_validate s) (\<lambda>_. rbind (put s st) (\<lambda>st'. Inr (get st', st')))"

locale settings_port =
  fixes get :: "'s \<Rightarrow> app_settings"
    and put :: "app_settings \<Rightarrow> 's \<Rightarrow> domain_error + 's"
    and seen :: "app_settings \<Rightarrow> app_settings"
  assumes get_put: "put s st = Inr st' \<Longrightarrow> get st' = seen s"
begin

lemma updated_is_seen:
  "update_settings_in get put s st = Inr (s', st') \<Longrightarrow> s' = seen s \<and> get st' = s' \<and> settings_validate s = Inr ()"
  by (auto simp: update_settings_in_def result_simps get_put)

end

interpretation sqlite_settings: settings_port get_async update_async "settings_normalized \<circ> settings_normalized"
  by unfold_locales (auto simp: update_async_def get_async_def settings_save_def Let_def result_simps)

section \<open>Lemmas\<close>

definition settled_url :: "string \<Rightarrow> bool" where
  "settled_url url \<longleftrightarrow> normalize_url (normalize_url url) = normalize_url url"

lemma trim_settled: "trim (normalize_url url) = normalize_url url \<Longrightarrow> settled_url url"
proof -
  have "trim_end_by P (trim_end_by P s) = trim_end_by P s" for P and s :: string
    by (rule trim_end_by_id) (use trim_end_by_last [of P s] in auto)
  then show "trim (normalize_url url) = normalize_url url \<Longrightarrow> settled_url url"
    by (simp add: settled_url_def) (simp add: normalize_url_def)
qed

lemma normalize_performance_twice:
  "normalize_performance (pf_global_bandwidth_limit_mbps (normalize_performance n p)) (normalize_performance n p) =
   normalize_performance n p"
  by (auto simp: normalize_performance_def)

lemma normalize_maintenance_twice:
  "normalize_maintenance (mn_log_retention_days (normalize_maintenance n m)) (normalize_maintenance n m) =
   normalize_maintenance n m"
  by (auto simp: normalize_maintenance_def)

lemma normalize_admin_twice:
  "settled_url (ma_server_url a) \<Longrightarrow> normalize_admin (normalize_admin a) = normalize_admin a"
  by (simp add: normalize_admin_def settled_url_def split: option.split)

lemma normalized_twice:
  assumes "settled_url (ma_server_url (as_admin s))"
  shows "settings_normalized (settings_normalized s) = settings_normalized s"
  using normalize_performance_twice [of "as_bandwidth_limit_mbps s" "as_performance s"]
    normalize_maintenance_twice [of "as_log_retention_days s" "as_maintenance s"] normalize_admin_twice [OF assms]
  by (simp add: settings_normalized_def Let_def normalize_notifications_def)

lemma default_valid: "settings_validate app_settings_default = Inr ()" "settings_normalized app_settings_default = app_settings_default"
  by code_simp+

section \<open>Properties\<close>

text \<open>
  C27. Settings that are accepted are read back normalized, valid and ready to be saved again, which then
  changes nothing. The hypothesis is about the server's address: what is left of it after trimming it and
  taking off its slashes must not need trimming again.
\<close>

theorem settings_read_back:
  assumes "update_async s db = Inr db'" "settled_url (ma_server_url (as_admin s))"
  shows "get_async db' = settings_normalized s \<and> settings_validate (get_async db') = Inr () \<and>
    update_async (get_async db') db' = Inr db'"
proof -
  from assms(1) have "db' = Some (settings_normalized s)" "settings_validate (settings_normalized s) = Inr ()"
    by (auto simp: update_async_def settings_save_def Let_def result_simps)
  then show ?thesis
    using normalized_twice [OF assms(2)] by (simp add: get_async_def update_async_def settings_save_def)
qed

definition agent_settings :: "string \<Rightarrow> app_settings" where
  "agent_settings url = app_settings_default\<lparr>as_admin := admin_settings_default\<lparr>ma_mode := ManagedAgent,
     ma_server_url := url\<rparr>\<rparr>"

theorem settings_read_back_witness:
  "\<exists>db. update_async (agent_settings '' https://admin.local/ '') None = Inr db \<and>
     ma_server_url (as_admin (get_async db)) = ''https://admin.local'' \<and> settings_validate (get_async db) = Inr ()"
proof -
  let ?s = "agent_settings '' https://admin.local/ ''"
  have "settings_validate (settings_normalized ?s) = Inr ()" by code_simp
  then have ok: "update_async ?s None = Inr (Some (settings_normalized ?s))"
    by (simp add: update_async_def settings_save_def)
  have settled: "settled_url (ma_server_url (as_admin ?s))" by code_simp
  have "ma_server_url (as_admin (settings_normalized ?s)) = ''https://admin.local''" by code_simp
  note again = settings_read_back [OF ok settled]
  with \<open>ma_server_url (as_admin (settings_normalized ?s)) = ''https://admin.local''\<close>
  have "ma_server_url (as_admin (get_async (Some (settings_normalized ?s)))) = ''https://admin.local''" by (elim conjE) (simp only:)
  with ok again show ?thesis by blast
qed

text \<open>Without it, accepted settings can come back as settings that are refused: here the URL loses its slashes.\<close>

lemma accepted_url_is_refused_next:
  "case update_async (agent_settings ''http:// /'') None of
     Inl _ \<Rightarrow> False
   | Inr db \<Rightarrow> \<not> is_ok (update_async (get_async db) db)"
  by code_simp

text \<open>
  The default retention cannot be asked for again, nor a bandwidth without limit: the flat field of older
  versions, kept equal to the nested one, looks like a setting still to be carried over.
\<close>

lemma default_retention_is_overridden:
  "as_log_retention_days s \<noteq> default_log_retention_days \<Longrightarrow>
   mn_log_retention_days (as_maintenance (settings_normalized
     (s\<lparr>as_maintenance := (as_maintenance s)\<lparr>mn_log_retention_days := default_log_retention_days\<rparr>\<rparr>))) = as_log_retention_days s"
  by (simp add: settings_normalized_def Let_def normalize_maintenance_def)

lemma unlimited_bandwidth_is_overridden:
  "as_bandwidth_limit_mbps s > 0 \<Longrightarrow>
   pf_global_bandwidth_limit_mbps (as_performance (settings_normalized
     (s\<lparr>as_performance := (as_performance s)\<lparr>pf_global_bandwidth_limit_mbps := 0\<rparr>\<rparr>))) = as_bandwidth_limit_mbps s"
  by (simp add: settings_normalized_def Let_def normalize_performance_def)

end
