(* ===== verification/Agent_Queue.thy ===== *)
theory Agent_Queue
  imports Admin_Domain Machine Hash_Map
begin

text \<open>
  The local queue of administrative commands, \<open>crates/autoflow-infrastructure/src/admin.rs\<close>: the table
  \<open>admin_commands\<close> as the list of its rows. The JSON payloads are the values they encode; the clock and the
  new identifier are arguments. The order of the instants is the order of their RFC 3339 texts. Each function here but
  \<open>local_finish\<close>, which updates and then reads, is one SQL statement; \<open>Core_Calls\<close> interleaves them.
\<close>

section \<open>The table\<close>

record local_row =
  lc_id :: uuid
  lc_source :: string
  lc_request :: command_request
  lc_status :: string
  lc_result :: "command_result option"
  lc_created_at :: timestamp
  lc_updated_at :: timestamp

type_synonym local_db = "local_row list"

fun local_status_to_db :: "command_status \<Rightarrow> string" where
  "local_status_to_db Pending = ''pending''"
| "local_status_to_db Running = ''running''"
| "local_status_to_db Completed = ''completed''"
| "local_status_to_db Failed = ''failed''"
| "local_status_to_db Skipped = ''skipped''"

definition local_parse_status :: "string \<Rightarrow> domain_error + command_status" where
  "local_parse_status raw =
     (if raw = ''pending'' then Inr Pending
      else if raw = ''running'' then Inr Running
      else if raw = ''completed'' then Inr Completed
      else if raw = ''failed'' then Inr Failed
      else if raw = ''skipped'' then Inr Skipped
      else Inl (DatabaseError (''unknown admin command status: '' @ raw)))"

definition command_of_local_row :: "local_row \<Rightarrow> domain_error + queued_command" where
  "command_of_local_row row =
     rbind (local_parse_status (lc_status row)) (\<lambda>st.
       Inr \<lparr>qc_id = lc_id row, qc_source = lc_source row, qc_request = lc_request row, qc_status = st,
            qc_result = lc_result row, qc_created_at = lc_created_at row, qc_updated_at = lc_updated_at row\<rparr>)"

definition local_save :: "queued_command \<Rightarrow> local_db \<Rightarrow> domain_error + local_db" where
  "local_save c db =
     (if qc_id c \<in> set (map lc_id db) then Inl (DatabaseError ''UNIQUE constraint failed: admin_commands.id'')
      else Inr (db @ [\<lparr>lc_id = qc_id c, lc_source = qc_source c, lc_request = qc_request c,
             lc_status = local_status_to_db (qc_status c), lc_result = qc_result c,
             lc_created_at = qc_created_at c, lc_updated_at = qc_updated_at c\<rparr>]))"

definition local_update_status ::
    "timestamp \<Rightarrow> uuid \<Rightarrow> command_status \<Rightarrow> command_result option \<Rightarrow> local_db \<Rightarrow> local_db" where
  "local_update_status now cid st result db =
     map (\<lambda>row. if lc_id row = cid
                then row\<lparr>lc_status := local_status_to_db st,
                         lc_result := (case result of None \<Rightarrow> lc_result row | Some r \<Rightarrow> Some r),
                         lc_updated_at := now\<rparr>
                else row) db"

definition local_get :: "uuid \<Rightarrow> local_db \<Rightarrow> domain_error + queued_command" where
  "local_get cid db =
     (case find (\<lambda>row. lc_id row = cid) db of
        None \<Rightarrow> Inl (DatabaseError ''no rows returned by a query that expected to return at least one row'')
      | Some row \<Rightarrow> command_of_local_row row)"

section \<open>The operations\<close>

definition local_enqueue ::
    "timestamp \<Rightarrow> uuid \<Rightarrow> string \<Rightarrow> command_request \<Rightarrow> local_db \<Rightarrow> domain_error + queued_command \<times> local_db" where
  "local_enqueue now new_v4 source request db =
     (let c = \<lparr>qc_id = new_v4, qc_source = source, qc_request = request, qc_status = Pending, qc_result = None,
               qc_created_at = now, qc_updated_at = now\<rparr>
      in rbind (local_save c db) (\<lambda>db'. Inr (c, db')))"

definition local_list_recent :: "int \<Rightarrow> local_db \<Rightarrow> domain_error + queued_command list" where
  "local_list_recent limit db =
     collect_rows command_of_local_row (take (nat (clamp 1 500 limit)) (sort_key (\<lambda>row. - lc_created_at row) db))"

definition local_summary :: "local_db \<Rightarrow> domain_error + command_queue_summary" where
  "local_summary db = rbind (local_list_recent 500 db) (\<lambda>commands. Inr (summary_from_commands commands))"

definition local_next_pending :: "local_db \<Rightarrow> domain_error + queued_command option" where
  "local_next_pending db =
     (case sort_key lc_created_at (filter (\<lambda>row. lc_status row = ''pending'') db) of
        [] \<Rightarrow> Inr None
      | row # _ \<Rightarrow> rbind (command_of_local_row row) (\<lambda>c. Inr (Some c)))"

definition local_mark_running :: "timestamp \<Rightarrow> uuid \<Rightarrow> local_db \<Rightarrow> local_db" where
  "local_mark_running now cid db = local_update_status now cid Running None db"

definition finished_status :: "command_result \<Rightarrow> command_status" where
  "finished_status r =
     (if res_accepted r then Completed
      else if list_ex (\<lambda>entry. tr_status entry = TargetError) (res_results r) then Failed else Skipped)"

definition local_finish ::
    "timestamp \<Rightarrow> uuid \<Rightarrow> command_result \<Rightarrow> local_db \<Rightarrow> (domain_error + queued_command) \<times> local_db" where
  "local_finish now cid r db =
     (let db' = local_update_status now cid (finished_status r) (Some r) db in (local_get cid db', db'))"

section \<open>What the rows keep\<close>

lemma parse_status_to_db [simp]: "local_parse_status (local_status_to_db st) = Inr st"
  by (cases st) (simp_all add: local_parse_status_def)

lemma pending_text [simp]: "local_status_to_db st = ''pending'' \<longleftrightarrow> st = Pending"
  by (cases st) simp_all

lemma pending_is_text: "\<exists>st. ''pending'' = local_status_to_db st"
  by (rule exI [of _ Pending]) simp

text \<open>The rows have different identifiers, and their texts are those of statuses.\<close>

definition local_ok :: "local_db \<Rightarrow> bool" where
  "local_ok db \<longleftrightarrow> distinct (map lc_id db) \<and> (\<forall>row \<in> set db. \<exists>st. lc_status row = local_status_to_db st)"

lemma update_status_ids [simp]: "map lc_id (local_update_status now cid st r db) = map lc_id db"
  by (simp add: local_update_status_def comp_def if_distrib cong: if_cong)

lemma update_status_ok: "local_ok db \<Longrightarrow> local_ok (local_update_status now cid st r db)"
  unfolding local_ok_def by (simp only: update_status_ids) (auto simp: local_update_status_def)

lemma local_enqueue_ok: "local_ok db \<Longrightarrow> local_enqueue now u src rq db = Inr (c, db') \<Longrightarrow> local_ok db'"
  by (auto simp: local_enqueue_def local_save_def local_ok_def Let_def pending_is_text split: if_splits)

lemma find_local_row: "distinct (map lc_id db) \<Longrightarrow> row \<in> set db \<Longrightarrow> find (\<lambda>r. lc_id r = lc_id row) db = Some row"
  by (simp add: find_is_key_map key_map_Some)

text \<open>The command that is taken: pending, and no pending one is older.\<close>

lemma next_pending_row:
  assumes "local_next_pending db = Inr (Some c)"
  shows "\<exists>row \<in> set db. command_of_local_row row = Inr c \<and> lc_status row = ''pending'' \<and>
    (\<forall>row' \<in> set db. lc_status row' = ''pending'' \<longrightarrow> lc_created_at row \<le> lc_created_at row')"
proof -
  let ?p = "filter (\<lambda>row. lc_status row = ''pending'') db"
  obtain row rest where hd: "sort_key lc_created_at ?p = row # rest" and c: "command_of_local_row row = Inr c"
    using assms by (auto simp: local_next_pending_def result_simps split: list.splits)
  have in_p: "set (row # rest) = set ?p" using hd set_sort by metis
  have "sorted (map lc_created_at (row # rest))" using hd sorted_sort_key by metis
  then have "lc_created_at row \<le> lc_created_at row'" if "row' \<in> set ?p" for row'
    using that in_p by auto
  then show ?thesis using c in_p by (intro bexI [of _ row]) auto
qed

lemma next_pending_none: "local_ok db \<Longrightarrow> local_next_pending db = Inr None \<longleftrightarrow> (\<forall>row \<in> set db. lc_status row \<noteq> ''pending'')"
proof -
  assume ok: "local_ok db"
  have "local_next_pending db = Inr None \<longleftrightarrow> sort_key lc_created_at (filter (\<lambda>row. lc_status row = ''pending'') db) = []"
    by (simp add: local_next_pending_def result_simps split: list.splits)
  also have "\<dots> \<longleftrightarrow> filter (\<lambda>row. lc_status row = ''pending'') db = []"
    by (simp only: length_0_conv [symmetric] length_sort)
  finally show ?thesis by (auto simp: filter_empty_conv)
qed

end
