(* ===== verification/Core_Service.thy ===== *)
theory Core_Service
  imports Watch_Service Settings Agent_Queue
begin

text \<open>
  The core service, \<open>crates/autoflow-core/src/lib.rs\<close> with the commands of \<open>admin.rs\<close> beside it: the operations of
  \<open>AppState\<close> over the stores, the queue and the watch runtime, and the dispatch of administrative commands to
  them. The world, the queue and the watches are those of \<open>Watch_Service\<close>. A command is dispatched in one step;
  the clock stands still in it. \<open>admin_process_next_command\<close> is a call during which nothing else happens; \<open>Core_Calls\<close>
  has the call as its steps between two awaits, with other calls and operations in between.
\<close>

section \<open>The state\<close>

record core_env =
  cv_watch :: watch_env
  cv_deps :: blueprint_deps
  cv_new_v4 :: "job_queue \<Rightarrow> uuid"
  cv_uuid_text :: "uuid \<Rightarrow> string"
  cv_details :: "string \<Rightarrow> string \<Rightarrow> command_request \<Rightarrow> command_result option \<Rightarrow> string"
  cv_argon :: "string \<Rightarrow> string + string"
  cv_argon_verify :: "string \<Rightarrow> string \<Rightarrow> bool"
  cv_keyring_error :: "string option"
  cv_hardware :: hardware_profile
  cv_domain :: "string option"
  cv_addresses :: "string \<Rightarrow> string list option"

record core_state =
  cs_settings :: settings_db
  cs_cache :: app_settings
  cs_watch :: watch_state
  cs_commands :: local_db
  cs_secret :: "string option"
  cs_instance_id :: string

abbreviation run_deps_of :: "core_env \<Rightarrow> run_deps" where
  "run_deps_of cv \<equiv> xd_run (cv_deps cv)"

definition cv_store :: "core_env \<Rightarrow> store_config" where
  "cv_store cv = rd_store (run_deps_of cv)"

definition cv_now :: "core_env \<Rightarrow> timestamp" where
  "cv_now cv = rd_now (run_deps_of cv)"

definition job_db_of :: "core_state \<Rightarrow> job_db" where
  "job_db_of s = w_jobs (wt_world (cs_watch s))"

definition queue_of :: "core_state \<Rightarrow> job_queue" where
  "queue_of s = wt_queue (cs_watch s)"

definition set_queue :: "job_queue \<Rightarrow> core_state \<Rightarrow> core_state" where
  "set_queue q s = s\<lparr>cs_watch := (cs_watch s)\<lparr>wt_queue := q\<rparr>\<rparr>"

definition set_jobs :: "job_db \<Rightarrow> core_state \<Rightarrow> core_state" where
  "set_jobs db s = s\<lparr>cs_watch := (cs_watch s)\<lparr>wt_world := (wt_world (cs_watch s))\<lparr>w_jobs := db\<rparr>\<rparr>\<rparr>"

section \<open>Settings, PIN and secret\<close>

definition core_get_settings :: "core_state \<Rightarrow> app_settings \<times> core_state" where
  "core_get_settings s = (let a = get_async (cs_settings s) in (a, s\<lparr>cs_cache := a\<rparr>))"

definition core_update_settings :: "app_settings \<Rightarrow> core_state \<Rightarrow> (domain_error + app_settings) \<times> core_state" where
  "core_update_settings a s =
     (case update_async a (cs_settings s) of
        Inl e \<Rightarrow> (Inl e, s)
      | Inr db \<Rightarrow> (let stored = get_async db in (Inr stored, s\<lparr>cs_settings := db, cs_cache := stored\<rparr>)))"

definition hash_pin :: "core_env \<Rightarrow> string \<Rightarrow> domain_error + string" where
  "hash_pin cv pin =
     (if trim pin = [] then Inl (Validation ''PIN cannot be empty'') else map_err DatabaseError (cv_argon cv pin))"

definition security_set_pin :: "core_env \<Rightarrow> string \<Rightarrow> core_state \<Rightarrow> (domain_error + app_settings) \<times> core_state" where
  "security_set_pin cv pin s =
     (case hash_pin cv pin of
        Inl e \<Rightarrow> (Inl e, s)
      | Inr h \<Rightarrow>
          (case core_get_settings s of
             (a, s) \<Rightarrow>
               core_update_settings
                 (a\<lparr>as_security := (as_security a)\<lparr>se_pin_enabled := True, se_access_pin_hash := Some h\<rparr>\<rparr>) s))"

definition security_verify_pin :: "core_env \<Rightarrow> string \<Rightarrow> core_state \<Rightarrow> bool \<times> core_state" where
  "security_verify_pin cv pin s =
     (case core_get_settings s of
        (a, s) \<Rightarrow>
          (case se_access_pin_hash (as_security a) of
             Some h \<Rightarrow> (cv_argon_verify cv pin h, s)
           | None \<Rightarrow> (False, s)))"

definition security_clear_pin :: "core_state \<Rightarrow> (domain_error + app_settings) \<times> core_state" where
  "security_clear_pin s =
     (case core_get_settings s of
        (a, s) \<Rightarrow>
          core_update_settings
            (a\<lparr>as_security := (as_security a)\<lparr>se_pin_enabled := False, se_access_pin_hash := None,
                 se_require_pin_on_startup := False\<rparr>\<rparr>) s)"

definition set_admin_secret_configured :: "bool \<Rightarrow> core_state \<Rightarrow> (domain_error + app_settings) \<times> core_state" where
  "set_admin_secret_configured configured s =
     (case core_get_settings s of
        (a, s) \<Rightarrow>
          core_update_settings
            (a\<lparr>as_admin := (as_admin a)\<lparr>ma_enrollment_token_configured := configured\<rparr>\<rparr>) s)"

text \<open>The keyring entry of the agent's secret; \<open>cv_keyring_error\<close> is what the operating system answers when it fails.\<close>

definition get_agent_secret :: "core_env \<Rightarrow> core_state \<Rightarrow> domain_error + string option" where
  "get_agent_secret cv s =
     (case cv_keyring_error cv of Some e \<Rightarrow> Inl (DatabaseError e) | None \<Rightarrow> Inr (cs_secret s))"

definition set_agent_secret :: "core_env \<Rightarrow> string \<Rightarrow> core_state \<Rightarrow> domain_error + core_state" where
  "set_agent_secret cv secret s =
     (if length (trim secret) < 32
      then Inl (Validation ''admin agent secret must have at least 32 characters'')
      else
        (case cv_keyring_error cv of
           Some e \<Rightarrow> Inl (DatabaseError e)
         | None \<Rightarrow> Inr (s\<lparr>cs_secret := Some (trim secret)\<rparr>)))"

definition clear_agent_secret :: "core_env \<Rightarrow> core_state \<Rightarrow> domain_error + core_state" where
  "clear_agent_secret cv s =
     (case cv_keyring_error cv of Some e \<Rightarrow> Inl (DatabaseError e) | None \<Rightarrow> Inr (s\<lparr>cs_secret := None\<rparr>))"

definition admin_set_agent_secret ::
    "core_env \<Rightarrow> string \<Rightarrow> core_state \<Rightarrow> (domain_error + app_settings) \<times> core_state" where
  "admin_set_agent_secret cv secret s =
     (case set_agent_secret cv secret s of
        Inl e \<Rightarrow> (Inl e, s) | Inr s \<Rightarrow> set_admin_secret_configured True s)"

definition admin_clear_agent_secret :: "core_env \<Rightarrow> core_state \<Rightarrow> (domain_error + app_settings) \<times> core_state" where
  "admin_clear_agent_secret cv s =
     (case clear_agent_secret cv s of
        Inl e \<Rightarrow> (Inl e, s) | Inr s \<Rightarrow> set_admin_secret_configured False s)"

text \<open>\<open>a\<close> and \<open>b\<close> are two new identifiers without hyphens.\<close>

definition generate_admin_agent_secret :: "string \<Rightarrow> string \<Rightarrow> string" where
  "generate_admin_agent_secret a b = ''af_'' @ a @ ''_'' @ b"

definition admin_generate_agent_secret ::
    "core_env \<Rightarrow> string \<Rightarrow> string \<Rightarrow> core_state \<Rightarrow> (domain_error + string \<times> app_settings) \<times> core_state" where
  "admin_generate_agent_secret cv a b s =
     (let secret = generate_admin_agent_secret a b in
      case admin_set_agent_secret cv secret s of
        (Inl e, s) \<Rightarrow> (Inl e, s)
      | (Inr _, s) \<Rightarrow> (case core_get_settings s of (settings, s) \<Rightarrow> (Inr (secret, settings), s)))"

section \<open>Jobs and blueprints\<close>

text \<open>A job is saved first, then watched: when the watch cannot start the error is returned, with the job saved.\<close>

definition saved_and_watched ::
    "core_env \<Rightarrow> domain_error + job \<times> job_db \<Rightarrow> core_state \<Rightarrow> (domain_error + job) \<times> core_state" where
  "saved_and_watched cv r s =
     (case r of
        Inl e \<Rightarrow> (Inl e, s)
      | Inr (j, db) \<Rightarrow>
          (case sync_job (cv_watch cv) j (cs_watch (set_jobs db s)) of
             (Inl e, w) \<Rightarrow> (Inl e, s\<lparr>cs_watch := w\<rparr>)
           | (Inr (), w) \<Rightarrow> (Inr j, s\<lparr>cs_watch := w\<rparr>)))"

definition core_create_job :: "core_env \<Rightarrow> job \<Rightarrow> core_state \<Rightarrow> (domain_error + job) \<times> core_state" where
  "core_create_job cv j s = saved_and_watched cv (create_job (cv_store cv) (cv_now cv) j (job_db_of s)) s"

definition core_update_job :: "core_env \<Rightarrow> job \<Rightarrow> core_state \<Rightarrow> (domain_error + job) \<times> core_state" where
  "core_update_job cv j s = saved_and_watched cv (update_job (cv_store cv) (cv_now cv) j (job_db_of s)) s"

definition core_delete_job :: "uuid \<Rightarrow> core_state \<Rightarrow> (domain_error + unit) \<times> core_state" where
  "core_delete_job jid s =
     (case delete_job jid (job_db_of s) of
        Inl e \<Rightarrow> (Inl e, s)
      | Inr db \<Rightarrow> (Inr (), (set_jobs db s)\<lparr>cs_watch := unregister (WatchJob jid) (cs_watch (set_jobs db s))\<rparr>))"

definition core_get_job :: "core_env \<Rightarrow> uuid \<Rightarrow> core_state \<Rightarrow> domain_error + job" where
  "core_get_job cv jid s = store_get (cv_store cv) (cv_now cv) jid (job_db_of s)"

definition core_list_jobs :: "core_env \<Rightarrow> core_state \<Rightarrow> job_summary list" where
  "core_list_jobs cv s = store_list (cv_store cv) (cv_now cv) (job_db_of s)"

definition core_simulate_job_draft :: "core_env \<Rightarrow> job \<Rightarrow> core_state \<Rightarrow> domain_error + simulation_report" where
  "core_simulate_job_draft cv j s =
     simulate_job_draft (st_tz (cv_store cv)) (st_canon (cv_store cv)) (st_rx (cv_store cv)) (rd_globs (run_deps_of cv))
       (rd_probe (run_deps_of cv) (w_fs (wt_world (cs_watch s)))) (cv_now cv) j"

definition set_blueprints :: "blueprint_db \<Rightarrow> core_state \<Rightarrow> core_state" where
  "set_blueprints db s = s\<lparr>cs_watch := (cs_watch s)\<lparr>wt_db := db\<rparr>\<rparr>"

definition blueprint_saved_and_watched ::
    "core_env \<Rightarrow> domain_error + blueprint \<times> blueprint_db \<Rightarrow> core_state \<Rightarrow> (domain_error + blueprint) \<times> core_state" where
  "blueprint_saved_and_watched cv r s =
     (case r of
        Inl e \<Rightarrow> (Inl e, s)
      | Inr (b, db) \<Rightarrow>
          (case sync_blueprint (cv_watch cv) b (cs_watch (set_blueprints db s)) of
             (Inl e, w) \<Rightarrow> (Inl e, s\<lparr>cs_watch := w\<rparr>)
           | (Inr (), w) \<Rightarrow> (Inr b, s\<lparr>cs_watch := w\<rparr>)))"

definition core_create_blueprint ::
    "core_env \<Rightarrow> blueprint \<Rightarrow> core_state \<Rightarrow> (domain_error + blueprint) \<times> core_state" where
  "core_create_blueprint cv b s =
     blueprint_saved_and_watched cv (create_blueprint (st_rx (cv_store cv)) (cv_now cv) b (wt_db (cs_watch s))) s"

definition core_update_blueprint ::
    "core_env \<Rightarrow> blueprint \<Rightarrow> core_state \<Rightarrow> (domain_error + blueprint) \<times> core_state" where
  "core_update_blueprint cv b s =
     blueprint_saved_and_watched cv (update_blueprint (st_rx (cv_store cv)) (cv_now cv) b (wt_db (cs_watch s))) s"

definition core_delete_blueprint :: "uuid \<Rightarrow> core_state \<Rightarrow> (domain_error + unit) \<times> core_state" where
  "core_delete_blueprint bid s =
     (case delete_blueprint bid (wt_db (cs_watch s)) of
        Inl e \<Rightarrow> (Inl e, s)
      | Inr db \<Rightarrow>
          (Inr (), s\<lparr>cs_watch := unregister (WatchBlueprint bid) (cs_watch (set_blueprints db s))\<rparr>))"

definition core_run_job :: "core_env \<Rightarrow> uuid \<Rightarrow> core_state \<Rightarrow> (domain_error + uuid) \<times> core_state" where
  "core_run_job cv jid s =
     (case enqueue (cv_new_v4 cv (queue_of s)) jid (queue_of s) of (r, q) \<Rightarrow> (r, set_queue q s))"

definition core_cancel_execution :: "uuid \<Rightarrow> core_state \<Rightarrow> (domain_error + unit) \<times> core_state" where
  "core_cancel_execution eid s = (case cancel eid (queue_of s) of (r, q) \<Rightarrow> (r, set_queue q s))"

text \<open>Runs and rollbacks that a user asks for; \<open>eid\<close> is the new identifier of the run.\<close>

definition set_world :: "world \<Rightarrow> core_state \<Rightarrow> core_state" where
  "set_world w s = s\<lparr>cs_watch := (cs_watch s)\<lparr>wt_world := w\<rparr>\<rparr>"

definition core_apply_blueprint ::
    "core_env \<Rightarrow> uuid \<Rightarrow> uuid \<Rightarrow> core_state \<Rightarrow> (domain_error + apply_result) \<times> core_state" where
  "core_apply_blueprint cv bid eid s =
     (case apply_blueprint_with_rollback (cv_deps cv) bid eid (wt_world (cs_watch s)) (wt_db (cs_watch s)) of
        (r, w, db) \<Rightarrow> (r, set_blueprints db (set_world w s)))"

definition core_apply_blueprint_with_variables ::
    "core_env \<Rightarrow> uuid \<Rightarrow> variables \<Rightarrow> uuid \<Rightarrow> core_state \<Rightarrow> (domain_error + apply_result) \<times> core_state" where
  "core_apply_blueprint_with_variables cv bid variables eid s =
     (case apply_blueprint_with_variables_with_rollback (cv_deps cv) bid variables eid
             (wt_world (cs_watch s)) (wt_db (cs_watch s)) of
        (r, w, db) \<Rightarrow> (r, set_blueprints db (set_world w s)))"

definition core_rollback_job :: "core_env \<Rightarrow> uuid \<Rightarrow> core_state \<Rightarrow> (domain_error + rollback_result) \<times> core_state" where
  "core_rollback_job cv jid s =
     (case rollback_job (run_deps_of cv) (cv_uuid_text cv) (cv_now cv) jid (wt_world (cs_watch s)) of
        (r, w) \<Rightarrow> (r, set_world w s))"

definition core_rollback_blueprint ::
    "core_env \<Rightarrow> uuid \<Rightarrow> core_state \<Rightarrow> (domain_error + rollback_result) \<times> core_state" where
  "core_rollback_blueprint cv bid s =
     (case rollback_blueprint (run_deps_of cv) (cv_uuid_text cv) (cv_now cv) bid (wt_world (cs_watch s)) of
        (r, w) \<Rightarrow> (r, set_world w s))"

definition core_simulate_blueprint :: "core_env \<Rightarrow> uuid \<Rightarrow> core_state \<Rightarrow> domain_error + blueprint_report" where
  "core_simulate_blueprint cv bid s =
     simulate_blueprint (xd_plan (cv_deps cv)) (rd_env (run_deps_of cv)) bid (wt_db (cs_watch s)) (w_fs (wt_world (cs_watch s)))"

definition core_pause_queue :: "core_state \<Rightarrow> core_state" where
  "core_pause_queue s = set_queue (pause (queue_of s)) s"

definition core_resume_queue :: "core_state \<Rightarrow> core_state" where
  "core_resume_queue s = set_queue (resume (queue_of s)) s"

definition core_stop_all :: "core_state \<Rightarrow> core_state" where
  "core_stop_all s = set_queue (stop_all (queue_of s)) s"

section \<open>Startup and backups\<close>

text \<open>
  The settings part of \<open>AppState::new\<close>: the identifier of the instance is the stored one, or the derived one,
  which is then stored. The result has the table, the settings and the identifier the service runs with.
\<close>

definition core_startup ::
    "string \<Rightarrow> settings_db \<Rightarrow> domain_error + settings_db \<times> app_settings \<times> string" where
  "core_startup derived db =
     (let db0 = ensure_default db;
          current = settings_normalized (get_async db0);
          inst = (case ma_instance_id (as_admin current) of Some i \<Rightarrow> i | None \<Rightarrow> derived)
      in if ma_instance_id (as_admin current) \<noteq> Some inst
         then (let named = current\<lparr>as_admin := (as_admin current)\<lparr>ma_instance_id := Some inst\<rparr>\<rparr>
               in rbind (update_async named db0) (\<lambda>db1. Inr (db1, named, inst)))
         else Inr (db0, current, inst))"

text \<open>The files of the backup directory that are backups, and which of them, oldest names first, are removed.\<close>

definition is_backup_name :: "string \<Rightarrow> bool" where
  "is_backup_name name \<longleftrightarrow> starts_with name ''autoflow-'' \<and> suffix ''.sqlite'' name"

fun prune_backups :: "nat \<Rightarrow> string list \<Rightarrow> string list \<times> string list" where
  "prune_backups retention [] = ([], [])"
| "prune_backups retention (oldest # rest) =
     (if length (oldest # rest) > retention
      then (case prune_backups retention rest of (gone, remaining) \<Rightarrow> (oldest # gone, remaining))
      else ([], oldest # rest))"

definition backups_after :: "32 word \<Rightarrow> string list \<Rightarrow> string list \<times> string list" where
  "backups_after retention_count paths =
     prune_backups (unat (max 1 retention_count))
       (sort_key path_key (filter (\<lambda>p. case file_name p of None \<Rightarrow> False | Some n \<Rightarrow> is_backup_name n) paths))"

lemma prune_backups_eq: "prune_backups r ps = (take (length ps - r) ps, drop (length ps - r) ps)"
  by (induction r ps rule: prune_backups.induct) (auto simp: Suc_diff_le)

text \<open>The newest backups are kept, as many as the setting says and at least one if there is one.\<close>

lemma newest_backups_are_kept:
  assumes "backups_after n paths = (gone, remaining)" "p \<in> set gone" "q \<in> set remaining"
  shows "path_key p \<le> path_key q \<and> length remaining = unat (max 1 n)"
proof -
  let ?ps = "sort_key path_key (filter (\<lambda>p. case file_name p of None \<Rightarrow> False | Some n \<Rightarrow> is_backup_name n) paths)"
  let ?r = "unat (max 1 n)"
  have eq: "gone = take (length ?ps - ?r) ?ps" "remaining = drop (length ?ps - ?r) ?ps"
    using assms(1) by (simp_all add: backups_after_def prune_backups_eq)
  have "length ?ps - ?r \<noteq> 0" using assms(2) eq(1) by (intro notI) simp
  then have "length remaining = ?r" by (simp add: eq(2))
  moreover have "sorted (map path_key (gone @ remaining))" unfolding eq append_take_drop_id by simp
  then have "path_key p \<le> path_key q" using assms(2,3) by (auto simp: sorted_append)
  ultimately show ?thesis by blast
qed

text \<open>An instance keeps its identifier: at the next start the derived one does not matter any more.\<close>

lemma instance_id_survives_restart:
  assumes "core_startup derived db = Inr (db', a, inst)" "trim derived = derived" "derived \<noteq> []"
  shows "ma_instance_id (as_admin (get_async db')) = Some inst"
proof -
  have named: "ma_instance_id (as_admin (settings_normalized b)) =
      (case ma_instance_id (as_admin b) of None \<Rightarrow> None | Some i \<Rightarrow> if trim i = [] then None else Some (trim i))" for b
    by (simp add: settings_normalized_def normalize_admin_def Let_def)
  have stored: "get_async (Some b) = settings_normalized b" for b by (simp add: get_async_def)
  show ?thesis
  proof (cases "ma_instance_id (as_admin (settings_normalized (get_async (ensure_default db)))) = None")
    case True
    with assms show ?thesis
      by (auto simp: core_startup_def Let_def update_async_def settings_save_def result_simps stored named)
  next
    case False
    then obtain i where "ma_instance_id (as_admin (settings_normalized (get_async (ensure_default db)))) = Some i" by auto
    moreover from this obtain i0 where "ma_instance_id (as_admin (get_async (ensure_default db))) = Some i0" "trim i0 \<noteq> []" "i = trim i0"
      by (auto simp: named split: option.splits if_splits)
    moreover have "ensure_default db = Some b \<Longrightarrow> ma_instance_id (as_admin (get_async (Some b))) \<noteq> None \<Longrightarrow>
        trim (the (ma_instance_id (as_admin (get_async (Some b))))) = the (ma_instance_id (as_admin (get_async (Some b))))" for b
      by (auto simp: stored named split: option.splits if_splits)
    ultimately show ?thesis using assms(1)
      by (cases "ensure_default db") (auto simp: core_startup_def Let_def ensure_default_def settings_save_def split: if_splits)
  qed
qed

section \<open>The commands\<close>

definition error_result :: "string \<Rightarrow> domain_error \<Rightarrow> target_result" where
  "error_result trg e = \<lparr>tr_target_instance_id = trg, tr_status = TargetError, tr_message = error_text e\<rparr>"

definition skipped_result :: "string \<Rightarrow> string \<Rightarrow> target_result" where
  "skipped_result trg message = \<lparr>tr_target_instance_id = trg, tr_status = TargetSkipped, tr_message = message\<rparr>"

definition accepted_result :: "string \<Rightarrow> string \<Rightarrow> target_result" where
  "accepted_result trg message = \<lparr>tr_target_instance_id = trg, tr_status = Accepted, tr_message = message\<rparr>"

definition result_of :: "string \<Rightarrow> ('b \<Rightarrow> string) \<Rightarrow> domain_error + 'b \<Rightarrow> target_result" where
  "result_of trg message r =
     (case r of Inr y \<Rightarrow> accepted_result trg (message y) | Inl e \<Rightarrow> error_result trg e)"

text \<open>One step for each element, the results pushed in order.\<close>

fun each_result :: "('b \<Rightarrow> core_state \<Rightarrow> target_result list \<times> core_state) \<Rightarrow> 'b list \<Rightarrow> core_state \<Rightarrow>
    target_result list \<times> core_state" where
  "each_result f [] s = ([], s)"
| "each_result f (y # ys) s =
     (case f y s of (rs, s) \<Rightarrow> (case each_result f ys s of (rs', s) \<Rightarrow> (rs @ rs', s)))"

definition start_jobs :: "core_env \<Rightarrow> string \<Rightarrow> uuid list \<Rightarrow> core_state \<Rightarrow> target_result list \<times> core_state" where
  "start_jobs cv trg jids s =
     (if jids = [] then ([skipped_result trg ''Nenhum fluxo selecionado''], s)
      else each_result (\<lambda>jid s. case core_run_job cv jid s of (r, s) \<Rightarrow>
             ([result_of trg (\<lambda>eid. ''Fluxo iniciado: '' @ cv_uuid_text cv eid) r], s)) jids s)"

definition cancel_executions ::
    "core_env \<Rightarrow> string \<Rightarrow> string \<Rightarrow> uuid list \<Rightarrow> core_state \<Rightarrow> target_result list \<times> core_state" where
  "cancel_executions cv done_text trg eids s =
     each_result (\<lambda>eid s. case core_cancel_execution eid s of (r, s) \<Rightarrow>
       ([result_of trg (\<lambda>_. done_text @ cv_uuid_text cv eid) r], s)) eids s"

definition stop_jobs :: "core_env \<Rightarrow> string \<Rightarrow> command_request \<Rightarrow> core_state \<Rightarrow> target_result list \<times> core_state" where
  "stop_jobs cv trg req s =
     (let running_now = list_active (queue_of s);
          eids = (if cr_execution_ids req = []
                  then map ae_execution_id
                         (filter (\<lambda>e. cr_job_ids req = [] \<or> ae_job_id e \<in> set (cr_job_ids req)) running_now)
                  else cr_execution_ids req)
      in if eids = [] then ([skipped_result trg ''Nenhuma execucao ativa encontrada para parar''], s)
         else cancel_executions cv ''Execucao parada: '' trg eids s)"

definition toggle_job :: "core_env \<Rightarrow> string \<Rightarrow> bool \<Rightarrow> uuid \<Rightarrow> core_state \<Rightarrow> target_result \<times> core_state" where
  "toggle_job cv trg on jid s =
     (case core_get_job cv jid s of
        Inl e \<Rightarrow> (error_result trg e, s)
      | Inr j \<Rightarrow>
          (case core_update_job cv (j\<lparr>job_enabled := on\<rparr>) s of (r, s) \<Rightarrow>
             (result_of trg (\<lambda>saved. (if on then ''Fluxo retomado: '' else ''Fluxo pausado: '') @ job_name saved) r, s)))"

definition toggle_jobs ::
    "core_env \<Rightarrow> string \<Rightarrow> uuid list \<Rightarrow> bool \<Rightarrow> core_state \<Rightarrow> target_result list \<times> core_state" where
  "toggle_jobs cv trg jids on s =
     (if jids = [] then ([skipped_result trg ''Nenhum fluxo selecionado''], s)
      else each_result (\<lambda>jid s. case toggle_job cv trg on jid s of (r, s) \<Rightarrow> ([r], s)) jids s)"

definition preview_job_result :: "core_env \<Rightarrow> string \<Rightarrow> job \<Rightarrow> string \<Rightarrow> core_state \<Rightarrow> target_result" where
  "preview_job_result cv trg j verb s =
     result_of trg (\<lambda>report. ''Previa para '' @ verb @ '' '' @ [CHR 0x27] @ job_name j @ [CHR 0x27] @ '': '' @
         show_nat (unat (files_matched report)) @ '' arquivos, '' @
         show_nat (unat (files_skipped report)) @ '' ignorados'')
       (core_simulate_job_draft cv j s)"

definition create_jobs ::
    "core_env \<Rightarrow> string \<Rightarrow> job_payload list \<Rightarrow> core_state \<Rightarrow> target_result list \<times> core_state" where
  "create_jobs cv trg payloads s =
     (if payloads = [] then ([skipped_result trg ''Nenhum fluxo enviado para criar''], s)
      else each_result (\<lambda>p s.
             if jp_preview_only p then ([preview_job_result cv trg (jp_job p) ''criar'' s], s)
             else (case core_create_job cv (jp_job p) s of (r, s) \<Rightarrow>
               ([result_of trg (\<lambda>saved. ''Fluxo remoto criado: '' @ job_name saved) r], s))) payloads s)"

definition update_jobs ::
    "core_env \<Rightarrow> string \<Rightarrow> job_payload list \<Rightarrow> core_state \<Rightarrow> target_result list \<times> core_state" where
  "update_jobs cv trg payloads s =
     (if payloads = [] then ([skipped_result trg ''Nenhum fluxo enviado para editar''], s)
      else each_result (\<lambda>p s.
             if jp_preview_only p then ([preview_job_result cv trg (jp_job p) ''editar'' s], s)
             else
               (case core_get_job cv (job_id (jp_job p)) s of
                  Inl e \<Rightarrow> ([error_result trg e], s)
                | Inr _ \<Rightarrow>
                    (case core_update_job cv (jp_job p) s of (r, s) \<Rightarrow>
                       ([result_of trg (\<lambda>saved. ''Fluxo remoto editado: '' @ job_name saved) r], s)))) payloads s)"

definition delete_jobs :: "core_env \<Rightarrow> string \<Rightarrow> uuid list \<Rightarrow> core_state \<Rightarrow> target_result list \<times> core_state" where
  "delete_jobs cv trg jids s =
     (if jids = [] then ([skipped_result trg ''Nenhum fluxo selecionado''], s)
      else each_result (\<lambda>jid s. case core_delete_job jid s of (r, s) \<Rightarrow>
             ([result_of trg (\<lambda>_. ''Fluxo deletado: '' @ cv_uuid_text cv jid) r], s)) jids s)"

definition is_batch :: "command_request \<Rightarrow> bool" where
  "is_batch req \<longleftrightarrow> length (cr_target_instance_ids req) > 1 \<or> length (cr_job_ids req) > 1 \<or>
     length (cr_execution_ids req) > 1 \<or> length (cr_job_payloads req) > 1"

definition run_command ::
    "core_env \<Rightarrow> command_request \<Rightarrow> string \<Rightarrow> core_state \<Rightarrow> target_result list \<times> core_state" where
  "run_command cv req trg s =
     (case cr_kind req of
        StartJob \<Rightarrow> start_jobs cv trg (cr_job_ids req) s
      | CancelExecution \<Rightarrow>
          (if cr_execution_ids req = [] then ([skipped_result trg ''Nenhuma execucao selecionada''], s)
           else cancel_executions cv ''Execucao cancelada: '' trg (cr_execution_ids req) s)
      | PauseJob \<Rightarrow> toggle_jobs cv trg (cr_job_ids req) False s
      | ResumeJob \<Rightarrow> toggle_jobs cv trg (cr_job_ids req) True s
      | StopJob \<Rightarrow> stop_jobs cv trg req s
      | CreateJob \<Rightarrow> create_jobs cv trg (cr_job_payloads req) s
      | UpdateJob \<Rightarrow> update_jobs cv trg (cr_job_payloads req) s
      | DeleteJob \<Rightarrow> delete_jobs cv trg (cr_job_ids req) s
      | _ \<Rightarrow> ([skipped_result trg ''Comando modelado, aguardando agente remoto/servidor admin''], s))"

definition dispatch_target ::
    "core_env \<Rightarrow> command_request \<Rightarrow> admin_settings \<Rightarrow> string \<Rightarrow> core_state \<Rightarrow> target_result list \<times> core_state" where
  "dispatch_target cv req a trg s =
     (if \<not> ma_enabled a then ([skipped_result trg ''Monitoramento admin desabilitado''], s)
      else if trg \<noteq> cs_instance_id s \<and> \<not> ma_allow_remote_commands a
      then ([skipped_result trg ''Comandos remotos desativados''], s)
      else if trg \<noteq> cs_instance_id s
      then ([skipped_result trg ''Instancia remota aguardando servidor admin''], s)
      else if is_batch req \<and> \<not> ma_allow_batch_commands a
      then ([skipped_result trg (''A'' @ [CHR 0xC3, CHR 0xA7, CHR 0xC3, CHR 0xB5] @ ''es em lote desativadas'')], s)
      else run_command cv req trg s)"

definition command_targets :: "command_request \<Rightarrow> core_state \<Rightarrow> string list" where
  "command_targets req s =
     (if cr_target_instance_ids req = [] then [cs_instance_id s] else cr_target_instance_ids req)"

definition dispatch_command :: "core_env \<Rightarrow> command_request \<Rightarrow> core_state \<Rightarrow> command_result \<times> core_state" where
  "dispatch_command cv req s0 =
     (case core_get_settings s0 of
        (settings, s) \<Rightarrow>
          (case each_result (dispatch_target cv req (as_admin settings)) (command_targets req s) s of
             (rs, s') \<Rightarrow>
               (\<lparr>res_accepted = list_ex (\<lambda>r. tr_status r = Accepted) rs, res_command = cr_kind req, res_results = rs\<rparr>, s')))"

section \<open>The audit of commands\<close>

fun admin_command_name :: "command_kind \<Rightarrow> string" where
  "admin_command_name StartJob = ''startJob''"
| "admin_command_name CancelExecution = ''cancelExecution''"
| "admin_command_name PauseJob = ''pauseJob''"
| "admin_command_name ResumeJob = ''resumeJob''"
| "admin_command_name StopJob = ''stopJob''"
| "admin_command_name CreateJob = ''createJob''"
| "admin_command_name UpdateJob = ''updateJob''"
| "admin_command_name DeleteJob = ''deleteJob''"
| "admin_command_name ApplySettingsPolicy = ''applySettingsPolicy''"
| "admin_command_name RequestLogs = ''requestLogs''"

definition audit_status_for_admin_result :: "command_result \<Rightarrow> audit_status" where
  "audit_status_for_admin_result r =
     (if list_ex (\<lambda>entry. tr_status entry = TargetError) (res_results r) then audit_status.Failed
      else if res_accepted r then Organized else Ignored)"

definition admin_audit_entry ::
    "core_env \<Rightarrow> string \<Rightarrow> string \<Rightarrow> string \<Rightarrow> command_request \<Rightarrow> command_result option \<Rightarrow> audit_status \<Rightarrow>
     new_audit_entry" where
  "admin_audit_entry cv inst verb source req result st =
     \<lparr>ne_job_id = (case cr_job_ids req of [] \<Rightarrow> None | jid # _ \<Rightarrow> Some jid), ne_blueprint_id = None,
      ne_job_name = ''Admin: '' @ admin_command_name (cr_kind req), ne_source_path = ''admin://'' @ source,
      ne_target_path = ''admin://'' @
        (if cr_target_instance_ids req = [] then inst else join_with '','' (cr_target_instance_ids req)),
      ne_status = st, ne_file_size = 0, ne_duration_ms = 0,
      ne_details = Some (cv_details cv verb source req result)\<rparr>"

definition record_admin_audit ::
    "core_env \<Rightarrow> string \<Rightarrow> string \<Rightarrow> command_request \<Rightarrow> command_result option \<Rightarrow> audit_status \<Rightarrow>
     core_state \<Rightarrow> core_state" where
  "record_admin_audit cv verb source req result st s =
     s\<lparr>cs_watch := (cs_watch s)\<lparr>wt_world :=
       snd (audit_append (run_deps_of cv) (admin_audit_entry cv (cs_instance_id s) verb source req result st)
              (wt_world (cs_watch s)))\<rparr>\<rparr>"

section \<open>The queue of commands\<close>

definition admin_dispatch_command_from ::
    "core_env \<Rightarrow> command_request \<Rightarrow> string \<Rightarrow> core_state \<Rightarrow> command_result \<times> core_state" where
  "admin_dispatch_command_from cv req source s =
     (case dispatch_command cv req s of
        (r, s) \<Rightarrow>
          (r, record_admin_audit cv ''dispatch'' source req (Some r) (audit_status_for_admin_result r) s))"

definition admin_enqueue_command ::
    "core_env \<Rightarrow> uuid \<Rightarrow> command_request \<Rightarrow> string \<Rightarrow> core_state \<Rightarrow> (domain_error + queued_command) \<times> core_state" where
  "admin_enqueue_command cv new_v4 req source s =
     (case local_enqueue (cv_now cv) new_v4 source req (cs_commands s) of
        Inl e \<Rightarrow> (Inl e, s)
      | Inr (c, db) \<Rightarrow>
          (Inr c, record_admin_audit cv ''enqueue'' (qc_source c) (qc_request c) None Organized
                    (s\<lparr>cs_commands := db\<rparr>)))"

definition admin_process_next_command ::
    "core_env \<Rightarrow> core_state \<Rightarrow> (domain_error + queued_command option) \<times> core_state" where
  "admin_process_next_command cv s =
     (case local_next_pending (cs_commands s) of
        Inl e \<Rightarrow> (Inl e, s)
      | Inr None \<Rightarrow> (Inr None, s)
      | Inr (Some c) \<Rightarrow>
          (let s1 = s\<lparr>cs_commands := local_mark_running (cv_now cv) (qc_id c) (cs_commands s)\<rparr> in
           case admin_dispatch_command_from cv (qc_request c) (''queue:'' @ cv_uuid_text cv (qc_id c)) s1 of
             (r, s2) \<Rightarrow>
               (case local_finish (cv_now cv) (qc_id c) r (cs_commands s2) of
                  (Inl e, db) \<Rightarrow> (Inl e, s2\<lparr>cs_commands := db\<rparr>)
                | (Inr finished, db) \<Rightarrow> (Inr (Some finished), s2\<lparr>cs_commands := db\<rparr>))))"

end
