(* ===== verification/Core_Safety.thy ===== *)
theory Core_Safety
  imports Core_Service
begin

text \<open>
  What the core service promises about the commands it dispatches: who may give them, that calls one after the
  other carry out a queued command once, that the queue and the watch runtime keep their invariants whatever is
  called, and what a paused job is.
\<close>

section \<open>The operations of the service as a machine\<close>

datatype core_action =
    CreateJobAct job | UpdateJobAct job | DeleteJobAct uuid | RunJobAct uuid | CancelAct uuid
  | PauseQueueAct | ResumeQueueAct | StopAllAct | RollbackJobAct uuid | RollbackBlueprintAct uuid
  | ApplyBlueprintAct uuid uuid | ApplyWithVariablesAct uuid variables uuid
  | CreateBlueprintAct blueprint | UpdateBlueprintAct blueprint | DeleteBlueprintAct uuid
  | SettingsAct app_settings | SetPinAct string | ClearPinAct | SetSecretAct string | ClearSecretAct
  | EnqueueCommandAct uuid command_request string | ProcessCommandAct | DispatchAct command_request string
  | WatchAct watch_action

fun perform_core :: "core_env \<Rightarrow> core_action \<Rightarrow> core_state \<Rightarrow> core_state option" where
  "perform_core cv (CreateJobAct j) s = Some (snd (core_create_job cv j s))"
| "perform_core cv (UpdateJobAct j) s = Some (snd (core_update_job cv j s))"
| "perform_core cv (DeleteJobAct jid) s = Some (snd (core_delete_job jid s))"
| "perform_core cv (RunJobAct jid) s = Some (snd (core_run_job cv jid s))"
| "perform_core cv (CancelAct eid) s = Some (snd (core_cancel_execution eid s))"
| "perform_core cv PauseQueueAct s = Some (core_pause_queue s)"
| "perform_core cv ResumeQueueAct s = Some (core_resume_queue s)"
| "perform_core cv StopAllAct s = Some (core_stop_all s)"
| "perform_core cv (RollbackJobAct jid) s = Some (snd (core_rollback_job cv jid s))"
| "perform_core cv (RollbackBlueprintAct bid) s = Some (snd (core_rollback_blueprint cv bid s))"
| "perform_core cv (ApplyBlueprintAct bid eid) s = Some (snd (core_apply_blueprint cv bid eid s))"
| "perform_core cv (ApplyWithVariablesAct bid variables eid) s =
     Some (snd (core_apply_blueprint_with_variables cv bid variables eid s))"
| "perform_core cv (CreateBlueprintAct b) s = Some (snd (core_create_blueprint cv b s))"
| "perform_core cv (UpdateBlueprintAct b) s = Some (snd (core_update_blueprint cv b s))"
| "perform_core cv (DeleteBlueprintAct bid) s = Some (snd (core_delete_blueprint bid s))"
| "perform_core cv (SettingsAct a) s = Some (snd (core_update_settings a s))"
| "perform_core cv (SetPinAct pin) s = Some (snd (security_set_pin cv pin s))"
| "perform_core cv ClearPinAct s = Some (snd (security_clear_pin s))"
| "perform_core cv (SetSecretAct secret) s = Some (snd (admin_set_agent_secret cv secret s))"
| "perform_core cv ClearSecretAct s = Some (snd (admin_clear_agent_secret cv s))"
| "perform_core cv (EnqueueCommandAct new_v4 req source) s = Some (snd (admin_enqueue_command cv new_v4 req source s))"
| "perform_core cv ProcessCommandAct s = Some (snd (admin_process_next_command cv s))"
| "perform_core cv (DispatchAct req source) s = Some (snd (admin_dispatch_command_from cv req source s))"
| "perform_core cv (WatchAct a) s =
     map_option (\<lambda>w. s\<lparr>cs_watch := w\<rparr>) (perform_watch (cv_watch cv) (cv_deps cv) a (cs_watch s))"

text \<open>\<open>Uuid::new_v4\<close> never gives an execution an identifier that was given out before.\<close>

definition fresh_ids :: "core_env \<Rightarrow> bool" where
  "fresh_ids cv \<longleftrightarrow> (\<forall>q. cv_new_v4 cv q \<notin> snd ` set (issued q))"

text \<open>What no operation but those of the command queue touches, and what every one keeps.\<close>

definition core_keeps :: "core_state \<Rightarrow> core_state \<Rightarrow> bool" where
  "core_keeps s s' \<longleftrightarrow> (watch_ok (cs_watch s) \<longrightarrow> watch_ok (cs_watch s')) \<and> cs_commands s' = cs_commands s \<and>
     cs_instance_id s' = cs_instance_id s"

named_theorems keeps_intros \<open>operations that keep the invariants of the service\<close>

lemma core_keeps_refl [keeps_intros]: "core_keeps s s"
  by (simp add: core_keeps_def)

lemma core_keeps_trans: "core_keeps s s' \<Longrightarrow> core_keeps s' s'' \<Longrightarrow> core_keeps s s''"
  by (simp add: core_keeps_def)

lemma case_keeps:
  "core_keeps s (snd p) \<Longrightarrow> (\<And>r s'. p = (r, s') \<Longrightarrow> core_keeps s' (snd (g r s'))) \<Longrightarrow>
     core_keeps s (snd (case p of (r, s') \<Rightarrow> g r s'))"
  by (cases p) (simp, blast intro: core_keeps_trans)

lemma core_keeps_watch:
  "(watch_ok (cs_watch s) \<Longrightarrow> watch_ok w) \<Longrightarrow> core_keeps s (s\<lparr>cs_watch := w\<rparr>)"
  by (simp add: core_keeps_def)

lemma watch_ok_cong:
  "wt_runs w' = wt_runs w \<Longrightarrow> wt_busy w' = wt_busy w \<Longrightarrow> wt_queue w' = wt_queue w \<Longrightarrow> watch_ok w' = watch_ok w"
  by (simp add: watch_ok_def busy_ok_def)

lemma set_jobs_watch [simp]: "watch_ok (cs_watch (set_jobs db s)) = watch_ok (cs_watch s)"
  by (rule watch_ok_cong) (simp_all add: set_jobs_def)

lemma set_blueprints_watch [simp]: "watch_ok (cs_watch (set_blueprints db s)) = watch_ok (cs_watch s)"
  by (rule watch_ok_cong) (simp_all add: set_blueprints_def)

lemma sync_job_ok: "sync_job we j w = (r, w') \<Longrightarrow> watch_ok w \<Longrightarrow> watch_ok w'"
  using same_runs_ok [OF sync_job_same_runs [of w we j]] by simp

lemma sync_blueprint_ok: "sync_blueprint we b w = (r, w') \<Longrightarrow> watch_ok w \<Longrightarrow> watch_ok w'"
  using same_runs_ok [OF sync_blueprint_same_runs [of w we b]] by simp

lemma unregister_ok: "watch_ok w \<Longrightarrow> watch_ok (unregister trg w)"
  by (rule same_runs_ok [OF unregister_same_runs])

lemma saved_keeps: "core_keeps s (snd (saved_and_watched cv r s))"
  by (auto simp: saved_and_watched_def split: sum.splits prod.splits unit.splits
      intro!: core_keeps_refl core_keeps_watch dest!: sync_job_ok)

lemma blueprint_saved_keeps: "core_keeps s (snd (blueprint_saved_and_watched cv r s))"
  by (auto simp: blueprint_saved_and_watched_def split: sum.splits prod.splits unit.splits
      intro!: core_keeps_refl core_keeps_watch dest!: sync_blueprint_ok)

lemma create_job_keeps [keeps_intros]: "core_keeps s (snd (core_create_job cv j s))"
  unfolding core_create_job_def by (rule saved_keeps)

lemma update_job_keeps [keeps_intros]: "core_keeps s (snd (core_update_job cv j s))"
  unfolding core_update_job_def by (rule saved_keeps)

lemma create_blueprint_keeps [keeps_intros]: "core_keeps s (snd (core_create_blueprint cv b s))"
  unfolding core_create_blueprint_def by (rule blueprint_saved_keeps)

lemma update_blueprint_keeps [keeps_intros]: "core_keeps s (snd (core_update_blueprint cv b s))"
  unfolding core_update_blueprint_def by (rule blueprint_saved_keeps)

lemma delete_job_keeps [keeps_intros]: "core_keeps s (snd (core_delete_job jid s))"
proof (cases "delete_job jid (job_db_of s)")
  case (Inr db)
  have eq: "snd (core_delete_job jid s) = s\<lparr>cs_watch := unregister (WatchJob jid) (cs_watch (set_jobs db s))\<rparr>"
    by (simp add: core_delete_job_def Inr set_jobs_def)
  show ?thesis unfolding eq by (rule core_keeps_watch, rule unregister_ok) simp
qed (simp add: core_delete_job_def keeps_intros)

lemma delete_blueprint_keeps [keeps_intros]: "core_keeps s (snd (core_delete_blueprint bid s))"
  by (auto simp: core_delete_blueprint_def split: sum.splits intro!: core_keeps_refl core_keeps_watch unregister_ok)

lemma set_queue_keeps: "(queue_inv (queue_of s) \<Longrightarrow> queue_inv q) \<Longrightarrow> core_keeps s (set_queue q s)"
  by (simp add: core_keeps_def set_queue_def queue_of_def watch_ok_def busy_ok_def)

lemma run_job_keeps [keeps_intros]: "fresh_ids cv \<Longrightarrow> core_keeps s (snd (core_run_job cv jid s))"
  using enqueue_inv [of "queue_of s" "cv_new_v4 cv (queue_of s)" jid]
  by (auto simp: core_run_job_def fresh_ids_def split: prod.splits intro!: set_queue_keeps)

lemma cancel_keeps [keeps_intros]: "core_keeps s (snd (core_cancel_execution eid s))"
  using cancel_inv [of "queue_of s" eid]
  by (auto simp: core_cancel_execution_def split: prod.splits intro!: set_queue_keeps)

lemma queue_flags_keep [keeps_intros]:
  "core_keeps s (core_pause_queue s)" "core_keeps s (core_resume_queue s)" "core_keeps s (core_stop_all s)"
  by (auto simp: core_pause_queue_def core_resume_queue_def core_stop_all_def flags_inv stop_all_inv
      intro!: set_queue_keeps)

lemma world_keeps: "core_keeps s (set_world w s)" "core_keeps s (set_blueprints db (set_world w s))"
  by (simp_all add: core_keeps_def set_world_def set_blueprints_def watch_ok_def busy_ok_def)

lemma runs_keep [keeps_intros]:
  "core_keeps s (snd (core_rollback_job cv jid s))" "core_keeps s (snd (core_rollback_blueprint cv bid s))"
  "core_keeps s (snd (core_apply_blueprint cv bid eid s))"
  "core_keeps s (snd (core_apply_blueprint_with_variables cv bid variables eid s))"
  by (simp_all add: core_rollback_job_def core_rollback_blueprint_def core_apply_blueprint_def
      core_apply_blueprint_with_variables_def world_keeps split: prod.split)

lemma get_settings_keeps [keeps_intros]: "core_keeps s (snd (core_get_settings s))"
  by (simp add: core_keeps_def core_get_settings_def Let_def)

lemma update_settings_keeps [keeps_intros]: "core_keeps s (snd (core_update_settings a s))"
  by (auto simp: core_keeps_def core_update_settings_def Let_def split: sum.splits)

lemma through_settings: "core_keeps s (snd (case core_get_settings s of (a, s') \<Rightarrow> core_update_settings (f a) s'))"
  by (intro case_keeps keeps_intros)

lemma set_pin_keeps [keeps_intros]: "core_keeps s (snd (security_set_pin cv pin s))"
  unfolding security_set_pin_def using through_settings by (cases "hash_pin cv pin") (auto simp: keeps_intros)

lemma clear_pin_keeps [keeps_intros]: "core_keeps s (snd (security_clear_pin s))"
  unfolding security_clear_pin_def by (rule through_settings)

lemma configured_keeps: "core_keeps s (snd (set_admin_secret_configured c s))"
  unfolding set_admin_secret_configured_def by (rule through_settings)

lemma set_secret_keeps [keeps_intros]: "core_keeps s (snd (admin_set_agent_secret cv secret s))"
proof (cases "set_agent_secret cv secret s")
  case (Inr s')
  then have "core_keeps s s'" by (auto simp: set_agent_secret_def core_keeps_def split: if_splits option.splits)
  with Inr show ?thesis by (simp add: admin_set_agent_secret_def core_keeps_trans [OF _ configured_keeps])
qed (simp add: admin_set_agent_secret_def keeps_intros)

lemma clear_secret_keeps [keeps_intros]: "core_keeps s (snd (admin_clear_agent_secret cv s))"
proof (cases "clear_agent_secret cv s")
  case (Inr s')
  then have "core_keeps s s'" by (auto simp: clear_agent_secret_def core_keeps_def split: option.splits)
  with Inr show ?thesis by (simp add: admin_clear_agent_secret_def core_keeps_trans [OF _ configured_keeps])
qed (simp add: admin_clear_agent_secret_def keeps_intros)

lemma audit_keeps [keeps_intros]: "core_keeps s (record_admin_audit cv verb source req r st s)"
  unfolding record_admin_audit_def by (rule core_keeps_watch) (simp add: watch_ok_def busy_ok_def)

section \<open>Dispatching keeps them\<close>

lemma each_result_keeps:
  assumes "\<And>y s. core_keeps s (snd (f y s))"
  shows "core_keeps s (snd (each_result f ys s))"
proof (induction ys arbitrary: s)
  case (Cons y ys)
  obtain rs s1 where 1: "f y s = (rs, s1)" by fastforce
  obtain rs' s2 where 2: "each_result f ys s1 = (rs', s2)" by fastforce
  show ?case using assms [of s y] Cons [of s1] by (simp add: 1 2) (rule core_keeps_trans)
qed (simp add: keeps_intros)

lemma toggle_job_keeps: "core_keeps s (snd (toggle_job cv trg on jid s))"
proof (cases "core_get_job cv jid s")
  case (Inr j)
  show ?thesis unfolding toggle_job_def Inr sum.case by (rule case_keeps) (simp_all add: keeps_intros)
qed (simp add: toggle_job_def keeps_intros)

lemma run_command_keeps:
  assumes "fresh_ids cv"
  shows "core_keeps s (snd (run_command cv req trg s))"
proof -
  note each = each_result_keeps case_keeps toggle_job_keeps keeps_intros
  have "core_keeps s (snd (start_jobs cv trg jids s))" for jids
    using assms by (simp add: start_jobs_def keeps_intros) (intro impI each; simp add: keeps_intros)
  moreover have cancelled: "core_keeps s (snd (cancel_executions cv msg trg eids s))" for msg eids
    unfolding cancel_executions_def by (intro each; simp add: keeps_intros)
  moreover have "core_keeps s (snd (toggle_jobs cv trg jids on s))" for jids on
    by (simp add: toggle_jobs_def keeps_intros) (intro impI each; simp add: keeps_intros)
  moreover have "core_keeps s (snd (stop_jobs cv trg req s))"
    using cancelled by (simp add: stop_jobs_def Let_def keeps_intros)
  moreover have "core_keeps s (snd (create_jobs cv trg payloads s))" for payloads
  proof -
    have "core_keeps s (snd (if jp_preview_only p then ([preview_job_result cv trg (jp_job p) ''criar'' s], s)
        else (case core_create_job cv (jp_job p) s of (r, s) \<Rightarrow>
               ([result_of trg (\<lambda>saved. ''Fluxo remoto criado: '' @ job_name saved) r], s))))" for p s
      by (simp add: keeps_intros) (intro impI case_keeps keeps_intros; simp add: keeps_intros)
    then show ?thesis unfolding create_jobs_def by (simp add: keeps_intros) (intro impI each_result_keeps)
  qed
  moreover have "core_keeps s (snd (update_jobs cv trg payloads s))" for payloads
  proof -
    have "core_keeps s (snd (if jp_preview_only p then ([preview_job_result cv trg (jp_job p) ''editar'' s], s)
        else (case core_get_job cv (job_id (jp_job p)) s of
                Inl e \<Rightarrow> ([error_result trg e], s)
              | Inr _ \<Rightarrow>
                  (case core_update_job cv (jp_job p) s of (r, s) \<Rightarrow>
                     ([result_of trg (\<lambda>saved. ''Fluxo remoto editado: '' @ job_name saved) r], s)))))" for p s
      by (cases "core_get_job cv (job_id (jp_job p)) s"; simp add: keeps_intros)
        (intro impI case_keeps keeps_intros; simp add: keeps_intros)
    then show ?thesis unfolding update_jobs_def by (simp add: keeps_intros) (intro impI each_result_keeps)
  qed
  moreover have "core_keeps s (snd (delete_jobs cv trg jids s))" for jids
    by (simp add: delete_jobs_def keeps_intros) (intro impI each; simp add: keeps_intros)
  ultimately show ?thesis by (simp add: run_command_def keeps_intros split: command_kind.splits)
qed

lemma dispatch_target_keeps: "fresh_ids cv \<Longrightarrow> core_keeps s (snd (dispatch_target cv req a trg s))"
  by (simp add: dispatch_target_def keeps_intros run_command_keeps)

lemma dispatch_keeps:
  assumes "fresh_ids cv"
  shows "core_keeps s (snd (dispatch_command cv req s))"
  unfolding dispatch_command_def
  by (intro case_keeps get_settings_keeps each_result_keeps dispatch_target_keeps assms) (simp add: keeps_intros)

lemma dispatch_from_keeps:
  assumes "fresh_ids cv"
  shows "core_keeps s (snd (admin_dispatch_command_from cv req source s))"
  unfolding admin_dispatch_command_from_def
  by (intro case_keeps dispatch_keeps assms) (simp add: keeps_intros)

section \<open>The queue of commands\<close>

text \<open>A queued command waits and has no result, or has its result and the status that belongs to it.\<close>

definition row_settled :: "local_row \<Rightarrow> bool" where
  "row_settled row \<longleftrightarrow>
     (case lc_result row of
        None \<Rightarrow> lc_status row = ''pending''
      | Some r \<Rightarrow> lc_status row = local_status_to_db (finished_status r))"

definition commands_ok :: "local_db \<Rightarrow> bool" where
  "commands_ok db \<longleftrightarrow> distinct (map lc_id db) \<and> list_all row_settled db"

definition core_ok :: "core_state \<Rightarrow> bool" where
  "core_ok s \<longleftrightarrow> watch_ok (cs_watch s) \<and> commands_ok (cs_commands s)"

definition core_start :: "string \<Rightarrow> settings_db \<Rightarrow> world \<Rightarrow> blueprint_db \<Rightarrow> core_state" where
  "core_start inst db w bps = \<lparr>cs_settings = db, cs_cache = get_async db, cs_watch = watch_start w bps,
     cs_commands = [], cs_secret = None, cs_instance_id = inst\<rparr>"

lemma finished_not_pending [simp]: "finished_status r \<noteq> Pending"
  by (simp add: finished_status_def)

lemma settled_pending: "row_settled row \<Longrightarrow> lc_status row = ''pending'' \<longleftrightarrow> lc_result row = None"
  by (auto simp: row_settled_def split: option.splits)

text \<open>The row of a command that has been carried out.\<close>

definition finish_row :: "timestamp \<Rightarrow> command_result \<Rightarrow> local_row \<Rightarrow> local_row" where
  "finish_row now r row =
     row\<lparr>lc_status := local_status_to_db (finished_status r), lc_result := Some r, lc_updated_at := now\<rparr>"

definition finish_at :: "timestamp \<Rightarrow> uuid \<Rightarrow> command_result \<Rightarrow> local_db \<Rightarrow> local_db" where
  "finish_at now cid r db = map (\<lambda>row. if lc_id row = cid then finish_row now r row else row) db"

lemma mark_then_finish:
  "local_update_status now cid (finished_status r) (Some r) (local_mark_running now cid db) = finish_at now cid r db"
  by (simp add: local_update_status_def local_mark_running_def finish_at_def finish_row_def)

lemma finish_at_ids [simp]: "map lc_id (finish_at now cid r db) = map lc_id db"
  by (simp add: finish_at_def finish_row_def comp_def if_distrib cong: if_cong)

lemma finish_at_ok: "commands_ok db \<Longrightarrow> commands_ok (finish_at now cid r db)"
  unfolding commands_ok_def
  by (simp only: finish_at_ids) (auto simp: list_all_iff finish_at_def finish_row_def row_settled_def)

lemma enqueue_commands_ok:
  assumes "commands_ok db" "local_enqueue now u source req db = Inr (c, db')"
  shows "commands_ok db' \<and> set db \<subseteq> set db'"
  using assms by (auto simp: local_enqueue_def local_save_def commands_ok_def row_settled_def Let_def split: if_splits)

lemma parse_finished: "command_of_local_row (finish_row now r row) =
    Inr \<lparr>qc_id = lc_id row, qc_source = lc_source row, qc_request = lc_request row, qc_status = finished_status r,
         qc_result = Some r, qc_created_at = lc_created_at row, qc_updated_at = now\<rparr>"
  by (simp add: command_of_local_row_def finish_row_def)

lemma command_of_row: "command_of_local_row row = Inr c \<Longrightarrow> qc_id c = lc_id row \<and> qc_request c = lc_request row"
  by (auto simp: command_of_local_row_def result_simps)

lemma get_finished:
  assumes "distinct (map lc_id db)" "row \<in> set db"
  shows "local_get (lc_id row) (finish_at now (lc_id row) r db) = command_of_local_row (finish_row now r row)"
proof -
  have "finish_row now r row \<in> set (finish_at now (lc_id row) r db)" "lc_id (finish_row now r row) = lc_id row"
    using assms(2) by (auto simp: finish_at_def image_iff finish_row_def intro!: bexI [of _ row])
  moreover have "distinct (map lc_id (finish_at now (lc_id row) r db))" using assms(1) by (simp only: finish_at_ids)
  ultimately have "find (\<lambda>row'. lc_id row' = lc_id row) (finish_at now (lc_id row) r db) = Some (finish_row now r row)"
    using find_local_row [of "finish_at now (lc_id row) r db" "finish_row now r row"] by simp
  then show ?thesis by (simp add: local_get_def)
qed

lemma pending_parses: "local_next_pending db \<noteq> Inl e"
proof (cases "sort_key lc_created_at (filter (\<lambda>row. lc_status row = ''pending'') db)")
  case (Cons row rest)
  have "row \<in> set (sort_key lc_created_at (filter (\<lambda>row. lc_status row = ''pending'') db))" by (simp add: Cons)
  then have "lc_status row = ''pending''" by simp
  then show ?thesis by (simp add: local_next_pending_def Cons command_of_local_row_def local_parse_status_def)
qed (simp add: local_next_pending_def)

text \<open>One call carries out the oldest pending command, and nothing else changes in the table.\<close>

definition carries_out :: "core_env \<Rightarrow> local_row \<Rightarrow> core_state \<Rightarrow> core_state \<Rightarrow> bool" where
  "carries_out cv row s s' \<longleftrightarrow>
     (let s1 = s\<lparr>cs_commands := local_mark_running (cv_now cv) (lc_id row) (cs_commands s)\<rparr>;
          r = fst (dispatch_command cv (lc_request row) s1)
      in row \<in> set (cs_commands s) \<and> lc_status row = ''pending'' \<and>
         (\<forall>row' \<in> set (cs_commands s). lc_status row' = ''pending'' \<longrightarrow> lc_created_at row \<le> lc_created_at row') \<and>
         cs_commands s' = finish_at (cv_now cv) (lc_id row) r (cs_commands s) \<and>
         (\<exists>c. admin_process_next_command cv s = (Inr (Some c), s') \<and>
              command_of_local_row (finish_row (cv_now cv) r row) = Inr c) \<and>
         (watch_ok (cs_watch s) \<longrightarrow> watch_ok (cs_watch s')))"

lemma process_some:
  assumes "fresh_ids cv" "commands_ok (cs_commands s)" "local_next_pending (cs_commands s) = Inr (Some c)"
  shows "\<exists>row s'. carries_out cv row s s'"
proof -
  obtain row where row: "row \<in> set (cs_commands s)" "command_of_local_row row = Inr c" "lc_status row = ''pending''"
    "\<forall>row' \<in> set (cs_commands s). lc_status row' = ''pending'' \<longrightarrow> lc_created_at row \<le> lc_created_at row'"
    using next_pending_row [OF assms(3)] by blast
  let ?now = "cv_now cv" and ?cid = "lc_id row" and ?src = "''queue:'' @ cv_uuid_text cv (lc_id row)"
  define s1 where "s1 = s\<lparr>cs_commands := local_mark_running ?now ?cid (cs_commands s)\<rparr>"
  obtain r s2 where d: "admin_dispatch_command_from cv (lc_request row) ?src s1 = (r, s2)" by fastforce
  have r: "r = fst (dispatch_command cv (lc_request row) s1)"
    using d by (auto simp: admin_dispatch_command_from_def split: prod.splits)
  have keeps: "core_keeps s1 s2" using dispatch_from_keeps [OF assms(1), of s1 "lc_request row" ?src] by (simp only: d snd_conv)
  define db where "db = finish_at ?now ?cid r (cs_commands s)"
  have "cs_commands s2 = local_mark_running ?now ?cid (cs_commands s)" using keeps by (simp add: core_keeps_def s1_def)
  then have fin: "local_finish ?now ?cid r (cs_commands s2) = (command_of_local_row (finish_row ?now r row), db)"
    using assms(2) row(1) by (simp add: local_finish_def mark_then_finish db_def get_finished commands_ok_def)
  have "admin_process_next_command cv s =
      (Inr (Some (projr (command_of_local_row (finish_row ?now r row)))), s2\<lparr>cs_commands := db\<rparr>)"
    using fin d command_of_row [OF row(2)]
    by (simp add: admin_process_next_command_def assms(3) s1_def Let_def parse_finished)
  then have "carries_out cv row s (s2\<lparr>cs_commands := db\<rparr>)"
    using row r keeps by (simp add: carries_out_def Let_def s1_def [symmetric] db_def parse_finished)
      (simp add: core_keeps_def s1_def)
  then show ?thesis by blast
qed

lemma settled_ok: "commands_ok db \<Longrightarrow> local_ok db"
proof -
  have "\<exists>st. lc_status row = local_status_to_db st" if "row_settled row" for row
    using that pending_is_text by (cases "lc_result row") (auto simp: row_settled_def)
  then show "commands_ok db \<Longrightarrow> local_ok db" by (auto simp: commands_ok_def local_ok_def list_all_iff)
qed

lemma process_cases:
  assumes "fresh_ids cv" "commands_ok (cs_commands s)"
  shows "(list_all (\<lambda>row. lc_status row \<noteq> ''pending'') (cs_commands s) \<and> admin_process_next_command cv s = (Inr None, s)) \<or>
    (\<exists>row s'. carries_out cv row s s')"
proof (cases "local_next_pending (cs_commands s)")
  case (Inr c)
  show ?thesis
  proof (cases c)
    case None
    with Inr have none: "local_next_pending (cs_commands s) = Inr None" by simp
    moreover have "list_all (\<lambda>row. lc_status row \<noteq> ''pending'') (cs_commands s)"
      using none next_pending_none [OF settled_ok [OF assms(2)]] by (simp add: list_all_iff)
    ultimately show ?thesis by (simp add: admin_process_next_command_def)
  qed (use process_some assms Inr in blast)
qed (use pending_parses in blast)

section \<open>The invariant of the service\<close>

text \<open>How an action changes the table of commands.\<close>

lemma perform_core_rows:
  assumes "fresh_ids cv" "core_ok s" "perform_core cv a s = Some s'"
  shows "core_ok s' \<and>
    (set (cs_commands s) \<subseteq> set (cs_commands s') \<or> (\<exists>row. carries_out cv row s s'))"
proof (cases "core_keeps s s'")
  case True
  with assms(2) show ?thesis by (simp add: core_keeps_def core_ok_def)
next
  case False
  have parts: "watch_ok (cs_watch s)" "commands_ok (cs_commands s)" using assms(2) by (simp_all add: core_ok_def)
  show ?thesis
  proof (cases a)
    case (EnqueueCommandAct u req src)
    show ?thesis
    proof (cases "local_enqueue (cv_now cv) u src req (cs_commands s)")
      case (Inl e)
      then have "s' = s" using assms(3) EnqueueCommandAct by (simp add: admin_enqueue_command_def)
      then show ?thesis using assms(2) by simp
    next
      case (Inr p)
      then obtain c db where p: "local_enqueue (cv_now cv) u src req (cs_commands s) = Inr (c, db)" by (cases p) auto
      have "s' = record_admin_audit cv ''enqueue'' (qc_source c) (qc_request c) None Organized (s\<lparr>cs_commands := db\<rparr>)"
        using assms(3) EnqueueCommandAct p by (simp add: admin_enqueue_command_def)
      then have "core_keeps (s\<lparr>cs_commands := db\<rparr>) s'" by (simp only: audit_keeps)
      then show ?thesis using parts enqueue_commands_ok [OF parts(2) p] by (simp add: core_keeps_def core_ok_def)
    qed
  next
    case ProcessCommandAct
    with process_cases [OF assms(1) parts(2)] assms(3) show ?thesis
      using parts assms(2) by (auto simp: carries_out_def Let_def core_ok_def finish_at_ok)
  next
    case (WatchAct b)
    then obtain w where "perform_watch (cv_watch cv) (cv_deps cv) b (cs_watch s) = Some w" "s' = s\<lparr>cs_watch := w\<rparr>"
      using assms(3) by auto
    with False perform_watch_ok show ?thesis by (auto simp: core_keeps_def)
  next
    case (RunJobAct jid)
    with False assms(1,3) run_job_keeps [of cv s jid] show ?thesis by auto
  next
    case (DispatchAct req src)
    with False assms(1,3) dispatch_from_keeps [of cv s req src] show ?thesis by auto
  qed (use False assms(3) in \<open>auto simp: keeps_intros\<close>)
qed

lemma core_start_ok: "core_ok (core_start inst db w bps)"
  by (simp add: core_ok_def core_start_def watch_start_ok commands_ok_def)

lemma core_machine: "fresh_ids cv \<Longrightarrow> machine (perform_core cv) (core_start inst db w bps) core_ok"
  by unfold_locales (auto simp: core_start_ok dest: perform_core_rows)

text \<open>What later states make of a row.\<close>

definition row_kept :: "local_row \<Rightarrow> core_state \<Rightarrow> bool" where
  "row_kept row s \<longleftrightarrow>
     row \<in> set (cs_commands s) \<or>
     (lc_status row = ''pending'' \<and> (\<exists>now r. finish_row now r row \<in> set (cs_commands s)))"

lemma finished_row_stays:
  assumes "carries_out cv row s s'" "core_ok s" "row' \<in> set (cs_commands s)" "lc_status row' \<noteq> ''pending''"
  shows "row' \<in> set (cs_commands s')"
proof -
  have "distinct (map lc_id (cs_commands s))" using assms(2) by (simp add: core_ok_def commands_ok_def)
  moreover have "row \<in> set (cs_commands s)" "row \<noteq> row'"
    using assms(1,4) by (auto simp: carries_out_def Let_def)
  ultimately have "lc_id row' \<noteq> lc_id row" using assms(3) by (auto simp: distinct_map dest: inj_onD)
  then show ?thesis using assms(1,3) by (auto simp: carries_out_def Let_def finish_at_def image_iff intro!: bexI [of _ row'])
qed

lemma row_kept_step:
  assumes "fresh_ids cv" "core_ok s" "row_kept row s" "perform_core cv a s = Some s'"
  shows "row_kept row s'"
proof (cases "set (cs_commands s) \<subseteq> set (cs_commands s')")
  case True
  with assms(3) show ?thesis by (auto simp: row_kept_def)
next
  case False
  then obtain row0 where c: "carries_out cv row0 s s'" using perform_core_rows [OF assms(1,2,4)] by blast
  have final: "lc_status (finish_row now r row) \<noteq> ''pending''" for now r by (simp add: finish_row_def)
  show ?thesis
  proof (cases "row \<in> set (cs_commands s) \<and> lc_status row = ''pending''")
    case True
    obtain r where "cs_commands s' = finish_at (cv_now cv) (lc_id row0) r (cs_commands s)"
      using c by (auto simp: carries_out_def Let_def)
    then have "(if lc_id row = lc_id row0 then finish_row (cv_now cv) r row else row) \<in> set (cs_commands s')"
      using True by (auto simp: finish_at_def)
    with True show ?thesis by (auto simp: row_kept_def split: if_splits)
  next
    case False
    with assms(3) finished_row_stays [OF c assms(2)] final show ?thesis unfolding row_kept_def by blast
  qed
qed

text \<open>
  Of calls one after the other (\<open>Core_Calls\<close> has those that overlap), a queued command is carried out at most
  once and never lost: whatever is called later, and however the watch runtime and the queue go on, its row is
  still the row it was or, if it was waiting, that row with its result; a row that has its result stays as it is.
\<close>

lemma commands_are_carried_out_once:
  assumes "fresh_ids cv" "reach (perform_core cv) (core_start inst db w bps) s" "row \<in> set (cs_commands s)"
    "run_all (perform_core cv) acts s = Some s'"
  shows "row \<in> set (cs_commands s') \<or>
    (lc_status row = ''pending'' \<and> (\<exists>now r. finish_row now r row \<in> set (cs_commands s')))"
proof -
  note m = core_machine [OF assms(1), of inst db w bps]
  have ok: "core_ok s" by (rule machine.reach_inv [OF m assms(2)])
  have step: "row_kept row t'" if "core_ok t" "row_kept row t" "a \<in> UNIV" "perform_core cv a t = Some t'" for a t t'
    by (rule row_kept_step [OF assms(1) that(1,2,4)])
  have "row_kept row s" using assms(3) by (simp add: row_kept_def)
  then have "row_kept row s'"
    using machine.run_stable [OF m, where P = "row_kept row" and A = UNIV] step ok assms(4) by blast
  then show ?thesis by (simp add: row_kept_def)
qed

text \<open>The number of commands that wait.\<close>

definition waiting :: "local_db \<Rightarrow> nat" where
  "waiting db = length (filter (\<lambda>row. lc_status row = ''pending'') db)"

lemma waiting_finish:
  assumes "distinct (map lc_id db)" "row \<in> set db" "lc_status row = ''pending''"
  shows "waiting db = Suc (waiting (finish_at now (lc_id row) r db))"
  using assms
proof (induction db)
  case (Cons x db)
  show ?case
  proof (cases "x = row")
    case True
    then have "\<forall>y \<in> set db. lc_id y \<noteq> lc_id row" using Cons.prems(1) True by (auto simp: image_iff)
    then have "finish_at now (lc_id row) r db = db" by (simp add: finish_at_def map_idI)
    with True Cons.prems(3) show ?thesis by (simp add: waiting_def finish_at_def finish_row_def)
  next
    case False
    then have "row \<in> set db" "lc_id x \<noteq> lc_id row" using Cons.prems by auto
    with Cons show ?thesis by (simp add: waiting_def finish_at_def)
  qed
qed simp

text \<open>
  C31. Every command in the queue is carried out: with \<open>n\<close> commands waiting, \<open>n\<close> calls of the processing
  operation give every one of them its result, the oldest first, and leave none waiting.
\<close>

theorem waiting_commands_are_carried_out:
  assumes "fresh_ids cv" "reach (perform_core cv) (core_start inst db w bps) s"
  shows "\<exists>s'. run_all (perform_core cv) (replicate (waiting (cs_commands s)) ProcessCommandAct) s = Some s' \<and>
    waiting (cs_commands s') = 0 \<and> map lc_id (cs_commands s') = map lc_id (cs_commands s) \<and>
    (\<forall>row \<in> set (cs_commands s'). lc_result row \<noteq> None)"
proof -
  have "\<exists>s'. run_all (perform_core cv) (replicate n ProcessCommandAct) t = Some s' \<and> waiting (cs_commands s') = 0 \<and>
      map lc_id (cs_commands s') = map lc_id (cs_commands t) \<and> core_ok s'"
    if "core_ok t" "waiting (cs_commands t) = n" for n t
    using that
  proof (induction n arbitrary: t)
    case (Suc n)
    have ok: "commands_ok (cs_commands t)" using Suc.prems(1) by (simp add: core_ok_def)
    have "\<not> list_all (\<lambda>row. lc_status row \<noteq> ''pending'') (cs_commands t)"
      using Suc.prems(2) by (auto simp: waiting_def list_all_iff filter_empty_conv length_Suc_conv filter_eq_Cons_iff)
    then obtain row t' where c: "carries_out cv row t t'" using process_cases [OF assms(1) ok] by blast
    then have t': "perform_core cv ProcessCommandAct t = Some t'" by (auto simp: carries_out_def Let_def)
    obtain r where r: "cs_commands t' = finish_at (cv_now cv) (lc_id row) r (cs_commands t)"
        "row \<in> set (cs_commands t)" "lc_status row = ''pending''"
      using c by (auto simp: carries_out_def Let_def)
    have "waiting (cs_commands t') = n"
      using waiting_finish [OF _ r(2,3), of "cv_now cv" r] ok Suc.prems(2) by (simp add: r(1) commands_ok_def)
    moreover have "core_ok t'" using perform_core_rows [OF assms(1) Suc.prems(1) t'] by blast
    ultimately obtain s' where "run_all (perform_core cv) (replicate n ProcessCommandAct) t' = Some s'"
        "waiting (cs_commands s') = 0" "map lc_id (cs_commands s') = map lc_id (cs_commands t')" "core_ok s'"
      using Suc.IH by blast
    with t' r(1) show ?case by (simp del: perform_core.simps)
  qed simp
  then obtain s' where s': "run_all (perform_core cv) (replicate (waiting (cs_commands s)) ProcessCommandAct) s = Some s'"
      "waiting (cs_commands s') = 0" "map lc_id (cs_commands s') = map lc_id (cs_commands s)" "core_ok s'"
    using machine.reach_inv [OF core_machine [OF assms(1)] assms(2)] by blast
  have "lc_result row \<noteq> None" if "row \<in> set (cs_commands s')" for row
    using s'(2,4) that settled_pending [of row]
    by (auto simp: waiting_def filter_empty_conv core_ok_def commands_ok_def list_all_iff)
  with s' show ?thesis by blast
qed

section \<open>Refused commands\<close>

lemma each_result_skips:
  assumes "\<And>y. y \<in> set ys \<Longrightarrow> \<exists>message. f y s = ([skipped_result y message], s)"
  shows "\<exists>rs. each_result f ys s = (rs, s) \<and> map tr_target_instance_id rs = ys \<and>
    list_all (\<lambda>r. tr_status r = TargetSkipped) rs"
  using assms
proof (induction ys)
  case (Cons y ys)
  obtain message where "f y s = ([skipped_result y message], s)" using Cons.prems [of y] by auto
  moreover obtain rs where "each_result f ys s = (rs, s)" "map tr_target_instance_id rs = ys"
      "list_all (\<lambda>r. tr_status r = TargetSkipped) rs"
    using Cons by auto
  ultimately show ?case by (simp add: skipped_result_def)
qed simp

text \<open>
  C29. A command that the instance's settings forbid changes nothing: with monitoring off, for other instances
  only, or as a batch where batches are not allowed, every target is answered \<open>Skipped\<close>, the command is not
  accepted, and no job, run, watch, file or setting is touched (only the cache of the settings is refreshed).
\<close>

theorem forbidden_command_changes_nothing:
  assumes "a = as_admin (get_async (cs_settings s))"
    "\<not> ma_enabled a \<or> cs_instance_id s \<notin> set (command_targets req s) \<or>
     (is_batch req \<and> \<not> ma_allow_batch_commands a)"
  shows "\<exists>rs. dispatch_command cv req s =
      (\<lparr>res_accepted = False, res_command = cr_kind req, res_results = rs\<rparr>, s\<lparr>cs_cache := get_async (cs_settings s)\<rparr>) \<and>
    map tr_target_instance_id rs = command_targets req s \<and> list_all (\<lambda>r. tr_status r = TargetSkipped) rs"
proof -
  let ?s = "s\<lparr>cs_cache := get_async (cs_settings s)\<rparr>"
  have targets: "command_targets req ?s = command_targets req s" by (simp add: command_targets_def)
  have "\<exists>message. dispatch_target cv req a trg ?s = ([skipped_result trg message], ?s)"
    if "trg \<in> set (command_targets req s)" for trg
    using assms(2) that by (auto simp: dispatch_target_def)
  then obtain rs where
    rs: "each_result (dispatch_target cv req a) (command_targets req s) ?s = (rs, ?s)"
      "map tr_target_instance_id rs = command_targets req s" "list_all (\<lambda>r. tr_status r = TargetSkipped) rs"
    using each_result_skips [of "command_targets req s" "dispatch_target cv req a" ?s] by blast
  have "\<not> list_ex (\<lambda>r. tr_status r = Accepted) rs" using rs(3) by (auto simp: list_ex_iff list_all_iff)
  then show ?thesis
    using rs by (simp add: dispatch_command_def core_get_settings_def Let_def targets assms(1) [symmetric])
qed

section \<open>Paused jobs\<close>

lemma secrets_keep [simp]:
  "job_enabled (fst (map_job_secrets f n j)) = job_enabled j" "job_id (fst (map_job_secrets f n j)) = job_id j"
  by (simp_all add: map_job_secrets_def split_beta Let_def split: option.splits)

lemma normalize_keeps_enabled [simp]: "job_enabled (normalize tz now j) = job_enabled j"
  by (simp add: normalize_eq normalize_legacy_def Let_def)

lemma open_keeps [simp]: "job_enabled (open_stored cfg j) = job_enabled j" "job_id (open_stored cfg j) = job_id j"
  by (simp_all add: open_stored_def open_job_secrets_def split: option.split)

lemma seal_keeps [simp]:
  "job_enabled (fst (seal_stored cfg n j)) = job_enabled j" "job_id (fst (seal_stored cfg n j)) = job_id j"
  by (simp_all add: seal_stored_def seal_job_secrets_def split: option.split)

lemma saved_job_enabled:
  assumes "update_job cfg now j db = Inr (j', db')"
  shows "j' = normalize (st_tz cfg) now j \<and>
    (\<exists>k. store_get cfg now (job_id j) db' = Inr k \<and> job_enabled k = job_enabled j \<and> job_id k = job_id j)"
  using assms by (auto simp: update_job_def store_save_def store_get_def deserialize_def to_payload_def Let_def
      result_simps hm_simps split_beta)

text \<open>The key of a row is the identifier of its job.\<close>

definition keyed :: "job_db \<Rightarrow> bool" where
  "keyed db \<longleftrightarrow> (\<forall>jid row. hm_get jid (db_rows db) = Some row \<longrightarrow> job_id (jr_payload row) = jid)"

lemma sync_job_world: "sync_job we j w = (r, w') \<Longrightarrow> wt_world w' = wt_world w"
  by (auto simp: sync_job_def register_def unregister_def Let_def split: if_splits option.splits)

lemma core_update_accepted:
  assumes "core_update_job cv j s = (Inr j', s')"
  shows "(\<exists>k. core_get_job cv (job_id j) s' = Inr k \<and> job_enabled k = job_enabled j) \<and>
    (\<not> job_enabled j \<longrightarrow> \<not> hm_contains (WatchJob (job_id j)) (wt_handles (cs_watch s')))"
proof -
  obtain db where u: "update_job (cv_store cv) (cv_now cv) j (job_db_of s) = Inr (j', db)"
    and w: "sync_job (cv_watch cv) j' (cs_watch (set_jobs db s)) = (Inr (), cs_watch s')"
    using assms by (auto simp: core_update_job_def saved_and_watched_def split: sum.splits prod.splits unit.splits)
  have j': "j' = normalize (st_tz (cv_store cv)) (cv_now cv) j" using saved_job_enabled [OF u] by blast
  have "wt_world (cs_watch s') = wt_world (cs_watch (set_jobs db s))"
    by (rule sync_job_world [OF w])
  then have "job_db_of s' = db" by (simp add: job_db_of_def set_jobs_def)
  moreover have "\<not> hm_contains (WatchJob (job_id j)) (wt_handles (cs_watch s'))" if "\<not> job_enabled j"
    using sync_job_handle [OF w] that by (simp add: j' should_watch_job_def)
  ultimately show ?thesis using saved_job_enabled [OF u] by (auto simp: core_get_job_def)
qed

text \<open>Another job reads as before, and so does its watch.\<close>

lemma updated_row:
  assumes "update_job cfg now j db = Inr (j', db')"
  shows "j' = normalize (st_tz cfg) now j \<and>
    (\<exists>row. db_rows db' = hm_insert (job_id j) row (db_rows db) \<and> job_id (jr_payload row) = job_id j)"
  using assms by (auto simp: update_job_def store_save_def to_payload_def Let_def result_simps split_beta)

lemma sync_job_others:
  assumes "sync_job we j w = (r, w')" "jid \<noteq> job_id j"
  shows "hm_contains (WatchJob jid) (wt_handles w') = hm_contains (WatchJob jid) (wt_handles w)"
  using assms by (auto simp: sync_job_def register_def unregister_def Let_def hm_contains_get hm_simps
      split: if_splits option.splits)

definition paused_job :: "core_env \<Rightarrow> uuid \<Rightarrow> core_state \<Rightarrow> bool" where
  "paused_job cv jid s \<longleftrightarrow> (\<exists>j. core_get_job cv jid s = Inr j \<and> \<not> job_enabled j) \<and>
     \<not> hm_contains (WatchJob jid) (wt_handles (cs_watch s))"

lemma core_update_others:
  assumes "core_update_job cv j s = (Inr j', s')"
  shows "(keyed (job_db_of s) \<longrightarrow> keyed (job_db_of s')) \<and> (jid \<noteq> job_id j \<longrightarrow> paused_job cv jid s' = paused_job cv jid s)"
proof -
  obtain db where u: "update_job (cv_store cv) (cv_now cv) j (job_db_of s) = Inr (j', db)"
    and w: "sync_job (cv_watch cv) j' (cs_watch (set_jobs db s)) = (Inr (), cs_watch s')"
    using assms by (auto simp: core_update_job_def saved_and_watched_def split: sum.splits prod.splits unit.splits)
  from updated_row [OF u] obtain row where j': "j' = normalize (st_tz (cv_store cv)) (cv_now cv) j"
    and row: "db_rows db = hm_insert (job_id j) row (db_rows (job_db_of s))" "job_id (jr_payload row) = job_id j" by blast
  have db: "job_db_of s' = db" using sync_job_world [OF w] by (simp add: job_db_of_def set_jobs_def)
  have "keyed (job_db_of s')" if "keyed (job_db_of s)" using that row by (auto simp: keyed_def db hm_simps)
  moreover have "paused_job cv jid s' = paused_job cv jid s" if "jid \<noteq> job_id j"
  proof -
    have "hm_contains (WatchJob jid) (wt_handles (cs_watch s')) = hm_contains (WatchJob jid) (wt_handles (cs_watch s))"
      using sync_job_others [OF w, of jid] that by (simp add: j' set_jobs_def)
    moreover have "core_get_job cv jid s' = core_get_job cv jid s"
      using that by (simp add: core_get_job_def store_get_def db row(1) hm_simps)
    ultimately show ?thesis by (simp add: paused_job_def)
  qed
  ultimately show ?thesis by blast
qed

lemma toggled_off:
  assumes "toggle_job cv trg False jid s = (t, s')" "tr_status t \<noteq> TargetError" "keyed (job_db_of s)"
  shows "keyed (job_db_of s') \<and> paused_job cv jid s' \<and> (paused_job cv other s \<longrightarrow> paused_job cv other s')"
proof -
  obtain j where j: "core_get_job cv jid s = Inr j"
    using assms(1,2) by (auto simp: toggle_job_def error_result_def split: sum.splits)
  obtain row where row: "hm_get jid (db_rows (job_db_of s)) = Some row"
      "j = deserialize (cv_store cv) (cv_now cv) (jr_payload row)"
    using j by (auto simp: core_get_job_def store_get_def split: option.splits)
  have jid: "job_id (j\<lparr>job_enabled := False\<rparr>) = jid" using assms(3) row by (simp add: keyed_def deserialize_def)
  obtain j' where u: "core_update_job cv (j\<lparr>job_enabled := False\<rparr>) s = (Inr j', s')"
    using assms(1,2) j by (auto simp: toggle_job_def result_of_def error_result_def split: prod.splits sum.splits)
  from core_update_accepted [OF u] have "paused_job cv jid s'" by (simp add: jid paused_job_def)
  with core_update_others [OF u, of other] assms(3) show ?thesis by (cases "other = jid") (simp_all add: jid)
qed

text \<open>What every step without an error keeps holds after all of them, and what one of them establishes too.\<close>

definition no_errors :: "target_result list \<Rightarrow> bool" where
  "no_errors rs \<longleftrightarrow> \<not> list_ex (\<lambda>t. tr_status t = TargetError) rs"

lemma clean_result_keeps:
  assumes "\<And>y s rs s'. y \<in> set ys \<Longrightarrow> f y s = (rs, s') \<Longrightarrow> no_errors rs \<Longrightarrow> Q s \<Longrightarrow> Q s'"
  shows "each_result f ys s = (rs, s') \<Longrightarrow> no_errors rs \<Longrightarrow> Q s \<Longrightarrow> Q s'"
  using assms
proof (induction ys arbitrary: s rs)
  case (Cons y ys)
  obtain rs1 s1 where 1: "f y s = (rs1, s1)" by (metis surj_pair)
  obtain rs2 where 2: "each_result f ys s1 = (rs2, s')" "rs = rs1 @ rs2" using Cons.prems(1) 1 by (auto split: prod.splits)
  have errs: "no_errors rs1" "no_errors rs2" using Cons.prems(2) 2(2) by (auto simp: no_errors_def)
  have "Q s1" by (rule Cons.prems(4) [OF _ 1 errs(1) Cons.prems(3)]) simp
  then show ?case by (rule Cons.IH [OF 2(1) errs(2)]) (use Cons.prems(4) in auto)
qed simp

lemma each_result_reaches:
  assumes "x \<in> set ys" "each_result f ys s = (rs, s')" "no_errors rs" "K s"
    and keep: "\<And>y s rs s'. y \<in> set ys \<Longrightarrow> f y s = (rs, s') \<Longrightarrow> no_errors rs \<Longrightarrow> K s \<Longrightarrow> K s' \<and> (R s \<longrightarrow> R s')"
    and reach: "\<And>s rs s'. f x s = (rs, s') \<Longrightarrow> no_errors rs \<Longrightarrow> K s \<Longrightarrow> R s'"
  shows "R s'"
  using assms(1-4) keep
proof (induction ys arbitrary: s rs)
  case (Cons y ys)
  obtain rs1 s1 where 1: "f y s = (rs1, s1)" by (metis surj_pair)
  obtain rs2 where 2: "each_result f ys s1 = (rs2, s')" "rs = rs1 @ rs2" using Cons.prems(2) 1 by (auto split: prod.splits)
  have errs: "no_errors rs1" "no_errors rs2" using Cons.prems(3) 2(2) by (auto simp: no_errors_def)
  have k1: "K s1" using Cons.prems(5) [OF _ 1 errs(1) Cons.prems(4)] by simp
  show ?case
  proof (cases "x = y")
    case True
    with reach [of s rs1 s1] 1 errs(1) Cons.prems(4) have "R s1" by simp
    with k1 have "K s' \<and> R s'"
      by (intro clean_result_keeps [where Q = "\<lambda>s. K s \<and> R s" and f = f and ys = ys, OF _ 2(1) errs(2)])
        (use Cons.prems(5) in auto)
    then show ?thesis ..
  next
    case False
    with Cons.prems(1) have "x \<in> set ys" by simp
    then show ?thesis by (rule Cons.IH [OF _ 2(1) errs(2) k1]) (use Cons.prems(5) in auto)
  qed
qed simp

lemma toggled_jobs_off:
  assumes "toggle_jobs cv trg jids False s = (rs, s')" "no_errors rs" "keyed (job_db_of s)"
  shows "keyed (job_db_of s') \<and> (jid \<in> set jids \<or> paused_job cv jid s \<longrightarrow> paused_job cv jid s')"
proof (cases "jids = []")
  case False
  let ?f = "\<lambda>jid s. case toggle_job cv trg False jid s of (r, s) \<Rightarrow> ([r], s)"
  have run: "each_result ?f jids s = (rs, s')" using assms(1) False by (simp add: toggle_jobs_def)
  have step: "keyed (job_db_of s2) \<and> paused_job cv y s2 \<and> (paused_job cv jid s1 \<longrightarrow> paused_job cv jid s2)"
    if "?f y s1 = (rs1, s2)" "no_errors rs1" "keyed (job_db_of s1)" for y s1 rs1 s2
    using that toggled_off [of cv trg y s1 _ s2 jid] by (auto simp: no_errors_def split: prod.splits)
  have "keyed (job_db_of s')"
    by (rule clean_result_keeps [where Q = "\<lambda>s. keyed (job_db_of s)", OF _ run assms(2,3)]) (use step in blast)
  moreover have "paused_job cv jid s'" if "jid \<in> set jids"
    by (rule each_result_reaches [where K = "\<lambda>s. keyed (job_db_of s)" and R = "paused_job cv jid", OF that run assms(2,3)])
      (use step in blast)+
  moreover have "keyed (job_db_of s') \<and> paused_job cv jid s'" if "paused_job cv jid s"
    by (rule clean_result_keeps [where Q = "\<lambda>s. keyed (job_db_of s) \<and> paused_job cv jid s", OF _ run assms(2)])
      (use step assms(3) that in blast)+
  ultimately show ?thesis by blast
qed (use assms in \<open>simp add: toggle_jobs_def\<close>)

lemma core_update_instance: "core_update_job cv j s = (r, s') \<Longrightarrow> cs_instance_id s' = cs_instance_id s"
  by (auto simp: core_update_job_def saved_and_watched_def split: sum.splits prod.splits unit.splits)

lemma toggle_job_instance: "toggle_job cv trg on jid s = (t, s') \<Longrightarrow> cs_instance_id s' = cs_instance_id s"
  by (auto simp: toggle_job_def split: sum.splits prod.splits dest: core_update_instance)

lemma each_result_instance:
  assumes "\<And>y s rs s'. f y s = (rs, s') \<Longrightarrow> cs_instance_id s' = cs_instance_id s"
  shows "each_result f ys s = (rs, s') \<Longrightarrow> cs_instance_id s' = cs_instance_id s"
proof (induction ys arbitrary: s rs)
  case (Cons y ys)
  then show ?case by (auto split: prod.splits dest!: assms)
qed simp

lemma toggle_jobs_instance: "toggle_jobs cv trg jids on s = (rs, s') \<Longrightarrow> cs_instance_id s' = cs_instance_id s"
  unfolding toggle_jobs_def
  by (auto split: if_splits prod.splits dest: toggle_job_instance elim!: each_result_instance [rotated])

text \<open>An accepted result comes from a target that passed the guards.\<close>

lemma accepted_target:
  assumes "each_result (dispatch_target cv req a) ts s = (rs, s')" "list_ex (\<lambda>t. tr_status t = Accepted) rs"
    and "cr_kind req = PauseJob"
  shows "\<exists>trg \<in> set ts. trg = cs_instance_id s \<and> ma_enabled a \<and> \<not> (is_batch req \<and> \<not> ma_allow_batch_commands a)"
  using assms(1,2)
proof (induction ts arbitrary: s rs)
  case (Cons trg ts)
  obtain rs1 s1 where 1: "dispatch_target cv req a trg s = (rs1, s1)" by (metis surj_pair)
  obtain rs2 where 2: "each_result (dispatch_target cv req a) ts s1 = (rs2, s')" "rs = rs1 @ rs2"
    using Cons.prems(1) 1 by (auto split: prod.splits)
  have "cs_instance_id s1 = cs_instance_id s"
    using 1 assms(3) by (auto simp: dispatch_target_def run_command_def split: if_splits dest: toggle_jobs_instance)
  moreover have "trg = cs_instance_id s \<and> ma_enabled a \<and> \<not> (is_batch req \<and> \<not> ma_allow_batch_commands a)"
    if "list_ex (\<lambda>t. tr_status t = Accepted) rs1"
    using 1 that by (auto simp: dispatch_target_def skipped_result_def split: if_splits)
  ultimately show ?case using Cons.IH [OF 2(1)] Cons.prems(2) 2(2) by auto
qed simp

text \<open>
  C32. A command that pauses jobs, with any number of jobs and of targets, and that is accepted without an error
  among its results, has paused each of its jobs: read back the job has its switch off, and it is no longer watched in
  real time. The table of jobs must have its rows under the identifiers of their jobs, as the store writes
  them.
\<close>

theorem paused_jobs_are_disabled:
  assumes "dispatch_command cv req s = (r, s')" "res_accepted r" "\<not> list_ex (\<lambda>t. tr_status t = TargetError) (res_results r)"
    and "cr_kind req = PauseJob" "jid \<in> set (cr_job_ids req)" "keyed (job_db_of s)"
  shows "(\<exists>j. core_get_job cv jid s' = Inr j \<and> \<not> job_enabled j) \<and>
    \<not> hm_contains (WatchJob jid) (wt_handles (cs_watch s'))"
proof -
  let ?s = "s\<lparr>cs_cache := get_async (cs_settings s)\<rparr>" and ?a = "as_admin (get_async (cs_settings s))"
  let ?f = "dispatch_target cv req ?a" and ?inst = "cs_instance_id s"
  obtain rs where run: "each_result ?f (command_targets req ?s) ?s = (rs, s')" and rs: "res_results r = rs"
      "list_ex (\<lambda>t. tr_status t = Accepted) rs"
    using assms(1,2) by (auto simp: dispatch_command_def core_get_settings_def Let_def split: prod.splits)
  let ?K = "\<lambda>s. keyed (job_db_of s) \<and> cs_instance_id s = ?inst"
  have inst: "cs_instance_id s2 = cs_instance_id s1" if "toggle_jobs cv trg jids on s1 = (rs1, s2)" for trg jids on s1 rs1 s2
    using that by (rule toggle_jobs_instance)
  have passes: "?f trg s1 = (rs1, s2) \<Longrightarrow> no_errors rs1 \<Longrightarrow> ?K s1 \<Longrightarrow>
      ?K s2 \<and> (paused_job cv jid s1 \<longrightarrow> paused_job cv jid s2)" for trg s1 rs1 s2
    using toggled_jobs_off [of cv trg "cr_job_ids req" s1 rs1 s2 jid] inst [of trg "cr_job_ids req" False s1 rs1 s2]
    by (auto simp: dispatch_target_def run_command_def assms(4) split: if_splits)
  obtain trg where trg: "trg \<in> set (command_targets req ?s)" "trg = ?inst" "ma_enabled ?a"
      "\<not> (is_batch req \<and> \<not> ma_allow_batch_commands ?a)"
    using accepted_target [OF run rs(2) assms(4)] by auto
  have no: "no_errors rs" using assms(3) rs(1) by (simp add: no_errors_def)
  have reaches: "paused_job cv jid s2" if "?f trg s1 = (rs1, s2)" "no_errors rs1" "?K s1" for s1 rs1 s2
  proof -
    have "toggle_jobs cv trg (cr_job_ids req) False s1 = (rs1, s2)"
      using that trg(2-4) by (simp add: dispatch_target_def run_command_def assms(4) del: de_Morgan_conj)
    from toggled_jobs_off [OF this that(2)] that(3) assms(5) show ?thesis by blast
  qed
  have start: "?K ?s" using assms(6) by (simp add: job_db_of_def)
  have "paused_job cv jid s'"
    by (rule each_result_reaches [where K = ?K and R = "paused_job cv jid", OF trg(1) run no start])
      (use passes reaches in blast)+
  then show ?thesis by (simp add: paused_job_def)
qed

section \<open>Results that hide an error\<close>

text \<open>
  A command with an error among its results is finished as completed when another result was accepted, while
  the audit records it as failed.
\<close>

lemma partial_failure_is_completed:
  assumes "res_accepted r" "\<exists>t \<in> set (res_results r). tr_status t = TargetError"
  shows "finished_status r = Completed \<and> audit_status_for_admin_result r = audit_status.Failed"
  using assms by (auto simp: finished_status_def audit_status_for_admin_result_def list_ex_iff)

text \<open>A job whose watch cannot start is saved although its creation is answered with an error.\<close>

lemma refused_job_is_saved:
  assumes "core_create_job cv j s = (Inl (DatabaseError msg), s')" "is_ok (create_job (cv_store cv) (cv_now cv) j (job_db_of s))"
  shows "is_ok (core_get_job cv (job_id j) s')"
proof -
  obtain j' db where c: "create_job (cv_store cv) (cv_now cv) j (job_db_of s) = Inr (j', db)"
    using assms(2) by (auto simp: is_ok_iff)
  then have u: "update_job (cv_store cv) (cv_now cv) j (job_db_of s) = Inr (j', db)"
    by (simp add: create_job_def update_job_def)
  obtain w where "s' = s\<lparr>cs_watch := w\<rparr>" and w: "sync_job (cv_watch cv) j' (cs_watch (set_jobs db s)) = (Inl (DatabaseError msg), w)"
    using assms(1) c by (auto simp: core_create_job_def saved_and_watched_def split: prod.splits sum.splits unit.splits)
  moreover have "wt_world w = wt_world (cs_watch (set_jobs db s))"
    by (rule sync_job_world [OF w])
  ultimately have "job_db_of s' = db" by (simp add: job_db_of_def set_jobs_def)
  then show ?thesis using saved_job_enabled [OF u] by (auto simp: core_get_job_def is_ok_iff)
qed

text \<open>
  A run that the user starts does not enter the busy set of the watch runtime and does not suppress it: the
  watch can run the same blueprint meanwhile, and what the run does triggers the blueprint again.
\<close>

lemma manual_run_is_not_guarded:
  "wt_busy (cs_watch (snd (core_apply_blueprint cv bid eid s))) = wt_busy (cs_watch s) \<and>
   wt_suppressed (cs_watch (snd (core_apply_blueprint cv bid eid s))) = wt_suppressed (cs_watch s)"
  by (simp add: core_apply_blueprint_def set_world_def set_blueprints_def split: prod.split)

section \<open>A concrete service\<close>

text \<open>The one of \<open>demo_world\<close>, with the job 1; the next identifier is larger than those given out.\<close>

definition demo_core_env :: core_env where
  "demo_core_env = \<lparr>cv_watch = demo_watch_env, cv_deps = demo_blueprint_deps,
     cv_new_v4 = (\<lambda>q. Suc (sum_list (map snd (issued q)))), cv_uuid_text = show_nat, cv_details = (\<lambda>_ _ _ _. []),
     cv_argon = Inr, cv_argon_verify = (\<lambda>pin h. pin = h), cv_keyring_error = None,
     cv_hardware = \<lparr>hp_host_name = ''pc'', hp_operating_system = ''linux'', hp_architecture = ''x86_64'',
       hp_cpu_threads = 4, hp_total_memory_mb = None, hp_app_version = ''2.0.0''\<rparr>,
     cv_domain = None, cv_addresses = (\<lambda>_. None)\<rparr>"

definition demo_core :: core_state where
  "demo_core = core_start ''pc'' None (demo_world Copy Skip) client_db"

definition job_request :: "command_kind \<Rightarrow> command_request" where
  "job_request k = \<lparr>cr_kind = k, cr_target_instance_ids = [], cr_job_ids = [1], cr_execution_ids = [],
     cr_reason = None, cr_job_payloads = []\<rparr>"

lemma demo_core_fresh: "fresh_ids demo_core_env"
proof -
  have "n \<le> sum_list ns" if "n \<in> set ns" for n and ns :: "nat list" using that by (simp add: member_le_sum_list)
  then have "Suc (sum_list (map snd (issued q))) \<notin> snd ` set (issued q)" for q :: job_queue
    by (metis list.set_map not_less_eq_eq order_refl)
  then show ?thesis by (simp add: fresh_ids_def demo_core_env_def)
qed

definition queue_start :: core_action where
  "queue_start = EnqueueCommandAct 9 (job_request StartJob) ''ui''"

definition statuses :: "core_state option \<Rightarrow> (uuid \<times> string) list option" where
  "statuses r = map_option (\<lambda>s. map (\<lambda>row. (lc_id row, lc_status row)) (cs_commands s)) r"

lemma queued_view: "statuses (run_all (perform_core demo_core_env) [queue_start] demo_core) = Some [(9, ''pending'')]"
  by code_simp

lemma processed_view:
  "statuses (run_all (perform_core demo_core_env) [queue_start, ProcessCommandAct] demo_core) = Some [(9, ''completed'')]"
  by code_simp

lemma commands_are_carried_out_once_witness:
  "\<exists>s s' row now r. run_all (perform_core demo_core_env) [queue_start] demo_core = Some s \<and>
     run_all (perform_core demo_core_env) [ProcessCommandAct] s = Some s' \<and> row \<in> set (cs_commands s) \<and>
     lc_status row = ''pending'' \<and> finish_row now r row \<in> set (cs_commands s')"
proof -
  obtain s row where s: "run_all (perform_core demo_core_env) [queue_start] demo_core = Some s"
      "row \<in> set (cs_commands s)" "lc_status row = ''pending''"
    using queued_view by (auto simp: statuses_def)
  obtain s' where s': "run_all (perform_core demo_core_env) [ProcessCommandAct] s = Some s'"
      "\<forall>row' \<in> set (cs_commands s'). lc_status row' = ''completed''"
    using processed_view s(1) run_all_append [of "perform_core demo_core_env" "[queue_start]" "[ProcessCommandAct]" demo_core]
    by (auto simp: statuses_def simp del: perform_core.simps)
  have "reach (perform_core demo_core_env) demo_core s" using s(1) reach_iff_run_all by metis
  then have "row \<in> set (cs_commands s') \<or> (lc_status row = ''pending'' \<and> (\<exists>now r. finish_row now r row \<in> set (cs_commands s')))"
    unfolding demo_core_def by (rule commands_are_carried_out_once [OF demo_core_fresh _ s(2) s'(1)])
  then show ?thesis using s s' by auto
qed

theorem waiting_commands_are_carried_out_witness:
  "\<exists>s s'. run_all (perform_core demo_core_env) [queue_start] demo_core = Some s \<and> waiting (cs_commands s) = 1 \<and>
     run_all (perform_core demo_core_env) (replicate 1 ProcessCommandAct) s = Some s' \<and> waiting (cs_commands s') = 0"
proof -
  obtain s where s: "run_all (perform_core demo_core_env) [queue_start] demo_core = Some s" "waiting (cs_commands s) = 1"
    using queued_view by (auto simp: statuses_def waiting_def)
  then have "reach (perform_core demo_core_env) (core_start ''pc'' None (demo_world Copy Skip) client_db) s"
    unfolding demo_core_def using reach_iff_run_all by metis
  from waiting_commands_are_carried_out [OF demo_core_fresh this] s show ?thesis by auto
qed

theorem forbidden_command_changes_nothing_witness:
  "\<exists>rs. dispatch_command demo_core_env (job_request DeleteJob)
      (demo_core\<lparr>cs_settings := Some (app_settings_default\<lparr>as_admin := admin_settings_default\<lparr>ma_enabled := False\<rparr>\<rparr>)\<rparr>) =
    (\<lparr>res_accepted = False, res_command = DeleteJob, res_results = rs\<rparr>,
     demo_core\<lparr>cs_settings := Some (app_settings_default\<lparr>as_admin := admin_settings_default\<lparr>ma_enabled := False\<rparr>\<rparr>),
       cs_cache := get_async (Some (app_settings_default\<lparr>as_admin := admin_settings_default\<lparr>ma_enabled := False\<rparr>\<rparr>))\<rparr>)"
proof -
  let ?a = "Some (app_settings_default\<lparr>as_admin := admin_settings_default\<lparr>ma_enabled := False\<rparr>\<rparr>)"
  have "\<not> ma_enabled (as_admin (get_async ?a))" by code_simp
  then show ?thesis
    using forbidden_command_changes_nothing [OF refl, of "demo_core\<lparr>cs_settings := ?a\<rparr>" "job_request DeleteJob" demo_core_env]
    by (auto simp: job_request_def)
qed

definition pause_request :: command_request where
  "pause_request = (job_request PauseJob)\<lparr>cr_target_instance_ids := [''other'', ''pc'']\<rparr>"

definition batch_core :: core_state where
  "batch_core = demo_core\<lparr>cs_settings := Some (app_settings_default\<lparr>as_admin :=
     admin_settings_default\<lparr>ma_allow_batch_commands := True\<rparr>\<rparr>)\<rparr>"

lemma pause_accepted:
  "res_accepted (fst (dispatch_command demo_core_env pause_request batch_core)) \<and>
   \<not> list_ex (\<lambda>t. tr_status t = TargetError) (res_results (fst (dispatch_command demo_core_env pause_request batch_core)))"
  by code_simp

theorem paused_jobs_are_disabled_witness:
  "\<exists>j. core_get_job demo_core_env 1 (snd (dispatch_command demo_core_env pause_request batch_core)) = Inr j \<and>
     \<not> job_enabled j"
proof -
  have "keyed (job_db_of batch_core)"
    by (simp add: keyed_def job_db_of_def batch_core_def demo_core_def core_start_def watch_start_def demo_world_def
        hm_get_def job_new_def)
  then show ?thesis
    using paused_jobs_are_disabled [of demo_core_env pause_request batch_core _ _ 1] pause_accepted
    by (auto simp: pause_request_def job_request_def prod_eq_iff)
qed

end
