(* ===== verification/Remote_Agent.thy ===== *)
theory Remote_Agent
  imports Core_Safety
begin

text \<open>
  The agent of a managed instance: the snapshot and the heartbeat it sends, and one round of the loop that
  enrols, polls a command, carries it out and reports it (\<open>admin.rs\<close> and the heartbeat of \<open>lib.rs\<close> in
  \<open>crates/autoflow-core/src\<close>). The server's answers are a parameter, what is sent a value of the state.
\<close>

section \<open>The snapshot\<close>

definition managed_job_of :: "active_execution list \<Rightarrow> job_summary \<Rightarrow> managed_job" where
  "managed_job_of running_now j =
     \<lparr>mj_id = js_id j, mj_name = js_name j, mj_mode = js_mode j, mj_enabled = js_enabled j,
      mj_source_path = js_source_path j, mj_target_path = js_target_path j, mj_last_run = js_last_run j,
      mj_next_run = js_next_run j,
      mj_status =
        (if list_ex (\<lambda>e. ae_job_id e = js_id j) running_now then JobRunning
         else if \<not> js_enabled j then JobDisabledState
         else if js_next_run j \<noteq> None then JobScheduled else JobIdle)\<rparr>"

definition local_instance_status :: "job_summary list \<Rightarrow> active_execution list \<Rightarrow> instance_status" where
  "local_instance_status jobs running_now =
     (if running_now \<noteq> [] then Online else if list_ex js_enabled jobs then Online else Warning)"

definition display_name_of :: "core_env \<Rightarrow> admin_settings \<Rightarrow> string" where
  "display_name_of cv a = (if ma_display_name a = [] then hp_host_name (cv_hardware cv) else ma_display_name a)"

definition management_profile_of :: "admin_settings \<Rightarrow> management_profile" where
  "management_profile_of a =
     \<lparr>mp_enabled = ma_enabled a, mp_mode = ma_mode a,
      mp_server_url = (if ma_server_url a = [] then None else Some (ma_server_url a)),
      mp_allow_remote_commands = ma_allow_remote_commands a,
      mp_allow_batch_commands = ma_allow_batch_commands a,
      mp_heartbeat_interval_secs = ma_heartbeat_interval_secs a,
      mp_inventory_interval_secs = ma_inventory_interval_secs a\<rparr>"

definition network_profile_of :: "core_env \<Rightarrow> network_profile" where
  "network_profile_of cv =
     (let host = hp_host_name (cv_hardware cv) in
      \<lparr>np_domain = (case cv_domain cv of Some d \<Rightarrow> if d = [] then None else Some d | None \<Rightarrow> None),
       np_interfaces =
         \<lparr>ni_name = ''hostname'', ni_address = Some host, ni_kind = ''host''\<rparr> #
         (case cv_addresses cv host of
            None \<Rightarrow> []
          | Some ips \<Rightarrow> map (\<lambda>ip. \<lparr>ni_name = ''resolved'', ni_address = Some ip, ni_kind = ''ip''\<rparr>) (take 4 ips))\<rparr>)"

definition capability ::
    "command_kind \<Rightarrow> string \<Rightarrow> command_support \<Rightarrow> string \<Rightarrow> bool \<Rightarrow> command_capability" where
  "capability k label support scope confirm =
     \<lparr>cc_kind = k, cc_label = label, cc_support = support, cc_scope = scope, cc_requires_confirmation = confirm\<rparr>"

definition command_capabilities :: "command_capability list" where
  "command_capabilities =
     [capability StartJob ''Iniciar fluxo'' Available ''maquina/fluxo'' False,
      capability CancelExecution ''Cancelar execucao'' Available ''maquina/execucao'' True,
      capability PauseJob ''Pausar fluxo'' Available ''maquina/fluxo/lote'' True,
      capability ResumeJob ''Continuar fluxo'' Available ''maquina/fluxo/lote'' False,
      capability StopJob ''Parar fluxo'' Available ''maquina/fluxo/lote'' True,
      capability CreateJob ''Criar fluxo remoto'' Available ''maquina/lote'' True,
      capability UpdateJob ''Editar fluxo remoto'' Available ''maquina/lote'' True,
      capability DeleteJob ''Deletar fluxo remoto'' Available ''maquina/lote'' True,
      capability ApplySettingsPolicy ''Aplicar politica'' Planned ''grupo/lote'' True,
      capability RequestLogs ''Solicitar logs'' Planned ''maquina/lote'' False]"

definition instance_snapshot_of :: "core_env \<Rightarrow> core_state \<Rightarrow> instance_snapshot" where
  "instance_snapshot_of cv s =
     (let a = as_admin (get_async (cs_settings s)); jobs = core_list_jobs cv s; running_now = list_active (queue_of s)
      in \<lparr>is_instance_id = cs_instance_id s, is_display_name = display_name_of cv a,
          is_status = local_instance_status jobs running_now, is_last_seen_at = cv_now cv,
          is_hardware = cv_hardware cv, is_network = network_profile_of cv, is_management = management_profile_of a,
          is_jobs = map (managed_job_of running_now) jobs, is_active_executions = running_now,
          is_capabilities = command_capabilities\<rparr>)"

definition local_fleet_snapshot :: "core_env \<Rightarrow> core_state \<Rightarrow> fleet_snapshot" where
  "local_fleet_snapshot cv s =
     \<lparr>fl_generated_at = cv_now cv, fl_summary = fleet_from_instances [instance_snapshot_of cv s],
      fl_instances = [instance_snapshot_of cv s]\<rparr>"

section \<open>The heartbeat\<close>

record agent_env =
  ag_core :: core_env
  ag_crypto :: crypto_lib
  ag_poll_json :: "poll_request to_json"
  ag_assignment_json :: "command_assignment to_json"
  ag_completion_json :: "completion_request to_json"
  ag_heartbeat_json :: "heartbeat_payload to_json"
  ag_nonce :: uuid
  ag_enroll :: "string \<Rightarrow> enrollment_token_request \<Rightarrow> bool"
  ag_poll :: "string \<Rightarrow> poll_request envelope \<Rightarrow> poll_response option"
  ag_post_heartbeat :: "string \<Rightarrow> heartbeat_payload envelope \<Rightarrow> string + nat \<times> string option \<times> string"

record heartbeat_delivery =
  hd_endpoint :: string
  hd_status_code :: "nat option"
  hd_accepted :: bool
  hd_message :: string
  hd_sent_at :: timestamp

definition heartbeat_payload_of :: "core_env \<Rightarrow> core_state \<Rightarrow> domain_error + heartbeat_payload" where
  "heartbeat_payload_of cv s =
     (case fl_instances (local_fleet_snapshot cv s) of
        [] \<Rightarrow> Inl (Validation ''admin snapshot has no local instance'')
      | inst # _ \<Rightarrow>
          rbind (local_summary (cs_commands s)) (\<lambda>summary.
            Inr \<lparr>hb_instance = inst, hb_generated_at = cv_now cv, hb_pending_command_count = qs_pending summary\<rparr>))"

text \<open>The multiplication is that of \<open>u32\<close>.\<close>

definition heartbeat_ttl :: "32 word \<Rightarrow> 32 word" where
  "heartbeat_ttl interval = max 30 (min 3600 (interval * 3))"

definition signed_heartbeat :: "agent_env \<Rightarrow> core_state \<Rightarrow> domain_error + heartbeat_payload envelope" where
  "signed_heartbeat ag s =
     rbind (get_agent_secret (ag_core ag) s) (\<lambda>secret.
       case secret of
         None \<Rightarrow> Inl (Validation ''admin agent secret is not configured in the OS keyring'')
       | Some secret \<Rightarrow>
           rbind (heartbeat_payload_of (ag_core ag) s) (\<lambda>payload.
             envelope_sign (ag_crypto ag) (ag_heartbeat_json ag) (cv_now (ag_core ag)) (ag_nonce ag) Heartbeat
               (cs_instance_id s) payload secret
               (heartbeat_ttl (mp_heartbeat_interval_secs (is_management (hb_instance payload))))))"

definition admin_server_endpoint :: "string \<Rightarrow> string \<Rightarrow> string" where
  "admin_server_endpoint url path = trim_end_by (\<lambda>c. c = CHR ''/'') (trim url) @ path"

definition truncate_message :: "string \<Rightarrow> nat \<Rightarrow> string" where
  "truncate_message message max_chars = take max_chars message"

definition send_heartbeat :: "agent_env \<Rightarrow> core_state \<Rightarrow> (domain_error + heartbeat_delivery) \<times> core_state" where
  "send_heartbeat ag s0 =
     (case core_get_settings s0 of
        (settings, s) \<Rightarrow>
          (let a = as_admin settings in
           if \<not> ma_enabled a then (Inl (Validation ''admin monitoring is disabled''), s)
           else if trim (ma_server_url a) = []
           then (Inl (Validation ''admin server URL is required before sending heartbeat''), s)
           else
             (let url = admin_server_endpoint (ma_server_url a) (''/api/agents/'' @ cs_instance_id s @ ''/heartbeat'')
              in (rbind (signed_heartbeat ag s) (\<lambda>envelope.
                    case ag_post_heartbeat ag url envelope of
                      Inl e \<Rightarrow> Inl (DatabaseError e)
                    | Inr (st, reason, body) \<Rightarrow>
                        Inr \<lparr>hd_endpoint = url, hd_status_code = Some st, hd_accepted = (200 \<le> st \<and> st < 300),
                             hd_message =
                               (if trim body = []
                                then (case reason of None \<Rightarrow> ''heartbeat sent'' | Some r \<Rightarrow> r)
                                else truncate_message (trim body) 500),
                             hd_sent_at = cv_now (ag_core ag)\<rparr>), s))))"

definition should_send_admin_heartbeat :: "app_settings \<Rightarrow> bool" where
  "should_send_admin_heartbeat settings \<longleftrightarrow>
     ma_enabled (as_admin settings) \<and> ma_mode (as_admin settings) = ManagedAgent \<and>
     ma_enrollment_token_configured (as_admin settings) \<and> trim (ma_server_url (as_admin settings)) \<noteq> []"

definition admin_heartbeat_wait_secs :: "app_settings \<Rightarrow> nat" where
  "admin_heartbeat_wait_secs settings =
     unat (max 10 (min 3600 (ma_heartbeat_interval_secs (as_admin settings))))"

text \<open>One turn of the heartbeat worker, with the seconds it sleeps afterwards.\<close>

definition heartbeat_turn :: "agent_env \<Rightarrow> core_state \<Rightarrow> nat \<times> core_state" where
  "heartbeat_turn ag s0 =
     (case core_get_settings s0 of
        (settings, s) \<Rightarrow>
          (admin_heartbeat_wait_secs settings,
           if should_send_admin_heartbeat settings then snd (send_heartbeat ag s) else s))"

text \<open>An interval the settings accept is tripled without overflow, and its lifetime is one an envelope can have.\<close>

lemma heartbeat_ttl_in_range:
  assumes "admin_validate a = Inr ()"
  shows "unat (heartbeat_ttl (ma_heartbeat_interval_secs a)) =
    max 30 (min 3600 (3 * unat (ma_heartbeat_interval_secs a)))"
proof -
  have "ma_heartbeat_interval_secs a \<le> 3600" using assms by (auto simp: admin_validate_def split: if_splits)
  then have "unat (ma_heartbeat_interval_secs a) \<le> 3600" by (simp add: word_le_nat_alt)
  then have "unat (ma_heartbeat_interval_secs a * 3) = 3 * unat (ma_heartbeat_interval_secs a)"
    by (subst unat_mult_lem [THEN iffD1]) simp_all
  then show ?thesis
    by (simp add: heartbeat_ttl_def max_def min_def word_le_nat_alt)
qed

section \<open>A round of the agent\<close>

record agent_state =
  gs_core :: core_state
  gs_enrolled :: bool
  gs_sent :: "(string \<times> completion_request envelope) list"

definition agent_base :: "admin_settings \<Rightarrow> string" where
  "agent_base a = trim_end_by (\<lambda>c. c = CHR ''/'') (trim (ma_server_url a))"

definition agent_enroll :: "agent_env \<Rightarrow> admin_settings \<Rightarrow> string \<Rightarrow> agent_state \<Rightarrow> agent_state" where
  "agent_enroll ag a secret g =
     (if gs_enrolled g then g
      else g\<lparr>gs_enrolled :=
        ag_enroll ag (agent_base a @ ''/api/enrollments'')
          \<lparr>et_token = ma_enrollment_token a, et_instance = instance_snapshot_of (ag_core ag) (gs_core g),
           et_agent_secret = secret, et_requested_at = cv_now (ag_core ag)\<rparr>\<rparr>)"

definition completion_of :: "agent_env \<Rightarrow> string \<Rightarrow> command_assignment \<Rightarrow> command_result \<Rightarrow> completion_request" where
  "completion_of ag inst assignment result =
     \<lparr>co_command_id = as_command_id assignment, co_target_instance_id = inst,
      co_status = (if res_accepted result then DoneCompleted else DoneFailed),
      co_message = join_with ''; '' (map tr_message (res_results result)),
      co_completed_at = cv_now (ag_core ag)\<rparr>"

definition carry_out ::
    "agent_env \<Rightarrow> admin_settings \<Rightarrow> string \<Rightarrow> command_assignment \<Rightarrow> agent_state \<Rightarrow> agent_state" where
  "carry_out ag a secret assignment g =
     (let inst = cs_instance_id (gs_core g) in
      case dispatch_command (ag_core ag) (as_request assignment) (gs_core g) of
        (result, s) \<Rightarrow>
          (case envelope_sign (ag_crypto ag) (ag_completion_json ag) (cv_now (ag_core ag)) (ag_nonce ag) Command inst
                  (completion_of ag inst assignment result) secret 300 of
             Inl _ \<Rightarrow> g\<lparr>gs_core := s\<rparr>
           | Inr envelope \<Rightarrow>
               g\<lparr>gs_core := s,
                 gs_sent := gs_sent g @
                   [(agent_base a @ ''/api/agents/'' @ inst @ ''/commands/'' @
                     cv_uuid_text (ag_core ag) (as_command_id assignment) @ ''/completion'', envelope)]\<rparr>))"

text \<open>The assignment a poll brings, when it is signed under the agent's secret.\<close>

definition polled_assignment :: "agent_env \<Rightarrow> admin_settings \<Rightarrow> string \<Rightarrow> string \<Rightarrow> command_assignment option" where
  "polled_assignment ag a secret inst =
     (case envelope_sign (ag_crypto ag) (ag_poll_json ag) (cv_now (ag_core ag)) (ag_nonce ag) Command inst
             \<lparr>pr_requested_at = cv_now (ag_core ag)\<rparr> secret 300 of
        Inl _ \<Rightarrow> None
      | Inr envelope \<Rightarrow>
          (case ag_poll ag (agent_base a @ ''/api/agents/'' @ inst @ ''/commands/next'') envelope of
             None \<Rightarrow> None
           | Some poll \<Rightarrow>
               (case po_assignment poll of
                  None \<Rightarrow> None
                | Some e \<Rightarrow>
                    (case envelope_verify (ag_crypto ag) (ag_assignment_json ag) e secret of
                       Inr True \<Rightarrow> Some (en_payload e)
                     | _ \<Rightarrow> None))))"

definition agent_work :: "agent_env \<Rightarrow> admin_settings \<Rightarrow> string \<Rightarrow> agent_state \<Rightarrow> agent_state" where
  "agent_work ag a secret g0 =
     (let g = agent_enroll ag a secret g0 in
      if \<not> gs_enrolled g then g
      else
        (let g = g\<lparr>gs_core := snd (send_heartbeat ag (gs_core g))\<rparr> in
         if \<not> ma_allow_remote_commands a then g
         else
           (case polled_assignment ag a secret (cs_instance_id (gs_core g)) of
              None \<Rightarrow> g
            | Some assignment \<Rightarrow> carry_out ag a secret assignment g)))"

text \<open>One turn of the loop, with the seconds it sleeps afterwards.\<close>

definition agent_round :: "agent_env \<Rightarrow> agent_state \<Rightarrow> nat \<times> agent_state" where
  "agent_round ag g0 =
     (case core_get_settings (gs_core g0) of
        (settings, s) \<Rightarrow>
          (let g = g0\<lparr>gs_core := s\<rparr>; a = as_admin settings in
           if \<not> ma_enabled a \<or> ma_mode a \<noteq> ManagedAgent then (30, g)
           else if trim (ma_server_url a) = [] \<or> trim (ma_enrollment_token a) = [] then (30, g)
           else
             (case get_agent_secret (ag_core ag) s of
                Inr (Some secret) \<Rightarrow> (admin_heartbeat_wait_secs settings, agent_work ag a secret g)
              | _ \<Rightarrow> (30, g))))"

section \<open>What makes the agent act\<close>

text \<open>Nothing but the cache of the settings differs.\<close>

definition same_core :: "core_state \<Rightarrow> core_state \<Rightarrow> bool" where
  "same_core s s' \<longleftrightarrow> s' = s\<lparr>cs_cache := cs_cache s'\<rparr>"

lemma get_settings_same: "core_get_settings s = (get_async (cs_settings s), s\<lparr>cs_cache := get_async (cs_settings s)\<rparr>)"
  by (simp add: core_get_settings_def Let_def)

lemma send_heartbeat_same: "snd (send_heartbeat ag s) = s\<lparr>cs_cache := get_async (cs_settings s)\<rparr>"
  by (simp add: send_heartbeat_def get_settings_same Let_def)

lemma dispatch_cache: "dispatch_command cv req (s\<lparr>cs_cache := c\<rparr>) = dispatch_command cv req s"
  by (simp add: dispatch_command_def get_settings_same)

lemma enroll_core [simp]: "gs_core (agent_enroll ag a secret g) = gs_core g" "gs_sent (agent_enroll ag a secret g) = gs_sent g"
  by (simp_all add: agent_enroll_def)

lemma polled_signed:
  assumes "polled_assignment ag a secret inst = Some assignment"
  shows "\<exists>url envelope poll e. ag_poll ag url envelope = Some poll \<and> po_assignment poll = Some e \<and>
    envelope_verify (ag_crypto ag) (ag_assignment_json ag) e secret = Inr True \<and> assignment = en_payload e"
  using assms by (auto simp: polled_assignment_def split: sum.splits option.splits bool.splits)

lemma carry_out_core: "gs_core (carry_out ag a secret assignment g) =
    snd (dispatch_command (ag_core ag) (as_request assignment) (gs_core g))"
  by (simp add: carry_out_def Let_def split: prod.split sum.split)

lemma agent_work_cases:
  assumes "g' = agent_work ag a secret g"
  shows "same_core (gs_core g) (gs_core g') \<and> gs_sent g' = gs_sent g \<or>
    ma_allow_remote_commands a \<and> (\<exists>assignment.
      polled_assignment ag a secret (cs_instance_id (gs_core g)) = Some assignment \<and>
      gs_core g' = snd (dispatch_command (ag_core ag) (as_request assignment) (gs_core g)))"
  using assms
  by (auto simp: agent_work_def Let_def send_heartbeat_same same_core_def carry_out_core dispatch_cache
      split: option.splits)

text \<open>
  C28. The agent acts only on signed commands: when a round changes anything of the instance but the cache of
  its settings, or reports a command, then the instance is a managed agent that allows remote commands, the
  server's answer to the poll held an envelope that verifies under the agent's secret, and the change is that
  of dispatching the request in this envelope.
\<close>

theorem agent_acts_only_on_signed_commands:
  assumes "agent_round ag g = (wait, g')" "a = as_admin (get_async (cs_settings (gs_core g)))"
    "\<not> same_core (gs_core g) (gs_core g') \<or> gs_sent g' \<noteq> gs_sent g"
  shows "ma_enabled a \<and> ma_mode a = ManagedAgent \<and> ma_allow_remote_commands a \<and>
    (\<exists>secret url envelope poll e.
       get_agent_secret (ag_core ag) (gs_core g) = Inr (Some secret) \<and>
       ag_poll ag url envelope = Some poll \<and> po_assignment poll = Some e \<and>
       envelope_verify (ag_crypto ag) (ag_assignment_json ag) e secret = Inr True \<and>
       gs_core g' = snd (dispatch_command (ag_core ag) (as_request (en_payload e)) (gs_core g)))"
proof -
  define g1 where "g1 = g\<lparr>gs_core := (gs_core g)\<lparr>cs_cache := get_async (cs_settings (gs_core g))\<rparr>\<rparr>"
  have idle: "same_core (gs_core g) (gs_core g1) \<and> gs_sent g1 = gs_sent g" by (simp add: g1_def same_core_def)
  have secret: "get_agent_secret (ag_core ag) (gs_core g1) = get_agent_secret (ag_core ag) (gs_core g)"
    by (simp add: g1_def get_agent_secret_def split: option.split)
  have "g' \<noteq> g1" using assms(3) idle by blast
  then obtain key where on: "ma_enabled a" "ma_mode a = ManagedAgent"
      and key: "get_agent_secret (ag_core ag) (gs_core g1) = Inr (Some key)" and g': "g' = agent_work ag a key g1"
    using assms(1,2) by (auto simp: agent_round_def get_settings_same Let_def g1_def [symmetric]
        split: if_splits sum.splits option.splits) (auto simp: g1_def)
  from agent_work_cases [OF g'] show ?thesis
  proof
    assume "same_core (gs_core g1) (gs_core g') \<and> gs_sent g' = gs_sent g1"
    then have "same_core (gs_core g) (gs_core g') \<and> gs_sent g' = gs_sent g"
      by (simp add: g1_def same_core_def)
    with assms(3) show ?thesis by blast
  next
    assume "ma_allow_remote_commands a \<and> (\<exists>assignment.
        polled_assignment ag a key (cs_instance_id (gs_core g1)) = Some assignment \<and>
        gs_core g' = snd (dispatch_command (ag_core ag) (as_request assignment) (gs_core g1)))"
    then obtain assignment where allow: "ma_allow_remote_commands a"
      and polled: "polled_assignment ag a key (cs_instance_id (gs_core g1)) = Some assignment"
      and core: "gs_core g' = snd (dispatch_command (ag_core ag) (as_request assignment) (gs_core g))"
      by (auto simp: g1_def dispatch_cache)
    from polled_signed [OF polled] on allow core key secret show ?thesis by auto
  qed
qed

section \<open>A concrete round\<close>

text \<open>The server answers with the given envelope; codes are the signed texts under their key.\<close>

definition demo_agent :: "command_assignment envelope option \<Rightarrow> agent_env" where
  "demo_agent answer = \<lparr>ag_core = demo_core_env,
     ag_crypto = \<lparr>cl_hash = (\<lambda>s. s), cl_keyed = (\<lambda>k s. k @ s), cl_time_text = (\<lambda>_. ''t''), cl_uuid_text = show_nat\<rparr>,
     ag_poll_json = (\<lambda>_. Inr ''poll''), ag_assignment_json = (\<lambda>_. Inr ''assignment''),
     ag_completion_json = (\<lambda>_. Inr ''done''), ag_heartbeat_json = (\<lambda>_. Inr ''beat''), ag_nonce = 3,
     ag_enroll = (\<lambda>_ _. True),
     ag_poll = (\<lambda>_ _. Some \<lparr>po_assignment = answer, po_pending_count = 0, po_polled_at = 0\<rparr>),
     ag_post_heartbeat = (\<lambda>_ _. Inl ''offline'')\<rparr>"

definition managed_settings :: app_settings where
  "managed_settings = app_settings_default\<lparr>as_admin := admin_settings_default\<lparr>ma_mode := ManagedAgent,
     ma_server_url := ''https://admin'', ma_enrollment_token := ''t'', ma_allow_remote_commands := True\<rparr>\<rparr>"

definition demo_agent_state :: agent_state where
  "demo_agent_state = \<lparr>gs_core = demo_core\<lparr>cs_settings := Some managed_settings, cs_secret := Some ''key''\<rparr>,
     gs_enrolled = False, gs_sent = []\<rparr>"

definition demo_assignment :: "string \<Rightarrow> command_assignment" where
  "demo_assignment inst = \<lparr>as_command_id = 8, as_target_instance_id = inst, as_request = job_request StartJob, as_assigned_at = 0\<rparr>"

definition signed_for :: "envelope_kind \<Rightarrow> string \<Rightarrow> timestamp \<Rightarrow> string \<Rightarrow> command_assignment envelope option" where
  "signed_for k inst t secret =
     (case envelope_sign (ag_crypto (demo_agent None)) (\<lambda>_. Inr ''assignment'') t 4 k inst (demo_assignment inst) secret 300 of
        Inl _ \<Rightarrow> None | Inr e \<Rightarrow> Some e)"

definition started :: "agent_state \<Rightarrow> queue_message list" where
  "started g = channel (queue_of (gs_core g))"

lemma demo_round_view:
  "started (snd (agent_round (demo_agent (signed_for Command ''pc'' 0 ''key'')) demo_agent_state)) = [Run 1 1] \<and>
   length (gs_sent (snd (agent_round (demo_agent (signed_for Command ''pc'' 0 ''key'')) demo_agent_state))) = 1"
  by code_simp

theorem agent_acts_only_on_signed_commands_witness:
  "\<exists>e secret. signed_for Command ''pc'' 0 ''key'' = Some e \<and>
     envelope_verify (ag_crypto (demo_agent (Some e))) (ag_assignment_json (demo_agent (Some e))) e secret = Inr True \<and>
     gs_core (snd (agent_round (demo_agent (Some e)) demo_agent_state)) =
       snd (dispatch_command demo_core_env (as_request (en_payload e)) (gs_core demo_agent_state))"
proof -
  have "signed_for Command ''pc'' 0 ''key'' \<noteq> None" by code_simp
  then obtain e where e: "signed_for Command ''pc'' 0 ''key'' = Some e" by blast
  let ?ag = "demo_agent (Some e)"
  have "gs_sent (snd (agent_round ?ag demo_agent_state)) \<noteq> gs_sent demo_agent_state"
    using demo_round_view by (auto simp: e demo_agent_state_def)
  then obtain secret where "envelope_verify (ag_crypto ?ag) (ag_assignment_json ?ag) e secret = Inr True"
      "gs_core (snd (agent_round ?ag demo_agent_state)) =
         snd (dispatch_command (ag_core ?ag) (as_request (en_payload e)) (gs_core demo_agent_state))"
    using agent_acts_only_on_signed_commands [of ?ag demo_agent_state _ _ _, OF surjective_pairing refl]
    by (auto simp: demo_agent_def)
  with e show ?thesis by (auto simp: demo_agent_def)
qed

text \<open>An envelope signed under another key starts nothing.\<close>

lemma forged_assignment_is_ignored:
  "started (snd (agent_round (demo_agent (signed_for Command ''pc'' 0 ''other'')) demo_agent_state)) = []"
  by code_simp

text \<open>
  The agent checks the signature alone. A year after it has expired an assignment is carried out again, in an
  envelope of another kind, for another instance.
\<close>

definition late_agent :: "command_assignment envelope option \<Rightarrow> agent_env" where
  "late_agent answer = (demo_agent answer)\<lparr>ag_core := demo_core_env\<lparr>cv_deps := demo_blueprint_deps
     \<lparr>xd_run := demo_deps\<lparr>rd_now := secs 31536000\<rparr>\<rparr>\<rparr>\<rparr>"

lemma expired_assignment_is_carried_out:
  "started (snd (agent_round (late_agent (signed_for Heartbeat ''other'' 0 ''key'')) demo_agent_state)) = [Run 1 1]"
  by code_simp

end
