(* ===== verification/Mail_Delivery.thy ===== *)
theory Mail_Delivery
  imports Settings Job_Config
begin

text \<open>
  The delivery of notifications, \<open>smtp.rs\<close> and the sending half of \<open>notify.rs\<close> in \<open>crates/autoflow-application\<close>.
  The mail server is the list of the lines it sends, whatever they are; a text that is written is kept with
  the fact whether it went through TLS. Base64, the handshake and failing writes are parameters. A line that
  the server sends ahead of the handshake and that is dropped with the buffer of the plain connection is not
  on the list.
\<close>

section \<open>The connection\<close>

datatype smtp_error = SmtpFailed string | SmtpPanic

record smtp_env =
  sx_connect_error :: "string option"
  sx_handshake_error :: "string option"
  sx_write_error :: "nat \<Rightarrow> string option"
  sx_base64 :: "string \<Rightarrow> string"

record smtp_state =
  sm_tls :: bool
  sm_lines :: "(string + string) list"
  sm_sent :: "(bool \<times> string) list"

definition crlf :: string where
  "crlf = [CHR 0x0D, CHR 0x0A]"

fun smtp_then ::
    "(smtp_error + 'a) \<times> smtp_state \<Rightarrow> ('a \<Rightarrow> smtp_state \<Rightarrow> (smtp_error + 'b) \<times> smtp_state) \<Rightarrow>
     (smtp_error + 'b) \<times> smtp_state" where
  "smtp_then (Inl e, s) f = (Inl e, s)"
| "smtp_then (Inr y, s) f = f y s"

definition smtp_write :: "smtp_env \<Rightarrow> string \<Rightarrow> smtp_state \<Rightarrow> (smtp_error + unit) \<times> smtp_state" where
  "smtp_write x bytes s =
     (case sx_write_error x (length (sm_sent s)) of
        Some e \<Rightarrow> (Inl (SmtpFailed e), s)
      | None \<Rightarrow> (Inr (), s\<lparr>sm_sent := sm_sent s @ [(sm_tls s, bytes)]\<rparr>))"

text \<open>\<open>parse::<u16>\<close> of a text of three bytes.\<close>

definition parse_code :: "string \<Rightarrow> nat option" where
  "parse_code t =
     (let d = (case t of c # cs \<Rightarrow> if c = CHR ''+'' then cs else t | [] \<Rightarrow> [])
      in if d \<noteq> [] \<and> list_all is_digit d then Some (read_digits d) else None)"

text \<open>A byte inside a character of more than one: a slice that ends before it panics.\<close>

definition continuation_byte :: "char \<Rightarrow> bool" where
  "continuation_byte c \<longleftrightarrow> 0x80 \<le> code c \<and> code c < 0xC0"

fun read_lines :: "nat \<Rightarrow> string \<Rightarrow> (string + string) list \<Rightarrow> (smtp_error + nat \<times> string) \<times> (string + string) list" where
  "read_lines status message [] = (Inl (SmtpFailed ''SMTP connection closed unexpectedly''), [])"
| "read_lines status message (Inl e # rest) = (Inl (SmtpFailed e), rest)"
| "read_lines status message (Inr line # rest) =
     (if line = [] then (Inl (SmtpFailed ''SMTP connection closed unexpectedly''), rest)
      else if length line \<ge> 4
      then
        (if continuation_byte (line ! 3) then (Inl SmtpPanic, rest)
         else
           (let status' = (case parse_code (take 3 line) of Some n \<Rightarrow> n | None \<Rightarrow> status)
            in if line ! 3 = CHR '' '' then (Inr (status', message @ line), rest)
               else read_lines status' (message @ line) rest))
      else (Inr (status, message @ line), rest))"

definition read_response :: "smtp_state \<Rightarrow> (smtp_error + nat \<times> string) \<times> smtp_state" where
  "read_response s = (case read_lines 0 [] (sm_lines s) of (r, rest) \<Rightarrow> (r, s\<lparr>sm_lines := rest\<rparr>))"

definition send_command :: "smtp_env \<Rightarrow> string \<Rightarrow> smtp_state \<Rightarrow> (smtp_error + nat \<times> string) \<times> smtp_state" where
  "send_command x command s =
     smtp_then (smtp_write x command s) (\<lambda>_ s. smtp_then (smtp_write x crlf s) (\<lambda>_ s. read_response s))"

text \<open>A response and the codes with which the session goes on.\<close>

definition expect ::
    "nat list \<Rightarrow> string \<Rightarrow> (smtp_error + nat \<times> string) \<times> smtp_state \<Rightarrow> (smtp_error + unit) \<times> smtp_state" where
  "expect codes failed r =
     smtp_then r (\<lambda>(status, _) s.
       if status \<in> set codes then (Inr (), s) else (Inl (SmtpFailed (failed @ '': '' @ show_nat status)), s))"

definition start_tls :: "smtp_env \<Rightarrow> smtp_state \<Rightarrow> (smtp_error + unit) \<times> smtp_state" where
  "start_tls x s =
     (case sx_handshake_error x of
        Some e \<Rightarrow> (Inl (SmtpFailed e), s)
      | None \<Rightarrow> (Inr (), s\<lparr>sm_tls := True\<rparr>))"

section \<open>The message\<close>

text \<open>\<open>str::lines\<close>: the ends of lines are line feeds, with a carriage return before them or not.\<close>

definition strip_cr :: "string \<Rightarrow> string" where
  "strip_cr line = (if line \<noteq> [] \<and> last line = CHR 0x0D then butlast line else line)"

definition body_lines :: "string \<Rightarrow> string list" where
  "body_lines body =
     (let parts = split_on (CHR 0x0A) body
      in map strip_cr (butlast parts) @ (if last parts = [] then [] else [last parts]))"

definition stuffed :: "string \<Rightarrow> string" where
  "stuffed line = (if line \<noteq> [] \<and> hd line = CHR ''.'' then CHR ''.'' # line else line)"

definition mail_headers :: "string \<Rightarrow> string \<Rightarrow> string \<Rightarrow> string list" where
  "mail_headers from_text to_text subject =
     [''From: '' @ from_text, ''To: '' @ to_text, ''Subject: '' @ subject, ''MIME-Version: 1.0'',
      ''Content-Type: text/plain; charset=utf-8'', []]"

definition mail_data :: "string \<Rightarrow> string \<Rightarrow> string \<Rightarrow> string \<Rightarrow> string" where
  "mail_data from_text to_text subject body =
     concat (map (\<lambda>line. line @ crlf)
       (mail_headers from_text to_text subject @ map stuffed (body_lines body) @ [''.'']))"

definition mail_from :: "smtp_settings \<Rightarrow> string" where
  "mail_from m =
     (if trim (sp_from_address m) = []
      then (if trim (sp_username m) = [] then ''tidyflow@localhost'' else sp_username m)
      else sp_from_address m)"

section \<open>The session\<close>

definition authenticate :: "smtp_env \<Rightarrow> smtp_settings \<Rightarrow> smtp_state \<Rightarrow> (smtp_error + unit) \<times> smtp_state" where
  "authenticate x m s =
     (if trim (sp_username m) = [] \<and> sp_password m = [] then (Inr (), s)
      else
        smtp_then (expect [334] ''SMTP AUTH LOGIN failed'' (send_command x ''AUTH LOGIN'' s)) (\<lambda>_ s.
        smtp_then (expect [334] ''SMTP username rejected'' (send_command x (sx_base64 x (sp_username m)) s)) (\<lambda>_ s.
          expect [235] ''SMTP password rejected'' (send_command x (sx_base64 x (sp_password m)) s))))"

definition upgrade :: "smtp_env \<Rightarrow> smtp_state \<Rightarrow> (smtp_error + unit) \<times> smtp_state" where
  "upgrade x s =
     smtp_then (expect [220] ''SMTP STARTTLS failed'' (send_command x ''STARTTLS'' s)) (\<lambda>_ s.
     smtp_then (start_tls x s) (\<lambda>_ s.
       expect [250] ''SMTP EHLO after STARTTLS failed'' (send_command x ''EHLO tidyflow'' s)))"

definition transfer_mail ::
    "smtp_env \<Rightarrow> smtp_settings \<Rightarrow> string \<Rightarrow> string \<Rightarrow> smtp_state \<Rightarrow> (smtp_error + unit) \<times> smtp_state" where
  "transfer_mail x m subject body s =
     smtp_then (expect [250] ''SMTP MAIL FROM failed'' (send_command x (''MAIL FROM:<'' @ mail_from m @ ''>'') s)) (\<lambda>_ s.
     smtp_then (expect [250, 251] ''SMTP RCPT TO failed''
                  (send_command x (''RCPT TO:<'' @ trim (sp_to_address m) @ ''>'') s)) (\<lambda>_ s.
     smtp_then (expect [354] ''SMTP DATA failed'' (send_command x ''DATA'' s)) (\<lambda>_ s.
     smtp_then (smtp_write x (mail_data (mail_from m) (trim (sp_to_address m)) subject body) s) (\<lambda>_ s.
     smtp_then (expect [250] ''SMTP message rejected'' (read_response s)) (\<lambda>_ s.
       (case send_command x ''QUIT'' s of
          (Inl SmtpPanic, s) \<Rightarrow> (Inl SmtpPanic, s)
        | (_, s) \<Rightarrow> (Inr (), s)))))))"

text \<open>\<open>lines\<close> is what the server will say.\<close>

definition send_email ::
    "smtp_env \<Rightarrow> smtp_settings \<Rightarrow> string \<Rightarrow> string \<Rightarrow> (string + string) list \<Rightarrow> (smtp_error + unit) \<times> smtp_state" where
  "send_email x m subject body lines =
     (let s = \<lparr>sm_tls = False, sm_lines = lines, sm_sent = []\<rparr>;
          implicit_tls = sp_use_tls m \<and> sp_port m = 465;
          starttls = sp_use_tls m \<and> sp_port m \<noteq> 465
      in if trim (sp_host m) = [] then (Inl (SmtpFailed ''SMTP host is required''), s)
         else if trim (sp_to_address m) = [] then (Inl (SmtpFailed ''SMTP recipient is required''), s)
         else
           (case sx_connect_error x of
              Some e \<Rightarrow> (Inl (SmtpFailed (''SMTP connect failed: '' @ e)), s)
            | None \<Rightarrow>
                smtp_then (if implicit_tls then start_tls x s else (Inr (), s)) (\<lambda>_ s.
                smtp_then (expect [220] ''SMTP greeting failed'' (read_response s)) (\<lambda>_ s.
                smtp_then (expect [250] ''SMTP EHLO failed'' (send_command x ''EHLO tidyflow'' s)) (\<lambda>_ s.
                smtp_then (if starttls then upgrade x s else (Inr (), s)) (\<lambda>_ s.
                smtp_then (authenticate x m s) (\<lambda>_ s.
                  transfer_mail x m subject body s)))))))"

section \<open>Notifications\<close>

datatype web_value = TextValue string | TrueValue | NullValue

record web_post =
  wp_url :: string
  wp_headers :: "(string \<times> string) list"
  wp_fields :: "(string \<times> web_value) list"

fun event_label :: "notify_event \<Rightarrow> string" where
  "event_label Started = ''started''"
| "event_label CompletedEvent = ''completed''"
| "event_label FailedEvent = ''failed''"

definition format_message :: "(uuid \<Rightarrow> string) \<Rightarrow> job \<Rightarrow> notify_event \<Rightarrow> string option \<Rightarrow> string" where
  "format_message uuid_text j event detail =
     ''AutoFlow ['' @ event_label event @ ''] '' @ job_name j @ '' '' @ [CHR 0xE2, CHR 0x80, CHR 0x94] @ '' '' @
     uuid_text (job_id j) @
     (case detail of None \<Rightarrow> [] | Some d \<Rightarrow> if d = [] then [] else CHR 0x0A # d)"

definition event_fields :: "(uuid \<Rightarrow> string) \<Rightarrow> job \<Rightarrow> notify_event \<Rightarrow> string option \<Rightarrow> (string \<times> web_value) list" where
  "event_fields uuid_text j event detail =
     [(''event'', TextValue (event_label event)), (''jobId'', TextValue (uuid_text (job_id j))),
      (''jobName'', TextValue (job_name j)), (''message'', TextValue (format_message uuid_text j event detail)),
      (''detail'', case detail of None \<Rightarrow> NullValue | Some d \<Rightarrow> TextValue d)]"

fun channel_post ::
    "(uuid \<Rightarrow> string) \<Rightarrow> job \<Rightarrow> notify_event \<Rightarrow> string option \<Rightarrow> notify_channel \<Rightarrow> web_post" where
  "channel_post uuid_text j event detail (Discord url) =
     \<lparr>wp_url = url, wp_headers = [], wp_fields = [(''content'', TextValue (format_message uuid_text j event detail))]\<rparr>"
| "channel_post uuid_text j event detail (Telegram bot_token chat_id _) =
     \<lparr>wp_url = ''https://api.telegram.org/bot'' @ bot_token @ ''/sendMessage'', wp_headers = [],
      wp_fields = [(''chat_id'', TextValue chat_id), (''text'', TextValue (format_message uuid_text j event detail)),
                   (''disable_web_page_preview'', TrueValue)]\<rparr>"
| "channel_post uuid_text j event detail (Generic url headers) =
     \<lparr>wp_url = url, wp_headers = headers, wp_fields = event_fields uuid_text j event detail\<rparr>"

text \<open>One channel after the other; a failure is only logged.\<close>

definition send_notifications ::
    "(uuid \<Rightarrow> string) \<Rightarrow> notify_config \<Rightarrow> job \<Rightarrow> notify_event \<Rightarrow> string option \<Rightarrow> web_post list" where
  "send_notifications uuid_text config j event detail = map (channel_post uuid_text j event detail) (nc_channels config)"

text \<open>What the global settings send: posts, and the subject and text of a mail.\<close>

definition global_notifications ::
    "(uuid \<Rightarrow> string) \<Rightarrow> app_settings \<Rightarrow> job \<Rightarrow> bool \<Rightarrow> string option \<Rightarrow> web_post list \<times> (string \<times> string) option" where
  "global_notifications uuid_text settings j success detail =
     (let n = as_notifications settings;
          event = (if success then CompletedEvent else FailedEvent)
      in if \<not> nt_enabled n \<or> \<not> nt_webhook_enabled n then ([], None)
         else if success \<and> \<not> nt_notify_on_success n then ([], None)
         else if \<not> success \<and> \<not> nt_notify_on_failure n then ([], None)
         else
           (map (\<lambda>hook. \<lparr>wp_url = wh_url hook, wp_headers = [], wp_fields = event_fields uuid_text j event detail\<rparr>)
              (filter (\<lambda>hook. wh_enabled hook \<and> trim (wh_url hook) \<noteq> []) (nt_webhooks n)),
            if sp_enabled (nt_smtp n)
            then Some (''TidyFlow: '' @ (if success then ''conclu'' @ [CHR 0xC3, CHR 0xAD] @ ''do'' else ''falha''),
                       format_message uuid_text j event detail)
            else None))"

text \<open>Mail alone is never sent: without the switch of the webhooks nothing is.\<close>

lemma mail_needs_webhooks:
  "\<not> nt_webhook_enabled (as_notifications settings) \<Longrightarrow> global_notifications u settings j success detail = ([], None)"
  by (simp add: global_notifications_def Let_def)

section \<open>What leaves unencrypted\<close>

text \<open>Before TLS only the greeting and the request for it are written.\<close>

definition clear_ok :: "smtp_state \<Rightarrow> bool" where
  "clear_ok s \<longleftrightarrow> (\<forall>(tls, bytes) \<in> set (sm_sent s). tls \<or> bytes \<in> {''EHLO tidyflow'', ''STARTTLS'', crlf})"

definition sealed :: "smtp_state \<Rightarrow> bool" where
  "sealed s \<longleftrightarrow> sm_tls s \<and> clear_ok s"

lemma then_keeps:
  "Q (snd r) \<Longrightarrow> (\<And>y s. r = (Inr y, s) \<Longrightarrow> Q s \<Longrightarrow> Q (snd (f y s))) \<Longrightarrow> Q (snd (smtp_then r f))"
  by (cases "(r, f)" rule: smtp_then.cases) auto

lemma expect_keeps: "Q (snd r) \<Longrightarrow> Q (snd (expect codes failed r))"
  unfolding expect_def by (rule then_keeps [where Q = Q]) auto

lemmas then_sealed = then_keeps [where Q = sealed] and then_clear = then_keeps [where Q = clear_ok]
lemmas expect_sealed = expect_keeps [where Q = sealed] and expect_clear = expect_keeps [where Q = clear_ok]

lemma write_sealed: "sealed s \<Longrightarrow> sealed (snd (smtp_write x bytes s))"
  by (auto simp: smtp_write_def sealed_def clear_ok_def split: option.split)

lemma write_clear:
  "clear_ok s \<Longrightarrow> bytes \<in> {''EHLO tidyflow'', ''STARTTLS'', crlf} \<Longrightarrow> clear_ok (snd (smtp_write x bytes s))"
  by (auto simp: smtp_write_def clear_ok_def split: option.split)

lemma read_keeps [simp]: "clear_ok (snd (read_response s)) = clear_ok s" "sealed (snd (read_response s)) = sealed s"
  by (simp_all add: read_response_def clear_ok_def sealed_def split: prod.split)

lemma command_sealed: "sealed s \<Longrightarrow> sealed (snd (send_command x bytes s))"
  unfolding send_command_def by (intro then_sealed write_sealed) simp_all

lemma command_clear:
  "clear_ok s \<Longrightarrow> bytes \<in> {''EHLO tidyflow'', ''STARTTLS''} \<Longrightarrow> clear_ok (snd (send_command x bytes s))"
  unfolding send_command_def by (intro then_clear write_clear) auto

lemma tls_seals: "clear_ok s \<Longrightarrow> clear_ok (snd (start_tls x s)) \<and> (start_tls x s = (Inr y, s') \<longrightarrow> sealed s')"
  by (auto simp: start_tls_def clear_ok_def sealed_def split: option.split)

lemma sealed_clear: "sealed s \<Longrightarrow> clear_ok s"
  by (simp add: sealed_def)

lemma authenticate_sealed: "sealed s \<Longrightarrow> sealed (snd (authenticate x m s))"
  by (simp add: authenticate_def) (intro impI then_sealed expect_sealed command_sealed)

lemma quit_sealed:
  "sealed s \<Longrightarrow> sealed (snd (case send_command x ''QUIT'' s of
     (Inl SmtpPanic, s) \<Rightarrow> (Inl SmtpPanic, s) | (_, s) \<Rightarrow> (Inr (), s)))"
  using command_sealed [of s x "''QUIT''"]
  by (auto split: prod.splits sum.splits smtp_error.splits)

lemma transfer_sealed: "sealed s \<Longrightarrow> sealed (snd (transfer_mail x m subject body s))"
  unfolding transfer_mail_def
  by (intro then_sealed expect_sealed command_sealed write_sealed quit_sealed) simp_all

text \<open>After an upgrade that succeeds the session goes through TLS.\<close>

lemma upgrade_keeps:
  assumes "clear_ok s"
  shows "clear_ok (snd (upgrade x s)) \<and> (upgrade x s = (Inr y, s') \<longrightarrow> sealed s')"
proof -
  obtain r1 s1 where 1: "expect [220] ''SMTP STARTTLS failed'' (send_command x ''STARTTLS'' s) = (r1, s1)" by fastforce
  have c1: "clear_ok s1"
    using expect_keeps [of clear_ok "send_command x ''STARTTLS'' s", OF command_clear [OF assms]] 1 by (metis insertCI snd_conv)
  obtain r2 s2 where 2: "start_tls x s1 = (r2, s2)" by fastforce
  obtain r3 s3 where 3: "expect [250] ''SMTP EHLO after STARTTLS failed'' (send_command x ''EHLO tidyflow'' s2) = (r3, s3)" by fastforce
  have s2: "clear_ok s2 \<and> (r2 = Inr () \<longrightarrow> sealed s2)" using tls_seals [OF c1, of x] 2 by auto
  have "sealed s3" if "r2 = Inr ()"
    using expect_keeps [of sealed, OF command_sealed] s2 that 3 by (metis snd_conv)
  then show ?thesis
    using c1 s2 by (cases r1; cases r2) (auto simp: upgrade_def 1 2 3 sealed_clear)
qed

text \<open>
  C33. With TLS switched on, neither the credentials nor the mail leave unencrypted: whatever the server
  answers and wherever the session ends, the only texts written before the handshake are the greeting and
  the request for it.
\<close>

theorem mail_is_sent_through_tls:
  assumes "sp_use_tls m" "(False, bytes) \<in> set (sm_sent (snd (send_email x m subject body lines)))"
  shows "bytes = ''EHLO tidyflow'' \<or> bytes = ''STARTTLS'' \<or> bytes = crlf"
proof -
  let ?s = "\<lparr>sm_tls = False, sm_lines = lines, sm_sent = []\<rparr>"
  have start: "clear_ok ?s" by (simp add: clear_ok_def)
  have tail: "clear_ok (snd (smtp_then (authenticate x m s) (\<lambda>_ s. transfer_mail x m subject body s)))" if "sealed s" for s
    by (rule sealed_clear) (intro then_sealed authenticate_sealed transfer_sealed that)
  have "clear_ok (snd (send_email x m subject body lines))"
  proof (cases "sp_port m = 465")
    case True
    have rest: "clear_ok (snd (smtp_then (expect [220] ''SMTP greeting failed'' (read_response s)) (\<lambda>_ s.
        smtp_then (expect [250] ''SMTP EHLO failed'' (send_command x ''EHLO tidyflow'' s)) (\<lambda>_ s.
        smtp_then (authenticate x m s) (\<lambda>_ s. transfer_mail x m subject body s)))))" if "sealed s" for s
      by (rule sealed_clear)
        (intro then_sealed expect_sealed command_sealed authenticate_sealed transfer_sealed; simp add: that)
    show ?thesis
    proof (cases "start_tls x ?s")
      case (Pair r s1)
      with tls_seals [OF start, of x] rest [of s1] start assms(1) True show ?thesis
        by (cases r) (auto simp: send_email_def Let_def split: option.split)
    qed
  next
    case False
    have after: "clear_ok (snd (smtp_then (upgrade x s) (\<lambda>_ s. smtp_then (authenticate x m s) (\<lambda>_ s.
        transfer_mail x m subject body s))))" if "clear_ok s" for s
    proof (cases "upgrade x s")
      case (Pair r s1)
      with upgrade_keeps [OF that, of x] tail [of s1] show ?thesis by (cases r) auto
    qed
    have "clear_ok (snd (smtp_then (expect [220] ''SMTP greeting failed'' (read_response s)) (\<lambda>_ s.
        smtp_then (expect [250] ''SMTP EHLO failed'' (send_command x ''EHLO tidyflow'' s)) (\<lambda>_ s.
        smtp_then (upgrade x s) (\<lambda>_ s. smtp_then (authenticate x m s) (\<lambda>_ s.
          transfer_mail x m subject body s))))))" if "clear_ok s" for s
      by (intro then_clear expect_clear command_clear after) (simp_all add: that)
    from this [OF start] start assms(1) False show ?thesis
      by (auto simp: send_email_def Let_def split: option.split)
  qed
  with assms(2) show ?thesis by (auto simp: clear_ok_def)
qed

text \<open>A session with STARTTLS: in the clear the greeting, under TLS the mail.\<close>

definition demo_smtp :: smtp_env where
  "demo_smtp = \<lparr>sx_connect_error = None, sx_handshake_error = None, sx_write_error = (\<lambda>_. None), sx_base64 = id\<rparr>"

definition demo_mail :: smtp_settings where
  "demo_mail = smtp_default\<lparr>sp_enabled := True, sp_host := ''mail'', sp_port := 587, sp_username := ''u'', sp_password := ''pw'',
     sp_to_address := ''a@b'', sp_use_tls := True\<rparr>"

definition says :: "string list \<Rightarrow> (string + string) list" where
  "says codes = map (\<lambda>status. Inr (status @ '' ok'')) codes"

definition demo_session :: "(smtp_error + unit) \<times> smtp_state" where
  "demo_session = send_email demo_smtp demo_mail ''Hi'' ''text''
     (says [''220'', ''250'', ''220'', ''250'', ''334'', ''334'', ''235'', ''250'', ''250'', ''354'', ''250''])"

lemma demo_session_view:
  "fst demo_session = Inr () \<and> (False, ''STARTTLS'') \<in> set (sm_sent (snd demo_session)) \<and>
   (True, ''pw'') \<in> set (sm_sent (snd demo_session))"
  by code_simp

theorem mail_is_sent_through_tls_witness:
  "(True, ''pw'') \<in> set (sm_sent (snd demo_session)) \<and> (False, ''pw'') \<notin> set (sm_sent (snd demo_session))"
proof -
  have "sp_use_tls demo_mail" by code_simp
  from mail_is_sent_through_tls [OF this, of "''pw''" demo_smtp "''Hi''" "''text''"] have "(False, ''pw'') \<notin> set (sm_sent (snd demo_session))"
    by (auto simp: demo_session_def crlf_def)
  with demo_session_view show ?thesis by blast
qed

section \<open>What the receiver reads\<close>

text \<open>The lines of the data, up to the one that is a single dot, without the dot put before a dot.\<close>

fun split_crlf :: "string \<Rightarrow> string list" where
  "split_crlf [] = [[]]"
| "split_crlf [c] = [[c]]"
| "split_crlf (c # d # rest) =
     (if c = CHR 0x0D \<and> d = CHR 0x0A then [] # split_crlf rest
      else (case split_crlf (d # rest) of [] \<Rightarrow> [[c]] | l # ls \<Rightarrow> (c # l) # ls))"

definition unstuffed :: "string \<Rightarrow> string" where
  "unstuffed line = (if line \<noteq> [] \<and> hd line = CHR ''.'' then tl line else line)"

definition received_lines :: "string \<Rightarrow> string list" where
  "received_lines data = map unstuffed (takeWhile (\<lambda>line. line \<noteq> ''.'') (split_crlf data))"

lemma split_crlf_line: "CHR 0x0A \<notin> set line \<Longrightarrow> split_crlf (line @ crlf @ rest) = line # split_crlf rest"
proof (induction line rule: induct_list012)
  case 1
  show ?case by (simp add: crlf_def)
next
  case (2 c)
  then show ?case by (simp add: crlf_def)
next
  case (3 c d line)
  then show ?case by (auto simp: crlf_def)
qed

lemma split_crlf_lines:
  "\<forall>line \<in> set ls. CHR 0x0A \<notin> set line \<Longrightarrow> split_crlf (concat (map (\<lambda>line. line @ crlf) ls) @ rest) = ls @ split_crlf rest"
proof (induction ls)
  case (Cons line ls)
  then show ?case using split_crlf_line [of line "concat (map (\<lambda>line. line @ crlf) ls) @ rest"] by simp
qed simp

lemma unstuffed_stuffed: "unstuffed (stuffed line) = line" "stuffed line \<noteq> ''.''"
  by (cases line; auto simp: unstuffed_def stuffed_def)+

lemma takeWhile_until: "\<forall>y \<in> set ys. P y \<Longrightarrow> \<not> P z \<Longrightarrow> takeWhile P (ys @ z # zs) = ys"
  by (induction ys) auto

lemma body_line_chars:
  assumes "line \<in> set (body_lines body)"
  shows "CHR 0x0A \<notin> set line"
proof -
  let ?parts = "split_on (CHR 0x0A) body"
  have "last ?parts \<in> set ?parts" by simp
  moreover have "set (strip_cr part) \<subseteq> set part" for part by (auto simp: strip_cr_def dest: in_set_butlastD)
  ultimately have "\<exists>part \<in> set ?parts. set line \<subseteq> set part"
    using assms by (auto simp: body_lines_def Let_def split: if_splits dest: in_set_butlastD)
  then show ?thesis using split_on_no_sep by blast
qed

text \<open>
  C34. The text of a notification arrives as it was written, also when its lines begin with dots or are a
  single dot: what a receiver reads, up to the end mark and with the stuffed dots taken off, are the headers
  and the lines of the body. The addresses and the subject must not hold line feeds.
\<close>

theorem mail_reads_back:
  assumes "CHR 0x0A \<notin> set from_text" "CHR 0x0A \<notin> set to_text" "CHR 0x0A \<notin> set subject"
  shows "received_lines (mail_data from_text to_text subject body) =
    mail_headers from_text to_text subject @ body_lines body"
proof -
  let ?h = "mail_headers from_text to_text subject"
  let ?ls = "?h @ map stuffed (body_lines body) @ [''.'']"
  have "CHR 0x0A \<notin> set line" if "line \<in> set ?h" for line
    using that assms by (auto simp: mail_headers_def)
  moreover have "CHR 0x0A \<notin> set (stuffed line)" if "line \<in> set (body_lines body)" for line
    using body_line_chars [OF that] by (auto simp: stuffed_def)
  ultimately have "\<forall>line \<in> set ?ls. CHR 0x0A \<notin> set line" by auto
  from split_crlf_lines [OF this, of "[]"]
  have split: "split_crlf (mail_data from_text to_text subject body) = ?ls @ [[]]" by (simp add: mail_data_def)
  have h: "\<forall>line \<in> set ?h. line \<noteq> ''.'' \<and> unstuffed line = line"
    by (simp add: mail_headers_def unstuffed_def)
  then have no_dot: "\<forall>line \<in> set (?h @ map stuffed (body_lines body)). line \<noteq> ''.''"
    by (simp add: ball_Un unstuffed_stuffed(2))
  have "takeWhile (\<lambda>line. line \<noteq> ''.'') (?ls @ [[]]) = ?h @ map stuffed (body_lines body)"
    using takeWhile_until [of "?h @ map stuffed (body_lines body)" "\<lambda>line. line \<noteq> ''.''" "''.''" "[[]]"] no_dot by simp
  then show ?thesis
    using h by (simp add: received_lines_def split comp_def unstuffed_stuffed map_idI)
qed

theorem mail_reads_back_witness:
  "received_lines (mail_data ''me'' ''you'' ''Hi'' (''.'' @ [CHR 0x0A] @ ''..x'')) = mail_headers ''me'' ''you'' ''Hi'' @ [''.'', ''..x'']"
proof -
  have "body_lines (''.'' @ [CHR 0x0A] @ ''..x'') = [''.'', ''..x'']" by code_simp
  with mail_reads_back [of "''me''" "''you''" "''Hi''" "''.'' @ [CHR 0x0A] @ ''..x''"] show ?thesis by simp
qed

section \<open>What goes wrong\<close>

text \<open>A reply whose fourth byte lies inside a character stops the task.\<close>

lemma reply_can_panic:
  "fst (send_email demo_smtp demo_mail ''Hi'' ''text'' [Inr (''22'' @ [CHR 0xC3, CHR 0xA9] @ '' ok'')]) = Inl SmtpPanic"
  by code_simp

text \<open>A reply that is a code alone, with its end of line, is taken for one that goes on: the reader waits for more.\<close>

lemma bare_code_waits:
  "read_lines status message (Inr (''250'' @ crlf) # rest) = read_lines 250 (message @ ''250'' @ crlf) rest"
proof -
  have "parse_code ''250'' = Some 250" by code_simp
  moreover have "\<not> continuation_byte (CHR 0x0D)" by code_simp
  ultimately show ?thesis by (simp add: crlf_def)
qed

text \<open>A line feed in the recipient's address, which the settings accept, adds a command to the session.\<close>

lemma address_injects_command:
  "let m = demo_mail\<lparr>sp_to_address := ''a@b>'' @ crlf @ ''RCPT TO:<c@d''\<rparr> in
   smtp_validate m = Inr () \<and>
   (True, ''RCPT TO:<a@b>'' @ crlf @ ''RCPT TO:<c@d>'') \<in> set (sm_sent (snd (send_email demo_smtp m ''Hi'' ''text''
     (says [''220'', ''250'', ''220'', ''250'', ''334'', ''334'', ''235'', ''250'', ''250'']))))"
  by code_simp

end
