(* ===== verification/Vault_Key.thy ===== *)
theory Vault_Key
  imports Secret_Vault
begin

text \<open>
  Loading the master key, \<open>SecretVault::load\<close> of \<open>crates/autoflow-infrastructure/src/vault.rs\<close>: a key file beside the
  data wins over the keyring; without either a random key is stored in the keyring or, when that fails, in a
  file. What the keyring, the random source and the disk answer at one start of the program is \<open>key_env\<close>.
\<close>

section \<open>Loading\<close>

record key_places =
  kp_file :: "string option"
  kp_keyring :: "string option"

text \<open>\<open>ke_create_error\<close>: the file is not created; \<open>ke_write_error\<close>: it is, but only so many bytes of it are written.\<close>

record key_env =
  ke_read_error :: "string option"
  ke_entry_error :: bool
  ke_get_error :: bool
  ke_set_error :: bool
  ke_random :: "nat \<Rightarrow> 8 word list option"
  ke_create_error :: "string option"
  ke_write_error :: "(nat \<times> string) option"

definition random_key :: "key_env \<Rightarrow> nat \<Rightarrow> domain_error + 8 word list" where
  "random_key env n =
     (case ke_random env n of Some key \<Rightarrow> Inr key | None \<Rightarrow> Inl (DatabaseError ''failed to generate vault key''))"

definition write_key_file :: "key_env \<Rightarrow> string \<Rightarrow> key_places \<Rightarrow> (domain_error + unit) \<times> key_places" where
  "write_key_file env contents s =
     (case ke_create_error env of
        Some e \<Rightarrow> (Inl (DatabaseError (''failed to create vault key: '' @ e)), s)
      | None \<Rightarrow>
          (if kp_file s \<noteq> None then (Inl (DatabaseError ''failed to create vault key: File exists''), s)
           else
             (case ke_write_error env of
                Some (n, e) \<Rightarrow>
                  (Inl (DatabaseError (''failed to write vault key: '' @ e)), s\<lparr>kp_file := Some (take n contents)\<rparr>)
              | None \<Rightarrow> (Inr (), s\<lparr>kp_file := Some contents\<rparr>))))"

text \<open>The key file as the last resort; \<open>n\<close> counts the keys drawn before.\<close>

definition load_into_file :: "key_env \<Rightarrow> nat \<Rightarrow> key_places \<Rightarrow> (domain_error + 8 word list) \<times> key_places" where
  "load_into_file env n s =
     (case random_key env n of
        Inl e \<Rightarrow> (Inl e, s)
      | Inr key \<Rightarrow>
          (case write_key_file env (encode_hex key) s of
             (Inl e, s') \<Rightarrow> (Inl e, s')
           | (Inr _, s') \<Rightarrow> (Inr key, s')))"

definition load_key :: "key_env \<Rightarrow> key_places \<Rightarrow> (domain_error + 8 word list) \<times> key_places" where
  "load_key env s =
     (case kp_file s of
        Some encoded \<Rightarrow>
          (case ke_read_error env of
             Some e \<Rightarrow> (Inl (DatabaseError (''failed to read vault key: '' @ e)), s)
           | None \<Rightarrow> (decode_key (trim encoded), s))
      | None \<Rightarrow>
          (if ke_entry_error env \<or> ke_get_error env then load_into_file env 0 s
           else
             (case kp_keyring s of
                Some encoded \<Rightarrow> (decode_key encoded, s)
              | None \<Rightarrow>
                  (case random_key env 0 of
                     Inl e \<Rightarrow> (Inl e, s)
                   | Inr key \<Rightarrow>
                       if ke_set_error env then load_into_file env 1 s
                       else (Inr key, s\<lparr>kp_keyring := Some (encode_hex key)\<rparr>)))))"

section \<open>The next start\<close>

text \<open>A start that can read what there is: the file, or the keyring where there is no file.\<close>

definition places_readable :: "key_env \<Rightarrow> key_places \<Rightarrow> bool" where
  "places_readable env s \<longleftrightarrow>
     (if kp_file s \<noteq> None then ke_read_error env = None else \<not> ke_entry_error env \<and> \<not> ke_get_error env)"

definition draws_keys :: "key_env \<Rightarrow> bool" where
  "draws_keys env \<longleftrightarrow> (\<forall>n key. ke_random env n = Some key \<longrightarrow> length key = 32)"

lemma decode_encode_key: "length key = 32 \<Longrightarrow> decode_key (encode_hex key) = Inr key"
  by (simp add: decode_key_def decode_encode_hex)

lemma hex_chars_no_ws: "n < 16 \<Longrightarrow> \<not> is_ws (hex_chars ! n)"
proof -
  have "list_all (\<lambda>c. \<not> is_ws c) hex_chars" "length hex_chars = 16" by code_simp+
  then show ?thesis if "n < 16" using that by (simp add: list_all_length)
qed

lemma encode_hex_no_ws: "c \<in> set (encode_hex bs) \<Longrightarrow> \<not> is_ws c"
  by (induction bs) (auto simp: hex_chars_no_ws nibble_bounds)

lemma trim_encode_hex: "trim (encode_hex bs) = encode_hex bs"
  unfolding trim_def by (rule trim_by_id) (metis encode_hex_no_ws hd_in_set last_in_set)

lemma load_into_file_ok:
  assumes "load_into_file env n s = (Inr key, s')" "draws_keys env"
  shows "kp_file s' = Some (encode_hex key) \<and> length key = 32"
  using assms by (auto simp: load_into_file_def write_key_file_def random_key_def draws_keys_def
      split: option.splits if_splits sum.splits prod.splits)

lemma loaded_key_is_kept:
  assumes "load_key env s = (Inr key, s')" "draws_keys env" "places_readable env' s'"
  shows "load_key env' s' = (Inr key, s')"
proof (cases "kp_file s")
  case (Some encoded)
  with assms show ?thesis by (auto simp: load_key_def places_readable_def split: option.splits)
next
  case None
  show ?thesis
  proof (cases "\<exists>n. load_into_file env n s = (Inr key, s')")
    case True
    then have "kp_file s' = Some (encode_hex key)" "length key = 32"
      using load_into_file_ok assms(2) by blast+
    with assms(3) show ?thesis
      by (simp add: load_key_def places_readable_def trim_encode_hex decode_encode_key)
  next
    case False
    with None assms show ?thesis
      by (auto simp: load_key_def places_readable_def random_key_def draws_keys_def decode_encode_key
          split: option.splits if_splits sum.splits)
  qed
qed

section \<open>What goes wrong\<close>

text \<open>
  One failure of the keyring, and a new key in a file hides the one in the keyring for ever: what was
  sealed under the old key no longer opens.
\<close>

lemma keyring_failure_replaces_key:
  assumes "kp_file s = None" "kp_keyring s = Some (encode_hex key)" "ke_get_error env"
    "ke_random env 0 = Some other" "length other = 32" "ke_create_error env = None" "ke_write_error env = None"
    "ke_read_error env' = None"
  shows "fst (load_key env' (snd (load_key env s))) = Inr other"
  using assms by (simp add: load_key_def load_into_file_def random_key_def write_key_file_def trim_encode_hex
      decode_encode_key)

text \<open>A key file whose writing failed stays, cut short, and no later start succeeds.\<close>

lemma short_key_file_stays:
  assumes "kp_file s = None" "ke_get_error env" "ke_random env 0 = Some key" "length key = 32"
    "ke_create_error env = None" "ke_write_error env = Some (0, e)"
  shows "\<exists>e'. fst (load_key env' (snd (load_key env s))) = Inl e'"
proof -
  have "decode_key [] = Inl (DatabaseError ''vault key must be 32 bytes'')" by code_simp
  with assms show ?thesis
    by (auto simp: load_key_def load_into_file_def random_key_def write_key_file_def split: option.split)
qed

end
