(* ===== verification/Admin_Process.thy ===== *)
theory Admin_Process
  imports Admin_Safety
begin

text \<open>
  The process of the admin server, \<open>main.rs\<close> of \<open>crates/autoflow-admin-server\<close>: the configuration read from the
  environment, the state prepared from it and the choice between TLS and plain HTTP. Addresses, files, the
  database's opening and the parsing of certificates are parameters.
\<close>

section \<open>Configuration\<close>

datatype cli_error =
    InvalidBind string
  | IncompleteBootstrap
  | InvalidOperatorRole string
  | CliIo string
  | CliSqlite string
  | CliServer admin_server_error
  | CliTls string

record bootstrap_agent =
  ba_instance_id :: string
  ba_secret :: string

record 'addr process_config =
  pc_bind_addr :: 'addr
  pc_database_path :: string
  pc_enrollment_token :: "string option"
  pc_operator_token :: "string option"
  pc_operator_role :: operator_role
  pc_bootstrap_agent :: "bootstrap_agent option"
  pc_tls_cert :: "string option"
  pc_tls_key :: "string option"

record 'addr process_env =
  px_var :: "string \<Rightarrow> string option"
  px_parse_addr :: "string \<Rightarrow> string + 'addr"
  px_open_pool :: "string \<Rightarrow> cli_error + admin_db"
  px_migrate :: "admin_db \<Rightarrow> admin_server_error + admin_db"
  px_now :: timestamp
  px_read_file :: "string \<Rightarrow> string + string"
  px_tls_config :: "string \<Rightarrow> string \<Rightarrow> string + unit"
  px_bind :: "'addr \<Rightarrow> string option"

definition optional_env :: "'addr process_env \<Rightarrow> string \<Rightarrow> string option" where
  "optional_env x name =
     (case px_var x name of
        None \<Rightarrow> None
      | Some value \<Rightarrow> if trim value = [] then None else Some (trim value))"

definition parse_operator_role :: "string \<Rightarrow> cli_error + operator_role" where
  "parse_operator_role raw =
     (let role = lowercase (trim raw)
      in if role = ''viewer'' then Inr Viewer
         else if role = ''operator'' then Inr Operator
         else if role = ''admin'' then Inr Admin
         else Inl (InvalidOperatorRole role))"

definition bootstrap_agent_from_env :: "'addr process_env \<Rightarrow> cli_error + bootstrap_agent option" where
  "bootstrap_agent_from_env x =
     (case (optional_env x ''AUTOFLOW_ADMIN_BOOTSTRAP_INSTANCE_ID'', optional_env x ''AUTOFLOW_ADMIN_BOOTSTRAP_SECRET'') of
        (Some inst, Some secret) \<Rightarrow> Inr (Some \<lparr>ba_instance_id = inst, ba_secret = secret\<rparr>)
      | (None, None) \<Rightarrow> Inr None
      | _ \<Rightarrow> Inl IncompleteBootstrap)"

definition var_or :: "'addr process_env \<Rightarrow> string \<Rightarrow> string \<Rightarrow> string" where
  "var_or x name fallback = (case px_var x name of Some v \<Rightarrow> v | None \<Rightarrow> fallback)"

definition from_env :: "'addr process_env \<Rightarrow> cli_error + 'addr process_config" where
  "from_env x =
     (case px_parse_addr x (var_or x ''AUTOFLOW_ADMIN_BIND'' ''127.0.0.1:7840'') of
        Inl e \<Rightarrow> Inl (InvalidBind e)
      | Inr addr \<Rightarrow>
          rbind (case optional_env x ''AUTOFLOW_ADMIN_OPERATOR_ROLE'' of
                   None \<Rightarrow> Inr Admin
                 | Some raw \<Rightarrow> parse_operator_role raw) (\<lambda>role.
          rbind (bootstrap_agent_from_env x) (\<lambda>agent.
            Inr \<lparr>pc_bind_addr = addr, pc_database_path = var_or x ''AUTOFLOW_ADMIN_DB'' ''autoflow-admin.sqlite'',
                 pc_enrollment_token = optional_env x ''AUTOFLOW_ADMIN_ENROLLMENT_TOKEN'',
                 pc_operator_token = optional_env x ''AUTOFLOW_ADMIN_OPERATOR_TOKEN'',
                 pc_operator_role = role, pc_bootstrap_agent = agent,
                 pc_tls_cert = optional_env x ''AUTOFLOW_ADMIN_TLS_CERT'',
                 pc_tls_key = optional_env x ''AUTOFLOW_ADMIN_TLS_KEY''\<rparr>)))"

section \<open>Start\<close>

fun map_error :: "('e \<Rightarrow> 'f) \<Rightarrow> 'e + 'a \<Rightarrow> 'f + 'a" where
  "map_error f (Inl e) = Inl (f e)"
| "map_error f (Inr y) = Inr y"

definition prepare_state :: "'addr process_env \<Rightarrow> 'addr process_config \<Rightarrow> cli_error + admin_state" where
  "prepare_state x c =
     rbind (px_open_pool x (pc_database_path c)) (\<lambda>pool.
     rbind (map_error CliServer (px_migrate x pool)) (\<lambda>db.
     rbind (case pc_enrollment_token c of
              None \<Rightarrow> Inr (admin_with_sqlite db)
            | Some token \<Rightarrow> map_error CliServer (register_enrollment_token token (admin_with_sqlite db))) (\<lambda>st.
     rbind (case pc_operator_token c of
              None \<Rightarrow> Inr st
            | Some token \<Rightarrow> map_error CliServer (register_operator_token token (pc_operator_role c) st)) (\<lambda>st.
       (case pc_bootstrap_agent c of
          None \<Rightarrow> Inr st
        | Some agent \<Rightarrow>
            (case register_agent_secret (px_now x) (ba_instance_id agent) (ba_secret agent) (sv_storage st) of
               (Inl e, _) \<Rightarrow> Inl (CliServer e)
             | (Inr _, s) \<Rightarrow> Inr (st\<lparr>sv_storage := s\<rparr>)))))))"

definition bind_listener :: "'addr process_env \<Rightarrow> 'addr process_config \<Rightarrow> cli_error + unit" where
  "bind_listener x c = (case px_bind x (pc_bind_addr c) of Some e \<Rightarrow> Inl (CliIo e) | None \<Rightarrow> Inr ())"

text \<open>Whether the router is served through TLS.\<close>

definition listen :: "'addr process_env \<Rightarrow> 'addr process_config \<Rightarrow> cli_error + bool" where
  "listen x c =
     (case (pc_tls_cert c, pc_tls_key c) of
        (Some cert, Some key) \<Rightarrow>
          rbind (map_error CliIo (px_read_file x cert)) (\<lambda>cert_pem.
          rbind (map_error CliIo (px_read_file x key)) (\<lambda>key_pem.
          rbind (map_error CliTls (px_tls_config x cert_pem key_pem)) (\<lambda>_.
          rbind (bind_listener x c) (\<lambda>_. Inr True))))
      | _ \<Rightarrow> rbind (bind_listener x c) (\<lambda>_. Inr False))"

definition start_server :: "'addr process_env \<Rightarrow> cli_error + admin_state \<times> bool" where
  "start_server x =
     rbind (from_env x) (\<lambda>c.
     rbind (prepare_state x c) (\<lambda>st.
     rbind (listen x c) (\<lambda>tls. Inr (st, tls))))"

section \<open>What a started server answers\<close>

lemma optional_env_some: "optional_env x name = Some v \<Longrightarrow> trim v = v \<and> v \<noteq> []"
  by (auto simp: optional_env_def split: option.splits if_splits)

lemma map_error_Inr: "map_error f r = Inr y \<longleftrightarrow> r = Inr y"
  by (cases r) auto

lemma map_error_Inl: "map_error f r = Inl e \<longleftrightarrow> (\<exists>e'. r = Inl e' \<and> e = f e')"
  by (cases r) auto

text \<open>What the environment holds is never refused by the registrations: an error of the server is one of its database.\<close>

lemma registered_enrollment: "trim t = t \<Longrightarrow> t \<noteq> [] \<Longrightarrow>
    register_enrollment_token t st = Inr (st\<lparr>sv_enrollment_tokens := insert t (sv_enrollment_tokens st)\<rparr>)"
  by (simp add: register_enrollment_token_def normalize_required_secret_def)

lemma registered_operator: "trim t = t \<Longrightarrow> t \<noteq> [] \<Longrightarrow>
    register_operator_token t role st = Inr (st\<lparr>sv_operator_tokens := hm_insert t role (sv_operator_tokens st)\<rparr>)"
  by (simp add: register_operator_token_def normalize_required_secret_def)

lemma registered_agent: "trim i = i \<Longrightarrow> i \<noteq> [] \<Longrightarrow> trim t = t \<Longrightarrow> t \<noteq> [] \<Longrightarrow>
    register_agent_secret now i t s = (Inr (), st_register_agent_secret now i t s)"
  by (simp add: register_agent_secret_def normalize_agent_secret_def normalize_instance_id_def
      normalize_required_secret_def guard_err_def)

lemma from_env_trimmed:
  assumes "from_env x = Inr c"
  shows "pc_operator_token c = optional_env x ''AUTOFLOW_ADMIN_OPERATOR_TOKEN''"
    and "pc_enrollment_token c = Some t \<Longrightarrow> trim t = t \<and> t \<noteq> []"
    and "pc_operator_token c = Some t \<Longrightarrow> trim t = t \<and> t \<noteq> []"
    and "pc_bootstrap_agent c = Some agent \<Longrightarrow> trim (ba_instance_id agent) = ba_instance_id agent \<and>
      ba_instance_id agent \<noteq> [] \<and> trim (ba_secret agent) = ba_secret agent \<and> ba_secret agent \<noteq> []"
  using assms by (auto simp: from_env_def bootstrap_agent_from_env_def rbind_Inr_iff
      split: sum.splits option.splits dest!: optional_env_some)

lemma configured_values_register:
  assumes "from_env x = Inr c" "px_open_pool x (pc_database_path c) = Inr pool" "px_migrate x pool = Inr db"
  shows "\<exists>st. prepare_state x c = Inr st"
  by (cases "pc_enrollment_token c"; cases "pc_operator_token c"; cases "pc_bootstrap_agent c")
    (simp_all add: prepare_state_def assms(2,3) from_env_trimmed(2-4) [OF assms(1)] registered_enrollment
      registered_operator registered_agent)

lemma prepared_tokens:
  assumes "prepare_state x c = Inr st" "from_env x = Inr c"
  shows "sv_operator_tokens st = (case pc_operator_token c of None \<Rightarrow> [] | Some t \<Rightarrow> [(t, pc_operator_role c)])"
proof -
  from assms(1) obtain pool db where "px_open_pool x (pc_database_path c) = Inr pool" "px_migrate x pool = Inr db"
    by (auto simp: prepare_state_def rbind_Inr_iff map_error_Inr)
  with assms(1) show ?thesis
    by (cases "pc_enrollment_token c"; cases "pc_operator_token c"; cases "pc_bootstrap_agent c")
      (auto simp: prepare_state_def from_env_trimmed(2-4) [OF assms(2)] registered_enrollment
        registered_operator registered_agent admin_with_sqlite_def)
qed

lemma started_tokens:
  assumes "start_server x = Inr (st, tls)"
  shows "\<exists>c. from_env x = Inr c \<and> pc_operator_token c = optional_env x ''AUTOFLOW_ADMIN_OPERATOR_TOKEN'' \<and>
    sv_operator_tokens st = (case pc_operator_token c of None \<Rightarrow> [] | Some t \<Rightarrow> [(t, pc_operator_role c)])"
proof -
  from assms obtain c where c: "from_env x = Inr c" "prepare_state x c = Inr st"
    by (auto simp: start_server_def rbind_Inr_iff)
  from prepared_tokens [OF c(2,1)] from_env_trimmed(1) [OF c(1)] c(1) show ?thesis by blast
qed

text \<open>
  A server that was started with an operator's token answers an operator's request without that token, or beyond
  the configured role, with 401 or 403, and nothing changes.
\<close>

lemma started_server_guards_operators:
  assumes "start_server x = Inr (st, tls)" "optional_env x ''AUTOFLOW_ADMIN_OPERATOR_TOKEN'' = Some token"
    and "operator_request request = Some (h, permission)" "map_option trim h \<noteq> Some token"
    and "serve lib call request st = (r, st')"
  shows "st' = st \<and> (response_status request r = 401 \<or> response_status request r = 403)"
proof -
  from started_tokens [OF assms(1)] assms(2) obtain role where "sv_operator_tokens st = [(token, role)]" by auto
  then have "sv_operator_tokens st \<noteq> []" "\<not> token_allows st h permission"
    using assms(4) by (auto simp: token_allows_def hm_get_def split: if_splits)
  from refused_operator_request [OF this(1) assms(3) this(2) assms(5)] show ?thesis .
qed

text \<open>Without a token, or with one that is only blanks, everybody is an administrator (a mode for development).\<close>

lemma unset_token_opens_server:
  assumes "start_server x = Inr (st, tls)" "optional_env x ''AUTOFLOW_ADMIN_OPERATOR_TOKEN'' = None"
  shows "authorize_operator h permission st = Inr \<lparr>oc_actor = ''dev-admin'', oc_role = Some Admin\<rparr>"
proof -
  from started_tokens [OF assms(1)] assms(2) have "sv_operator_tokens st = []" by auto
  then show ?thesis by (simp add: authorize_operator_def)
qed

text \<open>With only one of certificate and key the server starts without TLS; the bootstrap agent's pair is checked.\<close>

lemma half_tls_serves_plain:
  assumes "from_env x = Inr c" "pc_tls_cert c = None \<or> pc_tls_key c = None" "px_bind x (pc_bind_addr c) = None"
  shows "listen x c = Inr False"
  using assms by (auto simp: listen_def bind_listener_def split: option.splits)

end
