(* ===== verification/Core_Calls.thy ===== *)
theory Core_Calls
  imports Core_Safety
begin

text \<open>
  The calls of \<open>admin_process_next_command\<close> (\<open>crates/autoflow-core/src/lib.rs\<close>) side by side. The function
  awaits at each of its accesses to the table of commands and while it dispatches, and the desktop client may
  call it again before it has returned. A call is here a \<open>call_task\<close>, which a step takes to its next
  await; the other operations of the service come in between. \<open>admin_process_next_command\<close> of
  \<open>Core_Service\<close> is a call that nothing disturbs. What overlapping calls do to one command is shown by a
  concrete run.
\<close>

section \<open>Calls\<close>

datatype call_task =
    CallSelect
  | CallMark queued_command
  | CallDispatch queued_command
  | CallFinish uuid command_result
  | CallGet uuid
  | CallDone "domain_error + queued_command option"

fun call_step :: "core_env \<Rightarrow> call_task \<Rightarrow> core_state \<Rightarrow> call_task \<times> core_state" where
  "call_step cv CallSelect s =
     (case local_next_pending (cs_commands s) of
        Inl e \<Rightarrow> (CallDone (Inl e), s)
      | Inr None \<Rightarrow> (CallDone (Inr None), s)
      | Inr (Some c) \<Rightarrow> (CallMark c, s))"
| "call_step cv (CallMark c) s =
     (CallDispatch c, s\<lparr>cs_commands := local_mark_running (cv_now cv) (qc_id c) (cs_commands s)\<rparr>)"
| "call_step cv (CallDispatch c) s =
     (case admin_dispatch_command_from cv (qc_request c) (''queue:'' @ cv_uuid_text cv (qc_id c)) s of
        (r, s') \<Rightarrow> (CallFinish (qc_id c) r, s'))"
| "call_step cv (CallFinish cid r) s =
     (CallGet cid, s\<lparr>cs_commands := local_update_status (cv_now cv) cid (finished_status r) (Some r) (cs_commands s)\<rparr>)"
| "call_step cv (CallGet cid) s = (CallDone (map_sum id Some (local_get cid (cs_commands s))), s)"
| "call_step cv (CallDone r) s = (CallDone r, s)"

fun call_done :: "call_task \<Rightarrow> bool" where
  "call_done (CallDone _) = True"
| "call_done _ = False"

text \<open>The service and its calls in the order in which they began.\<close>

record calling =
  ca_core :: core_state
  ca_calls :: "call_task list"

datatype call_action = Beside core_action | CallBegin | CallRun nat | CallFail nat string

definition call_open :: "calling \<Rightarrow> nat \<Rightarrow> bool" where
  "call_open s i \<longleftrightarrow> i < length (ca_calls s) \<and> \<not> call_done (ca_calls s ! i)"

fun perform_calls :: "core_env \<Rightarrow> call_action \<Rightarrow> calling \<Rightarrow> calling option" where
  "perform_calls cv (Beside a) s =
     (case a of ProcessCommandAct \<Rightarrow> None
      | _ \<Rightarrow> map_option (\<lambda>c. s\<lparr>ca_core := c\<rparr>) (perform_core cv a (ca_core s)))"
| "perform_calls cv CallBegin s = Some (s\<lparr>ca_calls := ca_calls s @ [CallSelect]\<rparr>)"
| "perform_calls cv (CallRun i) s =
     (if call_open s i
      then (case call_step cv (ca_calls s ! i) (ca_core s) of
              (t, c) \<Rightarrow> Some (s\<lparr>ca_core := c, ca_calls := (ca_calls s)[i := t]\<rparr>))
      else None)"
| "perform_calls cv (CallFail i msg) s =
     (if call_open s i
      then Some (s\<lparr>ca_calls := (ca_calls s)[i := CallDone (Inl (DatabaseError msg))]\<rparr>) else None)"

lemma beside_core:
  assumes "perform_calls cv (Beside a) s = Some s'"
  obtains c where "a \<noteq> ProcessCommandAct" "perform_core cv a (ca_core s) = Some c" "s' = s\<lparr>ca_core := c\<rparr>"
proof -
  have "a \<noteq> ProcessCommandAct" using assms by auto
  moreover from this have "perform_calls cv (Beside a) s = map_option (\<lambda>c. s\<lparr>ca_core := c\<rparr>) (perform_core cv a (ca_core s))"
    by (cases a) simp_all
  ultimately show thesis using assms that by auto
qed

lemma call_alone:
  "((\<lambda>(t, s). call_step cv t s) ^^ 5) (CallSelect, s) =
     (case admin_process_next_command cv s of (r, s') \<Rightarrow> (CallDone r, s'))"
  by (auto simp: eval_nat_numeral admin_process_next_command_def local_finish_def Let_def split: option.split sum.split prod.split)

section \<open>The row of a command\<close>

lemma perform_core_commands:
  assumes "fresh_ids cv" "perform_core cv a s = Some s'" "a \<noteq> ProcessCommandAct"
  shows "cs_commands s' = cs_commands s \<or>
    (\<exists>u src req c. local_enqueue (cv_now cv) u src req (cs_commands s) = Inr (c, cs_commands s'))"
proof (cases a)
  case (EnqueueCommandAct u req src)
  show ?thesis
  proof (cases "local_enqueue (cv_now cv) u src req (cs_commands s)")
    case (Inl e)
    then show ?thesis using assms(2) EnqueueCommandAct by (simp add: admin_enqueue_command_def)
  next
    case (Inr p)
    then obtain c db where p: "local_enqueue (cv_now cv) u src req (cs_commands s) = Inr (c, db)" by (cases p) auto
    then have "s' = record_admin_audit cv ''enqueue'' (qc_source c) (qc_request c) None Organized (s\<lparr>cs_commands := db\<rparr>)"
      using assms(2) EnqueueCommandAct by (simp add: admin_enqueue_command_def)
    then have "cs_commands s' = db" by (simp add: record_admin_audit_def)
    with p show ?thesis by blast
  qed
next
  case (WatchAct b)
  then show ?thesis using assms(2) by auto
next
  case (RunJobAct jid)
  then show ?thesis using assms(1,2) run_job_keeps [of cv s jid] by (auto simp: core_keeps_def)
next
  case (DispatchAct req src)
  then show ?thesis using assms(1,2) dispatch_from_keeps [of cv s req src] by (auto simp: core_keeps_def)
qed (use assms(2,3) keeps_intros in \<open>auto simp: core_keeps_def\<close>)

text \<open>A command that some call has begun to carry out is in the table and does not wait any more.\<close>

definition rows_of :: "uuid \<Rightarrow> local_db \<Rightarrow> local_row list" where
  "rows_of cid db = filter (\<lambda>row. lc_id row = cid) db"

definition held :: "uuid \<Rightarrow> local_db \<Rightarrow> bool" where
  "held cid db \<longleftrightarrow> rows_of cid db \<noteq> [] \<and> list_all (\<lambda>row. lc_status row \<noteq> ''pending'') (rows_of cid db)"

lemma rows_of_update_other: "cid \<noteq> cid' \<Longrightarrow> rows_of cid (local_update_status now cid' st r db) = rows_of cid db"
  by (induction db) (auto simp: rows_of_def local_update_status_def)

lemma rows_of_enqueue:
  "local_enqueue now u src req db = Inr (c, db') \<Longrightarrow> rows_of cid db \<noteq> [] \<Longrightarrow> rows_of cid db' = rows_of cid db"
  by (auto simp: local_enqueue_def local_save_def rows_of_def Let_def filter_empty_conv split: if_splits)

lemma rows_of_update:
  "rows_of cid (local_update_status now cid st r db) =
     map (\<lambda>row. row\<lparr>lc_status := local_status_to_db st,
       lc_result := (case r of None \<Rightarrow> lc_result row | Some r \<Rightarrow> Some r), lc_updated_at := now\<rparr>) (rows_of cid db)"
  by (induction db) (auto simp: rows_of_def local_update_status_def)

lemma local_get_rows: "local_get cid db =
    (case rows_of cid db of
       [] \<Rightarrow> Inl (DatabaseError ''no rows returned by a query that expected to return at least one row'')
     | row # _ \<Rightarrow> command_of_local_row row)"
  by (induction db) (auto simp: local_get_def rows_of_def)


lemma rows_of_beside:
  assumes "fresh_ids cv" "perform_core cv a s = Some s'" "a \<noteq> ProcessCommandAct" "rows_of cid (cs_commands s) \<noteq> []"
  shows "rows_of cid (cs_commands s') = rows_of cid (cs_commands s)"
  using perform_core_commands [OF assms(1-3)] rows_of_enqueue [OF _ assms(4)] by auto

lemma dispatch_from_commands: "fresh_ids cv \<Longrightarrow> admin_dispatch_command_from cv req src s = (r, s') \<Longrightarrow> cs_commands s' = cs_commands s"
  using dispatch_from_keeps [of cv s req src] by (simp add: core_keeps_def)

fun works_on :: "uuid \<Rightarrow> call_task \<Rightarrow> bool" where
  "works_on cid (CallMark c) = (qc_id c = cid)"
| "works_on cid (CallDispatch c) = (qc_id c = cid)"
| "works_on cid (CallFinish cid' _) = (cid' = cid)"
| "works_on cid (CallGet cid') = (cid' = cid)"
| "works_on cid (CallDone (Inr (Some c))) = (qc_id c = cid)"
| "works_on cid _ = False"

lemma next_pending_in_rows:
  assumes "local_next_pending db = Inr (Some c)"
  shows "\<exists>row \<in> set (rows_of (qc_id c) db). lc_status row = ''pending''"
  using next_pending_row [OF assms] by (fastforce simp: rows_of_def dest: command_of_row)

lemma local_get_id: "local_get cid db = Inr c \<Longrightarrow> qc_id c = cid"
  by (auto simp: local_get_def dest!: command_of_row find_Some_iff [THEN iffD1] split: option.splits)

lemma other_call_step:
  assumes "fresh_ids cv" "call_step cv t s = (t', s')" "\<not> works_on cid t"
  shows "rows_of cid (cs_commands s') = rows_of cid (cs_commands s)"
    and "held cid (cs_commands s) \<Longrightarrow> \<not> works_on cid t'"
proof -
  show "rows_of cid (cs_commands s') = rows_of cid (cs_commands s)"
    using assms by (cases t) (auto simp: rows_of_update_other local_mark_running_def dispatch_from_commands
        split: sum.splits option.splits prod.splits)
  assume h: "held cid (cs_commands s)"
  show "\<not> works_on cid t'"
  proof (cases t)
    case CallSelect
    with assms(2) h show ?thesis
      by (auto simp: held_def list_all_iff split: sum.splits option.splits dest!: next_pending_in_rows)
  next
    case (CallGet c)
    with assms(2,3) show ?thesis by (cases "local_get c (cs_commands s)") (auto dest: local_get_id)
  qed (use assms(2,3) in \<open>auto split: prod.splits\<close>)
qed

section \<open>One call after another\<close>

text \<open>The rows of a command that is finished: nothing but a call that works on it writes them.\<close>

definition settled :: "local_row list \<Rightarrow> uuid \<Rightarrow> nat \<Rightarrow> calling \<Rightarrow> bool" where
  "settled rows cid i s \<longleftrightarrow> rows_of cid (cs_commands (ca_core s)) = rows \<and> held cid (cs_commands (ca_core s)) \<and>
     i < length (ca_calls s) \<and>
     (\<forall>k < length (ca_calls s). call_done (ca_calls s ! k) \<and> k \<le> i \<or> \<not> works_on cid (ca_calls s ! k))"

lemma settled_step:
  assumes "fresh_ids cv" "settled rows cid i s" "perform_calls cv a s = Some s'"
  shows "settled rows cid i s'"
proof (cases a)
  case (Beside b)
  then obtain c where c: "b \<noteq> ProcessCommandAct" "perform_core cv b (ca_core s) = Some c" "s' = s\<lparr>ca_core := c\<rparr>"
    using assms(3) beside_core by blast
  have "rows_of cid (cs_commands (ca_core s)) \<noteq> []" using assms(2) unfolding settled_def held_def by blast
  from rows_of_beside [OF assms(1) c(2,1) this] assms(2) c(3) show ?thesis by (auto simp: settled_def held_def)
next
  case CallBegin
  with assms(2,3) show ?thesis by (auto simp: settled_def nth_append less_Suc_eq) blast+
next
  case (CallRun k)
  obtain t c where st: "call_step cv (ca_calls s ! k) (ca_core s) = (t, c)" by (metis surj_pair)
  have k: "k < length (ca_calls s)" "\<not> call_done (ca_calls s ! k)"
    and s': "s' = s\<lparr>ca_core := c, ca_calls := (ca_calls s)[k := t]\<rparr>"
    using assms(3) CallRun st by (auto simp: call_open_def split: if_splits)
  have w: "\<not> works_on cid (ca_calls s ! k)" using assms(2) k by (auto simp: settled_def)
  have "held cid (cs_commands (ca_core s))" using assms(2) by (simp add: settled_def)
  with other_call_step [OF assms(1) st w] assms(2) k show ?thesis
    by (auto simp: settled_def held_def s' nth_list_update)
next
  case (CallFail k msg)
  with assms(2,3) show ?thesis by (auto simp: settled_def call_open_def nth_list_update split: if_splits)
qed

lemma settled_run:
  "fresh_ids cv \<Longrightarrow> settled rows cid i s \<Longrightarrow> run_all (perform_calls cv) acts s = Some s' \<Longrightarrow> settled rows cid i s'"
  by (induction acts arbitrary: s) (auto split: option.splits intro: settled_step)

text \<open>The only open call.\<close>

definition finished_rows :: "uuid \<Rightarrow> local_db \<Rightarrow> bool" where
  "finished_rows cid db \<longleftrightarrow> rows_of cid db \<noteq> [] \<and>
     (\<exists>r. \<forall>row \<in> set (rows_of cid db). lc_status row = local_status_to_db (finished_status r) \<and> lc_result row = Some r)"

fun call_ok :: "local_db \<Rightarrow> call_task \<Rightarrow> bool" where
  "call_ok db (CallMark c) = (rows_of (qc_id c) db \<noteq> [])"
| "call_ok db (CallDispatch c) = (rows_of (qc_id c) db \<noteq> [])"
| "call_ok db (CallFinish cid r) = (rows_of cid db \<noteq> [])"
| "call_ok db (CallGet cid) = finished_rows cid db"
| "call_ok db (CallDone (Inr (Some c))) =
     (finished_rows (qc_id c) db \<and> local_get (qc_id c) db = Inr c \<and>
      (\<exists>r. qc_result c = Some r \<and> qc_status c = finished_status r))"
| "call_ok db _ = True"

lemma call_ok_rows:
  assumes "call_ok db t" "\<And>cid. rows_of cid db \<noteq> [] \<Longrightarrow> rows_of cid db' = rows_of cid db"
  shows "call_ok db' t"
  using assms by (cases "(db, t)" rule: call_ok.cases) (auto simp: finished_rows_def local_get_rows)

lemma finished_held: "finished_rows cid db \<Longrightarrow> held cid db"
  by (auto simp: finished_rows_def held_def list_all_iff)

lemma call_ok_step:
  assumes "fresh_ids cv" "call_step cv t s = (t', s')" "call_ok (cs_commands s) t"
  shows "call_ok (cs_commands s') t'"
proof (cases t)
  case CallSelect
  with assms(2) show ?thesis by (auto split: sum.splits option.splits dest!: next_pending_in_rows)
next
  case (CallGet cid)
  then obtain r row rest where r: "rows_of cid (cs_commands s) = row # rest"
      "\<forall>row \<in> set (rows_of cid (cs_commands s)). lc_status row = local_status_to_db (finished_status r) \<and> lc_result row = Some r"
    using assms(3) by (auto simp: finished_rows_def neq_Nil_conv)
  have "row \<in> set (rows_of cid (cs_commands s))" by (simp add: r(1))
  then have "lc_id row = cid" by (simp add: rows_of_def)
  with r show ?thesis using assms(2,3) CallGet
    by (auto simp: local_get_rows command_of_local_row_def result_simps finished_rows_def)
next
  case (CallDone r)
  with assms show ?thesis by simp
qed (use assms in \<open>auto simp: rows_of_update local_mark_running_def finished_rows_def dispatch_from_commands split: prod.splits\<close>)

definition sole_call :: "nat \<Rightarrow> calling \<Rightarrow> bool" where
  "sole_call i s \<longleftrightarrow> length (ca_calls s) = Suc i \<and> (\<forall>k < i. call_done (ca_calls s ! k)) \<and>
     call_ok (cs_commands (ca_core s)) (ca_calls s ! i)"

lemma sole_call_step:
  assumes "fresh_ids cv" "sole_call i s" "CallBegin \<noteq> a" "perform_calls cv a s = Some s'"
  shows "sole_call i s'"
proof (cases a)
  case (Beside b)
  then obtain c where c: "b \<noteq> ProcessCommandAct" "perform_core cv b (ca_core s) = Some c" "s' = s\<lparr>ca_core := c\<rparr>"
    using assms(4) beside_core by blast
  have "call_ok (cs_commands c) (ca_calls s ! i)"
    by (rule call_ok_rows [OF _ rows_of_beside [OF assms(1) c(2,1)]]) (use assms(2) in \<open>simp_all add: sole_call_def\<close>)
  with assms(2) c(3) show ?thesis by (simp add: sole_call_def)
next
  case (CallRun k)
  obtain t c where st: "call_step cv (ca_calls s ! k) (ca_core s) = (t, c)" by (metis surj_pair)
  have k: "k < length (ca_calls s)" "\<not> call_done (ca_calls s ! k)"
    and s': "s' = s\<lparr>ca_core := c, ca_calls := (ca_calls s)[k := t]\<rparr>"
    using assms(4) CallRun st by (auto simp: call_open_def split: if_splits)
  then have "k = i" using assms(2) by (auto simp: sole_call_def less_Suc_eq)
  with call_ok_step [OF assms(1) st] assms(2) show ?thesis by (auto simp: sole_call_def s')
next
  case (CallFail k msg)
  then have "k = i" "s' = s\<lparr>ca_calls := (ca_calls s)[i := CallDone (Inl (DatabaseError msg))]\<rparr>"
    using assms(2,4) by (auto simp: sole_call_def call_open_def less_Suc_eq split: if_splits)
  with assms(2) show ?thesis by (auto simp: sole_call_def)
qed (use assms(3) in simp)

lemma sole_call_run:
  "fresh_ids cv \<Longrightarrow> sole_call i s \<Longrightarrow> CallBegin \<notin> set acts \<Longrightarrow> run_all (perform_calls cv) acts s = Some s' \<Longrightarrow> sole_call i s'"
  by (induction acts arbitrary: s) (auto split: option.splits intro: sole_call_step)

text \<open>
  C30. A command that a call of \<open>admin_process_next_command\<close> has carried out while no other call was open is
  never carried out again, and its result stands: the answered command has a result and the status that goes with
  it, and whatever is called later, more such calls at once included, the table gives that very command for its
  identifier, and no later call takes it.
\<close>

theorem carried_out_once:
  assumes "fresh_ids cv" "list_all call_done (ca_calls s)"
    and "run_all (perform_calls cv) (CallBegin # acts) s = Some s2" "CallBegin \<notin> set acts"
    and "ca_calls s2 ! length (ca_calls s) = CallDone (Inr (Some c))"
    and "run_all (perform_calls cv) later s2 = Some s3"
  shows "(\<exists>r. qc_result c = Some r \<and> qc_status c = finished_status r) \<and>
    local_get (qc_id c) (cs_commands (ca_core s3)) = Inr c \<and>
    (\<forall>j > length (ca_calls s). j < length (ca_calls s3) \<longrightarrow> \<not> works_on (qc_id c) (ca_calls s3 ! j))"
proof -
  let ?i = "length (ca_calls s)" and ?db = "cs_commands (ca_core s2)"
  have "sole_call ?i (s\<lparr>ca_calls := ca_calls s @ [CallSelect]\<rparr>)"
    using assms(2) by (auto simp: sole_call_def nth_append list_all_length)
  then have sole: "sole_call ?i s2" by (rule sole_call_run [OF assms(1) _ assms(4)]) (use assms(3) in simp)
  then have c: "finished_rows (qc_id c) ?db" "local_get (qc_id c) ?db = Inr c"
      "\<exists>r. qc_result c = Some r \<and> qc_status c = finished_status r"
    using assms(5) by (simp_all add: sole_call_def)
  have "settled (rows_of (qc_id c) ?db) (qc_id c) ?i s2"
    using sole assms(5) finished_held [OF c(1)] by (auto simp: settled_def sole_call_def less_Suc_eq)
  from settled_run [OF assms(1) this assms(6)] c(2,3) show ?thesis
    by (auto simp: settled_def local_get_rows)
qed

section \<open>Concrete calls\<close>

definition carried :: "call_task \<Rightarrow> uuid option" where
  "carried t = (case t of CallDone (Inr (Some c)) \<Rightarrow> Some (qc_id c) | _ \<Rightarrow> None)"

definition demo_calling :: calling where
  "demo_calling = \<lparr>ca_core = demo_core, ca_calls = []\<rparr>"

definition calls_view :: "call_action list \<Rightarrow> (uuid option list \<times> (uuid \<times> string) list) option" where
  "calls_view acts = map_option (\<lambda>s. (map carried (ca_calls s), map (\<lambda>row. (lc_id row, lc_status row)) (cs_commands (ca_core s))))
     (run_all (perform_calls demo_core_env) acts demo_calling)"

lemma calls_view_Some:
  assumes "calls_view acts = Some (cs, rows)"
  obtains s where "run_all (perform_calls demo_core_env) acts demo_calling = Some s" "map carried (ca_calls s) = cs"
  using assms by (cases "run_all (perform_calls demo_core_env) acts demo_calling") (simp_all add: calls_view_def)

text \<open>
  Two calls that both select before either marks carry out the same command. Here the first starts its job, and the
  second, which cannot start it again, replaces the result: the command ends as failed.
\<close>

lemma overlapping_calls_carry_out_twice:
  "calls_view ([Beside queue_start, CallBegin, CallBegin, CallRun 0, CallRun 1] @ replicate 4 (CallRun 0) @
     replicate 4 (CallRun 1)) = Some ([Some 9, Some 9], [(9, ''failed'')])"
  by code_simp

text \<open>A command whose call broke off after it was marked stays \<open>running\<close>: no later call takes it.\<close>

lemma interrupted_call_is_not_resumed:
  "calls_view ([Beside queue_start, CallBegin, CallRun 0, CallRun 0, CallRun 0, CallFail 0 ''database is locked'', CallBegin, CallRun 1]) =
     Some ([None, None], [(9, ''running'')])"
  by code_simp

lemma demo_call_view:
  "calls_view ([Beside queue_start, CallBegin] @ replicate 5 (CallRun 0)) = Some ([Some 9], [(9, ''completed'')])"
  "calls_view ([Beside queue_start, CallBegin] @ replicate 5 (CallRun 0) @ [CallBegin, CallRun 1]) =
     Some ([Some 9, None], [(9, ''completed'')])"
  by code_simp+

lemma carried_Some: "carried t = Some n \<longleftrightarrow> (\<exists>c. t = CallDone (Inr (Some c)) \<and> qc_id c = n)"
  by (auto simp: carried_def split: call_task.splits sum.splits option.splits)

theorem carried_out_once_witness:
  "\<exists>s2 s3 c. run_all (perform_calls demo_core_env) ([Beside queue_start, CallBegin] @ replicate 5 (CallRun 0)) demo_calling = Some s2 \<and>
     ca_calls s2 ! 0 = CallDone (Inr (Some c)) \<and> run_all (perform_calls demo_core_env) [CallBegin, CallRun 1] s2 = Some s3 \<and>
     qc_result c \<noteq> None \<and> local_get 9 (cs_commands (ca_core s3)) = Inr c \<and> \<not> works_on 9 (ca_calls s3 ! 1)"
proof -
  let ?run = "run_all (perform_calls demo_core_env)"
  obtain s2 where s2: "?run ([Beside queue_start, CallBegin] @ replicate 5 (CallRun 0)) demo_calling = Some s2"
      "map carried (ca_calls s2) = [Some 9]"
    using demo_call_view(1) by (rule calls_view_Some)
  have "?run (([Beside queue_start, CallBegin] @ replicate 5 (CallRun 0)) @ [CallBegin, CallRun 1]) demo_calling =
      ?run [CallBegin, CallRun 1] s2"
    unfolding run_all_append [where as = "[Beside queue_start, CallBegin] @ replicate 5 (CallRun 0)"]
    by (simp only: s2(1) option.simps)
  then obtain s3 where s3: "?run [CallBegin, CallRun 1] s2 = Some s3" "map carried (ca_calls s3) = [Some 9, None]"
    using calls_view_Some [OF demo_call_view(2)] by (metis append.assoc option.inject)
  obtain c where c: "ca_calls s2 ! 0 = CallDone (Inr (Some c))" "qc_id c = 9"
    using s2(2) by (auto simp: carried_Some)
  obtain s1 where s1: "perform_calls demo_core_env (Beside queue_start) demo_calling = Some s1"
      "?run (CallBegin # replicate 5 (CallRun 0)) s1 = Some s2"
    using s2(1) by (auto simp only: run_all.simps append_Cons append_Nil split: option.splits)
  have s1_calls: "ca_calls s1 = []" using s1(1) by (auto simp: demo_calling_def elim!: beside_core simp del: perform_calls.simps)
  have "length (ca_calls s3) = 2" using arg_cong [OF s3(2), of length] by simp
  with carried_out_once [OF demo_core_fresh _ s1(2) _ _ s3(1)] c s1_calls
  have "qc_result c \<noteq> None" "local_get 9 (cs_commands (ca_core s3)) = Inr c" "\<not> works_on 9 (ca_calls s3 ! 1)"
    by auto
  with s2(1) s3(1) c(1) show ?thesis by blast
qed

end
