(* ===== verification/Spec2Isabelle.thy ===== *)
theory Spec2Isabelle
  imports Template_Display Scheduler Rollback Admin_Safety Admin_Statements Blueprint_Naming Blueprint_Rollback Audit_Log
    Remote_Agent Mail_Delivery Vault_Key Admin_Process Core_Calls
begin

text \<open>
  TidyFlow (crates \<open>autoflow-*\<close>, under \<open>src/crates/\<close>): a desktop application that moves, copies and
  renames files by rules and keeps a log of what it did, with an optional server that administrates many
  instances. This development models the program's own logic, the Rust crates, and proves what makes each
  part correct.

  \<^bold>\<open>The program's parts and how they interact.\<close> A \<^emph>\<open>job\<close> copies or moves the files of a source directory to
  a target directory. Jobs are stored by the job store, started by the user or by the scheduler through
  the job queue, and carried out by the execution engine, which asks the file selection for the
  files, the template tokenizer for their names, runs scripts and packages, and writes the audit log
  and a rollback manifest; the rollback walks the manifest backwards. A \<^emph>\<open>blueprint\<close> files the contents of one
  root directory: a plan of moves, or a tree of folder actions, built by the planner, shown by a simulation
  and carried out by a run that leaves the same log and manifests; a watched folder has its name
  corrected by its plan. The watch runtime starts jobs and blueprints when their directories change. The core
  service keeps all of this behind one type, with the settings and a queue of commands. An instance can be
  \<^emph>\<open>administrated\<close>: it enrols at the admin server, polls signed commands and reports how they ended; operators group
  instances and queue commands for them.

  \<^bold>\<open>Theories and the files they model.\<close>
  \<^item> \<open>Prelude\<close>, \<open>Hash_Map\<close>, \<open>Machine\<close>: results, the parts of Rust's \<open>str\<close>, \<open>char\<close> and maps the sources call, state
    machines with reachability. \<open>Path_Policy\<close>, \<open>Paths\<close>: \<open>path_policy.rs\<close> and \<open>std::path\<close> for POSIX paths.
    \<open>Domain_Types\<close>: \<open>error.rs\<close>, \<open>execution.rs\<close>.
  \<^item> \<open>Tokenizer\<close>, \<open>Template_Display\<close>: \<open>tokenizer/mod.rs\<close> and \<open>display.rs\<close>, templates as segments, as text and evaluated.
  \<^item> \<open>Job_Config\<close>, \<open>File_Selection\<close>: a job with its schedule, watch, filters and validation (\<open>job.rs\<close>, \<open>schedule.rs\<close>,
    \<open>watch.rs\<close>, \<open>naming.rs\<close>, \<open>file_filter.rs\<close>, \<open>filter.rs\<close> and others of \<open>autoflow-domain\<close>).
  \<^item> \<open>Secret_Vault\<close>, \<open>Vault_Key\<close>, \<open>Job_Store\<close>, \<open>Scheduler\<close>, \<open>Job_Queue\<close>: \<open>vault.rs\<close>, both \<open>jobs.rs\<close>, \<open>scheduler.rs\<close> with \<open>ui_state.rs\<close>, \<open>queue.rs\<close>.
    The queue's state is the record of the fields behind its locks; every section between two awaits is an
    action, so all interleavings of client, worker and tasks are sequences of actions.
  \<^item> \<open>File_System\<close>, \<open>Run_Support\<close>, \<open>Execution\<close>, \<open>Rollback\<close>: the tree of files, \<open>script_runner.rs\<close>, \<open>pack.rs\<close>, \<open>notify.rs\<close>,
    \<open>execution.rs\<close> and the three \<open>rollback.rs\<close>. A run maps a \<open>world\<close> (files, jobs, log, manifests, keyring) to a world.
    \<open>Mail_Delivery\<close>: \<open>smtp.rs\<close> and what \<open>notify.rs\<close> sends; a session is a function of the lines the server will say.
  \<^item> \<open>Blueprint\<close>, \<open>Blueprint_Store\<close>, \<open>Blueprint_Plan\<close>, \<open>Blueprint_Run\<close>, \<open>Blueprint_Naming\<close>: \<open>blueprint.rs\<close>, \<open>counter.rs\<close>, the SQLite store,
    \<open>blueprints.rs\<close> and \<open>naming.rs\<close> of \<open>autoflow-application\<close>. \<open>Blueprint_Safety\<close> and \<open>Blueprint_Rollback\<close> hold what their runs do to the files.
  \<^item> \<open>Admin_Domain\<close>, \<open>Admin_Commands\<close>, \<open>Admin_Memory\<close>, \<open>Admin_Sqlite\<close>, \<open>Admin_Server\<close>: \<open>admin.rs\<close> of \<open>autoflow-domain\<close> and the server's
    \<open>lib.rs\<close>, both of its stores and every route; \<open>Admin_Process\<close>: its \<open>main.rs\<close>. \<open>Admin_Safety\<close> and \<open>Admin_Equivalence\<close> hold what spans them.
    \<open>Admin_Statements\<close> splits the operations of the SQLite store into their statements: its state is the database with the
    requests under way, a \<open>sql_task\<close> each, and an action runs one statement of one of them.
  \<^item> \<open>Audit_Store\<close>, \<open>Audit_Log\<close>: both \<open>audit.rs\<close>, with the export of \<open>autoflow-core\<close>. \<open>Settings\<close>: the three \<open>settings.rs\<close>.
  \<^item> \<open>Watch_Service\<close>: \<open>watch.rs\<close> of \<open>autoflow-core\<close>. Its state is the record of the fields behind the locks, the channel
    and the spawned tasks, with the queue, the world and the blueprints they work on.
  \<^item> \<open>Agent_Queue\<close>, \<open>Core_Service\<close>, \<open>Core_Safety\<close>, \<open>Remote_Agent\<close>: \<open>admin.rs\<close> of \<open>autoflow-infrastructure\<close>, \<open>lib.rs\<close> and
    \<open>admin.rs\<close> of \<open>autoflow-core\<close>. The state of the service is that of the watch runtime with the settings, the table
    of commands and the agent's secret; \<open>core_action\<close> lists its operations, and a round of the agent is one function.
    \<open>Core_Calls\<close> splits \<open>admin_process_next_command\<close> at its awaits and interleaves its calls.

  \<^bold>\<open>What the lemmas show.\<close> Each component has its functional behaviour and its invariants in its own theory.
  Interfaces are locales: \<open>counter_cells\<close> and \<open>blueprint_port\<close> for the blueprint store, \<open>command_store\<close> for the
  stores of the admin server, \<open>machine\<close> for components with reachable states; each is interpreted on the model of
  the code. The main groups: templates read back as printed; a tick of the scheduler starts only what falls due
  between its two readings of the clock, which is a defect; no job runs twice and each run reports once; runs lose no file, and rollbacks of jobs and of file
  blueprints give every file back (both by the \<^emph>\<open>trail\<close> of \<open>Execution\<close>, one step per item of the manifest);
  folder runs stay in their root; a simulation shows the plan of the run; counters refine an abstract
  counter; however requests overlap, no command is handed out again after it was answered, and a completion that
  overlaps no other request of its agent is accepted once; the status of commands follows their deliveries in the
  store in memory (overlapping completions break it in SQLite); both stores
  answer alike, and requests without a signature or a role change nothing; pages of the audit log cover it and
  its export reads back; settings are read back as accepted; no blueprint runs twice at a time and none triggers
  itself for two seconds; a queued command that one call has carried out is not carried out again (overlapping calls
  may), forbidden ones change nothing, and the agent acts only on signed ones; a mail session with TLS sends no
  credentials in the clear. The invariants of the queue and of the watch runtime hold on every run of the service.

  \<^bold>\<open>Parameters and bounds.\<close> What is not under \<open>src/\<close> is an argument: the \<open>regex\<close> and \<open>globset\<close> crates, \<open>chrono\<close>'s zones and
  formats, \<open>blake3\<close>, identifiers, the clock, \<open>canonicalize\<close>, the order in which directories list their entries,
  processes, zip archives, the keyring. Hypotheses about them state documented behaviour (\<open>reliable\<close>: a copy
  within a device has the content it read) and each property that has any is applied to concrete functions in its
  witness. Machine integers are words and wrap. Recursion is structural or measured; the one
  recursion of the code that need not end by itself, copying a directory below itself, ends at \<open>limit\<close>, the
  longest path the operating system takes, and the theorems about it hold for every limit. Names are tried from 1 to
  999 as in the code.

  \<^bold>\<open>Not modelled.\<close> Symbolic links and permissions; windows paths; wall-clock durations; SQL migrations and serialization (a table is
  the list of its rows, a payload the value written); HTTP parsing, sockets and the TLS handshake; what \<open>notify\<close> reports and when timers fire, which the actions leave open; the hash behind
  a derived instance identifier; the methods of \<open>AppState\<close> and of the desktop shell that only forward a call; tests.
  A run of a job or blueprint and the dispatch of a command are one step each in \<open>Watch_Service\<close> and \<open>Core_Service\<close>:
  the interleaving of their inner steps with other threads is not modelled. The admin server works on its requests
  concurrently, over a pool of five connections and without transactions: \<open>serve\<close> and the operations of \<open>Admin_Sqlite\<close> are
  requests that nothing disturbs, and the statements of polls, completions and saves are interleaved only in
  \<open>Admin_Statements\<close>; what is proved of \<open>serve\<close> about who may ask for what is about one request and the state it reads.
  In the same way \<open>admin_process_next_command\<close> is one step of \<open>core_action\<close>, and \<open>Core_Calls\<close> has its awaits.
\<close>

end
